(* ===== verification/Prelude.thy ===== *)
theory Prelude
  imports Main "HOL-Library.Word"
begin

text \<open>
  Shared vocabulary of the development: the C integer types of \<open>src/Source/dev/dev_types.h\<close>
  as words, byte strings with their little- and big-endian encodings, a flat byte memory with
  block stores and loads, and the collections of rewrite rules the component theories use.
\<close>

unbundle bit_operations_syntax

named_theorems byte_simps \<open>encoding and decoding of words as byte strings\<close>
named_theorems mem_simps \<open>block stores and loads of a flat byte memory\<close>

type_synonym u8 = "8 word"
type_synonym u16 = "16 word"
type_synonym u32 = "32 word"
type_synonym u64 = "64 word"
type_synonym bytes = "u8 list"
type_synonym mem = "nat \<Rightarrow> u8"

text \<open>The enumeration \<open>ENX_OKFAIL\<close>.\<close>

datatype ENX_OKFAIL = ENX_FAIL | ENX_OK

text \<open>The codec of a video channel, for the recorder and the streams.\<close>

datatype VideoCodec = e_vcodecH265 | e_vcodecH264 | e_vcodecJPEG

text \<open>Lengths and sizes that fit an unsigned int.\<close>

lemma unat_of_nat32 [simp]: "n < 4294967296 \<Longrightarrow> unat (of_nat n :: u32) = n"
  by (simp add: unat_of_nat)

lemma unat_u32_less: "unat (w :: u32) < 4294967296"
  by (rule less_le_trans [OF unsigned_less]) simp

lemma unat_u16_less: "unat (w :: u16) < 65536"
  by (rule less_le_trans [OF unsigned_less]) simp

lemma unat_u8_less: "unat (w :: u8) < 256"
  by (rule less_le_trans [OF unsigned_less]) simp

text \<open>Bits of bytes and of the byte masks.\<close>

lemma u8_bit_beyond [simp]: "8 \<le> n \<Longrightarrow> \<not> bit (b :: u8) n"
  by (auto dest: bit_imp_le_length)

lemma byte_masks:
  "(0xff :: u32) = mask 8" "(0xff00 :: u32) = push_bit 8 (mask 8)"
  "(0xff0000 :: u32) = push_bit 16 (mask 8)" "(0xff000000 :: u32) = push_bit 24 (mask 8)"
  "(0xff :: u16) = mask 8" "(0xff00 :: u16) = push_bit 8 (mask 8)"
  by (simp_all add: mask_eq_exp_minus_1 push_bit_eq_mult)

section \<open>Byte strings\<close>

text \<open>
  The bytes of a character literal. The target is little-endian (RISC-V), so a 16- or 32-bit
  field stored by the program is laid out by \<open>le16\<close> and \<open>le32\<close>.
\<close>

definition str :: "string \<Rightarrow> bytes" where
  "str s = map of_char s"

definition le16 :: "u16 \<Rightarrow> bytes" where
  "le16 w = [ucast w, ucast (drop_bit 8 w)]"

definition le32 :: "u32 \<Rightarrow> bytes" where
  "le32 w = [ucast w, ucast (drop_bit 8 w), ucast (drop_bit 16 w), ucast (drop_bit 24 w)]"

definition be16 :: "u16 \<Rightarrow> bytes" where
  "be16 w = [ucast (drop_bit 8 w), ucast w]"

definition be32 :: "u32 \<Rightarrow> bytes" where
  "be32 w = [ucast (drop_bit 24 w), ucast (drop_bit 16 w), ucast (drop_bit 8 w), ucast w]"

definition of_be32 :: "bytes \<Rightarrow> u32" where
  "of_be32 b = push_bit 24 (ucast (b ! 0)) OR push_bit 16 (ucast (b ! 1))
     OR push_bit 8 (ucast (b ! 2)) OR ucast (b ! 3)"

definition of_be16 :: "bytes \<Rightarrow> u16" where
  "of_be16 b = push_bit 8 (ucast (b ! 0)) OR ucast (b ! 1)"

definition of_le32 :: "bytes \<Rightarrow> u32" where
  "of_le32 b = push_bit 24 (ucast (b ! 3)) OR push_bit 16 (ucast (b ! 2))
     OR push_bit 8 (ucast (b ! 1)) OR ucast (b ! 0)"

lemma length_str [simp, byte_simps]: "length (str s) = length s"
  by (simp add: str_def)

lemma unat_of_char [simp]: "unat (of_char c :: u8) = of_char c"
proof -
  have "unat (of_nat (of_char c) :: u8) = of_char c"
    by (simp add: unat_of_nat)
  then show ?thesis by (simp only: of_nat_of_char)
qed

lemma of_char_u8_inject [simp]: "(of_char c :: u8) = of_char d \<longleftrightarrow> c = d"
  by (metis unat_of_char of_char_eq_iff)

lemma str_inject [simp]: "str s = str t \<longleftrightarrow> s = t"
  by (simp add: str_def inj_def inj_map_eq_map)

lemma length_le16 [simp, byte_simps]: "length (le16 w) = 2"
  by (simp add: le16_def)

lemma length_le32 [simp, byte_simps]: "length (le32 w) = 4"
  by (simp add: le32_def)

lemma length_be16 [simp, byte_simps]: "length (be16 w) = 2"
  by (simp add: be16_def)

lemma length_be32 [simp, byte_simps]: "length (be32 w) = 4"
  by (simp add: be32_def)

text \<open>A bit index of a 32-bit word lies in one of its four bytes.\<close>

lemma byte_lane:
  fixes n :: nat
  obtains "n < 8" | i where "i < 8" "n = 8 + i" | i where "i < 8" "n = 16 + i" | i where "n = 24 + i"
proof -
  have "n < 8 \<or> (n - 8 < 8 \<and> n = 8 + (n - 8)) \<or> (n - 16 < 8 \<and> n = 16 + (n - 16)) \<or> n = 24 + (n - 24)"
    by arith
  then show ?thesis using that by blast
qed

lemma of_be32_be32 [simp, byte_simps]: "of_be32 (be32 w) = w"
proof (rule bit_word_eqI)
  fix n :: nat
  assume "n < LENGTH(32)"
  then show "bit (of_be32 (be32 w)) n = bit w n"
    by (cases n rule: byte_lane) (auto simp: of_be32_def be32_def bit_simps)
qed

lemma of_be16_be16 [simp, byte_simps]: "of_be16 (be16 w) = w"
  by (rule bit_word_eqI) (auto simp: of_be16_def be16_def bit_simps)

lemma of_le32_le32 [simp, byte_simps]: "of_le32 (le32 w) = w"
proof (rule bit_word_eqI)
  fix n :: nat
  assume "n < LENGTH(32)"
  then show "bit (of_le32 (le32 w)) n = bit w n"
    by (cases n rule: byte_lane) (auto simp: of_le32_def le32_def bit_simps)
qed

lemma of_be32_append [simp]: "length xs = 4 \<Longrightarrow> of_be32 (xs @ ys) = of_be32 xs"
  by (simp add: of_be32_def nth_append)

lemma be32_inject: "be32 v = be32 w \<longleftrightarrow> v = w"
  by (metis of_be32_be32)

section \<open>A flat byte memory\<close>

text \<open>
  \<open>store m p xs\<close> is a \<open>memcpy\<close> of the bytes \<open>xs\<close> to address \<open>p\<close>; \<open>load m p n\<close> reads \<open>n\<close>
  bytes from \<open>p\<close>.
\<close>

definition store :: "mem \<Rightarrow> nat \<Rightarrow> bytes \<Rightarrow> mem" where
  "store m p xs = (\<lambda>a. if p \<le> a \<and> a < p + length xs then xs ! (a - p) else m a)"

definition load :: "mem \<Rightarrow> nat \<Rightarrow> nat \<Rightarrow> bytes" where
  "load m p n = map m [p..<p + n]"

lemma length_load [simp, mem_simps]: "length (load m p n) = n"
  by (simp add: load_def)

lemma nth_load [mem_simps]: "i < n \<Longrightarrow> load m p n ! i = m (p + i)"
  by (simp add: load_def)

lemma load_0 [simp]: "load m p 0 = []"
  by (simp add: load_def)

lemma store_Nil [simp, mem_simps]: "store m p [] = m"
  by (rule ext) (auto simp: store_def)

lemma load_add: "load m p (a + b) = load m p a @ load m (p + a) b"
  by (rule nth_equalityI) (auto simp: nth_append nth_load mem_simps)

lemma load_Cons: "0 < n \<Longrightarrow> load m p n = m p # load m (p + 1) (n - 1)"
  by (cases n) (simp_all add: load_def upt_conv_Cons del: upt_Suc)

lemma load_store_same: "n = length xs \<Longrightarrow> load (store m p xs) p n = xs"
  by (rule nth_equalityI) (auto simp: load_def store_def)

lemma load_store_before: "q + n \<le> p \<Longrightarrow> load (store m p xs) q n = load m q n"
  by (auto simp: load_def store_def)

lemma load_store_after: "p + length xs \<le> q \<Longrightarrow> load (store m p xs) q n = load m q n"
  by (auto simp: load_def store_def)

lemma store_outside: "a < p \<or> p + length xs \<le> a \<Longrightarrow> store m p xs a = m a"
  by (auto simp: store_def)

text \<open>Writing a block and then the block behind it, or the header in front of it.\<close>

lemma store_append:
  "q = p + length xs \<Longrightarrow> store (store m p xs) q ys = store m p (xs @ ys)"
  by (rule ext) (auto simp: store_def nth_append)

lemma store_header:
  "q = p + length hs \<Longrightarrow> store (store m q xs) p hs = store m p (hs @ xs)"
  by (rule ext) (auto simp: store_def nth_append)

text \<open>Bytes that are already in place may be stored again.\<close>

lemma store_in_place:
  "q = p + length xs \<Longrightarrow> store m p (xs @ load m q n) = store m p xs"
  by (rule ext) (auto simp: store_def nth_append nth_load)

lemma load_prefix:
  "k \<le> n \<Longrightarrow> load m p k = take k (load m p n)"
  by (rule nth_equalityI) (auto simp: load_def)

text \<open>A \<open>memcpy\<close> into an array, as a list operation.\<close>

definition overwrite :: "'a list \<Rightarrow> nat \<Rightarrow> 'a list \<Rightarrow> 'a list" where
  "overwrite xs p ys = take p xs @ ys @ drop (p + length ys) xs"

lemma length_overwrite [simp]: "p + length ys \<le> length xs \<Longrightarrow> length (overwrite xs p ys) = length xs"
  by (simp add: overwrite_def)

lemma take_overwrite: "p \<le> length xs \<Longrightarrow> n = p + length ys \<Longrightarrow> take n (overwrite xs p ys) = take p xs @ ys"
  by (simp add: overwrite_def)

end
