(* ===== verification/VidencTypes.thy ===== *)
theory VidencTypes
  imports Prelude
begin

text \<open>
  The data the recorder's components share: stream and codec enumerations of \<open>dev_types.h\<close>, the
  constants of \<open>cfg_media.h\<close> and \<open>muxer_videnc.h\<close>, and the structures \<open>t_mp4_t\<close>,
  \<open>MP4HeaderSTBL\<close>, \<open>t_block_t\<close> and \<open>t_videnc_totalbuf_t\<close>. A C \<open>int\<close> or \<open>UINT\<close> is a 32-bit word,
  an array of characters a list of bytes, a heap array a list of its elements.
\<close>

section \<open>Enumerations and constants\<close>

datatype AVType =
    eSTREAMMSG_H265I | eSTREAMMSG_H265P | eSTREAMMSG_H264I | eSTREAMMSG_H264P
  | eSTREAMMSG_JPEG | eSTREAMMSG_AUDIO | eSTREAMMSG_TXTS

text \<open>Bits of \<open>t_mp4_t.option\<close>; the first two also name the track a header writer is asked for.\<close>

definition VID_VIDEO :: u32 where "VID_VIDEO = 1"
definition VID_AUDIO :: u32 where "VID_AUDIO = 2"
definition VID_TXTS :: u32 where "VID_TXTS = 4"

lemma vid_distinct [simp]:
  "VID_VIDEO \<noteq> VID_AUDIO" "VID_AUDIO \<noteq> VID_VIDEO"
  by (simp_all add: VID_VIDEO_def VID_AUDIO_def)

text \<open>Raw PCM, 44100 samples of 16 bits per second, in 70 packets per second.\<close>

definition PCM_RecordingHz :: u32 where "PCM_RecordingHz = 70"
definition AUD_SAMPLING_BIT :: u32 where "AUD_SAMPLING_BIT = 16"
definition AUD_SAMPLING_RATE :: u32 where "AUD_SAMPLING_RATE = 88200 div (AUD_SAMPLING_BIT div 8)"

section \<open>Structures\<close>

record t_mp4_t =
  mp4_option :: u32
  i_width :: u32
  i_height :: u32
  f_fps :: u32
  v_type :: nat
  un32vidicount :: u32
  un32vidscount :: u32
  un32audscount :: u32
  un32txtscount :: u32
  un32vidsmax :: u32
  un32audsmax :: u32
  un32txtsmax :: u32
  un32totalmax :: u32
  un32maxtime :: u32
  vps_size :: u16
  sps_size :: u16
  pps_size :: u16
  vps_data :: bytes
  sps_data :: bytes
  pps_data :: bytes
  mdat_size :: u32

record MP4HeaderSTBL =
  stbl_size :: u32
  stss_len :: u32
  stss :: "u32 list"
  stsz_len :: u32
  stsz :: "u32 list"
  stco_len :: u32
  stco :: "u32 list"

text \<open>
  \<open>buf\<close> and \<open>base\<close> are offsets into the write buffer \<open>wbuf\<close>; \<open>end\<close> is never read. \<open>hdr_info\<close> is
  the address of the header buffer.
\<close>

record t_videnc_totalbuf_t =
  wbuf :: bytes
  buf :: nat
  base :: nat
  blength :: u32
  total :: u32
  hdr_size :: u32
  hdr_len :: u32
  hdr_info :: nat
  Vstbl :: MP4HeaderSTBL
  Astbl :: MP4HeaderSTBL

record t_block_t =
  b_flags :: u32
  b_size :: u32
  b_addr :: u64
  b_type :: u32
  b_state :: u32

end
