(* ===== verification/Mp4Box.thy ===== *)
theory Mp4Box
  imports Prelude
begin

text \<open>
  The abstract side of the MP4 muxer: ISO base media file format boxes as trees, the byte
  string a tree denotes (\<open>ser\<close>), and a reader of that format (\<open>parse_boxes\<close> for one level,
  \<open>parse_tree\<close> for a whole tree) that recovers every well-formed tree. The reader is the
  specification against which \<open>Mp4Enc\<close> checks the header the firmware writes.
\<close>

section \<open>Boxes\<close>

text \<open>A box has a four-byte type, its own fields, and nested boxes.\<close>

datatype box = Box (btype: bytes) (bhdr: bytes) (kids: "box list")

fun ser :: "box \<Rightarrow> bytes" where
  "ser (Box t h ks) =
     be32 (of_nat (8 + length h + length (concat (map ser ks)))) @ t @ h @ concat (map ser ks)"

declare ser.simps [simp del]

definition sers :: "box list \<Rightarrow> bytes" where
  "sers bs = concat (map ser bs)"

lemma sers_Nil [simp]: "sers [] = []"
  by (simp add: sers_def)

lemma sers_Cons [simp]: "sers (b # bs) = ser b @ sers bs"
  by (simp add: sers_def)

lemma sers_append [simp]: "sers (as @ bs) = sers as @ sers bs"
  by (simp add: sers_def)

lemma ser_Box:
  "ser (Box t h ks) = be32 (of_nat (8 + length h + length (sers ks))) @ t @ h @ sers ks"
  by (simp add: ser.simps sers_def)

lemma length_ser_Box [byte_simps]:
  "length (ser (Box t h ks)) = 4 + length t + length h + length (sers ks)"
  by (simp add: ser_Box)

section \<open>Reading one level of boxes\<close>

text \<open>A list of (type, payload) pairs that covers the input exactly.\<close>

function parse_boxes :: "bytes \<Rightarrow> (bytes \<times> bytes) list option" where
  "parse_boxes bs =
     (if bs = [] then Some []
      else if length bs < 8 then None
      else (let n = unat (of_be32 (take 4 bs)) in
        if n < 8 \<or> length bs < n then None
        else map_option (Cons (take 4 (drop 4 bs), take (n - 8) (drop 8 bs)))
               (parse_boxes (drop n bs))))"
  by pat_completeness auto
termination
  by (relation "measure length") auto

declare parse_boxes.simps [simp del]

lemma parse_boxes_Nil [simp]: "parse_boxes [] = Some []"
  by (simp add: parse_boxes.simps)

lemma parse_boxes_step:
  assumes t: "length t = 4" and len: "8 + length p < 2 ^ 32"
  shows "parse_boxes (be32 (of_nat (8 + length p)) @ t @ p @ rest)
       = map_option (Cons (t, p)) (parse_boxes rest)"
proof -
  let ?n = "8 + length p"
  have n: "unat (of_nat ?n :: u32) = ?n"
    using len by (intro unat_of_nat32) simp
  let ?bs = "be32 (of_nat ?n) @ t @ p @ rest"
  have "take 4 ?bs = be32 (of_nat ?n)" and "drop 4 ?bs = t @ p @ rest"
    by simp_all
  moreover have "drop 8 ?bs = p @ rest" and "drop ?n ?bs = rest"
    using t by simp_all
  moreover have "?bs \<noteq> []" and "\<not> length ?bs < 8" and "\<not> length ?bs < ?n"
    using t by (auto simp: be32_def)
  ultimately show ?thesis
    using n t by (subst parse_boxes.simps) (simp add: Let_def del: of_nat_add of_nat_Suc)
qed

section \<open>Reading a tree\<close>

text \<open>
  \<open>H t = Some k\<close> says that boxes of type \<open>t\<close> hold nested boxes after \<open>k\<close> bytes of fields;
  the other boxes are leaves. The second argument bounds the nesting depth.
\<close>

fun parse_tree :: "(bytes \<Rightarrow> nat option) \<Rightarrow> nat \<Rightarrow> bytes \<Rightarrow> box list option" where
  "parse_tree H 0 bs = None"
| "parse_tree H (Suc d) bs =
     (case parse_boxes bs of
        None \<Rightarrow> None
      | Some l \<Rightarrow> those (map (\<lambda>(t, p).
          case H t of
            None \<Rightarrow> Some (Box t p [])
          | Some k \<Rightarrow> (if length p < k then None
                       else map_option (Box t (take k p)) (parse_tree H d (drop k p)))) l))"

fun wf_box :: "(bytes \<Rightarrow> nat option) \<Rightarrow> box \<Rightarrow> bool" where
  "wf_box H (Box t h ks) \<longleftrightarrow>
     length t = 4 \<and> length (ser (Box t h ks)) < 2 ^ 32 \<and>
     (case H t of None \<Rightarrow> ks = [] | Some k \<Rightarrow> length h = k) \<and> list_all (wf_box H) ks"

text \<open>The part of well-formedness that is not about sizes; a subtree is smaller than its tree.\<close>

fun shaped :: "(bytes \<Rightarrow> nat option) \<Rightarrow> box \<Rightarrow> bool" where
  "shaped H (Box t h ks) \<longleftrightarrow>
     length t = 4 \<and> (case H t of None \<Rightarrow> ks = [] | Some k \<Rightarrow> length h = k) \<and> list_all (shaped H) ks"

lemma length_ser_kid: "k \<in> set ks \<Longrightarrow> length (ser k) \<le> length (sers ks)"
  by (induction ks) auto

lemma wf_box_shaped:
  "shaped H b \<Longrightarrow> length (ser b) < 2 ^ 32 \<Longrightarrow> wf_box H b"
proof (induction b)
  case (Box t h ks)
  have "length (ser k) < 2 ^ 32" if "k \<in> set ks" for k
    using Box.prems(2) length_ser_kid [OF that] by (simp add: length_ser_Box)
  with Box show ?case by (auto simp: list_all_iff)
qed

fun depth :: "box \<Rightarrow> nat" where
  "depth (Box t h ks) = Suc (fold max (map depth ks) 0)"

lemma fold_max_le: "fold max xs (a::nat) \<le> d \<longleftrightarrow> a \<le> d \<and> (\<forall>x \<in> set xs. x \<le> d)"
  by (induction xs arbitrary: a) auto

lemma parse_boxes_sers_append:
  "list_all (wf_box H) bs \<Longrightarrow>
   parse_boxes (sers bs @ rest) =
     map_option (append (map (\<lambda>b. (btype b, bhdr b @ sers (kids b))) bs)) (parse_boxes rest)"
proof (induction bs)
  case Nil
  then show ?case by (simp add: option.map_ident)
next
  case (Cons b bs)
  obtain t h ks where b: "b = Box t h ks" by (cases b)
  from Cons.prems b have t: "length t = 4" and len: "8 + length (h @ sers ks) < 2 ^ 32"
    by (auto simp: length_ser_Box)
  have "sers (b # bs) @ rest
      = be32 (of_nat (8 + length (h @ sers ks))) @ t @ (h @ sers ks) @ sers bs @ rest"
    by (simp add: b ser_Box add.assoc)
  with parse_boxes_step [OF t len] Cons show ?case
    by (simp add: b option.map_comp comp_def)
qed

lemma parse_boxes_sers:
  "list_all (wf_box H) bs \<Longrightarrow>
   parse_boxes (sers bs) = Some (map (\<lambda>b. (btype b, bhdr b @ sers (kids b))) bs)"
  using parse_boxes_sers_append [of H bs "[]"] by simp

lemma those_map_Some: "(\<And>x. x \<in> set xs \<Longrightarrow> f x = Some (g x)) \<Longrightarrow> those (map f xs) = Some (map g xs)"
  by (induction xs) auto

text \<open>Every well-formed forest is read back from the bytes it denotes.\<close>

lemma parse_tree_sers:
  assumes "list_all (wf_box H) bs" and "\<forall>b \<in> set bs. depth b \<le> d"
  shows "parse_tree H (Suc d) (sers bs) = Some bs"
  using assms
proof (induction d arbitrary: bs)
  case 0
  then have "bs = []"
    by (cases bs) (auto elim: depth.elims)
  then show ?case by simp
next
  case (Suc d)
  let ?f = "\<lambda>(t, p). case H t of None \<Rightarrow> Some (Box t p [])
      | Some k \<Rightarrow> if length p < k then None
                 else map_option (Box t (take k p)) (parse_tree H (Suc d) (drop k p))"
  have "?f (btype b, bhdr b @ sers (kids b)) = Some b" if "b \<in> set bs" for b
  proof -
    obtain t h ks where b: "b = Box t h ks" by (cases b)
    from that Suc.prems(1) b have wf: "wf_box H (Box t h ks)"
      by (auto simp: list_all_iff)
    from that Suc.prems(2) b have "depth (Box t h ks) \<le> Suc d" by auto
    then have "\<forall>c \<in> set ks. depth c \<le> d" by (simp add: fold_max_le)
    with wf have "parse_tree H (Suc d) (sers ks) = Some ks"
      by (intro Suc.IH) auto
    with wf show ?thesis
      by (auto simp: b simp del: parse_tree.simps split: option.splits)
  qed
  then have "those (map ?f (map (\<lambda>b. (btype b, bhdr b @ sers (kids b))) bs)) = Some bs"
    using those_map_Some [of bs "\<lambda>b. ?f (btype b, bhdr b @ sers (kids b))" id]
    by (simp add: comp_def)
  then show ?case
    by (subst parse_tree.simps) (simp add: parse_boxes_sers [OF Suc.prems(1)] del: parse_tree.simps)
qed

end
