(* ===== verification/Mp4Spec.thy ===== *)
theory Mp4Spec
  imports Mp4Enc
begin

text \<open>
  What the MP4 header is meant to be: the boxes of ISO/IEC 14496-12 as trees of \<open>Mp4Box\<close>, built
  from the recording's parameters, and the proof that every writer of \<open>Mp4Enc\<close> stores exactly
  the serialisation of its tree and returns its length.
\<close>

section \<open>The intended boxes\<close>

definition box_ftyp :: box where
  "box_ftyp = Box (str ''ftyp'')
     (str ''isom'' @ be32 0x200 @ str ''isom'' @ str ''iso2'' @ str ''avc1'' @ str ''mp41'') []"

definition movie_duration :: "mp4_env \<Rightarrow> u32" where
  "movie_duration e = (if has_audio e then max (v_dwDuration e) (a_dwDuration e) else v_dwDuration e)"

definition box_mvhd :: "mp4_env \<Rightarrow> box" where
  "box_mvhd e = Box (str ''mvhd'')
     (be32s [0, mp4_time e, mp4_time e, m_dwTimescale e, movie_duration e, 0x10000] @
      be16s [0x100, 0] @ be32s ([0, 0] @ matrix9 @ [0, 0, 0, 0, 0, 0] @ [if has_audio e then 3 else 2])) []"

definition track_duration :: "mp4_env \<Rightarrow> u32 \<Rightarrow> u32" where
  "track_duration e vid = (if vid = VID_VIDEO then v_dwDuration e else a_dwDuration e)"

definition box_tkhd :: "mp4_env \<Rightarrow> u32 \<Rightarrow> box" where
  "box_tkhd e vid = Box (str ''tkhd'')
     (be32s [0xF, mp4_time e, mp4_time e, if vid = VID_VIDEO then 1 else 2, 0,
             track_duration e vid, 0, 0] @
      be16s [0, 0, if vid = VID_VIDEO then 0 else 0x100, 0] @ be32s matrix9 @
      be32s (if vid = VID_VIDEO
             then [push_bit 16 (i_width (mp4a e)), push_bit 16 (i_height (mp4a e))] else [0, 0])) []"

definition box_edts :: "mp4_env \<Rightarrow> u32 \<Rightarrow> box" where
  "box_edts e vid = Box (str ''edts'') []
     [Box (str ''elst'') (be32s [0, 1, track_duration e vid, 0, 0x10000]) []]"

definition box_mdhd :: "mp4_env \<Rightarrow> u32 \<Rightarrow> box" where
  "box_mdhd e vid = Box (str ''mdhd'')
     (be32s [0, mp4_time e, mp4_time e] @
      be32s (if vid = VID_VIDEO
             then [m_dwTimescale e * f_fps (mp4a e), m_dwTimescale e * v_dwSampleCount e]
             else [AUD_SAMPLING_RATE, aud_samples (a_dwSampleCount e)]) @
      be16s [lan, 0]) []"

definition box_hdlr :: "u32 \<Rightarrow> box" where
  "box_hdlr vid = Box (str ''hdlr'')
     (be32s [0, 0] @ str (if vid = VID_VIDEO then ''vide'' else ''soun'') @ be32s [0, 0, 0] @
      str (if vid = VID_VIDEO then ''VideoHandler'' else ''SoundHandler'') @ [0]) []"

definition box_vmhd :: box where
  "box_vmhd = Box (str ''vmhd'') (be32 1 @ be16s [0, 0, 0, 0]) []"

definition box_smhd :: box where
  "box_smhd = Box (str ''smhd'') (be32 0 @ be16s [0, 0]) []"

definition box_dinf :: box where
  "box_dinf = Box (str ''dinf'') []
     [Box (str ''dref'') (be32s [0, 1]) [Box (str ''url '') (be32 1) []]]"

definition box_avcc :: "mp4_env \<Rightarrow> box" where
  "box_avcc e = (let v = mp4a e in Box (str ''avcC'')
     ([1, sps_data v ! 1, sps_data v ! 2, sps_data v ! 3, 0xFF, 0xE1] @
      be16 (sps_size v) @ take (unat (sps_size v)) (sps_data v) @ [1] @
      be16 (pps_size v) @ take (unat (pps_size v)) (pps_data v)) [])"

definition box_hvcc :: "mp4_env \<Rightarrow> box" where
  "box_hvcc e = (let v = mp4a e in Box (str ''hvcC'')
     ([1] @ hvcc_profile 11 (vps_data v) (6, 0) @ [0, 0xF0, 0, 0xFC, 0xFD, 0xF8, 0xF8, 0, 0, 0x0F, 3] @
      [0x20] @ be16 1 @ be16 (vps_size v) @ take (unat (vps_size v)) (vps_data v) @
      [0x21] @ be16 1 @ be16 (sps_size v) @ take (unat (sps_size v)) (sps_data v) @
      [0x22] @ be16 1 @ be16 (pps_size v) @ take (unat (pps_size v)) (pps_data v)) [])"

text \<open>The fields of a visual sample entry.\<close>

definition visual_entry :: "mp4_env \<Rightarrow> bytes" where
  "visual_entry e = [0, 0, 0, 0, 0, 0] @ be16 1 @ be32s [0, 0, 0, 0] @
     be16s [ucast (i_width (mp4a e)), ucast (i_height (mp4a e))] @
     be32s [0x480000, 0x480000, 0] @ be16 1 @ be32s [0, 0, 0, 0, 0, 0, 0, 0] @ be16s [24, 0xFFFF]"

definition box_entry :: "mp4_env \<Rightarrow> u32 \<Rightarrow> box list" where
  "box_entry e vid =
     (if vid = VID_VIDEO then
        (case eCodec e (v_type (mp4a e)) of
           e_vcodecH264 \<Rightarrow> [Box (str ''avc1'') (visual_entry e) [box_avcc e]]
         | e_vcodecH265 \<Rightarrow> [Box (str ''hev1'') (visual_entry e) [box_hvcc e]]
         | e_vcodecJPEG \<Rightarrow> [])
      else [Box (str ''twos'') (be32s [0, 1, 0, 0] @ be16s [1, 16, 0, 0] @ be32 0xAC440000) []])"

definition box_stts :: "mp4_env \<Rightarrow> u32 \<Rightarrow> box" where
  "box_stts e vid = Box (str ''stts'')
     (be32s ([0, 1] @ (if vid = VID_VIDEO then [v_dwSampleCount e, m_dwTimescale e]
                       else [aud_samples (a_dwSampleCount e), 1]))) []"

definition box_stsc :: "u32 \<Rightarrow> box" where
  "box_stsc vid = Box (str ''stsc'')
     (be32s [0, 1, 1, if vid = VID_VIDEO then 1 else 630, 1]) []"

text \<open>The tables hold words the muxer has already swapped, so they are copied as they are.\<close>

definition table :: "u32 \<Rightarrow> u32 list \<Rightarrow> bytes" where
  "table n ws = le32s (take (unat n) ws)"

definition box_stss :: "mp4_env \<Rightarrow> box" where
  "box_stss e = (let V = Vstbl (but_t e) in
     Box (str ''stss'') (be32s [0, stss_len V] @ table (stss_len V) (stss V)) [])"

definition box_stsz :: "mp4_env \<Rightarrow> u32 \<Rightarrow> box" where
  "box_stsz e vid = (let V = Vstbl (but_t e) in
     Box (str ''stsz'')
       (if vid = VID_VIDEO then be32s [0, 0, stsz_len V] @ table (stsz_len V) (stsz V)
        else be32s [0, 2, aud_samples (stsz_len (Astbl (but_t e)))]) [])"

definition box_stco :: "mp4_env \<Rightarrow> u32 \<Rightarrow> box" where
  "box_stco e vid = (let T = (if vid = VID_VIDEO then Vstbl (but_t e) else Astbl (but_t e)) in
     Box (str ''stco'') (be32s [0, stco_len T] @ table (stco_len T) (stco T)) [])"

definition box_stbl :: "mp4_env \<Rightarrow> u32 \<Rightarrow> box" where
  "box_stbl e vid = Box (str ''stbl'') []
     ([Box (str ''stsd'') (be32s [0, 1]) (box_entry e vid), box_stts e vid, box_stsc vid] @
      (if vid = VID_VIDEO then [box_stss e] else []) @ [box_stsz e vid, box_stco e vid])"

definition box_trak :: "mp4_env \<Rightarrow> u32 \<Rightarrow> box" where
  "box_trak e vid = Box (str ''trak'') []
     [box_tkhd e vid, box_edts e vid,
      Box (str ''mdia'') []
        [box_mdhd e vid, box_hdlr vid,
         Box (str ''minf'') []
           [if vid = VID_VIDEO then box_vmhd else box_smhd, box_dinf, box_stbl e vid]]]"

definition traks :: "mp4_env \<Rightarrow> box list" where
  "traks e = (if mp4_option (mp4a e) AND VID_VIDEO \<noteq> 0 then [box_trak e VID_VIDEO] else []) @
     (if has_audio e then [box_trak e VID_AUDIO] else [])"

text \<open>A \<open>moov\<close> box whose last child is padding with the given contents.\<close>

definition box_moov :: "mp4_env \<Rightarrow> bytes \<Rightarrow> box" where
  "box_moov e pad = Box (str ''moov'') [] ([box_mvhd e] @ traks e @ [Box (str ''free'') pad []])"

section \<open>Writers store boxes\<close>

definition writes :: "(mem \<Rightarrow> nat \<Rightarrow> mem \<times> u32) \<Rightarrow> box \<Rightarrow> bool" where
  "writes w b \<longleftrightarrow> (\<forall>m p. w m p = (store m p (ser b), of_nat (length (ser b))))"

lemma put_box_leaf:
  assumes "length t = 4" and "cb = of_nat (8 + length h)"
  shows "put_box p t h (m, cb) =
    (store m p (ser (Box (str t) h [])), of_nat (length (ser (Box (str t) h []))))"
  using assms by (simp add: put_box_def ser_Box)

text \<open>The state of a writer that has laid out the bytes \<open>bs\<close> behind a header of \<open>k\<close> bytes.\<close>

definition built :: "mem \<Rightarrow> nat \<Rightarrow> nat \<Rightarrow> bytes \<Rightarrow> mem \<times> u32 \<Rightarrow> bool" where
  "built m p k bs s \<longleftrightarrow> s = (store m (p + k) bs, of_nat (k + length bs))"

lemma built_start: "cb = of_nat k \<Longrightarrow> built m p k [] (m, cb)"
  by (simp add: built_def)

lemma built_add:
  assumes "built m p k bs s" and "writes w b" and "k + length bs < 2 ^ 32"
  shows "built m p k (bs @ ser b) (size_add p w s)"
proof -
  have "unat (snd s) = k + length bs"
    using assms(1,3) by (simp add: built_def del: of_nat_add)
  with assms(1,2) show ?thesis
    by (simp add: built_def writes_def size_add_def store_append add.assoc)
qed

lemma built_put:
  assumes "built m p k (sers bs) s" and "k = 8 + length h" and "length t = 4"
  shows "put_box p t h s =
    (store m p (ser (Box (str t) h bs)), of_nat (length (ser (Box (str t) h bs))))"
  using assms
  by (simp add: built_def put_box_def ser_Box store_header add.assoc)

section \<open>The leaf boxes\<close>

definition track_ok :: "mp4_env \<Rightarrow> u32 \<Rightarrow> bool" where
  "track_ok e vid \<longleftrightarrow> vid = VID_VIDEO \<or> FAT_SDSAVE_AUD e \<and> vid = VID_AUDIO"

lemma for_track_ok [simp]:
  "track_ok e vid \<Longrightarrow> for_track e vid a b c = (if vid = VID_VIDEO then a else b)"
  by (auto simp: track_ok_def for_track_def)

lemmas leaf_defs = writes_def put_box_leaf sizeof_defs matrix9_def

lemma be32s_simps [simp]:
  "be32s [] = []" "be32s (w # ws) = be32 w @ be32s ws" "be32s (vs @ ws) = be32s vs @ be32s ws"
  by (simp_all add: be32s_def)

lemma be16s_simps [simp]:
  "be16s [] = []" "be16s (v # vs) = be16 v @ be16s vs" "be16s (vs @ us) = be16s vs @ be16s us"
  by (simp_all add: be16s_def)

lemma le32s_simps [simp]:
  "le32s [] = []" "le32s (w # ws) = le32 w @ le32s ws"
  by (simp_all add: le32s_def)

lemma le16s_simps [simp]:
  "le16s [] = []" "le16s (v # vs) = le16 v @ le16s vs"
  by (simp_all add: le16s_def)

lemma ftyp_ser: "writes enx_mp4_header_ftyp box_ftyp"
  by (simp add: leaf_defs enx_mp4_header_ftyp_def box_ftyp_def)

lemma mvhd_ser: "writes (enx_mp4_header_mvhd e) (box_mvhd e)"
  by (simp add: leaf_defs enx_mp4_header_mvhd_def box_mvhd_def movie_duration_def)


lemma tkhd_ser: "track_ok e vid \<Longrightarrow> writes (enx_mp4_header_tkhd e vid) (box_tkhd e vid)"
  by (simp add: leaf_defs enx_mp4_header_tkhd_def box_tkhd_def track_duration_def)

lemma elst_ser: "track_ok e vid \<Longrightarrow> writes (enx_mp4_header_elst e vid)
    (Box (str ''elst'') (be32s [0, 1, track_duration e vid, 0, 0x10000]) [])"
  by (simp add: leaf_defs enx_mp4_header_elst_def track_duration_def)

lemma mdhd_ser: "track_ok e vid \<Longrightarrow> writes (enx_mp4_header_mdhd e vid) (box_mdhd e vid)"
  by (simp add: leaf_defs enx_mp4_header_mdhd_def box_mdhd_def)

lemma str_append: "str (s @ t) = str s @ str t"
  by (simp add: str_def)

lemma hdlr_names:
  "str ''VideoHandler'' = str ''Vide'' @ str ''oHan'' @ str ''dler''"
  "str ''SoundHandler'' = str ''Soun'' @ str ''dHan'' @ str ''dler''"
  by (simp_all add: str_def)

lemma hdlr_ser: "track_ok e vid \<Longrightarrow> writes (enx_mp4_header_hdlr e vid) (box_hdlr vid)"
  by (simp add: leaf_defs enx_mp4_header_hdlr_def box_hdlr_def hdlr_names)

lemma vmhd_ser: "writes enx_mp4_header_vmhd box_vmhd"
  by (simp add: leaf_defs enx_mp4_header_vmhd_def box_vmhd_def)

lemma smhd_ser: "writes enx_mp4_header_smhd box_smhd"
  by (simp add: leaf_defs enx_mp4_header_smhd_def box_smhd_def)

lemma url_ser: "writes enx_mp4_header_url (Box (str ''url '') (be32 1) [])"
  by (simp add: leaf_defs enx_mp4_header_url_def)

lemma twos_ser: "writes enx_mp4_header_twos
    (Box (str ''twos'') (be32s [0, 1, 0, 0] @ be16s [1, 16, 0, 0] @ be32 0xAC440000) [])"
  by (simp add: leaf_defs enx_mp4_header_twos_def AUD_SAMPLING_BIT_def AUD_SAMPLING_RATE_def)

lemma stts_ser: "track_ok e vid \<Longrightarrow> writes (enx_mp4_header_stts e vid) (box_stts e vid)"
  by (simp add: leaf_defs enx_mp4_header_stts_def box_stts_def)

lemma stsc_ser: "track_ok e vid \<Longrightarrow> writes (enx_mp4_header_stsc e vid) (box_stsc vid)"
  by (simp add: leaf_defs enx_mp4_header_stsc_def box_stsc_def AUD_SAMPLING_BIT_def
      AUD_SAMPLING_RATE_def PCM_RecordingHz_def)

section \<open>Boxes with a variable tail\<close>

text \<open>The lengths in the parameters do not exceed the arrays they describe.\<close>

definition stbl_ok :: "MP4HeaderSTBL \<Rightarrow> bool" where
  "stbl_ok T \<longleftrightarrow> unat (stss_len T) \<le> length (stss T) \<and> unat (stsz_len T) \<le> length (stsz T) \<and>
     unat (stco_len T) \<le> length (stco T)"

definition vid_ok :: "t_mp4_t \<Rightarrow> bool" where
  "vid_ok v \<longleftrightarrow> length (vps_data v) = 32 \<and> length (sps_data v) = 64 \<and> length (pps_data v) = 8 \<and>
     unat (vps_size v) \<le> 32 \<and> unat (sps_size v) \<le> 64 \<and> unat (pps_size v) \<le> 8"

definition env_ok :: "mp4_env \<Rightarrow> bool" where
  "env_ok e \<longleftrightarrow> vid_ok (mp4a e) \<and> stbl_ok (Vstbl (but_t e)) \<and> stbl_ok (Astbl (but_t e))"

lemma map_nth_upt: "n \<le> length xs \<Longrightarrow> map (\<lambda>i. xs ! i) [0..<n] = take n xs"
  by (rule nth_equalityI) auto

lemma put_box_tail:
  assumes "k = 8 + length h" and "length t = 4" and "q = p + k" and "cb = of_nat (k + length xs)"
  shows "put_box p t h (store m q xs, cb) =
    (store m p (ser (Box (str t) (h @ xs) [])), of_nat (length (ser (Box (str t) (h @ xs) []))))"
  using assms by (simp add: put_box_def ser_Box store_header add.assoc)

lemma copy_table:
  assumes "unat n \<le> length src"
  shows "copy_words q src n m = store m q (table n src)"
    and "length (table n src) = 4 * unat n"
  using assms by (simp_all add: copy_words_def table_def map_nth_upt)

lemma table_0 [simp]: "table 0 ws = []"
  by (simp add: table_def)

lemmas tail_defs = writes_def put_box_leaf put_box_tail copy_table sizeof_defs

lemma stss_ser:
  assumes "env_ok e"
  shows "writes (enx_mp4_header_stss e) (box_stss e)"
proof -
  have "unat (stss_len (Vstbl (but_t e))) \<le> length (stss (Vstbl (but_t e)))"
    using assms by (simp add: env_ok_def stbl_ok_def)
  then show ?thesis
    by (auto simp: tail_defs enx_mp4_header_stss_def box_stss_def Let_def)
qed

lemma stsz_ser:
  assumes "env_ok e" and "track_ok e vid"
  shows "writes (enx_mp4_header_stsz e vid) (box_stsz e vid)"
proof -
  have "unat (stsz_len (Vstbl (but_t e))) \<le> length (stsz (Vstbl (but_t e)))"
    using assms by (simp add: env_ok_def stbl_ok_def)
  with assms(2) show ?thesis
    by (auto simp: tail_defs enx_mp4_header_stsz_def box_stsz_def Let_def AUD_SAMPLING_BIT_def)
qed

lemma stco_ser:
  assumes "env_ok e" and "track_ok e vid"
  shows "writes (enx_mp4_header_stco e vid) (box_stco e vid)"
proof -
  have "unat (stco_len (Vstbl (but_t e))) \<le> length (stco (Vstbl (but_t e)))"
    and "unat (stco_len (Astbl (but_t e))) \<le> length (stco (Astbl (but_t e)))"
    using assms by (simp_all add: env_ok_def stbl_ok_def)
  with assms(2) show ?thesis
    by (auto simp: tail_defs enx_mp4_header_stco_def box_stco_def Let_def)
qed

lemma low_byte: "(ucast ((n :: u16) AND 0xFF) :: u8) = ucast n"
  by (rule bit_word_eqI) (auto simp: byte_masks bit_simps)

lemma high_byte: "(ucast (drop_bit 8 (n :: u16) AND 0xFF) :: u8) = ucast (drop_bit 8 n)"
  by (rule bit_word_eqI) (auto simp: byte_masks bit_simps)

lemma nal_field_be16:
  "unat n \<le> length d \<Longrightarrow> nal_field n d = be16 n @ take (unat n) d"
  by (simp add: nal_field_def be16_def low_byte high_byte map_nth_upt)

lemma length_hvcc_profile [simp]: "length (hvcc_profile n vps s) = n"
  by (induction n vps s rule: hvcc_profile.induct) auto

lemma nal_fields:
  assumes "env_ok e"
  shows "nal_field (vps_size (mp4a e)) (vps_data (mp4a e)) =
      be16 (vps_size (mp4a e)) @ take (unat (vps_size (mp4a e))) (vps_data (mp4a e))"
    and "nal_field (sps_size (mp4a e)) (sps_data (mp4a e)) =
      be16 (sps_size (mp4a e)) @ take (unat (sps_size (mp4a e))) (sps_data (mp4a e))"
    and "nal_field (pps_size (mp4a e)) (pps_data (mp4a e)) =
      be16 (pps_size (mp4a e)) @ take (unat (pps_size (mp4a e))) (pps_data (mp4a e))"
  using assms by (simp_all add: env_ok_def vid_ok_def nal_field_be16)

lemma avcc_ser:
  assumes "env_ok e"
  shows "writes (enx_mp4_header_avcc e) (box_avcc e)"
  by (simp add: tail_defs enx_mp4_header_avcc_def box_avcc_def Let_def nal_fields [OF assms])

lemma hvcc_fixed: "be16 0xF000 = [0xF0, 0]" "be16 0 = [0, 0]" "be16 1 = [0, 1]"
  by (simp_all add: be16_def)

lemma hvcc_ser:
  assumes "env_ok e"
  shows "writes (enx_mp4_header_hvcc e) (box_hvcc e)"
  by (simp add: tail_defs enx_mp4_header_hvcc_def box_hvcc_def Let_def nal_fields [OF assms]
      hvcc_fixed)

section \<open>The containers\<close>

text \<open>
  One call of a child writer appends one box. The chain of calls needs the sizes so far to be
  below \<open>2 ^ 32\<close>, which holds when the finished box is.
\<close>

lemma built_child:
  assumes "built m p k (sers bs) s" and "writes w b" and "k + length (sers bs) < 2 ^ 32"
  shows "built m p k (sers (bs @ [b])) (size_add p w s)"
  using built_add [OF assms] by simp

lemma built_sizeof: "built m p 8 (sers []) (m, sizeof_FCC_CB_t)"
  by (simp add: built_def sizeof_defs)

lemma writesI:
  assumes "\<And>m p. w m p = put_box p t h (f m p)"
    and "\<And>m p. built m p k (sers bs) (f m p)"
    and "k = 8 + length h" and "length t = 4"
  shows "writes w (Box (str t) h bs)"
  unfolding writes_def using assms built_put by metis

lemma edts_ser:
  assumes "track_ok e vid"
  shows "writes (enx_mp4_header_edts e vid) (box_edts e vid)"
  unfolding box_edts_def
proof (rule writesI)
  show "enx_mp4_header_edts e vid m p =
      put_box p ''edts'' [] (size_add p (enx_mp4_header_elst e vid) (m, sizeof_FCC_CB_t))" for m p
    by (simp add: enx_mp4_header_edts_def)
  show "built m p 8 (sers [Box (str ''elst'') (be32s [0, 1, track_duration e vid, 0, 0x10000]) []])
      (size_add p (enx_mp4_header_elst e vid) (m, sizeof_FCC_CB_t))" for m p
    using built_child [OF built_sizeof elst_ser [OF assms]] by simp
qed simp_all

lemma dref_ser: "writes enx_mp4_header_dref
    (Box (str ''dref'') (be32s [0, 1]) [Box (str ''url '') (be32 1) []])"
proof (rule writesI)
  show "enx_mp4_header_dref m p = put_box p ''dref'' (be32s [0, 1])
      (size_add p enx_mp4_header_url (m, sizeof_MP4_DATA_REFERENCE_BOX))" for m p
    by (simp add: enx_mp4_header_dref_def)
  have "built m p 16 (sers []) (m, sizeof_MP4_DATA_REFERENCE_BOX)" for m p
    by (simp add: built_def sizeof_defs)
  from built_child [OF this url_ser]
  show "built m p 16 (sers [Box (str ''url '') (be32 1) []])
      (size_add p enx_mp4_header_url (m, sizeof_MP4_DATA_REFERENCE_BOX))" for m p
    by simp
qed simp_all

lemma dinf_ser: "writes enx_mp4_header_dinf box_dinf"
  unfolding box_dinf_def
proof (rule writesI)
  show "enx_mp4_header_dinf m p =
      put_box p ''dinf'' [] (size_add p enx_mp4_header_dref (m, sizeof_FCC_CB_t))" for m p
    by (simp add: enx_mp4_header_dinf_def)
  show "built m p 8 (sers [Box (str ''dref'') (be32s [0, 1]) [Box (str ''url '') (be32 1) []]])
      (size_add p enx_mp4_header_dref (m, sizeof_FCC_CB_t))" for m p
    using built_child [OF built_sizeof dref_ser] by simp
qed simp_all

lemma be16_ones: "be16 (- 1) = be16 0xFFFF"
proof -
  have "(- 1 :: u16) = 0xFFFF"
    by (subst word_uint_eq_iff) (simp add: unsigned_minus_1_eq_mask mask_eq_exp_minus_1)
  then show ?thesis by metis
qed

lemma visual_entry_layout:
  "[0, 0, 0, 0, 0, 0] @ sb16 [1] @ sb32 [0, 0, 0, 0] @
     sb16 [ucast (i_width (mp4a e)), ucast (i_height (mp4a e))] @
     sb32 [0x00480000, 0x00480000, 0] @ sb16 [1] @ sb32 [0, 0, 0, 0, 0, 0, 0, 0] @
     sb16 [24, - 1] = visual_entry e"
  by (simp add: visual_entry_def be16_ones del: sb32_be32s sb16_be16s)

lemma visual_ser:
  assumes "writes w b" and "sz = 86"
    and "\<And>m p. w' m p = put_box p t (visual_entry e) (size_add p w (m, sz))"
    and "length t = 4"
  shows "writes w' (Box (str t) (visual_entry e) [b])"
proof (rule writesI)
  show "w' m p = put_box p t (visual_entry e) (size_add p w (m, sz))" for m p
    by (rule assms(3))
  have "built m p 86 (sers []) (m, sz)" for m p
    using assms(2) by (simp add: built_def)
  from built_child [OF this assms(1)]
  show "built m p 86 (sers [b]) (size_add p w (m, sz))" for m p
    by simp
qed (use assms(4) in \<open>simp_all add: visual_entry_def\<close>)

lemma avc1_ser:
  assumes "env_ok e"
  shows "writes (enx_mp4_header_avc1 e) (Box (str ''avc1'') (visual_entry e) [box_avcc e])"
  by (rule visual_ser [OF avcc_ser [OF assms], of sizeof_MP4_AVC1_BOX])
    (simp_all add: enx_mp4_header_avc1_def visual_entry_layout [symmetric] sizeof_defs)

lemma hvc1_ser:
  assumes "env_ok e"
  shows "writes (enx_mp4_header_hvc1 e) (Box (str ''hev1'') (visual_entry e) [box_hvcc e])"
  by (rule visual_ser [OF hvcc_ser [OF assms], of sizeof_MP4_HVC1_BOX])
    (simp_all add: enx_mp4_header_hvc1_def visual_entry_layout [symmetric] sizeof_defs)

text \<open>The sample entry that \<open>stsd\<close> adds depends on the codec.\<close>

lemma stsd_ser:
  assumes e: "env_ok e" and v: "track_ok e vid"
  shows "writes (enx_mp4_header_stsd e vid) (Box (str ''stsd'') (be32s [0, 1]) (box_entry e vid))"
proof (rule writesI)
  let ?f = "\<lambda>m p. let s = (m, sizeof_MP4_SAMPLE_DESCRIPTION_BOX) in
    if vid = VID_VIDEO
    then (case eCodec e (v_type (mp4a e)) of
        e_vcodecH264 \<Rightarrow> size_add p (enx_mp4_header_avc1 e) s
      | e_vcodecH265 \<Rightarrow> size_add p (enx_mp4_header_hvc1 e) s
      | e_vcodecJPEG \<Rightarrow> s)
    else size_add p enx_mp4_header_twos s"
  show "enx_mp4_header_stsd e vid m p = put_box p ''stsd'' (be32s [0, 1]) (?f m p)" for m p
    using v by (simp add: enx_mp4_header_stsd_def Let_def)
  have 0: "built m p 16 (sers []) (m, sizeof_MP4_SAMPLE_DESCRIPTION_BOX)" for m p
    by (simp add: built_def sizeof_defs)
  show "built m p 16 (sers (box_entry e vid)) (?f m p)" for m p
    using 0 [of m p] built_child [OF 0 avc1_ser [OF e]] built_child [OF 0 hvc1_ser [OF e]]
      built_child [OF 0 twos_ser]
    by (simp add: Let_def box_entry_def split: VideoCodec.split)
qed simp_all

text \<open>
  From here on the number of bytes depends on the sample tables, and a box must fit in an
  unsigned int: the lemmas assume it of the box they are about.
\<close>

definition fits :: "box \<Rightarrow> bool" where
  "fits b \<longleftrightarrow> length (ser b) < 2 ^ 32"

lemma fits_Box: "fits (Box t h ks) \<longleftrightarrow> 4 + length t + length h + length (sers ks) < 2 ^ 32"
  by (simp add: fits_def length_ser_Box)

lemma fits_child: "fits (Box t h ks) \<Longrightarrow> k \<in> set ks \<Longrightarrow> fits k"
proof -
  have "k \<in> set ks \<Longrightarrow> length (ser k) \<le> length (sers ks)"
    by (induction ks) auto
  then show "fits (Box t h ks) \<Longrightarrow> k \<in> set ks \<Longrightarrow> fits k"
    by (simp add: fits_Box) (simp add: fits_def)
qed

lemma stbl_ser:
  assumes e: "env_ok e" and v: "track_ok e vid" and fit: "fits (box_stbl e vid)"
  shows "writes (enx_mp4_header_stbl e vid) (box_stbl e vid)"
  unfolding box_stbl_def
proof (rule writesI)
  let ?d = "Box (str ''stsd'') (be32s [0, 1]) (box_entry e vid)"
  let ?a = "\<lambda>m p. size_add p (enx_mp4_header_stsc e vid) (size_add p (enx_mp4_header_stts e vid)
    (size_add p (enx_mp4_header_stsd e vid) (m, sizeof_FCC_CB_t)))"
  let ?b = "\<lambda>m p. if vid = VID_VIDEO then size_add p (enx_mp4_header_stss e) (?a m p) else ?a m p"
  let ?f = "\<lambda>m p. size_add p (enx_mp4_header_stco e vid)
    (size_add p (enx_mp4_header_stsz e vid) (?b m p))"
  let ?h = "[?d, box_stts e vid, box_stsc vid]"
  let ?s = "if vid = VID_VIDEO then [box_stss e] else []"
  show "enx_mp4_header_stbl e vid m p = put_box p ''stbl'' [] (?f m p)" for m p
    by (simp add: enx_mp4_header_stbl_def Let_def)
  have len: "8 + length (sers (?h @ ?s @ [box_stsz e vid, box_stco e vid])) < 2 ^ 32"
    using fit by (simp add: box_stbl_def fits_Box)
  show "built m p 8 (sers (?h @ ?s @ [box_stsz e vid, box_stco e vid])) (?f m p)" for m p
  proof -
    have "built m p 8 (sers [?d]) (size_add p (enx_mp4_header_stsd e vid) (m, sizeof_FCC_CB_t))"
      using built_child [OF built_sizeof stsd_ser [OF e v]] by simp
    from built_child [OF this stts_ser [OF v]] len
    have "built m p 8 (sers [?d, box_stts e vid]) (size_add p (enx_mp4_header_stts e vid)
        (size_add p (enx_mp4_header_stsd e vid) (m, sizeof_FCC_CB_t)))" by simp
    from built_child [OF this stsc_ser [OF v]] len
    have a: "built m p 8 (sers ?h) (?a m p)" by simp
    from a built_child [OF a stss_ser [OF e]] len
    have "built m p 8 (sers (?h @ ?s)) (?b m p)" by (simp split: if_splits)
    from built_child [OF this stsz_ser [OF e v]] len
    have "built m p 8 (sers (?h @ ?s @ [box_stsz e vid]))
        (size_add p (enx_mp4_header_stsz e vid) (?b m p))" by (simp split: if_splits)
    from built_child [OF this stco_ser [OF e v]] len
    show ?thesis by (simp split: if_splits)
  qed
qed simp_all

text \<open>\<open>minf\<close> and \<open>mdia\<close>, the last two levels of a track.\<close>

definition box_minf :: "mp4_env \<Rightarrow> u32 \<Rightarrow> box" where
  "box_minf e vid = Box (str ''minf'') []
     [if vid = VID_VIDEO then box_vmhd else box_smhd, box_dinf, box_stbl e vid]"

definition box_mdia :: "mp4_env \<Rightarrow> u32 \<Rightarrow> box" where
  "box_mdia e vid = Box (str ''mdia'') [] [box_mdhd e vid, box_hdlr vid, box_minf e vid]"

lemma box_trak_mdia:
  "box_trak e vid = Box (str ''trak'') [] [box_tkhd e vid, box_edts e vid, box_mdia e vid]"
  by (simp add: box_trak_def box_mdia_def box_minf_def)

text \<open>A container of three boxes.\<close>

lemma three_ser:
  assumes w: "\<And>m p. w m p = put_box p t []
      (size_add p w3 (size_add p w2 (size_add p w1 (m, sizeof_FCC_CB_t))))"
    and a: "writes w1 a" and b: "writes w2 b" and c: "writes w3 c"
    and t: "length t = 4" and fit: "fits (Box (str t) [] [a, b, c])"
  shows "writes w (Box (str t) [] [a, b, c])"
proof (rule writesI [where w = w])
  show "w m p = put_box p t []
      (size_add p w3 (size_add p w2 (size_add p w1 (m, sizeof_FCC_CB_t))))" for m p
    by (rule w)
  show "built m p 8 (sers [a, b, c])
      (size_add p w3 (size_add p w2 (size_add p w1 (m, sizeof_FCC_CB_t))))" for m p
  proof -
    have "built m p 8 (sers [a]) (size_add p w1 (m, sizeof_FCC_CB_t))"
      using built_child [OF built_sizeof a] by simp
    from built_child [OF this b] fit
    have "built m p 8 (sers [a, b]) (size_add p w2 (size_add p w1 (m, sizeof_FCC_CB_t)))"
      by (simp add: fits_Box t)
    from built_child [OF this c] fit show ?thesis by (simp add: fits_Box t)
  qed
qed (simp_all add: t)

lemma minf_ser:
  assumes e: "env_ok e" and v: "track_ok e vid" and fit: "fits (box_minf e vid)"
  shows "writes (enx_mp4_header_minf e vid) (box_minf e vid)"
  unfolding box_minf_def
proof (rule three_ser)
  show "enx_mp4_header_minf e vid m p = put_box p ''minf'' [] (size_add p (enx_mp4_header_stbl e vid)
      (size_add p enx_mp4_header_dinf
        (size_add p (if vid = VID_VIDEO then enx_mp4_header_vmhd else enx_mp4_header_smhd)
          (m, sizeof_FCC_CB_t))))" for m p
    using v by (simp add: enx_mp4_header_minf_def Let_def)
  show "writes (if vid = VID_VIDEO then enx_mp4_header_vmhd else enx_mp4_header_smhd)
      (if vid = VID_VIDEO then box_vmhd else box_smhd)"
    by (simp add: vmhd_ser smhd_ser)
  show "writes (enx_mp4_header_stbl e vid) (box_stbl e vid)"
    by (intro stbl_ser e v fits_child [OF fit [unfolded box_minf_def]]) simp
qed (use fit in \<open>simp_all add: dinf_ser box_minf_def\<close>)

lemma mdia_ser:
  assumes e: "env_ok e" and v: "track_ok e vid" and fit: "fits (box_mdia e vid)"
  shows "writes (enx_mp4_header_mdia e vid) (box_mdia e vid)"
  unfolding box_mdia_def
proof (rule three_ser)
  show "enx_mp4_header_mdia e vid m p = put_box p ''mdia'' [] (size_add p (enx_mp4_header_minf e vid)
      (size_add p (enx_mp4_header_hdlr e vid) (size_add p (enx_mp4_header_mdhd e vid)
          (m, sizeof_FCC_CB_t))))" for m p
    by (simp add: enx_mp4_header_mdia_def)
  show "writes (enx_mp4_header_minf e vid) (box_minf e vid)"
    by (intro minf_ser e v fits_child [OF fit [unfolded box_mdia_def]]) simp
qed (use fit in \<open>simp_all add: mdhd_ser v hdlr_ser box_mdia_def\<close>)

lemma trak_ser:
  assumes e: "env_ok e" and v: "track_ok e vid" and fit: "fits (box_trak e vid)"
  shows "writes (enx_mp4_header_trak e vid) (box_trak e vid)"
  unfolding box_trak_mdia
proof (rule three_ser)
  show "enx_mp4_header_trak e vid m p = put_box p ''trak'' [] (size_add p (enx_mp4_header_mdia e vid)
      (size_add p (enx_mp4_header_edts e vid) (size_add p (enx_mp4_header_tkhd e vid)
          (m, sizeof_FCC_CB_t))))" for m p
    by (simp add: enx_mp4_header_trak_def)
  show "writes (enx_mp4_header_mdia e vid) (box_mdia e vid)"
    by (intro mdia_ser e v fits_child [OF fit [unfolded box_trak_mdia]]) simp
qed (use fit in \<open>simp_all add: tkhd_ser v edts_ser box_trak_mdia\<close>)

section \<open>The movie box and its padding\<close>

text \<open>
  \<open>free\<close> stores its eight header bytes and leaves its payload as it is in memory.
\<close>

lemma free_ser:
  "enx_mp4_header_free n m p = (let b = Box (str ''free'') (load m (p + 8) (unat n)) [] in
     (store m p (ser b), of_nat (length (ser b))))"
proof -
  have "store m p (be32 (8 + n) @ str ''free'') =
      store m p ((be32 (8 + n) @ str ''free'') @ load m (p + 8) (unat n))"
    by (rule store_in_place [symmetric]) simp
  then show ?thesis
    by (simp add: enx_mp4_header_free_def put_box_def ser_Box sizeof_defs Let_def)
qed

lemma mdat_ser:
  "enx_mp4_header_mdat e m p =
     (store m p (be32 (8 + mdat_size (mp4a e)) @ str ''mdat''), 8 + mdat_size (mp4a e))"
  by (simp add: enx_mp4_header_mdat_def put_box_def sizeof_defs)

text \<open>Bytes from the start of \<open>moov\<close> to its \<open>free\<close> box.\<close>

definition moov_used :: "mp4_env \<Rightarrow> nat" where
  "moov_used e = 8 + length (sers (box_mvhd e # traks e))"

definition moov_pad :: "mp4_env \<Rightarrow> nat" where
  "moov_pad e = unat (hdr_size (but_t e)) - unat (hdr_len (but_t e)) - moov_used e - 16"

definition moov_fits :: "mp4_env \<Rightarrow> bool" where
  "moov_fits e \<longleftrightarrow> unat (hdr_len (but_t e)) + moov_used e + 16 \<le> unat (hdr_size (but_t e))"

lemma length_moov:
  assumes "moov_fits e"
  shows "length (ser (box_moov e (load m q (moov_pad e)))) =
    unat (hdr_size (but_t e)) - unat (hdr_len (but_t e)) - 8"
  using assms
  by (simp add: box_moov_def moov_fits_def moov_pad_def moov_used_def length_ser_Box)

lemma trak_video_ok [simp]: "track_ok e VID_VIDEO"
  by (simp add: track_ok_def)

lemma has_audio_ok: "has_audio e \<Longrightarrow> track_ok e VID_AUDIO"
  by (simp add: track_ok_def has_audio_def)

lemma moov_children:
  assumes e: "env_ok e" and fit: "moov_used e < 2 ^ 32"
  defines "s1 \<equiv> \<lambda>m p. size_add p (enx_mp4_header_mvhd e) (m, sizeof_FCC_CB_t)"
  defines "s2 \<equiv> \<lambda>m p. if mp4_option (mp4a e) AND VID_VIDEO \<noteq> 0
    then size_add p (enx_mp4_header_trak e VID_VIDEO) (s1 m p) else s1 m p"
  defines "s3 \<equiv> \<lambda>m p. if has_audio e
    then size_add p (enx_mp4_header_trak e VID_AUDIO) (s2 m p) else s2 m p"
  shows "built m p 8 (sers (box_mvhd e # traks e)) (s3 m p)"
proof -
  let ?v = "if mp4_option (mp4a e) AND VID_VIDEO \<noteq> 0 then [box_trak e VID_VIDEO] else []"
  have tr: "fits b" if "b \<in> set (traks e)" for b
    by (rule fits_child [of "[]" "[]" "traks e", OF _ that])
      (use fit in \<open>simp add: fits_Box moov_used_def\<close>)
  have 1: "built m p 8 (sers [box_mvhd e]) (s1 m p)"
    using built_child [OF built_sizeof mvhd_ser] by (simp add: s1_def)
  have 2: "built m p 8 (sers (box_mvhd e # ?v)) (s2 m p)"
    using 1 built_child [OF 1 trak_ser [OF e trak_video_ok tr]] fit
    by (simp add: s2_def moov_used_def traks_def)
  have "8 + length (sers (box_mvhd e # ?v)) < 2 ^ 32"
    using fit by (auto simp: moov_used_def traks_def)
  from 2 built_child [OF 2 trak_ser [OF e has_audio_ok tr] this] show ?thesis
    by (cases "has_audio e") (auto simp: s3_def traks_def)
qed

lemma moov_ser:
  assumes e: "env_ok e" and fit: "moov_fits e"
  shows "enx_mp4_header_moov e m p =
    (let b = box_moov e (load m (p + moov_used e + 8) (moov_pad e)) in
      (store m p (ser b), of_nat (length (ser b))))"
proof -
  let ?B = "sers (box_mvhd e # traks e)"
  have lim: "moov_used e < 2 ^ 32"
    using fit unat_u32_less [of "hdr_size (but_t e)"] by (simp add: moov_fits_def)
  have s3: "size_add p (enx_mp4_header_free hf) (store m (p + 8) ?B, of_nat (moov_used e)) =
      (store m (p + 8) (?B @ ser (Box (str ''free'') (load m (p + moov_used e + 8) (unat hf)) [])),
       of_nat (moov_used e) + (8 + hf))" for hf
  proof -
    have "load (store m (p + 8) ?B) (p + moov_used e + 8) n = load m (p + moov_used e + 8) n" for n
      by (rule load_store_after) (simp add: moov_used_def)
    then show ?thesis
      using lim
      by (simp add: size_add_def free_ser Let_def ser_Box) (simp add: store_append moov_used_def)
  qed
  let ?hf = "hdr_size (but_t e) - hdr_len (but_t e) - of_nat (moov_used e) - 16 :: u32"
  have hf': "?hf = of_nat (moov_pad e)"
    using fit by (simp add: moov_pad_def moov_fits_def of_nat_diff)
  have hf: "unat ?hf = moov_pad e"
  proof -
    have "moov_pad e < 2 ^ 32"
      using unat_u32_less [of "hdr_size (but_t e)"] by (simp add: moov_pad_def)
    with hf' show ?thesis by simp
  qed
  have "enx_mp4_header_moov e m p = put_box p ''moov'' []
      (size_add p (enx_mp4_header_free ?hf) (store m (p + 8) ?B, of_nat (moov_used e)))"
    unfolding enx_mp4_header_moov_def Let_def
      moov_children [OF e lim, of m p, unfolded built_def moov_used_def [symmetric]] snd_conv ..
  also have "\<dots> = put_box p ''moov'' []
      (store m (p + 8) (?B @ ser (Box (str ''free'') (load m (p + moov_used e + 8) (moov_pad e)) [])),
       of_nat (moov_used e) + (8 + of_nat (moov_pad e)))"
    by (simp only: s3 hf) (simp only: hf')
  finally have w: "enx_mp4_header_moov e m p = \<dots>" .
  have "built m p 8 (sers (box_mvhd e # traks e @
        [Box (str ''free'') (load m (p + moov_used e + 8) (moov_pad e)) []]))
      (store m (p + 8) (?B @ ser (Box (str ''free'') (load m (p + moov_used e + 8) (moov_pad e)) [])),
       of_nat (moov_used e) + (8 + of_nat (moov_pad e)))"
    by (simp add: moov_used_def built_def length_ser_Box)
  from built_put [OF this] show ?thesis
    by (simp only: w) (simp add: Let_def box_moov_def)
qed

section \<open>The whole header\<close>

text \<open>
  The parameters as \<open>moov\<close> sees them, behind the 32 bytes of \<open>ftyp\<close>; the trees of the header;
  and its bytes. The last eight bytes open the \<open>mdat\<close> box, whose payload follows in the file.
\<close>

definition header_env :: "mp4_env \<Rightarrow> t_mp4_t \<Rightarrow> t_videnc_totalbuf_t \<Rightarrow> mp4_env" where
  "header_env e v b = mp4_init_header_build e v (b\<lparr>hdr_len := 32\<rparr>)"

definition header_boxes :: "mp4_env \<Rightarrow> t_mp4_t \<Rightarrow> t_videnc_totalbuf_t \<Rightarrow> mem \<Rightarrow> box list" where
  "header_boxes e v b m = (let E = header_env e v b in
     [box_ftyp, box_moov E (load m (hdr_info b + 32 + moov_used E + 8) (moov_pad E))])"

definition header_bytes :: "mp4_env \<Rightarrow> t_mp4_t \<Rightarrow> t_videnc_totalbuf_t \<Rightarrow> mem \<Rightarrow> bytes" where
  "header_bytes e v b m =
     sers (header_boxes e v b m) @ be32 (8 + mdat_size v) @ str ''mdat''"

definition header_ok :: "mp4_env \<Rightarrow> t_mp4_t \<Rightarrow> t_videnc_totalbuf_t \<Rightarrow> bool" where
  "header_ok e v b \<longleftrightarrow> vid_ok v \<and> stbl_ok (Vstbl b) \<and> stbl_ok (Astbl b) \<and>
     moov_fits (header_env e v b)"

lemma header_env_simps [simp]:
  "mp4a (header_env e v b) = v" "but_t (header_env e v b) = b\<lparr>hdr_len := 32\<rparr>"
  "FAT_SDSAVE_AUD (header_env e v b) = FAT_SDSAVE_AUD e"
  by (simp_all add: header_env_def mp4_init_header_build_def)

lemma header_env_ok: "header_ok e v b \<Longrightarrow> env_ok (header_env e v b)"
  by (simp add: header_ok_def env_ok_def)

lemma length_ftyp [simp]: "length (ser box_ftyp) = 32"
  by (simp add: box_ftyp_def length_ser_Box)

lemma length_header_bytes:
  assumes "header_ok e v b"
  shows "length (header_bytes e v b m) = unat (hdr_size b)"
proof -
  have "moov_fits (header_env e v b)" using assms by (simp add: header_ok_def)
  from length_moov [OF this] this show ?thesis
    by (simp add: header_bytes_def header_boxes_def Let_def moov_fits_def)
qed

lemma write_header_store:
  assumes ok: "header_ok e v b"
  shows "mp4_write_header e v b m =
    (store m (hdr_info b) (header_bytes e v b m),
     b\<lparr>hdr_len := hdr_size b + mdat_size v\<rparr>, hdr_info b)"
proof -
  let ?E = "header_env e v b" and ?d = "hdr_info b"
  let ?f = "ser box_ftyp"
  have fit: "moov_fits ?E" using ok by (simp add: header_ok_def)
  let ?moov = "\<lambda>m. box_moov ?E (load m (40 + (?d + moov_used ?E)) (moov_pad ?E))"
  have pad: "load (store m ?d ?f) (40 + (?d + moov_used ?E)) n
      = load m (40 + (?d + moov_used ?E)) n" for n
    by (rule load_store_after) simp
  have len: "length (ser (box_moov ?E (load m' q (moov_pad ?E)))) = unat (hdr_size b) - 40" for m' q
    using length_moov [OF fit] by simp
  have H: "40 \<le> unat (hdr_size b)" using fit by (simp add: moov_fits_def)
  have n: "of_nat (unat (hdr_size b) - 40) = hdr_size b - 40"
    using H by (simp add: of_nat_diff)
  have E1: "?E\<lparr>but_t := b\<lparr>hdr_len := 32\<rparr>\<rparr> = ?E"
    by (simp add: header_env_def mp4_init_header_build_def)
  have 1: "enx_mp4_header_ftyp m ?d = (store m ?d ?f, 32)"
    using ftyp_ser by (simp add: writes_def)
  have 2: "enx_mp4_header_moov ?E (store m ?d ?f) (?d + 32) =
      (store m ?d (?f @ ser (?moov m)), hdr_size b - 40)"
    by (simp add: moov_ser [OF header_env_ok [OF ok] fit] Let_def pad len n store_append)
  have u: "unat (hdr_size b - 8) = unat (hdr_size b) - 8"
  proof -
    have "hdr_size b - 8 = of_nat (unat (hdr_size b) - 8)"
      using H by (simp add: of_nat_diff)
    then show ?thesis
      using unat_u32_less [of "hdr_size b"] by simp
  qed
  have 3: "enx_mp4_header_mdat (?E\<lparr>but_t := b'\<rparr>) (store m ?d (?f @ ser (?moov m)))
        (?d + (unat (hdr_size b) - 8)) =
      (store m ?d (header_bytes e v b m), 8 + mdat_size v)" for b'
    using H by (simp add: mdat_ser store_append len header_bytes_def header_boxes_def Let_def)
  have E3: "(mp4_init_header_build e v b)\<lparr>but_t := b'\<rparr> = ?E\<lparr>but_t := b'\<rparr>" for b'
    by (simp add: header_env_def mp4_init_header_build_def)
  show ?thesis
    by (simp add: mp4_write_header_def Let_def 1 E3 E1 2 u 3)
qed

section \<open>An example recording\<close>

text \<open>Two H.264 frames, the first a key frame, in a header buffer of 4096 bytes at address 0.\<close>

definition ex_env :: mp4_env where
  "ex_env = \<lparr>m_dwTimescale = 0, v_dwSampleCount = 0, v_dwDuration = 0, a_dwSampleCount = 0,
     a_dwDuration = 0, mp4a = undefined, but_t = undefined, TIME = 0x60000000,
     eCodec = (\<lambda>_. e_vcodecH264), FAT_SDSAVE_AUD = False\<rparr>"

definition ex_mp4 :: t_mp4_t where
  "ex_mp4 = \<lparr>mp4_option = 1, i_width = 1920, i_height = 1080, f_fps = 30, v_type = 0,
     un32vidicount = 1, un32vidscount = 2, un32audscount = 0, un32txtscount = 0,
     un32vidsmax = 900, un32audsmax = 0, un32txtsmax = 0, un32totalmax = 900, un32maxtime = 30,
     vps_size = 0, sps_size = 4, pps_size = 2, vps_data = replicate 32 0,
     sps_data = [0x67, 0x42, 0x00, 0x1F] @ replicate 60 0, pps_data = [0x68, 0xCE] @ replicate 6 0,
     mdat_size = 30\<rparr>"

definition ex_stbl :: MP4HeaderSTBL where
  "ex_stbl = \<lparr>stbl_size = 900, stss_len = 1, stss = [0x01000000, 0],
     stsz_len = 2, stsz = [0x14000000, 0x0A000000], stco_len = 2, stco = [0x00100000, 0x14100000]\<rparr>"

definition ex_totalbuf :: t_videnc_totalbuf_t where
  "ex_totalbuf = \<lparr>wbuf = [], buf = 0, base = 0, blength = 0, total = 512, hdr_size = 4096,
     hdr_len = 0, hdr_info = 0, Vstbl = ex_stbl,
     Astbl = \<lparr>stbl_size = 0, stss_len = 0, stss = [], stsz_len = 0, stsz = [], stco_len = 0,
       stco = []\<rparr>\<rparr>"

lemmas ex_defs = ex_env_def ex_mp4_def ex_stbl_def ex_totalbuf_def

lemmas box_defs =
  box_mvhd_def box_tkhd_def box_edts_def box_mdhd_def box_hdlr_def box_vmhd_def box_smhd_def
  box_dinf_def box_avcc_def box_hvcc_def visual_entry_def box_entry_def box_stts_def box_stsc_def
  box_stss_def box_stsz_def box_stco_def box_stbl_def box_trak_def traks_def

lemma length_table: "length (table n ws) = 4 * min (unat n) (length ws)"
  by (simp add: table_def)

lemma ex_header_ok: "header_ok ex_env ex_mp4 ex_totalbuf"
  by (simp add: header_ok_def ex_defs vid_ok_def stbl_ok_def moov_fits_def moov_used_def
      header_env_def mp4_init_header_build_def box_defs length_ser_Box length_table has_audio_def
      VID_VIDEO_def matrix9_def Let_def)

section \<open>Reading the header back\<close>

text \<open>Boxes that hold boxes, with the number of field bytes in front of them.\<close>

definition mp4_containers :: "bytes \<Rightarrow> nat option" where
  "mp4_containers t =
     (if t \<in> {str ''moov'', str ''trak'', str ''edts'', str ''mdia'', str ''minf'', str ''dinf'', str ''stbl''}
      then Some 0
      else if t \<in> {str ''dref'', str ''stsd''} then Some 8
      else if t \<in> {str ''avc1'', str ''hev1''} then Some 78
      else None)"

lemma mp4_containers_simps [simp]:
  "mp4_containers (str ''ftyp'') = None" "mp4_containers (str ''moov'') = Some 0"
  "mp4_containers (str ''mvhd'') = None" "mp4_containers (str ''trak'') = Some 0"
  "mp4_containers (str ''tkhd'') = None" "mp4_containers (str ''edts'') = Some 0"
  "mp4_containers (str ''elst'') = None" "mp4_containers (str ''mdia'') = Some 0"
  "mp4_containers (str ''mdhd'') = None" "mp4_containers (str ''hdlr'') = None"
  "mp4_containers (str ''minf'') = Some 0" "mp4_containers (str ''vmhd'') = None"
  "mp4_containers (str ''smhd'') = None" "mp4_containers (str ''dinf'') = Some 0"
  "mp4_containers (str ''dref'') = Some 8" "mp4_containers (str ''url '') = None"
  "mp4_containers (str ''stbl'') = Some 0" "mp4_containers (str ''stsd'') = Some 8"
  "mp4_containers (str ''avc1'') = Some 78" "mp4_containers (str ''hev1'') = Some 78"
  "mp4_containers (str ''avcC'') = None" "mp4_containers (str ''hvcC'') = None"
  "mp4_containers (str ''twos'') = None" "mp4_containers (str ''stts'') = None"
  "mp4_containers (str ''stsc'') = None" "mp4_containers (str ''stss'') = None"
  "mp4_containers (str ''stsz'') = None" "mp4_containers (str ''stco'') = None"
  "mp4_containers (str ''free'') = None" "mp4_containers (str ''mdat'') = None"
  by (simp_all add: mp4_containers_def)

lemma shaped_trak: "shaped mp4_containers (box_trak e vid)"
  by (simp add: box_defs Let_def split: VideoCodec.split)

lemma shaped_moov: "shaped mp4_containers (box_moov e pad)"
  by (simp add: box_moov_def traks_def shaped_trak) (simp add: box_mvhd_def)

lemma depth_trak: "depth (box_trak e vid) \<le> 8"
  by (simp add: box_defs Let_def split: VideoCodec.split)

lemma depth_moov: "depth (box_moov e pad) \<le> 9"
  using depth_trak [of e VID_VIDEO] depth_trak [of e VID_AUDIO]
  by (auto simp: box_moov_def traks_def box_mvhd_def)

lemma wf_header_boxes:
  assumes "header_ok e v b"
  shows "list_all (wf_box mp4_containers) (header_boxes e v b m)"
proof -
  have fit: "moov_fits (header_env e v b)" using assms by (simp add: header_ok_def)
  have "length (ser x) < 2 ^ 32" if "x \<in> set (header_boxes e v b m)" for x
    using that length_moov [OF fit] unat_u32_less [of "hdr_size b"]
    by (auto simp: header_boxes_def Let_def)
  then show ?thesis
    by (auto simp: header_boxes_def Let_def box_ftyp_def list_all_iff
        intro!: wf_box_shaped shaped_moov)
qed

lemma depth_header_boxes: "x \<in> set (header_boxes e v b m) \<Longrightarrow> depth x \<le> 9"
  using depth_moov by (auto simp: header_boxes_def Let_def box_ftyp_def)

text \<open>The header and the samples behind it read as three top-level boxes.\<close>

lemma header_parses:
  assumes "header_ok e v b" and "length payload = unat (mdat_size v)" and "8 + length payload < 2 ^ 32"
  shows "\<exists>moov. parse_boxes (header_bytes e v b m @ payload)
    = Some [(str ''ftyp'', bhdr box_ftyp), (str ''moov'', moov), (str ''mdat'', payload)]"
proof -
  have "be32 (8 + mdat_size v) = be32 (of_nat (8 + length payload))"
    by (simp add: assms(2))
  with parse_boxes_step [OF _ assms(3), of "str ''mdat''" "[]"]
  have "parse_boxes (be32 (8 + mdat_size v) @ str ''mdat'' @ payload) = Some [(str ''mdat'', payload)]"
    by simp
  with parse_boxes_sers_append [OF wf_header_boxes [OF assms(1), of m]]
  show ?thesis
    by (auto simp: header_bytes_def header_boxes_def Let_def box_moov_def box_ftyp_def)
qed

end
