(* ===== verification/Mp4Props.thy ===== *)
theory Mp4Props
  imports Mp4Spec
begin

text \<open>
  The properties of the MP4 header builder \<open>task/videnc/fmt_mp4enc.c\<close>: the header fills its buffer
  exactly and touches nothing else, the file it opens is a sequence of ISO boxes, and the tree of
  boxes is the one the recording's parameters call for; and what the \<open>hvcC\<close> writer reads.
\<close>

text \<open>C1: Building the header of a recording stores the serialised \<open>ftyp\<close> and \<open>moov\<close> trees, the
  padding included, followed by the opening of \<open>mdat\<close>, in exactly the \<open>hdr_size\<close> bytes at
  \<open>hdr_info\<close>; no other byte of memory changes, and \<open>hdr_len\<close> becomes the size of the whole file.\<close>

theorem mp4_write_header_layout:
  assumes "header_ok e v b"
    and "mp4_write_header e v b m = (m', b', a)"
  shows "load m' (hdr_info b) (unat (hdr_size b)) = header_bytes e v b m
    \<and> (\<forall>q. q < hdr_info b \<or> hdr_info b + unat (hdr_size b) \<le> q \<longrightarrow> m' q = m q)
    \<and> hdr_len b' = hdr_size b + mdat_size v \<and> a = hdr_info b"
proof -
  have "m' = store m (hdr_info b) (header_bytes e v b m)"
    and "b' = b\<lparr>hdr_len := hdr_size b + mdat_size v\<rparr>" and "a = hdr_info b"
    using write_header_store [OF assms(1), of m] assms(2) by simp_all
  then show ?thesis
    using length_header_bytes [OF assms(1), of m]
    by (auto simp: load_store_same store_outside)
qed

lemma mp4_write_header_layout_witness:
  "\<exists>m' b' a. mp4_write_header ex_env ex_mp4 ex_totalbuf (\<lambda>_. 0) = (m', b', a)
     \<and> hdr_len b' = hdr_size ex_totalbuf + mdat_size ex_mp4 \<and> m' 5000 = 0"
proof -
  obtain m' b' a where w: "mp4_write_header ex_env ex_mp4 ex_totalbuf (\<lambda>_. 0) = (m', b', a)"
    by (metis prod_cases3)
  from mp4_write_header_layout [OF ex_header_ok w] w show ?thesis
    by (auto simp: ex_totalbuf_def)
qed

text \<open>A file that consists of the header and \<open>mdat_size\<close> bytes of samples reads as exactly
  three top-level boxes \<open>ftyp\<close>, \<open>moov\<close> and \<open>mdat\<close>, the last holding exactly the samples.\<close>

theorem mp4_file_parses:
  assumes "header_ok e v b"
    and "mp4_write_header e v b m = (m', b', a)"
    and "length payload = unat (mdat_size v)" and "8 + length payload < 2 ^ 32"
  shows "\<exists>moov. parse_boxes (load m' (hdr_info b) (unat (hdr_size b)) @ payload)
    = Some [(str ''ftyp'', bhdr box_ftyp), (str ''moov'', moov), (str ''mdat'', payload)]"
proof -
  have "m' = store m (hdr_info b) (header_bytes e v b m)"
    using write_header_store [OF assms(1), of m] assms(2) by simp
  then have l: "load m' (hdr_info b) (unat (hdr_size b)) = header_bytes e v b m"
    by (simp add: length_header_bytes [OF assms(1)] load_store_same)
  with header_parses [OF assms(1,3,4)] show ?thesis by simp
qed

lemma mp4_file_parses_witness:
  "\<exists>m' b' a moov. mp4_write_header ex_env ex_mp4 ex_totalbuf (\<lambda>_. 0) = (m', b', a)
     \<and> parse_boxes (load m' 0 4096 @ replicate 30 7)
       = Some [(str ''ftyp'', bhdr box_ftyp), (str ''moov'', moov), (str ''mdat'', replicate 30 7)]"
proof -
  obtain m' b' a where w: "mp4_write_header ex_env ex_mp4 ex_totalbuf (\<lambda>_. 0) = (m', b', a)"
    by (metis prod_cases3)
  have "length (replicate 30 (7 :: u8)) = unat (mdat_size ex_mp4)"
    and "8 + length (replicate 30 (7 :: u8)) < 2 ^ 32"
    by (simp_all add: ex_mp4_def)
  from mp4_file_parses [OF ex_header_ok w this] w show ?thesis
    by (simp add: ex_totalbuf_def)
qed

text \<open>C2: Reading the header's bytes up to \<open>mdat\<close> as a tree of boxes gives back the intended tree:
  every container size, at every level, matches what its writer put inside.\<close>

theorem mp4_header_tree:
  assumes "header_ok e v b"
    and "mp4_write_header e v b m = (m', b', a)"
  shows "parse_tree mp4_containers 10 (load m' (hdr_info b) (unat (hdr_size b) - 8))
    = Some (header_boxes e v b m)"
proof -
  have "m' = store m (hdr_info b) (header_bytes e v b m)"
    using write_header_store [OF assms(1), of m] assms(2) by simp
  moreover have "unat (hdr_size b) - 8 = length (sers (header_boxes e v b m))"
    using length_header_bytes [OF assms(1), of m] by (simp add: header_bytes_def)
  ultimately have "load m' (hdr_info b) (unat (hdr_size b) - 8) = sers (header_boxes e v b m)"
    using load_prefix [of "unat (hdr_size b) - 8" "unat (hdr_size b)" m' "hdr_info b"]
    by (simp add: length_header_bytes [OF assms(1), of m, symmetric] load_store_same)
      (simp add: header_bytes_def)
  with parse_tree_sers [OF wf_header_boxes [OF assms(1)], of m 9] show ?thesis
    by (simp add: depth_header_boxes del: parse_tree.simps)
qed

lemma mp4_header_tree_witness:
  "\<exists>m' b' a. mp4_write_header ex_env ex_mp4 ex_totalbuf (\<lambda>_. 0) = (m', b', a)
     \<and> parse_tree mp4_containers 10 (load m' 0 4088)
       = Some (header_boxes ex_env ex_mp4 ex_totalbuf (\<lambda>_. 0))"
proof -
  obtain m' b' a where w: "mp4_write_header ex_env ex_mp4 ex_totalbuf (\<lambda>_. 0) = (m', b', a)"
    by (metis prod_cases3)
  from mp4_header_tree [OF ex_header_ok w] w show ?thesis
    by (simp add: ex_totalbuf_def)
qed

section \<open>The profile bytes of \<open>hvcC\<close>\<close>

lemma helper_step:
  "\<exists>i' z'. helper_3byte_zero_nalunit vps (i, z) = (i', z') \<and> i + 1 \<le> i' \<and> z' \<le> z + 1 \<and>
     (z \<le> 1 \<longrightarrow> z' \<le> 1 \<and> 2 * i' + z' \<le> 2 * i + z + 3)"
  by auto

lemma helper_steps:
  "\<exists>i z. (helper_3byte_zero_nalunit vps ^^ k) (i0, 0) = (i, z) \<and> i0 + k \<le> i \<and> z \<le> 1 \<and>
     2 * i + z \<le> 2 * i0 + 3 * k"
proof (induction k)
  case 0
  then show ?case by simp
next
  case (Suc k)
  then obtain i z where s: "(helper_3byte_zero_nalunit vps ^^ k) (i0, 0) = (i, z)"
    "i0 + k \<le> i" "z \<le> 1" "2 * i + z \<le> 2 * i0 + 3 * k" by blast
  from helper_step [of vps i z] s show ?case by auto
qed

lemma hvcc_profile_map:
  "hvcc_profile n vps s = map (\<lambda>k. vps ! fst ((helper_3byte_zero_nalunit vps ^^ k) s)) [0..<n]"
proof (induction n arbitrary: s)
  case 0
  then show ?case by simp
next
  case (Suc n)
  have "map (\<lambda>k. vps ! fst ((helper_3byte_zero_nalunit vps ^^ k) s)) [0..<Suc n] =
      vps ! fst s # map (\<lambda>k. vps ! fst ((helper_3byte_zero_nalunit vps ^^ Suc k) s)) [0..<n]"
    by (simp only: upt_conv_Cons [OF zero_less_Suc] map_Suc_upt [symmetric]) (simp add: comp_def)
  then show ?case by (simp add: Suc funpow_swap1)
qed

text \<open>The eleven profile bytes of \<open>hvcC\<close> are read at strictly increasing positions of the
  VPS, the \<open>k\<close>-th between \<open>6 + k\<close> and \<open>6 + k + k div 2\<close>, so never outside the 32 bytes of
  \<open>vps_data\<close>, whatever the VPS holds.\<close>

theorem hvcc_reads_in_vps:
  assumes "k < 11"
  shows "hvcc_profile 11 vps (6, 0) ! k = vps ! fst ((helper_3byte_zero_nalunit vps ^^ k) (6, 0))
    \<and> 6 + k \<le> fst ((helper_3byte_zero_nalunit vps ^^ k) (6, 0))
    \<and> fst ((helper_3byte_zero_nalunit vps ^^ k) (6, 0)) \<le> 6 + k + k div 2
    \<and> fst ((helper_3byte_zero_nalunit vps ^^ k) (6, 0)) < 32"
proof -
  obtain i z where s: "(helper_3byte_zero_nalunit vps ^^ k) (6, 0) = (i, z)"
    "6 + k \<le> i" "2 * i + z \<le> 12 + 3 * k"
    using helper_steps [of k vps 6] by auto
  moreover from s(3) have "i \<le> 6 + k + k div 2" by linarith
  moreover from s(3) assms have "i < 32" by linarith
  ultimately show ?thesis
    using assms by (simp add: hvcc_profile_map)
qed

lemma hvcc_reads_in_vps_witness:
  "fst ((helper_3byte_zero_nalunit (replicate 32 0) ^^ 10) (6, 0)) \<le> 21"
  using hvcc_reads_in_vps [of 10 "replicate 32 0"] by simp

text \<open>Removal of emulation prevention bytes, and the VPS of a Main profile stream.\<close>

fun unescape :: "nat \<Rightarrow> bytes \<Rightarrow> bytes" where
  "unescape z [] = []"
| "unescape z (b # bs) =
     (if 2 \<le> z \<and> b = 3 then unescape 0 bs
      else b # unescape (if b = 0 then z + 1 else 0) bs)"

definition main_vps :: bytes where
  "main_vps = [0x40, 0x01, 0x0c, 0x01, 0xff, 0xff, 0x01, 0x60, 0x00, 0x00, 0x03, 0x00, 0x90,
     0x00, 0x00, 0x03, 0x00, 0x00, 0x03, 0x00, 0x5d, 0x95, 0x98, 0x09]"

text \<open>The macro that steps over the VPS never resets its count on a non-zero byte, so two zeros
  that are not adjacent make it skip a byte: on the VPS of a Main profile stream the constraint
  flags it stores still hold an emulation prevention byte and differ from the unescaped ones.\<close>

theorem hvcc_profile_skips_data:
  "hvcc_profile 11 main_vps (6, 0) = [0x01, 0x60, 0, 0, 0, 0x90, 0, 0x03, 0, 0, 0]
   \<and> take 11 (drop 6 (unescape 0 main_vps)) = [0x01, 0x60, 0, 0, 0, 0x90, 0, 0, 0, 0, 0]"
  by code_simp

end
