(* ===== verification/Ring.thy ===== *)
theory Ring
  imports Prelude
begin

text \<open>
  The ring buffers of the firmware. The macros \<open>num_loop\<close>, \<open>cQueue_isfull\<close> and \<open>cQueue_isempty\<close> of
  \<open>dev_types.h\<close> work on the head, tail and capacity of any queue structure; the lemmas relate
  them to the list of queued elements. The locale \<open>fifo\<close> is what the users of a queue rely on; it
  is interpreted by the stream buffer (\<open>StreamBuf\<close>) and the RTP queue (\<open>RtpQueue\<close>).
\<close>

section \<open>The macros\<close>

definition num_loop :: "u32 \<Rightarrow> u32 \<Rightarrow> u32" where
  "num_loop val limit = (let val = val + 1 in if val \<ge> limit then 0 else val)"

definition cQueue_isfull :: "u32 \<Rightarrow> u32 \<Rightarrow> u32 \<Rightarrow> bool" where
  "cQueue_isfull head tail tot_num \<longleftrightarrow> (tail + 1) mod tot_num = head"

definition cQueue_isempty :: "u32 \<Rightarrow> u32 \<Rightarrow> bool" where
  "cQueue_isempty head tail \<longleftrightarrow> head = tail"

section \<open>The queued elements\<close>

definition ring_ok :: "u32 \<Rightarrow> u32 \<Rightarrow> u32 \<Rightarrow> 'a list \<Rightarrow> bool" where
  "ring_ok head tail tot_num data \<longleftrightarrow>
     head < tot_num \<and> tail < tot_num \<and> length data = unat tot_num"

definition ring_len :: "nat \<Rightarrow> nat \<Rightarrow> nat \<Rightarrow> nat" where
  "ring_len h t n = (if h \<le> t then t - h else t + n - h)"

definition ring_items :: "u32 \<Rightarrow> u32 \<Rightarrow> 'a list \<Rightarrow> 'a list" where
  "ring_items head tail data =
     map (\<lambda>i. data ! ((unat head + i) mod length data))
       [0..<ring_len (unat head) (unat tail) (length data)]"

lemma unat_num_loop:
  assumes "v < m"
  shows "unat (num_loop v m) = (if unat v + 1 = unat m then 0 else unat v + 1)"
    and "num_loop v m < m"
proof -
  have "unat v < unat m" using assms by (simp add: word_less_nat_alt)
  then have s: "unat (v + 1) = unat v + 1"
    using unat_u32_less [of m] by (simp add: unat_word_ariths)
  with \<open>unat v < unat m\<close> show "unat (num_loop v m) = (if unat v + 1 = unat m then 0 else unat v + 1)"
    by (auto simp: num_loop_def Let_def word_le_nat_alt)
  with \<open>unat v < unat m\<close> show "num_loop v m < m"
    by (simp add: word_less_nat_alt split: if_splits)
qed

lemma length_ring_items: "length (ring_items h t d) = ring_len (unat h) (unat t) (length d)"
  by (simp add: ring_items_def)

lemma ring_ok_iff:
  "ring_ok h t n d \<longleftrightarrow> unat h < length d \<and> unat t < length d \<and> length d = unat n"
  by (auto simp: ring_ok_def word_less_nat_alt)

lemma ring_okD:
  assumes "ring_ok h t n d"
  shows "unat h < length d" and "unat t < length d" and "length d = unat n"
  using assms by (auto simp: ring_ok_def word_less_nat_alt)

lemma ring_len_less: "ring_ok h t n d \<Longrightarrow> length (ring_items h t d) < length d"
  by (auto simp: ring_ok_iff length_ring_items ring_len_def)

lemma ring_empty:
  "ring_ok h t n d \<Longrightarrow> cQueue_isempty h t \<longleftrightarrow> ring_items h t d = []"
  by (auto simp: ring_ok_iff cQueue_isempty_def ring_items_def ring_len_def word_unat_eq_iff)

lemma ring_full:
  assumes "ring_ok h t n d"
  shows "cQueue_isfull h t n \<longleftrightarrow> length (ring_items h t d) + 1 = length d"
proof -
  note ok = ring_okD [OF assms]
  have s: "unat (t + 1) = unat t + 1"
    using ok unat_u32_less [of n] by (simp add: unat_word_ariths)
  have "unat ((t + 1) mod n) = (unat t + 1) mod length d"
    by (simp add: unat_mod_distrib s ok(3))
  then show ?thesis
    using ok by (auto simp: cQueue_isfull_def word_unat_eq_iff length_ring_items ring_len_def mod_if)
qed

lemma ring_get:
  assumes ok: "ring_ok h t n d" and ne: "\<not> cQueue_isempty h t"
  shows "ring_items h t d = d ! unat h # ring_items (num_loop h n) t d"
    and "ring_ok (num_loop h n) t n d"
proof -
  note bd = ring_okD [OF ok]
  have h: "h < n" using ok by (simp add: ring_ok_def)
  have nl: "unat (num_loop h n) = (if unat h + 1 = length d then 0 else unat h + 1)"
    using unat_num_loop(1) [OF h] bd(3) by simp
  show "ring_ok (num_loop h n) t n d"
    using ok unat_num_loop(2) [OF h] by (simp add: ring_ok_def)
  have "unat h \<noteq> unat t" using ne by (simp add: cQueue_isempty_def word_unat_eq_iff)
  then have len: "ring_len (unat h) (unat t) (length d)
      = Suc (ring_len (unat (num_loop h n)) (unat t) (length d))"
    using bd by (auto simp: ring_len_def nl)
  show "ring_items h t d = d ! unat h # ring_items (num_loop h n) t d"
  proof (rule nth_equalityI)
    show "length (ring_items h t d) = length (d ! unat h # ring_items (num_loop h n) t d)"
      by (simp add: length_ring_items len)
    fix i assume i: "i < length (ring_items h t d)"
    show "ring_items h t d ! i = (d ! unat h # ring_items (num_loop h n) t d) ! i"
    proof (cases i)
      case 0
      with i bd show ?thesis by (simp add: ring_items_def)
    next
      case (Suc j)
      have "(unat h + Suc j) mod length d = (unat (num_loop h n) + j) mod length d"
      proof (cases "unat h + 1 = length d")
        case True
        then have "unat h + Suc j = length d + j" by simp
        then have "(unat h + Suc j) mod length d = j mod length d" by (metis mod_add_self1)
        with True show ?thesis by (simp add: nl)
      qed (simp add: nl)
      with Suc i show ?thesis by (simp add: ring_items_def len del: upt_Suc)
    qed
  qed
qed

lemma ring_put:
  assumes ok: "ring_ok h t n d" and nf: "\<not> cQueue_isfull h t n"
  shows "ring_items h (num_loop t n) (d[unat t := x]) = ring_items h t d @ [x]"
proof -
  note bd = ring_okD [OF ok]
  have t: "t < n" using ok by (simp add: ring_ok_def)
  have nl: "unat (num_loop t n) = (if unat t + 1 = length d then 0 else unat t + 1)"
    using unat_num_loop(1) [OF t] bd(3) by simp
  have room: "ring_len (unat h) (unat t) (length d) + 1 < length d"
    using nf ring_full [OF ok] ring_len_less [OF ok] by (simp add: length_ring_items)
  then have len: "ring_len (unat h) (unat (num_loop t n)) (length d)
      = Suc (ring_len (unat h) (unat t) (length d))"
    using bd by (auto simp: ring_len_def nl split: if_splits)
  show ?thesis
  proof (rule nth_equalityI)
    show "length (ring_items h (num_loop t n) (d[unat t := x])) = length (ring_items h t d @ [x])"
      by (simp add: length_ring_items len)
    fix i assume i: "i < length (ring_items h (num_loop t n) (d[unat t := x]))"
    let ?k = "ring_len (unat h) (unat t) (length d)"
    have at: "(unat h + j) mod length d = unat t \<longleftrightarrow> j = ?k" if "j \<le> ?k" for j
      using that room bd by (auto simp: ring_len_def mod_if split: if_splits)
    from i have "i \<le> ?k" by (simp add: length_ring_items len)
    then show "ring_items h (num_loop t n) (d[unat t := x]) ! i = (ring_items h t d @ [x]) ! i"
      using at [of i] bd(1,2) by (auto simp: ring_items_def len nth_append nth_list_update)
  qed
qed

lemma ring_ok_put:
  "ring_ok h t n d \<Longrightarrow> ring_ok h (num_loop t n) n (d[unat t := x])"
  using unat_num_loop(2) [of t n] by (simp add: ring_ok_def)

text \<open>Writing into a full ring makes it look empty.\<close>

lemma ring_put_full:
  assumes ok: "ring_ok h t n d" and f: "cQueue_isfull h t n"
  shows "ring_items h (num_loop t n) d' = []"
proof -
  note bd = ring_okD [OF ok]
  have t: "t < n" using ok by (simp add: ring_ok_def)
  have "unat h = unat (num_loop t n)"
    using f ring_full [OF ok] bd unat_num_loop(1) [OF t]
    by (auto simp: length_ring_items ring_len_def split: if_splits)
  then show ?thesis by (simp add: ring_items_def ring_len_def)
qed

section \<open>The contract of a bounded queue\<close>

text \<open>
  What a client may rely on: as long as there is room a put appends, and a get takes the oldest
  element or reports that there is none. \<open>None\<close> of a put would be a call that does not return.
\<close>

datatype 'a qev = Put 'a | Get

fun puts :: "'a qev list \<Rightarrow> 'a list" where
  "puts [] = []"
| "puts (Put x # es) = x # puts es"
| "puts (Get # es) = puts es"

text \<open>A run of puts and gets; the outputs are the elements the gets return.\<close>

fun qrun :: "('s \<Rightarrow> 'a \<Rightarrow> 's option) \<Rightarrow> ('s \<Rightarrow> ('a \<times> 's) option) \<Rightarrow> 'a qev list \<Rightarrow> 's \<Rightarrow>
    ('a list \<times> 's) option" where
  "qrun put get [] s = Some ([], s)"
| "qrun put get (Put x # es) s =
     (case put s x of None \<Rightarrow> None | Some s' \<Rightarrow> qrun put get es s')"
| "qrun put get (Get # es) s =
     (case get s of None \<Rightarrow> qrun put get es s
      | Some (x, s') \<Rightarrow> map_option (\<lambda>(xs, s''). (x # xs, s'')) (qrun put get es s'))"

locale fifo =
  fixes ok :: "'s \<Rightarrow> bool"
    and items :: "'s \<Rightarrow> 'a list"
    and slots :: "'s \<Rightarrow> nat"
    and put :: "'s \<Rightarrow> 'a \<Rightarrow> 's option"
    and get :: "'s \<Rightarrow> ('a \<times> 's) option"
  assumes put_room: "ok s \<Longrightarrow> length (items s) < slots s \<Longrightarrow>
      \<exists>s'. put s x = Some s' \<and> ok s' \<and> items s' = items s @ [x] \<and> slots s' = slots s"
    and get_empty: "ok s \<Longrightarrow> items s = [] \<Longrightarrow> get s = None"
    and get_first: "ok s \<Longrightarrow> items s = x # xs \<Longrightarrow>
      \<exists>s'. get s = Some (x, s') \<and> ok s' \<and> items s' = xs \<and> slots s' = slots s"
begin

text \<open>Nothing is lost, repeated or reordered while the queue does not fill up.\<close>

lemma run_fifo:
  assumes "ok s" and "length (items s) + length (puts es) \<le> slots s"
  shows "\<exists>out s'. qrun put get es s = Some (out, s') \<and> ok s' \<and> slots s' = slots s
    \<and> out @ items s' = items s @ puts es"
  using assms
proof (induction es arbitrary: s)
  case Nil
  then show ?case by simp
next
  case (Cons e es)
  show ?case
  proof (cases e)
    case (Put x)
    with Cons.prems obtain s' where s': "put s x = Some s'" "ok s'" "items s' = items s @ [x]"
      "slots s' = slots s"
      using put_room [of s x] by auto
    with Cons.IH [OF s'(2)] Cons.prems Put show ?thesis by auto
  next
    case Get
    show ?thesis
    proof (cases "items s")
      case Nil
      with Cons.IH [of s] Cons.prems Get get_empty [of s] show ?thesis by auto
    next
      case its: (Cons x xs)
      with get_first [of s x xs] Cons.prems(1) obtain s'
        where s': "get s = Some (x, s')" "ok s'" "items s' = xs" "slots s' = slots s" by auto
      with Cons.IH [OF s'(2)] Cons.prems its Get obtain out s'' where
        "qrun put get es s' = Some (out, s'')" "ok s''" "slots s'' = slots s"
        "out @ items s'' = xs @ puts es"
        by auto
      with s' its Get show ?thesis by auto
    qed
  qed
qed

end

end
