(* ===== verification/StreamBuf.thy ===== *)
theory StreamBuf
  imports Ring
begin

text \<open>
  The stream buffer between the encoder interrupts and the recorder,
  \<open>task/videnc/stream_buffering.c\<close>: a ring of frame descriptors. A put into a full buffer drops
  the oldest frame and then every frame up to the next key frame. Proved here: a put and a get
  implement a queue (interpretation of \<open>fifo\<close>), and what a put does on overflow.
\<close>

section \<open>State and operations\<close>

record sbuf_data =
  addr :: u64
  size :: u32
  flags :: u32
  type :: u32

record sbuf_t =
  head :: u32
  tail :: u32
  tot_num :: u32
  data :: "sbuf_data list"

definition sbuf_data_zero :: sbuf_data where
  "sbuf_data_zero = \<lparr>addr = 0, size = 0, flags = 0, type = 0\<rparr>"

text \<open>\<open>alloc\<close> tells whether \<open>pvPortCalloc\<close> succeeds; the null pointer is the empty list.\<close>

definition sbuf_init :: "bool \<Rightarrow> u32 \<Rightarrow> ENX_OKFAIL \<times> sbuf_t" where
  "sbuf_init alloc n =
     (let d = (if alloc then replicate (unat n) sbuf_data_zero else [])
      in (if alloc then ENX_OK else ENX_FAIL, \<lparr>head = 0, tail = 0, tot_num = n, data = d\<rparr>))"

text \<open>The loop of a put on a full buffer.\<close>

partial_function (option) sbuf_skip :: "sbuf_t \<Rightarrow> sbuf_t option" where
  "sbuf_skip p =
     (if \<not> cQueue_isempty (head p) (tail p)
      then (if flags (data p ! unat (head p)) \<noteq> 1
            then sbuf_skip (p\<lparr>head := num_loop (head p) (tot_num p)\<rparr>)
            else Some p)
      else Some p)"

definition sbuf_put :: "sbuf_t \<Rightarrow> sbuf_data \<Rightarrow> sbuf_t option" where
  "sbuf_put p d =
     (case (if cQueue_isfull (head p) (tail p) (tot_num p)
            then sbuf_skip (p\<lparr>head := num_loop (head p) (tot_num p)\<rparr>)
            else Some p)
      of None \<Rightarrow> None
       | Some p \<Rightarrow> Some (p\<lparr>data := (data p)[unat (tail p) := d],
                         tail := num_loop (tail p) (tot_num p)\<rparr>))"

text \<open>\<open>ENX_FAIL\<close>, with the caller's variables unchanged, is \<open>None\<close>.\<close>

definition sbuf_get :: "sbuf_t \<Rightarrow> (sbuf_data \<times> sbuf_t) option" where
  "sbuf_get p =
     (if \<not> cQueue_isempty (head p) (tail p)
      then Some (data p ! unat (head p), p\<lparr>head := num_loop (head p) (tot_num p)\<rparr>)
      else None)"

definition sbuf_peek :: "sbuf_t \<Rightarrow> sbuf_data option" where
  "sbuf_peek p =
     (if \<not> cQueue_isempty (head p) (tail p) then Some (data p ! unat (head p)) else None)"

definition sbuf_freebuffer :: "sbuf_t \<Rightarrow> sbuf_t" where
  "sbuf_freebuffer p =
     p\<lparr>head := 0, tail := 0, data := replicate (unat (tot_num p)) sbuf_data_zero\<rparr>"

definition sbuf_free :: "sbuf_t \<Rightarrow> sbuf_t" where
  "sbuf_free p = \<lparr>head = 0, tail = 0, tot_num = 0, data = []\<rparr>"

section \<open>The buffer as a queue\<close>

definition sbuf_ok :: "sbuf_t \<Rightarrow> bool" where
  "sbuf_ok p \<longleftrightarrow> ring_ok (head p) (tail p) (tot_num p) (data p)"

definition sbuf_items :: "sbuf_t \<Rightarrow> sbuf_data list" where
  "sbuf_items p = ring_items (head p) (tail p) (data p)"

definition sbuf_slots :: "sbuf_t \<Rightarrow> nat" where
  "sbuf_slots p = length (data p) - 1"

lemmas sbuf_defs = sbuf_ok_def sbuf_items_def sbuf_slots_def

lemma sbuf_full_iff:
  "sbuf_ok p \<Longrightarrow>
   cQueue_isfull (head p) (tail p) (tot_num p) \<longleftrightarrow> length (sbuf_items p) = sbuf_slots p"
  using ring_full [of "head p" "tail p" "tot_num p" "data p"]
    ring_len_less [of "head p" "tail p" "tot_num p" "data p"]
  by (auto simp: sbuf_defs)

lemma sbuf_empty_iff:
  "sbuf_ok p \<Longrightarrow> cQueue_isempty (head p) (tail p) \<longleftrightarrow> sbuf_items p = []"
  by (simp add: sbuf_defs ring_empty)

lemma sbuf_get_cons:
  assumes "sbuf_ok p" and "sbuf_items p \<noteq> []"
  defines "p' \<equiv> p\<lparr>head := num_loop (head p) (tot_num p)\<rparr>"
  shows "sbuf_ok p'" and "sbuf_items p = data p ! unat (head p) # sbuf_items p'"
    and "sbuf_slots p' = sbuf_slots p"
  using assms ring_get [of "head p" "tail p" "tot_num p" "data p"] sbuf_empty_iff [of p]
  by (auto simp: sbuf_defs)

lemma sbuf_store:
  fixes d :: sbuf_data
  assumes "sbuf_ok p" and "length (sbuf_items p) < sbuf_slots p"
  shows "sbuf_ok (p\<lparr>data := (data p)[unat (tail p) := d], tail := num_loop (tail p) (tot_num p)\<rparr>)"
    and "sbuf_items (p\<lparr>data := (data p)[unat (tail p) := d], tail := num_loop (tail p) (tot_num p)\<rparr>)
      = sbuf_items p @ [d]"
    and "sbuf_slots (p\<lparr>data := (data p)[unat (tail p) := d], tail := num_loop (tail p) (tot_num p)\<rparr>)
      = sbuf_slots p"
  using assms sbuf_full_iff [of p] ring_put [of "head p" "tail p" "tot_num p" "data p" d]
    ring_ok_put [of "head p" "tail p" "tot_num p" "data p" d]
  by (auto simp: sbuf_defs)

lemma sbuf_put_room:
  assumes "sbuf_ok p" and "length (sbuf_items p) < sbuf_slots p"
  shows "\<exists>p'. sbuf_put p d = Some p' \<and> sbuf_ok p' \<and> sbuf_items p' = sbuf_items p @ [d]
    \<and> sbuf_slots p' = sbuf_slots p"
  using assms sbuf_full_iff [OF assms(1)] sbuf_store [OF assms] by (simp add: sbuf_put_def)

interpretation sbuf: fifo sbuf_ok sbuf_items sbuf_slots sbuf_put sbuf_get
proof
  fix p d
  assume "sbuf_ok p" "length (sbuf_items p) < sbuf_slots p"
  then show "\<exists>p'. sbuf_put p d = Some p' \<and> sbuf_ok p' \<and> sbuf_items p' = sbuf_items p @ [d]
      \<and> sbuf_slots p' = sbuf_slots p"
    by (rule sbuf_put_room)
next
  fix p
  assume "sbuf_ok p" "sbuf_items p = []"
  then show "sbuf_get p = None"
    by (simp add: sbuf_get_def sbuf_empty_iff)
next
  fix p d ds
  assume "sbuf_ok p" "sbuf_items p = d # ds"
  then show "\<exists>p'. sbuf_get p = Some (d, p') \<and> sbuf_ok p' \<and> sbuf_items p' = ds
      \<and> sbuf_slots p' = sbuf_slots p"
    using sbuf_get_cons [of p] by (simp add: sbuf_get_def sbuf_empty_iff)
qed

section \<open>Overflow\<close>

text \<open>The skip returns, and stops at the first key frame or at the end of the queue.\<close>

lemma sbuf_skip_items:
  "sbuf_ok p \<Longrightarrow> \<exists>p'. sbuf_skip p = Some p' \<and> sbuf_ok p' \<and> sbuf_slots p' = sbuf_slots p
     \<and> sbuf_items p' = dropWhile (\<lambda>d. flags d \<noteq> 1) (sbuf_items p)"
proof (induction "length (sbuf_items p)" arbitrary: p)
  case 0
  then show ?case by (simp add: sbuf_skip.simps sbuf_empty_iff)
next
  case (Suc n)
  let ?p = "p\<lparr>head := num_loop (head p) (tot_num p)\<rparr>"
  have ne: "sbuf_items p \<noteq> []" using Suc.hyps(2) by auto
  note c = sbuf_get_cons [OF Suc.prems ne]
  have "n = length (sbuf_items ?p)" using Suc.hyps(2) c(2) by simp
  from Suc.hyps(1) [OF this c(1)] c show ?case
    by (subst sbuf_skip.simps) (auto simp: sbuf_empty_iff [OF Suc.prems] ne Suc.prems)
qed

lemma sbuf_put_items:
  assumes ok: "sbuf_ok p" and cap: "0 < sbuf_slots p"
  shows "\<exists>p'. sbuf_put p d = Some p' \<and> sbuf_ok p' \<and> sbuf_slots p' = sbuf_slots p \<and>
    sbuf_items p' =
      (if length (sbuf_items p) = sbuf_slots p
       then dropWhile (\<lambda>d. flags d \<noteq> 1) (tl (sbuf_items p)) else sbuf_items p) @ [d]"
proof (cases "length (sbuf_items p) = sbuf_slots p")
  case False
  then have "length (sbuf_items p) < sbuf_slots p"
    using ok ring_len_less [of "head p" "tail p" "tot_num p" "data p"] by (simp add: sbuf_defs)
  from sbuf_put_room [OF ok this, of d] False show ?thesis by auto
next
  case True
  let ?p = "p\<lparr>head := num_loop (head p) (tot_num p)\<rparr>"
  have ne: "sbuf_items p \<noteq> []" using True cap by auto
  note c = sbuf_get_cons [OF ok ne]
  from sbuf_skip_items [OF c(1)] obtain q where q: "sbuf_skip ?p = Some q" "sbuf_ok q"
    "sbuf_slots q = sbuf_slots p" "sbuf_items q = dropWhile (\<lambda>d. flags d \<noteq> 1) (sbuf_items ?p)"
    using c(3) by auto
  have "length (sbuf_items q) < sbuf_slots q"
    using q(3,4) True c(2) length_dropWhile_le [of "\<lambda>d. flags d \<noteq> 1" "sbuf_items ?p"] by simp
  from sbuf_store [OF q(2) this] q True c(2) show ?thesis
    by (simp add: sbuf_put_def sbuf_full_iff [OF ok])
qed

section \<open>Properties\<close>

text \<open>While at most \<open>tot_num - 1\<close> frames are waiting, any interleaving of puts and gets on the
  stream buffer hands the frames out in the order they came in, each exactly once.\<close>

theorem sbuf_is_queue:
  assumes "sbuf_ok p" and "length (sbuf_items p) + length (puts es) \<le> sbuf_slots p"
  shows "\<exists>out p'. qrun sbuf_put sbuf_get es p = Some (out, p') \<and> sbuf_ok p'
    \<and> out @ sbuf_items p' = sbuf_items p @ puts es"
  using sbuf.run_fifo [OF assms] by blast

definition ex_frame :: "u32 \<Rightarrow> u32 \<Rightarrow> sbuf_data" where
  "ex_frame n fl = \<lparr>addr = 0x1000, size = n, flags = fl, type = 3\<rparr>"

definition ex_sbuf :: sbuf_t where
  "ex_sbuf = snd (sbuf_init True 4)"

lemma ex_sbuf_ok: "sbuf_ok ex_sbuf" "sbuf_slots ex_sbuf = 3" "sbuf_items ex_sbuf = []"
  by (simp_all add: ex_sbuf_def sbuf_init_def sbuf_defs ring_ok_iff ring_items_def ring_len_def Let_def)

lemma sbuf_is_queue_witness:
  "\<exists>out p'. qrun sbuf_put sbuf_get [Put (ex_frame 1 1), Get, Put (ex_frame 2 0), Put (ex_frame 3 0)] ex_sbuf
      = Some (out, p') \<and> out @ sbuf_items p' = [ex_frame 1 1, ex_frame 2 0, ex_frame 3 0]"
  using sbuf_is_queue [OF ex_sbuf_ok(1),
      of "[Put (ex_frame 1 1), Get, Put (ex_frame 2 0), Put (ex_frame 3 0)]"]
  by (auto simp: ex_sbuf_ok)

text \<open>A put always returns and its frame is queued last. If the buffer was full, the oldest
  frame goes and with it every following frame that is not a key frame, so what remains in front
  of the new frame starts with a key frame; otherwise nothing is dropped.\<close>

theorem sbuf_put_overflow:
  assumes "sbuf_ok p" and "0 < sbuf_slots p"
  shows "\<exists>p' kept. sbuf_put p d = Some p' \<and> sbuf_ok p' \<and> sbuf_items p' = kept @ [d]
    \<and> (if length (sbuf_items p) = sbuf_slots p
       then kept = dropWhile (\<lambda>d. flags d \<noteq> 1) (tl (sbuf_items p))
         \<and> (kept \<noteq> [] \<longrightarrow> flags (hd kept) = 1)
       else kept = sbuf_items p)"
proof -
  let ?kept = "if length (sbuf_items p) = sbuf_slots p
    then dropWhile (\<lambda>d. flags d \<noteq> 1) (tl (sbuf_items p)) else sbuf_items p"
  have "dropWhile (\<lambda>d. flags d \<noteq> 1) ds \<noteq> [] \<longrightarrow> flags (hd (dropWhile (\<lambda>d. flags d \<noteq> 1) ds)) = 1" for ds
    using hd_dropWhile [of "\<lambda>d. flags d \<noteq> 1" ds] by simp
  moreover obtain p' where "sbuf_put p d = Some p'" "sbuf_ok p'" "sbuf_items p' = ?kept @ [d]"
    using sbuf_put_items [OF assms, of d] by blast
  ultimately show ?thesis
    by (intro exI [of _ p'] exI [of _ ?kept]) (auto simp del: dropWhile_eq_Nil_conv)
qed

definition ex_full_sbuf :: sbuf_t where
  "ex_full_sbuf = \<lparr>head = 2, tail = 1, tot_num = 4,
     data = [ex_frame 3 1, ex_frame 0 0, ex_frame 1 1, ex_frame 2 0]\<rparr>"

lemma sbuf_put_overflow_witness:
  "\<exists>p'. sbuf_put ex_full_sbuf (ex_frame 9 0) = Some p'
     \<and> sbuf_items p' = [ex_frame 3 1, ex_frame 9 0]"
proof -
  have i: "sbuf_items ex_full_sbuf = [ex_frame 1 1, ex_frame 2 0, ex_frame 3 1]"
    and s: "sbuf_slots ex_full_sbuf = 3"
    and "sbuf_ok ex_full_sbuf"
    by (simp_all add: ex_full_sbuf_def sbuf_defs ring_items_def ring_len_def ring_ok_iff upt_rec)
  from sbuf_put_overflow [OF this(3), of "ex_frame 9 0"] i s
  obtain p' kept where p': "sbuf_put ex_full_sbuf (ex_frame 9 0) = Some p'"
    "sbuf_items p' = kept @ [ex_frame 9 0]"
    "kept = dropWhile (\<lambda>d. flags d \<noteq> 1) [ex_frame 2 0, ex_frame 3 1]"
    by auto
  moreover have "kept = [ex_frame 3 1]"
    using p'(3) by (simp add: ex_frame_def)
  ultimately show ?thesis by simp
qed

text \<open>Peeking shows exactly the frame the next get returns, and fails exactly when get fails,
  which is when no frame is waiting.\<close>

theorem sbuf_peek_get:
  assumes "sbuf_ok p"
  shows "sbuf_peek p = map_option fst (sbuf_get p)
    \<and> (sbuf_get p = None \<longleftrightarrow> sbuf_items p = [])
    \<and> (\<forall>d p'. sbuf_get p = Some (d, p') \<longrightarrow> sbuf_items p = d # sbuf_items p')"
  using sbuf_get_cons(2) [OF assms] sbuf_empty_iff [OF assms]
  by (auto simp: sbuf_peek_def sbuf_get_def split: if_splits)

lemma sbuf_peek_get_witness:
  "sbuf_peek ex_sbuf = map_option fst (sbuf_get ex_sbuf) \<and> sbuf_get ex_sbuf = None"
  using sbuf_peek_get [OF ex_sbuf_ok(1)] ex_sbuf_ok(3) by simp

end
