(* ===== verification/RtpQueue.thy ===== *)
theory RtpQueue
  imports Ring
begin

text \<open>
  The queue of frames waiting to be sent over RTP, \<open>task/rtspd/rtp_queue.c\<close>, and the rings it is
  made of. The binary semaphore is always granted (\<open>portMAX_DELAY\<close>), so it leaves no trace in the
  model. Below capacity the queue meets the contract \<open>fifo\<close>; a put on a full queue, whose guard
  is commented out in the source, wraps the tail onto the head and loses every waiting frame.
\<close>

record rtp_queue_data =
  rq_addr :: u32
  rq_size :: u32
  rq_flags :: u32
  rq_ts :: u32

record rtp_queue =
  rq_head :: u32
  rq_tail :: u32
  rq_tot_num :: u32
  rq_data :: "rtp_queue_data list"

definition rtp_queue_data_zero :: rtp_queue_data where
  "rtp_queue_data_zero = \<lparr>rq_addr = 0, rq_size = 0, rq_flags = 0, rq_ts = 0\<rparr>"

text \<open>
  The two allocations may fail; the result is what \<open>*prqbuf\<close> points to, \<open>None\<close> for a null
  pointer. When only the second one fails the structure stays behind with its fields zero.
\<close>

definition rtp_queue_init :: "bool \<Rightarrow> bool \<Rightarrow> u32 \<Rightarrow> ENX_OKFAIL \<times> rtp_queue option" where
  "rtp_queue_init alloc1 alloc2 n =
     (if alloc1
      then (if alloc2
            then (ENX_OK, Some \<lparr>rq_head = 0, rq_tail = 0, rq_tot_num = n,
                    rq_data = replicate (unat n) rtp_queue_data_zero\<rparr>)
            else (ENX_FAIL, Some \<lparr>rq_head = 0, rq_tail = 0, rq_tot_num = 0, rq_data = []\<rparr>))
      else (ENX_FAIL, None))"

text \<open>The test for a full queue only prints a message.\<close>

definition rtp_queue_put :: "rtp_queue \<Rightarrow> rtp_queue_data \<Rightarrow> ENX_OKFAIL \<times> rtp_queue" where
  "rtp_queue_put q d =
     (ENX_OK, q\<lparr>rq_data := (rq_data q)[unat (rq_tail q) := d],
                rq_tail := num_loop (rq_tail q) (rq_tot_num q)\<rparr>)"

definition rtp_queue_get :: "rtp_queue \<Rightarrow> (rtp_queue_data \<times> rtp_queue) option" where
  "rtp_queue_get q =
     (if \<not> cQueue_isempty (rq_head q) (rq_tail q)
      then Some (rq_data q ! unat (rq_head q),
                 q\<lparr>rq_head := num_loop (rq_head q) (rq_tot_num q)\<rparr>)
      else None)"

definition rtp_queue_peek :: "rtp_queue \<Rightarrow> rtp_queue_data option" where
  "rtp_queue_peek q =
     (if \<not> cQueue_isempty (rq_head q) (rq_tail q) then Some (rq_data q ! unat (rq_head q))
      else None)"

definition rtp_queue_freebuffer :: "rtp_queue \<Rightarrow> ENX_OKFAIL \<times> rtp_queue" where
  "rtp_queue_freebuffer q =
     (ENX_OK, q\<lparr>rq_head := 0, rq_tail := 0,
                rq_data := replicate (unat (rq_tot_num q)) rtp_queue_data_zero\<rparr>)"

definition rtp_queue_free :: "rtp_queue option \<Rightarrow> ENX_OKFAIL \<times> rtp_queue option" where
  "rtp_queue_free q = (ENX_OK, None)"

section \<open>The queue below capacity\<close>

definition rq_ok :: "rtp_queue \<Rightarrow> bool" where
  "rq_ok q \<longleftrightarrow> ring_ok (rq_head q) (rq_tail q) (rq_tot_num q) (rq_data q)"

definition rq_items :: "rtp_queue \<Rightarrow> rtp_queue_data list" where
  "rq_items q = ring_items (rq_head q) (rq_tail q) (rq_data q)"

definition rq_slots :: "rtp_queue \<Rightarrow> nat" where
  "rq_slots q = length (rq_data q) - 1"

lemmas rq_defs = rq_ok_def rq_items_def rq_slots_def

lemma rq_full_iff:
  "rq_ok q \<Longrightarrow>
   cQueue_isfull (rq_head q) (rq_tail q) (rq_tot_num q) \<longleftrightarrow> length (rq_items q) = rq_slots q"
  using ring_full [of "rq_head q" "rq_tail q" "rq_tot_num q" "rq_data q"]
    ring_len_less [of "rq_head q" "rq_tail q" "rq_tot_num q" "rq_data q"]
  by (auto simp: rq_defs)

interpretation rq: fifo rq_ok rq_items rq_slots "\<lambda>q d. Some (snd (rtp_queue_put q d))" rtp_queue_get
proof
  fix q d
  assume "rq_ok q" "length (rq_items q) < rq_slots q"
  then show "\<exists>q'. Some (snd (rtp_queue_put q d)) = Some q' \<and> rq_ok q'
      \<and> rq_items q' = rq_items q @ [d] \<and> rq_slots q' = rq_slots q"
    using rq_full_iff [of q] ring_put [of "rq_head q" "rq_tail q" "rq_tot_num q" "rq_data q" d]
      ring_ok_put [of "rq_head q" "rq_tail q" "rq_tot_num q" "rq_data q" d]
    by (auto simp: rq_defs rtp_queue_put_def)
next
  fix q
  assume "rq_ok q" "rq_items q = []"
  then show "rtp_queue_get q = None"
    using ring_empty [of "rq_head q" "rq_tail q" "rq_tot_num q" "rq_data q"]
    by (simp add: rtp_queue_get_def rq_defs)
next
  fix q d ds
  assume "rq_ok q" "rq_items q = d # ds"
  then show "\<exists>q'. rtp_queue_get q = Some (d, q') \<and> rq_ok q' \<and> rq_items q' = ds
      \<and> rq_slots q' = rq_slots q"
    using ring_empty [of "rq_head q" "rq_tail q" "rq_tot_num q" "rq_data q"]
      ring_get [of "rq_head q" "rq_tail q" "rq_tot_num q" "rq_data q"]
    by (auto simp: rtp_queue_get_def rq_defs)
qed

section \<open>Properties\<close>

text \<open>While fewer than \<open>tot_num\<close> frames are waiting, any interleaving of puts and gets on the
  RTP queue hands the frames out in the order they came in, each exactly once.\<close>

theorem rtp_queue_is_queue:
  assumes "rq_ok q" and "length (rq_items q) + length (puts es) \<le> rq_slots q"
  shows "\<exists>out q'. qrun (\<lambda>q d. Some (snd (rtp_queue_put q d))) rtp_queue_get es q = Some (out, q')
    \<and> rq_ok q' \<and> out @ rq_items q' = rq_items q @ puts es"
  using rq.run_fifo [OF assms] by blast

definition ex_rtp :: "u32 \<Rightarrow> rtp_queue_data" where
  "ex_rtp n = \<lparr>rq_addr = 0x2000, rq_size = n, rq_flags = 0, rq_ts = 3000\<rparr>"

definition ex_rtp_queue :: rtp_queue where
  "ex_rtp_queue = \<lparr>rq_head = 1, rq_tail = 0, rq_tot_num = 3, rq_data = [ex_rtp 9, ex_rtp 1, ex_rtp 2]\<rparr>"

definition ex_rtp_empty :: rtp_queue where
  "ex_rtp_empty = \<lparr>rq_head = 0, rq_tail = 0, rq_tot_num = 3, rq_data = [ex_rtp 9, ex_rtp 1, ex_rtp 2]\<rparr>"

lemma ex_rtp_ok:
  "rq_ok ex_rtp_queue" "rq_items ex_rtp_queue = [ex_rtp 1, ex_rtp 2]" "rq_slots ex_rtp_queue = 2"
  "rq_ok ex_rtp_empty" "rq_items ex_rtp_empty = []" "rq_slots ex_rtp_empty = 2"
  by (simp_all add: ex_rtp_queue_def ex_rtp_empty_def rq_defs ring_items_def ring_len_def ring_ok_iff
      upt_rec)

lemma rtp_queue_is_queue_witness:
  "\<exists>out q'. qrun (\<lambda>q d. Some (snd (rtp_queue_put q d))) rtp_queue_get [Put (ex_rtp 5), Get, Put (ex_rtp 6)]
      ex_rtp_empty = Some (out, q') \<and> out @ rq_items q' = [ex_rtp 5, ex_rtp 6]"
  using rtp_queue_is_queue [OF ex_rtp_ok(4), of "[Put (ex_rtp 5), Get, Put (ex_rtp 6)]"]
  by (auto simp: ex_rtp_ok)

text \<open>A put on a full RTP queue reports success, but afterwards the queue is empty: all waiting
  frames and the new one are lost, and the next get fails.\<close>

theorem rtp_queue_put_full_loses_all:
  assumes "rq_ok q" and "length (rq_items q) = rq_slots q"
  shows "fst (rtp_queue_put q d) = ENX_OK \<and> rq_items (snd (rtp_queue_put q d)) = []
    \<and> rtp_queue_get (snd (rtp_queue_put q d)) = None"
proof -
  let ?q = "snd (rtp_queue_put q d)"
  have "rq_ok ?q"
    using assms(1) ring_ok_put [of "rq_head q" "rq_tail q" "rq_tot_num q" "rq_data q" d]
    by (simp add: rq_defs rtp_queue_put_def)
  moreover have "rq_items ?q = []"
    using assms rq_full_iff [of q]
      ring_put_full [of "rq_head q" "rq_tail q" "rq_tot_num q" "rq_data q"]
    by (simp add: rq_defs rtp_queue_put_def)
  ultimately show ?thesis
    using rq.get_empty by (simp add: rtp_queue_put_def)
qed

lemma rtp_queue_put_full_loses_all_witness:
  "rq_items ex_rtp_queue = [ex_rtp 1, ex_rtp 2]
   \<and> rtp_queue_get (snd (rtp_queue_put ex_rtp_queue (ex_rtp 3))) = None"
  using rtp_queue_put_full_loses_all [OF ex_rtp_ok(1)] by (simp add: ex_rtp_ok)

end
