(* ===== verification/VidencHeap.thy ===== *)
theory VidencHeap
  imports Prelude "HOL-Library.Multiset" "HOL-Library.List_Lexorder"
begin

text \<open>
  The heap of recorded file names, \<open>task/videnc/videnc_heap.c\<close>: a binary min-heap in an array,
  ordered by \<open>strcmp\<close> of the names without their four-letter prefix, so that its root is the
  oldest recording. A name is the byte string before the terminating zero. Proved here: the
  operations keep the heap ordered, take out a minimum, and evict the oldest name when full
  (interpretation of the contract \<open>oldest_first\<close>).
\<close>

section \<open>File names and their order\<close>

text \<open>C's \<open>strcmp\<close> on zero-free strings, up to the sign.\<close>

fun strcmp :: "bytes \<Rightarrow> bytes \<Rightarrow> int" where
  "strcmp [] [] = 0"
| "strcmp [] (y # ys) = - 1"
| "strcmp (x # xs) [] = 1"
| "strcmp (x # xs) (y # ys) = (if x < y then - 1 else if y < x then 1 else strcmp xs ys)"

lemma strcmp_less: "strcmp xs ys < 0 \<longleftrightarrow> xs < ys"
  by (induction xs ys rule: strcmp.induct) auto

lemma strcmp_greater: "strcmp xs ys > 0 \<longleftrightarrow> ys < xs"
  by (induction xs ys rule: strcmp.induct) auto

datatype encHData = encHData (filename: bytes)

definition encHeap_filename_cmp_offset :: nat where
  "encHeap_filename_cmp_offset = 4"

abbreviation fcmp :: "encHData \<Rightarrow> encHData \<Rightarrow> int" where
  "fcmp a b \<equiv> strcmp (drop encHeap_filename_cmp_offset (filename a))
                     (drop encHeap_filename_cmp_offset (filename b))"

text \<open>Names are preordered by age: two names may differ in the prefix only.\<close>

instantiation encHData :: preorder
begin

definition less_eq_encHData :: "encHData \<Rightarrow> encHData \<Rightarrow> bool" where
  "less_eq_encHData a b \<longleftrightarrow> drop encHeap_filename_cmp_offset (filename a)
     \<le> drop encHeap_filename_cmp_offset (filename b)"

definition less_encHData :: "encHData \<Rightarrow> encHData \<Rightarrow> bool" where
  "less_encHData a b \<longleftrightarrow> drop encHeap_filename_cmp_offset (filename a)
     < drop encHeap_filename_cmp_offset (filename b)"

instance
  by standard (auto simp: less_eq_encHData_def less_encHData_def)

end

lemma age_total: "(a :: encHData) \<le> b \<or> b \<le> a"
  by (auto simp: less_eq_encHData_def)

lemma age_not_less: "\<not> a < b \<longleftrightarrow> b \<le> (a :: encHData)"
  by (auto simp: less_eq_encHData_def less_encHData_def)

lemma fcmp_less [simp]: "fcmp a b < 0 \<longleftrightarrow> a < b"
  by (simp add: strcmp_less less_encHData_def)

lemma fcmp_greater [simp]: "0 < fcmp a b \<longleftrightarrow> b < a"
  using strcmp_greater by (simp add: less_encHData_def)

section \<open>State and operations\<close>

record encHeap =
  usedsize :: nat
  capacity :: nat
  node :: "encHData list"
  delHData :: encHData

abbreviation zeroHData :: encHData where "zeroHData \<equiv> encHData []"

definition encHeap_getParent :: "nat \<Rightarrow> nat" where
  "encHeap_getParent idx = (idx - 1) div 2"

definition encHeap_getLeftChild :: "nat \<Rightarrow> nat" where
  "encHeap_getLeftChild idx = 2 * idx + 1"

definition encHeap_create :: "bool \<Rightarrow> nat \<Rightarrow> encHData \<Rightarrow> ENX_OKFAIL \<times> encHeap" where
  "encHeap_create alloc cap del =
     (if alloc then ENX_OK else ENX_FAIL,
      \<lparr>usedsize = 0, capacity = cap, node = (if alloc then replicate cap zeroHData else []),
       delHData = del\<rparr>)"

definition encHeap_destroy :: "encHeap \<Rightarrow> encHeap" where
  "encHeap_destroy h = h\<lparr>node := []\<rparr>"

definition encHeap_swapNode :: "encHData list \<Rightarrow> nat \<Rightarrow> nat \<Rightarrow> encHData list" where
  "encHeap_swapNode nd idx1 idx2 = nd[idx1 := nd ! idx2, idx2 := nd ! idx1]"

text \<open>The loop of \<open>encHeap_deQueue\<close>, which lets the root sink.\<close>

function heap_down :: "encHData list \<Rightarrow> nat \<Rightarrow> nat \<Rightarrow> encHData list" where
  "heap_down nd used parentPos =
     (let leftPos = encHeap_getLeftChild parentPos; rightPos = leftPos + 1 in
      if leftPos \<ge> used then nd
      else (let selectChild =
              (if rightPos \<ge> used then leftPos
               else if fcmp (nd ! leftPos) (nd ! rightPos) > 0 then rightPos else leftPos)
            in if fcmp (nd ! selectChild) (nd ! parentPos) < 0
               then heap_down (encHeap_swapNode nd parentPos selectChild) used selectChild
               else nd))"
  by pat_completeness auto
termination
  by (relation "measure (\<lambda>(nd, used, p). used - p)") (auto simp: encHeap_getLeftChild_def Let_def)

declare heap_down.simps [simp del]

definition encHeap_deQueue :: "encHeap \<Rightarrow> encHData \<times> encHeap" where
  "encHeap_deQueue h =
     (if usedsize h = 0 then (zeroHData, h)
      else (let root = node h ! 0;
                nd = (node h)[0 := zeroHData];
                used = usedsize h - 1;
                nd = encHeap_swapNode nd 0 used
            in (root, h\<lparr>usedsize := used, node := heap_down nd used 0\<rparr>)))"

text \<open>The loop of \<open>encHeap_enQueue\<close>, which lets the last node rise.\<close>

function heap_up :: "encHData list \<Rightarrow> nat \<Rightarrow> encHData list" where
  "heap_up nd currentPos =
     (let parentPos = encHeap_getParent currentPos in
      if currentPos > 0 \<and> fcmp (nd ! currentPos) (nd ! parentPos) < 0
      then heap_up (encHeap_swapNode nd currentPos parentPos) parentPos
      else nd)"
  by pat_completeness auto
termination
  by (relation "measure snd") (auto simp: encHeap_getParent_def)

declare heap_up.simps [simp del]

definition heap_add :: "encHeap \<Rightarrow> encHData \<Rightarrow> encHeap" where
  "heap_add h d =
     h\<lparr>node := heap_up ((node h)[usedsize h := d]) (usedsize h), usedsize := usedsize h + 1\<rparr>"

definition encHeap_enQueue :: "encHeap \<Rightarrow> encHData \<Rightarrow> nat \<times> encHeap" where
  "encHeap_enQueue h d =
     (if usedsize h = capacity h
      then (if fcmp (node h ! 0) d > 0 then (1, h\<lparr>delHData := d\<rparr>)
            else (let (temp, h) = encHeap_deQueue h
                  in (1, heap_add (h\<lparr>delHData := temp\<rparr>) d)))
      else (0, heap_add h d))"

definition encHeap_resetQueue :: "encHeap \<Rightarrow> encHeap" where
  "encHeap_resetQueue h = h\<lparr>usedsize := 0, node := replicate (capacity h) zeroHData\<rparr>"

text \<open>Copies the name, which is empty when there is nothing to delete.\<close>

definition encHeap_deleteQueue :: "encHeap \<Rightarrow> bytes \<times> encHeap" where
  "encHeap_deleteQueue h = (let (temp, h) = encHeap_deQueue h in (filename temp, h))"

definition encHeap_addQueue :: "encHeap \<Rightarrow> bytes \<Rightarrow> nat \<times> encHeap" where
  "encHeap_addQueue h name = encHeap_enQueue h (encHData name)"

definition encHeap_isEmpty :: "encHeap \<Rightarrow> bool" where
  "encHeap_isEmpty h \<longleftrightarrow> usedsize h = 0"

section \<open>Heap order\<close>

abbreviation par :: "nat \<Rightarrow> nat" where "par \<equiv> encHeap_getParent"

lemma par_less: "0 < i \<Longrightarrow> par i < i"
  by (simp add: encHeap_getParent_def)

lemma par_iff: "0 < i \<Longrightarrow> par i = p \<longleftrightarrow> i = encHeap_getLeftChild p \<or> i = encHeap_getLeftChild p + 1"
  by (auto simp: encHeap_getParent_def encHeap_getLeftChild_def)

definition heap_ord :: "encHData list \<Rightarrow> nat \<Rightarrow> bool" where
  "heap_ord nd n \<longleftrightarrow> (\<forall>i. 0 < i \<and> i < n \<longrightarrow> nd ! par i \<le> nd ! i)"

text \<open>Ordered except that the node at \<open>c\<close> may be too small, or too large, for its place.\<close>

definition up_inv :: "encHData list \<Rightarrow> nat \<Rightarrow> nat \<Rightarrow> bool" where
  "up_inv nd n c \<longleftrightarrow> (\<forall>i. 0 < i \<and> i < n \<and> i \<noteq> c \<longrightarrow> nd ! par i \<le> nd ! i)
     \<and> (\<forall>i. 0 < i \<and> i < n \<and> par i = c \<and> 0 < c \<longrightarrow> nd ! par c \<le> nd ! i)"

definition down_inv :: "encHData list \<Rightarrow> nat \<Rightarrow> nat \<Rightarrow> bool" where
  "down_inv nd n c \<longleftrightarrow> (\<forall>i. 0 < i \<and> i < n \<and> par i \<noteq> c \<longrightarrow> nd ! par i \<le> nd ! i)
     \<and> (\<forall>i. 0 < i \<and> i < n \<and> par i = c \<and> 0 < c \<longrightarrow> nd ! par c \<le> nd ! i)"

lemma length_swapNode [simp]: "length (encHeap_swapNode nd i j) = length nd"
  by (simp add: encHeap_swapNode_def)

lemma nth_swapNode:
  "i < length nd \<Longrightarrow> j < length nd \<Longrightarrow>
   encHeap_swapNode nd i j ! k = (if k = j then nd ! i else if k = i then nd ! j else nd ! k)"
  by (auto simp: encHeap_swapNode_def nth_list_update)

lemma mset_swapNode:
  assumes "i < n" and "j < n" and "n \<le> length nd"
  shows "mset (take n (encHeap_swapNode nd i j)) = mset (take n nd)"
proof -
  have "take n (encHeap_swapNode nd i j) = (take n nd)[i := take n nd ! j, j := take n nd ! i]"
    using assms by (simp add: encHeap_swapNode_def take_update_swap)
  with assms mset_swap [of j "take n nd" i] show ?thesis by simp
qed

lemma up_inv_swap:
  assumes inv: "up_inv nd n c" and c: "0 < c" "c < n" "n \<le> length nd" and lt: "nd ! c < nd ! par c"
  shows "up_inv (encHeap_swapNode nd c (par c)) n (par c)"
proof -
  let ?q = "par c" and ?nd = "encHeap_swapNode nd c (par c)"
  have q: "?q < c" using c by (simp add: par_less)
  have at: "?nd ! k = (if k = ?q then nd ! c else if k = c then nd ! ?q else nd ! k)" for k
    using c q by (simp add: nth_swapNode)
  have o: "nd ! par i \<le> nd ! i" if "0 < i" "i < n" "i \<noteq> c" for i
    using inv that by (simp add: up_inv_def)
  have k: "nd ! ?q \<le> nd ! i" if "0 < i" "i < n" "par i = c" for i
    using inv that c by (simp add: up_inv_def)
  have le: "nd ! c \<le> nd ! ?q" using lt by (rule less_imp_le)
  have "?nd ! par i \<le> ?nd ! i" if i: "0 < i" "i < n" "i \<noteq> ?q" for i
    using o [OF i(1,2)] k [OF i(1,2)] le order_trans [OF le] i by (auto simp: at)
  moreover have "?nd ! par ?q \<le> ?nd ! i" if i: "0 < i" "i < n" "par i = ?q" "0 < ?q" for i
  proof -
    have pq: "par ?q < ?q" using i(4) by (rule par_less)
    then have "?nd ! par ?q = nd ! par ?q" using q by (simp add: at)
    moreover have b: "nd ! par ?q \<le> nd ! ?q" using i(4) q c by (intro o) auto
    moreover have "nd ! ?q \<le> ?nd ! i"
      using o [OF i(1,2)] par_less [OF i(1)] i(3) by (auto simp: at)
    ultimately show ?thesis using order_trans by metis
  qed
  ultimately show ?thesis by (simp add: up_inv_def)
qed

lemma heap_up_correct:
  "up_inv nd n c \<Longrightarrow> c < n \<Longrightarrow> n \<le> length nd \<Longrightarrow>
   heap_ord (heap_up nd c) n \<and> mset (take n (heap_up nd c)) = mset (take n nd)
   \<and> length (heap_up nd c) = length nd"
proof (induction nd c rule: heap_up.induct)
  case (1 nd c)
  show ?case
  proof (cases "0 < c \<and> nd ! c < nd ! par c")
    case True
    then have "par c < n" using 1(3) par_less [of c] by simp
    with True 1(1) [OF refl] up_inv_swap [OF 1(2)] 1(3,4) mset_swapNode [of c n "par c" nd]
    show ?thesis
      by (subst (1 2 3) heap_up.simps) (simp add: Let_def)
  next
    case False
    then have "heap_ord nd n"
      using 1(2) by (auto simp: heap_ord_def up_inv_def age_not_less)
    with False show ?thesis
      by (subst (1 2 3) heap_up.simps) (auto simp: Let_def)
  qed
qed

lemma down_inv_swap:
  assumes inv: "down_inv nd n c" and s: "par s = c" "0 < s" "s < n" "n \<le> length nd"
    and lt: "nd ! s < nd ! c" and least: "\<And>i. 0 < i \<Longrightarrow> i < n \<Longrightarrow> par i = c \<Longrightarrow> nd ! s \<le> nd ! i"
  shows "down_inv (encHeap_swapNode nd c s) n s"
proof -
  let ?nd = "encHeap_swapNode nd c s"
  have c: "c < s" using s par_less [of s] by simp
  have at: "?nd ! k = (if k = s then nd ! c else if k = c then nd ! s else nd ! k)" for k
    using s c by (simp add: nth_swapNode)
  have o: "nd ! par i \<le> nd ! i" if "0 < i" "i < n" "par i \<noteq> c" for i
    using inv that by (simp add: down_inv_def)
  have k: "nd ! par c \<le> nd ! s" if "0 < c"
    using inv that s by (auto simp: down_inv_def)
  have "?nd ! par i \<le> ?nd ! i" if i: "0 < i" "i < n" "par i \<noteq> s" for i
  proof -
    consider "i = s" | "i \<noteq> s" "par i = c" | "i = c" "0 < c" "par i \<noteq> c"
      | "i \<noteq> s" "i \<noteq> c" "par i \<noteq> c"
      using i by auto
    then show ?thesis
    proof cases
      case 1
      then show ?thesis using s(1) c less_imp_le [OF lt] by (simp add: at)
    next
      case 2
      then have "i \<noteq> c" using i par_less [of i] by auto
      with 2 show ?thesis using least [OF i(1,2)] c by (simp add: at)
    next
      case 3
      then show ?thesis using k par_less [of c] c i by (simp add: at)
    next
      case 4
      then show ?thesis using o [OF i(1,2)] i by (simp add: at)
    qed
  qed
  moreover have "?nd ! par s \<le> ?nd ! i" if i: "0 < i" "i < n" "par i = s" for i
    using o [OF i(1,2)] i par_less [OF i(1)] s c by (auto simp: at)
  ultimately show ?thesis by (auto simp: down_inv_def)
qed

lemma heap_down_correct:
  "down_inv nd n c \<Longrightarrow> n \<le> length nd \<Longrightarrow>
   heap_ord (heap_down nd n c) n \<and> mset (take n (heap_down nd n c)) = mset (take n nd)
   \<and> length (heap_down nd n c) = length nd"
proof (induction "n - c" arbitrary: nd c rule: less_induct)
  case less
  let ?l = "encHeap_getLeftChild c"
  define s where
    "s = (if ?l + 1 \<ge> n then ?l else if nd ! (?l + 1) < nd ! ?l then ?l + 1 else ?l)"
  have step: "heap_down nd n c = (if ?l \<ge> n then nd
      else if nd ! s < nd ! c then heap_down (encHeap_swapNode nd c s) n s else nd)"
    by (subst heap_down.simps) (simp add: Let_def s_def)
  have kids: "0 < i \<Longrightarrow> par i = c \<longleftrightarrow> i = ?l \<or> i = ?l + 1" for i
    by (rule par_iff)
  have l: "c < ?l" by (simp add: encHeap_getLeftChild_def)
  show ?case
  proof (cases "?l < n \<and> nd ! s < nd ! c")
    case True
    have s: "0 < s" "par s = c" "s < n" "c < s"
      using True l by (auto simp: kids s_def)
    have least: "nd ! s \<le> nd ! i" if "0 < i" "i < n" "par i = c" for i
      using that kids [OF that(1)] by (auto simp: age_not_less less_imp_le s_def)
    have "down_inv (encHeap_swapNode nd c s) n s"
      using down_inv_swap [OF less.prems(1) s(2,1,3) less.prems(2)] True least by blast
    moreover have "n - s < n - c" using s by simp
    ultimately have "heap_ord (heap_down (encHeap_swapNode nd c s) n s) n
      \<and> mset (take n (heap_down (encHeap_swapNode nd c s) n s))
        = mset (take n (encHeap_swapNode nd c s))
      \<and> length (heap_down (encHeap_swapNode nd c s) n s) = length (encHeap_swapNode nd c s)"
      using less.hyps less.prems(2) by simp
    with True mset_swapNode [of c n s nd] s less.prems(2) show ?thesis
      by (simp add: step)
  next
    case False
    then have "heap_down nd n c = nd" by (auto simp: step)
    moreover have "nd ! c \<le> nd ! i" if "0 < i" "i < n" "par i = c" for i
    proof -
      have "nd ! c \<le> nd ! s"
        using False that kids [OF that(1)] by (auto simp: age_not_less)
      also have "nd ! s \<le> nd ! i"
        using that kids [OF that(1)] by (auto simp: age_not_less less_imp_le s_def)
      finally show ?thesis .
    qed
    then have "heap_ord nd n"
      using less.prems(1) by (auto simp: heap_ord_def down_inv_def)
    ultimately show ?thesis by simp
  qed
qed

lemma root_least: "heap_ord nd n \<Longrightarrow> i < n \<Longrightarrow> nd ! 0 \<le> nd ! i"
proof (induction i rule: less_induct)
  case (less i)
  show ?case
  proof (cases "i = 0")
    case False
    then have "par i < i" by (simp add: par_less)
    then have "nd ! 0 \<le> nd ! par i" using less by simp
    also have "nd ! par i \<le> nd ! i" using less False by (simp add: heap_ord_def)
    finally show ?thesis .
  qed simp
qed

section \<open>The heap as a collection of names\<close>

definition heap_ok :: "encHeap \<Rightarrow> bool" where
  "heap_ok h \<longleftrightarrow> usedsize h \<le> capacity h \<and> length (node h) = capacity h
     \<and> heap_ord (node h) (usedsize h)"

definition names :: "encHeap \<Rightarrow> encHData multiset" where
  "names h = mset (take (usedsize h) (node h))"

lemma size_names: "heap_ok h \<Longrightarrow> size (names h) = usedsize h"
  by (simp add: heap_ok_def names_def)

lemma names_empty: "heap_ok h \<Longrightarrow> names h = {#} \<longleftrightarrow> usedsize h = 0"
  by (auto simp: heap_ok_def names_def)

lemma root_oldest:
  assumes "heap_ok h" and "x \<in># names h"
  shows "node h ! 0 \<le> x"
  using assms root_least [of "node h" "usedsize h"]
  by (auto simp: heap_ok_def names_def in_set_conv_nth)

lemma heap_add_correct:
  assumes ok: "heap_ok h" and room: "usedsize h < capacity h"
  shows "heap_ok (heap_add h d)" and "names (heap_add h d) = add_mset d (names h)"
    and "capacity (heap_add h d) = capacity h" and "delHData (heap_add h d) = delHData h"
proof -
  let ?n = "usedsize h" and ?nd = "(node h)[usedsize h := d]"
  have len: "?n < length (node h)" using ok room by (simp add: heap_ok_def)
  have "up_inv ?nd (Suc ?n) ?n"
    using ok len by (auto simp: up_inv_def heap_ok_def heap_ord_def nth_list_update dest: par_less)
  from heap_up_correct [OF this] len
  have "heap_ord (heap_up ?nd ?n) (Suc ?n)"
    "mset (take (Suc ?n) (heap_up ?nd ?n)) = mset (take (Suc ?n) ?nd)"
    "length (heap_up ?nd ?n) = length (node h)"
    by simp_all
  moreover have "take (Suc ?n) ?nd = take ?n (node h) @ [d]"
    using len by (simp add: take_Suc_conv_app_nth)
  ultimately show "heap_ok (heap_add h d)" "names (heap_add h d) = add_mset d (names h)"
    "capacity (heap_add h d) = capacity h" "delHData (heap_add h d) = delHData h"
    using ok room by (simp_all add: heap_add_def heap_ok_def names_def)
qed

lemma deQueue_correct:
  assumes ok: "heap_ok h" and ne: "names h \<noteq> {#}"
  shows "\<exists>h'. encHeap_deQueue h = (node h ! 0, h') \<and> heap_ok h'
    \<and> names h = add_mset (node h ! 0) (names h') \<and> capacity h' = capacity h
    \<and> usedsize h = Suc (usedsize h') \<and> delHData h' = delHData h"
proof -
  obtain k where n: "usedsize h = Suc k" using ne ok by (metis names_empty not0_implies_Suc)
  have len: "Suc k \<le> length (node h)" using ok n by (simp add: heap_ok_def)
  let ?nd = "encHeap_swapNode ((node h)[0 := zeroHData]) 0 k"
  have at: "?nd ! i = (if i = 0 then node h ! k else node h ! i)" if "i < k" for i
  proof -
    have "0 < length (node h)" "k < length (node h)" using len by linarith+
    with that show ?thesis by (simp add: nth_swapNode nth_list_update)
  qed
  have "?nd ! par i \<le> ?nd ! i" if i: "0 < i" "i < k" "par i \<noteq> 0" for i
  proof -
    have "par i < k" using par_less [OF i(1)] i(2) by simp
    moreover have "node h ! par i \<le> node h ! i" using ok n i by (simp add: heap_ok_def heap_ord_def)
    ultimately show ?thesis using i by (simp add: at)
  qed
  then have "down_inv ?nd k 0" by (simp add: down_inv_def)
  from heap_down_correct [OF this] len
  have d: "heap_ord (heap_down ?nd k 0) k" "mset (take k (heap_down ?nd k 0)) = mset (take k ?nd)"
    "length (heap_down ?nd k 0) = length (node h)"
    by simp_all
  have "mset (take (Suc k) (node h)) = add_mset (node h ! 0) (mset (take k ?nd))"
  proof (cases "k = 0")
    case True
    then show ?thesis using len by (cases "node h") simp_all
  next
    case False
    have "take k ?nd = (take k (node h))[0 := node h ! k]"
      by (rule nth_equalityI) (use len in \<open>auto simp: at nth_list_update\<close>)
    moreover have "node h ! 0 \<in># mset (take k (node h))"
      using False len nth_mem [of 0 "take k (node h)"] by simp
    ultimately show ?thesis
      using False len by (simp add: take_Suc_conv_app_nth mset_update insert_DiffM)
  qed
  with d n ok show ?thesis
    by (auto simp: encHeap_deQueue_def Let_def heap_ok_def names_def)
qed

section \<open>The contract of the name store\<close>

text \<open>
  What the recorder relies on when it makes room on the card: the store holds a multiset of names,
  and taking one out gives a name no newer than any other.
\<close>

fun drain :: "('s \<Rightarrow> 'a \<times> 's) \<Rightarrow> nat \<Rightarrow> 's \<Rightarrow> 'a list \<times> 's" where
  "drain take_out 0 s = ([], s)"
| "drain take_out (Suc n) s =
     (let (x, s) = take_out s; (xs, s) = drain take_out n s in (x # xs, s))"

locale oldest_first =
  fixes ok :: "'s \<Rightarrow> bool"
    and elems :: "'s \<Rightarrow> ('a :: preorder) multiset"
    and take_out :: "'s \<Rightarrow> 'a \<times> 's"
  assumes take_out: "ok s \<Longrightarrow> elems s \<noteq> {#} \<Longrightarrow>
    \<exists>x s'. take_out s = (x, s') \<and> ok s' \<and> elems s = add_mset x (elems s') \<and> (\<forall>y \<in># elems s. x \<le> y)"
begin

text \<open>Taking out \<open>n\<close> names gives them from old to new, and leaves no older one behind.\<close>

lemma drain_sorted:
  assumes "ok s" and "n \<le> size (elems s)"
  shows "\<exists>xs s'. drain take_out n s = (xs, s') \<and> ok s' \<and> length xs = n
    \<and> elems s = mset xs + elems s' \<and> sorted_wrt (\<le>) xs
    \<and> (\<forall>x \<in> set xs. \<forall>y \<in># elems s'. x \<le> y)"
  using assms
proof (induction n arbitrary: s)
  case 0
  then show ?case by simp
next
  case (Suc n)
  then have "elems s \<noteq> {#}" by auto
  from take_out [OF Suc.prems(1) this] obtain x s1 where x: "take_out s = (x, s1)" "ok s1"
    "elems s = add_mset x (elems s1)" "\<forall>y \<in># elems s. x \<le> y" by blast
  from Suc.IH [OF x(2)] x(3) Suc.prems(2) obtain xs s' where xs: "drain take_out n s1 = (xs, s')"
    "ok s'" "length xs = n" "elems s1 = mset xs + elems s'" "sorted_wrt (\<le>) xs"
    "\<forall>x \<in> set xs. \<forall>y \<in># elems s'. x \<le> y" by auto
  have "drain take_out (Suc n) s = (x # xs, s')" using x xs by simp
  moreover have "\<forall>y \<in> set xs. x \<le> y" "\<forall>y \<in># elems s'. x \<le> y"
    using x(3,4) xs(4) by auto
  ultimately show ?case using xs x(3) by auto
qed

end

interpretation names: oldest_first heap_ok names encHeap_deQueue
proof
  fix h
  assume ok: "heap_ok h" and ne: "names h \<noteq> {#}"
  from deQueue_correct [OF this] root_oldest [OF ok]
  show "\<exists>x h'. encHeap_deQueue h = (x, h') \<and> heap_ok h' \<and> names h = add_mset x (names h')
      \<and> (\<forall>y \<in># names h. x \<le> y)"
    by blast
qed

text \<open>Adding a name.\<close>

lemma enQueue_correct:
  assumes "heap_ok h" and "0 < capacity h" and "encHeap_enQueue h d = (r, h')"
  shows "heap_ok h' \<and> capacity h' = capacity h \<and>
    (if usedsize h < capacity h
     then r = 0 \<and> names h' = add_mset d (names h) \<and> delHData h' = delHData h
     else r = 1 \<and> add_mset d (names h) = add_mset (delHData h') (names h')
       \<and> (\<forall>y \<in># add_mset d (names h). delHData h' \<le> y))"
proof (cases "usedsize h = capacity h")
  case False
  then have "usedsize h < capacity h" using assms(1) by (simp add: heap_ok_def)
  with heap_add_correct [OF assms(1) this, of d] assms(3) show ?thesis
    by (auto simp: encHeap_enQueue_def)
next
  case True
  note root = root_oldest [OF assms(1)]
  show ?thesis
  proof (cases "d < node h ! 0")
    case True
    have "d \<le> y" if "y \<in># names h" for y
      using less_imp_le [OF True] root [OF that] by (rule order_trans)
    with True \<open>usedsize h = capacity h\<close> assms(1,3) show ?thesis
      by (auto simp: encHeap_enQueue_def heap_ok_def names_def)
  next
    case False
    have "names h \<noteq> {#}" using True assms(1,2) names_empty [of h] by simp
    from deQueue_correct [OF assms(1) this] obtain h1 where h1:
      "encHeap_deQueue h = (node h ! 0, h1)" "heap_ok h1" "names h = add_mset (node h ! 0) (names h1)"
      "capacity h1 = capacity h" "usedsize h = Suc (usedsize h1)" by blast
    let ?h = "h1\<lparr>delHData := node h ! 0\<rparr>"
    have "heap_ok ?h" "usedsize ?h < capacity ?h" "names ?h = names h1"
      using h1(2,4,5) True by (simp_all add: heap_ok_def names_def)
    note added = heap_add_correct [OF this(1,2), of d] this(3)
    have "r = 1" "h' = heap_add ?h d"
      using h1(1) True False assms(3) by (simp_all add: encHeap_enQueue_def)
    moreover have "node h ! 0 \<le> d" using False by (simp add: age_not_less)
    ultimately show ?thesis
      using added h1 True root by (auto simp: add_mset_commute)
  qed
qed

section \<open>Properties\<close>

text \<open>C12: Adding a name keeps the heap well formed. Below capacity the name is added and nothing is
  reported. At capacity the call reports 1 and \<open>delHData\<close> is a name no newer than any other, the new
  one included; the heap then holds all the other names.\<close>

theorem encHeap_enQueue_correct:
  assumes "heap_ok h" and "0 < capacity h" and "encHeap_enQueue h d = (r, h')"
  shows "heap_ok h' \<and> capacity h' = capacity h \<and>
    (if usedsize h < capacity h
     then r = 0 \<and> names h' = add_mset d (names h) \<and> delHData h' = delHData h
     else r = 1 \<and> add_mset d (names h) = add_mset (delHData h') (names h')
       \<and> (\<forall>y \<in># add_mset d (names h). delHData h' \<le> y))"
  using assms by (rule enQueue_correct)

definition ex_name :: "string \<Rightarrow> encHData" where
  "ex_name s = encHData (str s)"

definition ex_heap :: encHeap where
  "ex_heap = \<lparr>usedsize = 2, capacity = 2,
     node = [ex_name ''NOR_20200101.mp4'', ex_name ''NOR_20200103.mp4''], delHData = zeroHData\<rparr>"

lemma ex_heap_ok: "heap_ok ex_heap"
proof -
  have "ex_name ''NOR_20200101.mp4'' \<le> ex_name ''NOR_20200103.mp4''" by code_simp
  then show ?thesis
    by (auto simp: heap_ok_def heap_ord_def ex_heap_def less_Suc_eq numeral_2_eq_2
        encHeap_getParent_def)
qed

lemma encHeap_enQueue_correct_witness:
  "\<exists>r h'. encHeap_enQueue ex_heap (ex_name ''NOR_20200102.mp4'') = (r, h') \<and> r = 1 \<and> heap_ok h'
     \<and> delHData h' \<le> ex_name ''NOR_20200102.mp4''"
proof -
  obtain r h' where e: "encHeap_enQueue ex_heap (ex_name ''NOR_20200102.mp4'') = (r, h')"
    by (metis surj_pair)
  have "0 < capacity ex_heap" "usedsize ex_heap = capacity ex_heap" by (simp_all add: ex_heap_def)
  with encHeap_enQueue_correct [OF ex_heap_ok _ e] e show ?thesis by auto
qed

text \<open>C13: Taking \<open>n\<close> names out of the heap, as the recorder does to make room, gives the \<open>n\<close> oldest
  in order of age, and leaves exactly the others.\<close>

theorem encHeap_drain_oldest:
  assumes "heap_ok h" and "n \<le> usedsize h"
  shows "\<exists>xs h'. drain encHeap_deQueue n h = (xs, h') \<and> heap_ok h' \<and> length xs = n
    \<and> names h = mset xs + names h' \<and> sorted_wrt (\<le>) xs
    \<and> (\<forall>x \<in> set xs. \<forall>y \<in># names h'. x \<le> y)"
  using names.drain_sorted [OF assms(1), of n] assms by (simp add: size_names)

lemma encHeap_drain_oldest_witness:
  "\<exists>xs h'. drain encHeap_deQueue 2 ex_heap = (xs, h') \<and> names ex_heap = mset xs + names h'
     \<and> sorted_wrt (\<le>) xs"
proof -
  have "2 \<le> usedsize ex_heap" by (simp add: ex_heap_def)
  from encHeap_drain_oldest [OF ex_heap_ok this] show ?thesis by blast
qed

text \<open>Taking a name out of an empty heap gives the empty name and changes nothing; otherwise the
  result is a stored name no newer than any other, which is removed.\<close>

theorem encHeap_deQueue_oldest:
  assumes "heap_ok h"
  shows "if usedsize h = 0 then encHeap_deQueue h = (zeroHData, h)
    else \<exists>h'. encHeap_deQueue h = (node h ! 0, h') \<and> heap_ok h' \<and> usedsize h = Suc (usedsize h')
      \<and> names h = add_mset (node h ! 0) (names h') \<and> (\<forall>y \<in># names h. node h ! 0 \<le> y)"
  using deQueue_correct [OF assms] root_oldest [OF assms] names_empty [OF assms]
  by (auto simp: encHeap_deQueue_def)

lemma encHeap_deQueue_oldest_witness:
  "\<exists>h'. encHeap_deQueue ex_heap = (ex_name ''NOR_20200101.mp4'', h') \<and> heap_ok h'"
  using encHeap_deQueue_oldest [OF ex_heap_ok] by (auto simp: ex_heap_def)

end
