(* ===== verification/RtpTypes.thy ===== *)
theory RtpTypes
  imports RtpQueue
begin

text \<open>
  What the RTP packetisers share: the session state of \<open>task/rtspd/rtspd_define.h\<close>, the
  interleaved and RTP headers, and the part of every packetiser that starts a packet in the other
  of the two send buffers, numbers it, and closes it (\<open>rtp_emit\<close>). The locale \<open>rtp_sender\<close> states
  what the send loop relies on; every packetiser interprets it.
\<close>

section \<open>Session state\<close>

datatype rtsp_transport_type =
  ENX_RTSP_TRANSPORT_NONE | ENX_RTSP_TRANSPORT_UDP | ENX_RTSP_TRANSPORT_TCP | ENX_RTSP_TRANSPORT_HTTP

datatype rtp_txstate_type = ENX_RTP_TXSTE_READY | ENX_RTP_TXSTE_DOING | ENX_RTP_TXSTE_END

datatype rtsp_stream_type =
    ENX_RTSP_STREAM_FILE_H264_TYPE | ENX_RTSP_STREAM_FILE_H265_TYPE | ENX_RTSP_STREAM_LIVE
  | ENX_RTSP_STREAM_LIVE_H264_1 | ENX_RTSP_STREAM_LIVE_H264_2
  | ENX_RTSP_STREAM_LIVE_H265_1 | ENX_RTSP_STREAM_LIVE_H265_2
  | ENX_RTSP_STREAM_LIVE_JPEG | ENX_RTSP_STREAM_LIVE_JPEG_SW
  | ENX_RTSP_STREAM_NONE | ENX_RTSP_STREAM_ERROR

datatype rtsp_client_state =
    ENX_RTSP_STATE_NONE | ENX_RTSP_STATE_OPTIONS | ENX_RTSP_STATE_DESCRIBE | ENX_RTSP_STATE_SETUP
  | ENX_RTSP_STATE_PLAY | ENX_RTSP_STATE_PAUSE | ENX_RTSP_STATE_TEARDOWN
  | ENX_RTSP_STATE_GET_PARAMETER | ENX_RTSP_STATE_SET_PARAMETER | ENX_RTSP_STATE_ERROR

definition ENX_RTSP_STRTYPE_VIDEO :: u32 where "ENX_RTSP_STRTYPE_VIDEO = 1"
definition ENX_RTSP_STRTYPE_AUDIO :: u32 where "ENX_RTSP_STRTYPE_AUDIO = 2"

definition ENX_RTSP_STRTYPE_numVIDEO :: nat where "ENX_RTSP_STRTYPE_numVIDEO = 0"
definition ENX_RTSP_STRTYPE_numAUDIO :: nat where "ENX_RTSP_STRTYPE_numAUDIO = 1"

definition TCP_MSS :: u32 where "TCP_MSS = 1460"

record rtp_packet =
  pk_base :: u32
  pk_size :: u32
  pk_offset :: u32
  pk_width :: u32
  pk_height :: u32
  pk_data_offset :: u32
  pk_nalfirst :: u32
  pk_naltype :: u32
  pk_nalidc :: u32
  pk_nalnum :: u32
  pk_nalunithdr :: u16

text \<open>
  The two send buffers of 1500 bytes are indexed memories; the theorems bound what is written.
\<close>

record rtp_session =
  tx_ready :: rtp_txstate_type
  rtp_pk :: rtp_packet
  payload_type :: u32
  ssrc :: u32
  start_rtptime :: u32
  start_seq :: u16
  sr_send_time :: u32
  packet_cnt :: u32
  total_length :: u32
  buffer :: "nat \<Rightarrow> mem"
  buf_len :: "nat \<Rightarrow> u32"
  buf_idx :: u32

text \<open>The fields of \<open>rtsp_client\<close> the packetisers use; index 0 is video, 1 audio.\<close>

record rtsp_client =
  cl_valid :: bool
  cl_state :: rtsp_client_state
  eTransport :: rtsp_transport_type
  rtp_port :: "nat \<Rightarrow> u16"
  rtcp_port :: "nat \<Rightarrow> u16"
  rtp_queue_video :: rtp_queue
  rtp_queue_audio :: rtp_queue
  isLive :: rtsp_stream_type
  play_query :: u32
  rtp_ss :: "nat \<Rightarrow> rtp_session"

definition set_ss :: "rtsp_client \<Rightarrow> nat \<Rightarrow> rtp_session \<Rightarrow> rtsp_client" where
  "set_ss c k s = c\<lparr>rtp_ss := (rtp_ss c)(k := s)\<rparr>"

lemma set_ss_simps [simp]:
  "rtp_ss (set_ss c k s) k = s" "eTransport (set_ss c k s) = eTransport c"
  "rtp_port (set_ss c k s) = rtp_port c" "set_ss (set_ss c k s) k s' = set_ss c k s'"
  "rtp_queue_video (set_ss c k s) = rtp_queue_video c"
  "rtp_queue_audio (set_ss c k s) = rtp_queue_audio c"
  "cl_valid (set_ss c k s) = cl_valid c" "cl_state (set_ss c k s) = cl_state c"
  "isLive (set_ss c k s) = isLive c" "play_query (set_ss c k s) = play_query c"
  "j \<noteq> k \<Longrightarrow> rtp_ss (set_ss c k s) j = rtp_ss c j"
  by (simp_all add: set_ss_def)

section \<open>Headers\<close>

definition is_interleaved :: "rtsp_client \<Rightarrow> bool" where
  "is_interleaved c \<longleftrightarrow>
     eTransport c = ENX_RTSP_TRANSPORT_TCP \<or> eTransport c = ENX_RTSP_TRANSPORT_HTTP"

definition rthInterleaved_bytes :: "u16 \<Rightarrow> u16 \<Rightarrow> bytes" where
  "rthInterleaved_bytes channel len = of_char (CHR ''$'') # ucast channel # be16 len"

text \<open>Version 2, no padding, extension or sources; marker bit and seven bits of payload type.\<close>

definition rthRTPHeader_bytes :: "bool \<Rightarrow> u32 \<Rightarrow> u16 \<Rightarrow> u32 \<Rightarrow> u32 \<Rightarrow> bytes" where
  "rthRTPHeader_bytes marker pt seq ts ss =
     [push_bit 6 2, push_bit 7 (of_bool marker) OR (ucast pt AND 0x7F)] @
     be16 seq @ be32 ts @ be32 ss"

definition sizeof_rthInterleaved :: u32 where "sizeof_rthInterleaved = 1 + 1 + 2"
definition sizeof_rthRTPHeader :: u32 where "sizeof_rthRTPHeader = 1 + 1 + 2 + 4 + 4"

definition rtp_hdr_len :: "rtsp_client \<Rightarrow> u32" where
  "rtp_hdr_len c = (if is_interleaved c then sizeof_rthInterleaved + sizeof_rthRTPHeader
                else sizeof_rthRTPHeader)"

text \<open>
  The packet of session \<open>k\<close> with the payload \<open>body\<close>: the other buffer is taken, the sequence
  number advanced, and the marker bit set when the frame is done; the state machine goes on to
  \<open>END\<close> and from there to \<open>READY\<close> in the same call.
\<close>

definition rtp_bytes :: "rtsp_client \<Rightarrow> nat \<Rightarrow> rtp_session \<Rightarrow> bytes \<Rightarrow> bool \<Rightarrow> bytes" where
  "rtp_bytes c k s body done =
     (let h = rthRTPHeader_bytes done (payload_type s) (start_seq s) (start_rtptime s) (ssrc s)
      in (if is_interleaved c
          then rthInterleaved_bytes (rtp_port c k) (of_nat (length (h @ body))) else []) @ h @ body)"

definition rtp_emit :: "rtsp_client \<Rightarrow> nat \<Rightarrow> rtp_packet \<Rightarrow> bytes \<Rightarrow> bool \<Rightarrow> rtsp_client" where
  "rtp_emit c k pk body done =
     (let s = rtp_ss c k;
          idx = (buf_idx s + 1) mod 2;
          s = s\<lparr>rtp_pk := pk, buf_idx := idx, start_seq := start_seq s + 1\<rparr>;
          pkt = rtp_bytes c k s body done
      in set_ss c k (s\<lparr>
           buffer := (buffer s)(unat idx := store (buffer s (unat idx)) 0 pkt),
           buf_len := (buf_len s)(unat idx := of_nat (length pkt)),
           tx_ready := (if done then ENX_RTP_TXSTE_READY else ENX_RTP_TXSTE_DOING)\<rparr>))"

section \<open>The packet that is sent\<close>

text \<open>What the send loop hands to the socket: the current buffer up to its length.\<close>

definition cur :: "rtp_session \<Rightarrow> nat" where
  "cur s = unat (buf_idx s)"

definition other :: "rtp_session \<Rightarrow> nat" where
  "other s = unat ((buf_idx s + 1) mod 2)"

definition rtp_pkt :: "rtp_session \<Rightarrow> bytes" where
  "rtp_pkt s = load (buffer s (cur s)) 0 (unat (buf_len s (cur s)))"

text \<open>The sequence number in a packet, behind the interleaved header if there is one.\<close>

definition pkt_seq :: "rtsp_client \<Rightarrow> bytes \<Rightarrow> u16" where
  "pkt_seq c p = of_be16 (drop (if is_interleaved c then 6 else 2) p)"

lemma of_be16_append [simp]: "of_be16 (be16 w @ xs) = w"
proof -
  have "of_be16 (be16 w @ xs) = of_be16 (be16 w)"
    by (simp add: of_be16_def nth_append)
  then show ?thesis by simp
qed

lemma length_rthInterleaved [simp]: "length (rthInterleaved_bytes ch n) = 4"
  by (simp add: rthInterleaved_bytes_def)

lemma length_rthRTPHeader [simp]: "length (rthRTPHeader_bytes mk pt seq ts ss) = 12"
  by (simp add: rthRTPHeader_bytes_def)

lemma length_rtp_bytes:
  "length (rtp_bytes c k s body done) = (if is_interleaved c then 16 else 12) + length body"
  by (simp add: rtp_bytes_def Let_def)

lemma pkt_seq_rtp_bytes: "pkt_seq c (rtp_bytes c k s body done) = start_seq s"
  by (simp add: pkt_seq_def rtp_bytes_def Let_def rthInterleaved_bytes_def rthRTPHeader_bytes_def
      numeral_eq_Suc)

lemma pkt_seq_transport: "eTransport c = eTransport c' \<Longrightarrow> pkt_seq c = pkt_seq c'"
  by (rule ext) (simp add: pkt_seq_def is_interleaved_def)

text \<open>The marker bit and the payload of a packet.\<close>

definition pkt_marker :: "rtsp_client \<Rightarrow> bytes \<Rightarrow> bool" where
  "pkt_marker c p \<longleftrightarrow> bit (p ! (if is_interleaved c then 5 else 1)) 7"

definition pkt_body :: "rtsp_client \<Rightarrow> bytes \<Rightarrow> bytes" where
  "pkt_body c p = drop (if is_interleaved c then 16 else 12) p"

lemma pkt_body_rtp_bytes: "pkt_body c (rtp_bytes c k s body dn) = body"
  by (simp add: pkt_body_def rtp_bytes_def Let_def)

lemma pkt_marker_rtp_bytes: "pkt_marker c (rtp_bytes c k s body dn) = dn"
  by (simp add: pkt_marker_def rtp_bytes_def Let_def rthInterleaved_bytes_def rthRTPHeader_bytes_def
      be16_def numeral_eq_Suc bit_simps)

lemma is_interleaved_set_ss [simp]: "is_interleaved (set_ss c k s) = is_interleaved c"
  by (simp add: is_interleaved_def)

lemma idx_cases: "(i :: u32) < 2 \<Longrightarrow> i = 0 \<or> i = 1"
  by (auto simp: word_less_nat_alt word_unat_eq_iff)

text \<open>Facts about the session after a packet.\<close>

lemma rtp_emit_session:
  fixes c k pk body dn
  defines "s \<equiv> rtp_ss c k" and "c' \<equiv> rtp_emit c k pk body dn"
  defines "s' \<equiv> rtp_ss c' k"
  shows "start_seq s' = start_seq s + 1" and "rtp_pk s' = pk"
    and "tx_ready s' = (if dn then ENX_RTP_TXSTE_READY else ENX_RTP_TXSTE_DOING)"
    and "eTransport c' = eTransport c" and "rtp_queue_video c' = rtp_queue_video c"
    and "rtp_queue_audio c' = rtp_queue_audio c" and "isLive c' = isLive c"
    and "play_query c' = play_query c" and "cur s' = other s" and "buf_idx s' < 2"
    and "start_rtptime s' = start_rtptime s"
  by (simp_all add: s_def c'_def s'_def rtp_emit_def Let_def cur_def other_def word_mod_less_divisor)

lemma rtp_emit_pkt:
  assumes "length body \<le> 1460"
  shows "rtp_pkt (rtp_ss (rtp_emit c k pk body dn) k)
      = rtp_bytes c k ((rtp_ss c k)\<lparr>start_seq := start_seq (rtp_ss c k) + 1\<rparr>) body dn"
proof -
  let ?s = "rtp_ss c k"
  let ?t = "?s\<lparr>rtp_pk := pk, buf_idx := (buf_idx ?s + 1) mod 2, start_seq := start_seq ?s + 1\<rparr>"
  have b: "rtp_bytes c k ?t body dn = rtp_bytes c k (?s\<lparr>start_seq := start_seq ?s + 1\<rparr>) body dn"
    by (simp add: rtp_bytes_def)
  have "length (rtp_bytes c k ?t body dn) < 2 ^ 32"
    using assms by (simp add: length_rtp_bytes)
  then show ?thesis
    unfolding b [symmetric]
    by (simp add: rtp_emit_def Let_def rtp_pkt_def cur_def load_store_same)
qed

text \<open>The largest packet: the maximum segment, or the same datagram with the shorter UDP header.\<close>

definition rtp_mtu :: "rtsp_client \<Rightarrow> u32" where
  "rtp_mtu c = (if eTransport c = ENX_RTSP_TRANSPORT_UDP then TCP_MSS + 12 else TCP_MSS)"

definition rtp_left :: "rtsp_client \<Rightarrow> nat \<Rightarrow> int" where
  "rtp_left c k = sint (pk_size (rtp_pk (rtp_ss c k)) - pk_offset (rtp_pk (rtp_ss c k)))"

lemma video_0 [simp]: "ENX_RTSP_STRTYPE_numVIDEO = 0"
  by (simp add: ENX_RTSP_STRTYPE_numVIDEO_def)

lemma audio_1 [simp]: "ENX_RTSP_STRTYPE_numAUDIO = 1"
  by (simp add: ENX_RTSP_STRTYPE_numAUDIO_def)

lemma rtp_sizes:
  "unat (rtp_mtu c - rtp_hdr_len c) = unat (rtp_mtu c) - unat (rtp_hdr_len c)"
  "unat (rtp_mtu c - (rtp_hdr_len c + 2)) = unat (rtp_mtu c) - unat (rtp_hdr_len c) - 2"
  "unat (rtp_mtu c - (rtp_hdr_len c + 3)) = unat (rtp_mtu c) - unat (rtp_hdr_len c) - 3"
  "unat (rtp_mtu c) \<le> 1472" "unat (rtp_hdr_len c) \<le> 16" "1460 \<le> unat (rtp_mtu c)"
  "unat (rtp_hdr_len c) = (if is_interleaved c then 16 else 12)"
  by (auto simp: rtp_mtu_def rtp_hdr_len_def TCP_MSS_def sizeof_rthInterleaved_def
      sizeof_rthRTPHeader_def is_interleaved_def)

definition body_limit :: "rtsp_client \<Rightarrow> nat" where
  "body_limit c = unat (rtp_mtu c) - unat (rtp_hdr_len c)"

lemma rtp_emit_fits:
  fixes c :: rtsp_client and k :: nat and pk :: rtp_packet and body :: bytes and dn :: bool
  assumes "length body \<le> body_limit c"
  defines "p \<equiv> rtp_pkt (rtp_ss (rtp_emit c k pk body dn) k)"
  shows "pkt_body c p = body" and "pkt_marker c p = dn" and "length p \<le> unat (rtp_mtu c)"
    and "pkt_seq c p = start_seq (rtp_ss c k) + 1"
proof -
  have "length body \<le> 1460"
    using assms(1) rtp_sizes(4,7) [of c] by (simp add: body_limit_def split: if_splits)
  note p = rtp_emit_pkt [OF this, of c k pk dn, folded p_def]
  show "pkt_body c p = body" "pkt_marker c p = dn" "pkt_seq c p = start_seq (rtp_ss c k) + 1"
    by (simp_all add: p pkt_body_rtp_bytes pkt_marker_rtp_bytes pkt_seq_rtp_bytes)
  show "length p \<le> unat (rtp_mtu c)"
    using assms(1) rtp_sizes(5,6,7) [of c]
    by (simp add: p length_rtp_bytes body_limit_def split: if_splits)
qed

text \<open>
  What a call of a packetiser may do to session \<open>k\<close>: nothing the receiver sees, or that and then
  one packet that fits.
\<close>

definition quiet :: "nat \<Rightarrow> rtsp_client \<Rightarrow> rtsp_client \<Rightarrow> bool" where
  "quiet k c c' \<longleftrightarrow> eTransport c' = eTransport c \<and> rtp_port c' = rtp_port c \<and> isLive c' = isLive c
     \<and> play_query c' = play_query c \<and> start_seq (rtp_ss c' k) = start_seq (rtp_ss c k)
     \<and> buf_idx (rtp_ss c' k) = buf_idx (rtp_ss c k) \<and> buf_len (rtp_ss c' k) = buf_len (rtp_ss c k)"

definition outcome :: "nat \<Rightarrow> rtsp_client \<Rightarrow> rtsp_client \<Rightarrow> bool" where
  "outcome k c c' \<longleftrightarrow> quiet k c c' \<or> (\<exists>c1 pk body dn. quiet k c c1
     \<and> c' = rtp_emit c1 k pk body dn \<and> length body \<le> body_limit c)"

lemma quiet_refl [simp]: "quiet k c c"
  by (simp add: quiet_def)

lemma outcome_quiet: "quiet k c c' \<Longrightarrow> outcome k c c'"
  by (simp add: outcome_def)

lemma body_limit_cong: "eTransport c = eTransport c' \<Longrightarrow> body_limit c = body_limit c'"
  by (simp add: body_limit_def rtp_mtu_def rtp_hdr_len_def is_interleaved_def)

lemma outcome_emit:
  "quiet k c c1 \<Longrightarrow> length body \<le> body_limit c1 \<Longrightarrow> outcome k c (rtp_emit c1 k pk body dn)"
  using body_limit_cong [of c1 c] by (auto simp: outcome_def quiet_def)

section \<open>The contract of a packetiser\<close>

text \<open>
  The send loop alternates with the tasks that queue frames. \<open>play\<close> is one call for session \<open>k\<close>
  with the frame memory as it is at that moment; \<open>feed\<close> queues a frame. Whatever has a length
  other than zero afterwards is sent.
\<close>

datatype rtp_event = Play mem | Feed rtp_queue_data

fun rtp_run :: "(mem \<Rightarrow> rtsp_client \<Rightarrow> rtsp_client) \<Rightarrow> (rtp_queue_data \<Rightarrow> rtsp_client \<Rightarrow> rtsp_client) \<Rightarrow>
    nat \<Rightarrow> rtp_event list \<Rightarrow> rtsp_client \<Rightarrow> bytes list" where
  "rtp_run play feed k [] c = []"
| "rtp_run play feed k (Feed d # es) c = rtp_run play feed k es (feed d c)"
| "rtp_run play feed k (Play m # es) c =
     (let c' = play m c; ps = rtp_run play feed k es c'
      in if buf_len (rtp_ss c' k) (cur (rtp_ss c' k)) \<noteq> 0 then rtp_pkt (rtp_ss c' k) # ps else ps)"

locale rtp_sender =
  fixes ok :: "rtsp_client \<Rightarrow> bool"
    and play :: "mem \<Rightarrow> rtsp_client \<Rightarrow> rtsp_client"
    and feed :: "rtp_queue_data \<Rightarrow> rtsp_client \<Rightarrow> rtsp_client"
    and k :: nat
    and limit :: "rtsp_client \<Rightarrow> nat"
  assumes play_ok: "ok c \<Longrightarrow> ok (play m c) \<and> eTransport (play m c) = eTransport c"
    and play_idle: "ok c \<Longrightarrow> buf_len (rtp_ss (play m c) k) (cur (rtp_ss (play m c) k)) = 0 \<Longrightarrow>
      start_seq (rtp_ss (play m c) k) = start_seq (rtp_ss c k)"
    and play_packet: "ok c \<Longrightarrow> buf_len (rtp_ss (play m c) k) (cur (rtp_ss (play m c) k)) \<noteq> 0 \<Longrightarrow>
      start_seq (rtp_ss (play m c) k) = start_seq (rtp_ss c k) + 1 \<and>
      pkt_seq c (rtp_pkt (rtp_ss (play m c) k)) = start_seq (rtp_ss c k) + 1 \<and>
      length (rtp_pkt (rtp_ss (play m c) k)) \<le> limit c"
    and feed_ok: "ok c \<Longrightarrow> ok (feed d c) \<and> eTransport (feed d c) = eTransport c
      \<and> start_seq (rtp_ss (feed d c) k) = start_seq (rtp_ss c k)"
    and limit_transport: "eTransport c = eTransport c' \<Longrightarrow> limit c = limit c'"
begin

text \<open>The packets of a run are numbered consecutively and none exceeds the limit.\<close>

lemma run_numbered:
  assumes "ok c"
  shows "list_all (\<lambda>p. length p \<le> limit c) (rtp_run play feed k es c)
    \<and> (\<forall>i < length (rtp_run play feed k es c).
      pkt_seq c (rtp_run play feed k es c ! i) = start_seq (rtp_ss c k) + of_nat (Suc i))"
  using assms
proof (induction es arbitrary: c)
  case Nil
  then show ?case by simp
next
  case (Cons e es)
  show ?case
  proof (cases e)
    case (Feed d)
    have t: "eTransport (feed d c) = eTransport c" using feed_ok [OF Cons.prems, of d] by simp
    from limit_transport [OF t] pkt_seq_transport [OF t]
    have "limit (feed d c) = limit c" "pkt_seq (feed d c) = pkt_seq c" .
    with Feed Cons.IH [of "feed d c"] feed_ok [OF Cons.prems, of d] show ?thesis by simp
  next
    case (Play m)
    let ?c = "play m c"
    have t: "eTransport ?c = eTransport c" and ok: "ok ?c" using play_ok [OF Cons.prems] by auto
    note IH = Cons.IH [OF ok, unfolded limit_transport [OF t] pkt_seq_transport [OF t]]
    show ?thesis
    proof (cases "buf_len (rtp_ss ?c k) (cur (rtp_ss ?c k)) = 0")
      case True
      with IH Play play_idle [OF Cons.prems True] show ?thesis by simp
    next
      case False
      note pp = play_packet [OF Cons.prems False]
      let ?ps = "rtp_run play feed k es ?c"
      have "pkt_seq c ((rtp_pkt (rtp_ss ?c k) # ?ps) ! i) = start_seq (rtp_ss c k) + of_nat (Suc i)"
        if "i < Suc (length ?ps)" for i
        using that IH pp by (cases i) (simp_all add: add.assoc)
      with IH Play False pp show ?thesis by (simp add: Let_def)
    qed
  qed
qed

end

end
