(* ===== verification/RtpNal.thy ===== *)
theory RtpNal
  imports RtpTypes
begin

text \<open>
  What the H.264 and the H.265 packetiser share, \<open>task/rtspd/rtp_h264.c\<close> and \<open>rtp_h265.c\<close>: the
  search for start codes, taking a frame from the queue, and the contract \<open>nal_sender\<close> that each
  call sends the next piece of the frame. From it follows, once for both, that the packets of a
  frame put together by a receiver are the NAL unit, and that the calls come to an end.
\<close>

section \<open>Searching for start codes\<close>

text \<open>The offset behind the first \<open>00 00 01\<close> that begins at one of the \<open>n\<close> first bytes, else 0.\<close>

function nal_start :: "mem \<Rightarrow> nat \<Rightarrow> nat \<Rightarrow> nat \<Rightarrow> nat" where
  "nal_start m p i n =
     (if i \<ge> n then 0
      else if m (p + i) = 0 \<and> m (p + i + 1) = 0 \<and> m (p + i + 2) = 1 then i + 3
      else nal_start m p (i + 1) n)"
  by pat_completeness auto
termination
  by (relation "measure (\<lambda>(m, p, i, n). n - i)") auto

declare nal_start.simps [simp del]

text \<open>The length of a parameter set: up to the zeros in front of the next start code, else 0.\<close>

function nal_end :: "mem \<Rightarrow> nat \<Rightarrow> nat \<Rightarrow> nat \<Rightarrow> nat \<Rightarrow> nat" where
  "nal_end m p i j n =
     (if i \<ge> n then 0
      else if m (p + i) = 0
           then (if m (p + i + 1) = 1 \<and> j + 1 \<ge> 2 then i + 1 - (j + 1)
                 else nal_end m p (i + 1) (j + 1) n)
           else nal_end m p (i + 1) 0 n)"
  by pat_completeness auto
termination
  by (relation "measure (\<lambda>(m, p, i, j, n). n - i)") auto

declare nal_end.simps [simp del]

text \<open>The bits of the fragment headers.\<close>

lemma bit_top [simp]: "bit (128 :: u8) n \<longleftrightarrow> n = 7" "bit (64 :: u8) n \<longleftrightarrow> n = 6"
proof -
  have "bit (push_bit 7 1 :: u8) n \<longleftrightarrow> n = 7" "bit (push_bit 6 1 :: u8) n \<longleftrightarrow> n = 6"
    unfolding bit_push_bit_iff bit_1_iff by auto
  then show "bit (128 :: u8) n \<longleftrightarrow> n = 7" "bit (64 :: u8) n \<longleftrightarrow> n = 6" by simp_all
qed

lemma bit_top_int [simp]: "bit (128 :: int) n \<longleftrightarrow> n = 7" "bit (64 :: int) n \<longleftrightarrow> n = 6"
proof -
  have "bit (push_bit 7 1 :: int) n \<longleftrightarrow> n = 7" "bit (push_bit 6 1 :: int) n \<longleftrightarrow> n = 6"
    unfolding bit_push_bit_iff bit_1_iff by auto
  then show "bit (128 :: int) n \<longleftrightarrow> n = 7" "bit (64 :: int) n \<longleftrightarrow> n = 6" by simp_all
qed

section \<open>Taking a frame\<close>

text \<open>
  State \<open>READY\<close>: take a frame. Until the first key frame has been seen, other frames are taken
  and dropped. The flag says whether to go on to \<open>DOING\<close>.
\<close>

definition h26x_ready :: "rtsp_client \<Rightarrow> bool \<times> rtsp_client" where
  "h26x_ready c =
     (case rtp_queue_get (rtp_queue_video c) of
        None \<Rightarrow> (False, c)
      | Some (pdata, q) \<Rightarrow>
          (let s = rtp_ss c ENX_RTSP_STRTYPE_numVIDEO;
               pk = (rtp_pk s)\<lparr>pk_base := rq_addr pdata, pk_size := rq_size pdata, pk_offset := 0\<rparr>;
               s = s\<lparr>start_rtptime := start_rtptime s + rq_ts pdata, rtp_pk := pk\<rparr>;
               c = c\<lparr>rtp_queue_video := q\<rparr>
           in if pk_nalfirst pk = 0 \<and> rq_flags pdata \<noteq> 1
              then (False, set_ss c ENX_RTSP_STRTYPE_numVIDEO s)
              else (True, set_ss c ENX_RTSP_STRTYPE_numVIDEO
                     (s\<lparr>rtp_pk := (if pk_nalfirst pk = 0 then pk\<lparr>pk_nalfirst := 1\<rparr> else pk),
                        tx_ready := ENX_RTP_TXSTE_DOING\<rparr>))))"

lemma nal_end_le: "j \<le> i \<Longrightarrow> nal_end m p i j n \<le> n"
  by (induction m p i j n rule: nal_end.induct) (subst nal_end.simps, auto)

definition no_start :: "mem \<Rightarrow> nat \<Rightarrow> nat \<Rightarrow> bool" where
  "no_start m p n \<longleftrightarrow> (\<forall>i < n. \<not> (m (p + i) = 0 \<and> m (p + i + 1) = 0 \<and> m (p + i + 2) = 1))"

lemma nal_start_none:
  "(\<forall>j. i \<le> j \<and> j < n \<longrightarrow> \<not> (m (p + j) = 0 \<and> m (p + j + 1) = 0 \<and> m (p + j + 2) = 1)) \<Longrightarrow>
   nal_start m p i n = 0"
  by (induction m p i n rule: nal_start.induct) (subst nal_start.simps, auto)

lemma no_start_le: "no_start m p n \<Longrightarrow> k \<le> n \<Longrightarrow> nal_start m p 0 k = 0"
  by (rule nal_start_none) (auto simp: no_start_def)

lemma no_start_drop: "no_start m p n \<Longrightarrow> no_start m (p + k) (n - k)"
  unfolding no_start_def by (metis add.assoc add.commute less_diff_conv)

lemma h26x_ready_quiet: "quiet 0 c (snd (h26x_ready c))"
  by (auto simp: h26x_ready_def Let_def quiet_def split: option.split)

section \<open>A frame in progress\<close>

text \<open>The state of a session in mid-frame, with its numbers as naturals: \<open>B\<close> base, \<open>S\<close> size, \<open>off\<close> offset.\<close>

definition sending :: "rtsp_client \<Rightarrow> nat \<Rightarrow> nat \<Rightarrow> nat \<Rightarrow> bool" where
  "sending c B S off \<longleftrightarrow>
     (eTransport c = ENX_RTSP_TRANSPORT_UDP \<or> eTransport c = ENX_RTSP_TRANSPORT_TCP)
     \<and> tx_ready (rtp_ss c 0) = ENX_RTP_TXSTE_DOING
     \<and> unat (pk_base (rtp_pk (rtp_ss c 0))) = B \<and> unat (pk_size (rtp_pk (rtp_ss c 0))) = S
     \<and> unat (pk_offset (rtp_pk (rtp_ss c 0))) = off \<and> off \<le> S \<and> B + S < 2 ^ 32"

lemma sending_numbers:
  assumes "sending c B S off" and "off + n \<le> S"
  defines "pk \<equiv> rtp_pk (rtp_ss c 0)"
  shows "unat (pk_size pk - pk_offset pk) = S - off"
    and "unat (pk_base pk + pk_offset pk) = B + off"
    and "unat (pk_offset pk + of_nat n) = off + n"
    and "pk_offset pk + of_nat n = pk_size pk \<longleftrightarrow> off + n = S"
proof -
  have b: "unat (pk_base pk) = B" "unat (pk_size pk) = S" "unat (pk_offset pk) = off" "off \<le> S"
    "B + S < 4294967296"
    using assms(1) by (auto simp: sending_def pk_def)
  show "unat (pk_size pk - pk_offset pk) = S - off"
    using b by (simp add: unat_sub_if_size word_size)
  show "unat (pk_base pk + pk_offset pk) = B + off"
    using b by (simp add: unat_word_ariths)
  show 1: "unat (pk_offset pk + of_nat n) = off + n"
    using b assms(2) by (simp add: unat_word_ariths unat_of_nat)
  show "pk_offset pk + of_nat n = pk_size pk \<longleftrightarrow> off + n = S"
    using 1 b(2) by (auto simp: word_unat_eq_iff)
qed

lemma word_of_unat: "unat w = n \<Longrightarrow> (w :: u32) = of_nat n"
  by auto

lemma min_word: "unat (if l < r then l else r :: u32) = min (unat l) (unat r)"
  by (auto simp: word_less_nat_alt)

lemma sending_emit:
  assumes "sending c B S off" and "unat (pk_base pk) = B" and "unat (pk_size pk) = S"
    and "unat (pk_offset pk) = off'" and "off' \<le> S"
  shows "sending (rtp_emit c 0 pk body False) B S off'"
  using assms by (simp add: sending_def rtp_emit_session)

lemma body_limit_word: "unat (rtp_mtu c - rtp_hdr_len c) = body_limit c"
  by (simp add: body_limit_def rtp_sizes(1))

lemma h26x_ready_sending:
  assumes "eTransport c = ENX_RTSP_TRANSPORT_UDP \<or> eTransport c = ENX_RTSP_TRANSPORT_TCP"
    and "rtp_queue_get (rtp_queue_video c) = Some (d, q)"
    and "rq_flags d = 1 \<or> pk_nalfirst (rtp_pk (rtp_ss c 0)) \<noteq> 0"
    and "unat (rq_addr d) + unat (rq_size d) < 2 ^ 32"
  shows "fst (h26x_ready c)" and "sending (snd (h26x_ready c)) (unat (rq_addr d)) (unat (rq_size d)) 0"
    and "eTransport (snd (h26x_ready c)) = eTransport c"
  using assms by (auto simp: h26x_ready_def Let_def sending_def)

section \<open>The receiver's view of a frame\<close>

text \<open>
  The calls that send one frame, until the state is \<open>READY\<close> again; the number bounds the calls.
\<close>

fun rtp_frame :: "(mem \<Rightarrow> rtsp_client \<Rightarrow> rtsp_client \<times> int) \<Rightarrow> nat \<Rightarrow> mem \<Rightarrow> rtsp_client \<Rightarrow>
    bytes list \<times> rtsp_client" where
  "rtp_frame main 0 m c = ([], c)"
| "rtp_frame main (Suc n) m c =
     (let c' = fst (main m c); p = rtp_pkt (rtp_ss c' 0)
      in if tx_ready (rtp_ss c' 0) = ENX_RTP_TXSTE_READY then ([p], c')
         else (let (ps, c') = rtp_frame main n m c' in (p # ps, c')))"

definition reassemble :: "(bytes \<Rightarrow> bytes) \<Rightarrow> rtsp_client \<Rightarrow> bytes list \<Rightarrow> bytes" where
  "reassemble unit c ps = concat (map (unit \<circ> pkt_body c) ps)"

text \<open>Only the last packet of a frame carries the marker bit.\<close>

definition marked_last :: "rtsp_client \<Rightarrow> bytes list \<Rightarrow> bool" where
  "marked_last c ps \<longleftrightarrow> ps \<noteq> [] \<and> pkt_marker c (last ps) \<and> list_all (\<lambda>p. \<not> pkt_marker c p) (butlast ps)"

lemma marked_last_Cons:
  "marked_last c (p # ps) \<longleftrightarrow> (if ps = [] then pkt_marker c p else \<not> pkt_marker c p \<and> marked_last c ps)"
  by (auto simp: marked_last_def)

lemma reassemble_cong:
  "eTransport c = eTransport c' \<Longrightarrow> reassemble unit c = reassemble unit c'"
  "eTransport c = eTransport c' \<Longrightarrow> marked_last c = marked_last c'"
  "eTransport c = eTransport c' \<Longrightarrow> rtp_mtu c = rtp_mtu c'"
  by (auto simp: fun_eq_iff reassemble_def marked_last_def pkt_body_def pkt_marker_def
      is_interleaved_def comp_def rtp_mtu_def)

text \<open>What a receiver has when the frame from \<open>off\<close> on has been sent in \<open>ps\<close>.\<close>

definition delivered :: "(bytes \<Rightarrow> bytes) \<Rightarrow> rtsp_client \<Rightarrow> bytes list \<times> rtsp_client \<Rightarrow> bytes \<Rightarrow> bool" where
  "delivered unit c r bs \<longleftrightarrow> tx_ready (rtp_ss (snd r) 0) = ENX_RTP_TXSTE_READY
     \<and> reassemble unit c (fst r) = bs \<and> marked_last c (fst r)
     \<and> list_all (\<lambda>p. length p \<le> unat (rtp_mtu c)) (fst r)"

lemma delivered_cong:
  "eTransport c = eTransport c' \<Longrightarrow> delivered unit c = delivered unit c'"
  using reassemble_cong [of c c'] by (simp add: fun_eq_iff delivered_def)

text \<open>
  One call sends the \<open>n\<close> bytes at \<open>off\<close>, in a packet that fits, and leaves the state \<open>st\<close> for the
  bytes behind them.
\<close>

definition sends :: "(bytes \<Rightarrow> bytes) \<Rightarrow> (mem \<Rightarrow> rtsp_client \<Rightarrow> rtsp_client \<times> int) \<Rightarrow>
    (mem \<Rightarrow> rtsp_client \<Rightarrow> nat \<Rightarrow> nat \<Rightarrow> nat \<Rightarrow> bool) \<Rightarrow>
    mem \<Rightarrow> rtsp_client \<Rightarrow> nat \<Rightarrow> nat \<Rightarrow> nat \<Rightarrow> bool" where
  "sends unit main st m c B S off \<longleftrightarrow> (\<exists>pk body n.
     fst (main m c) = rtp_emit c 0 pk body (off + n = S) \<and> length body \<le> body_limit c
     \<and> unit body = load m (B + off) n \<and> 0 < n \<and> off + n \<le> S
     \<and> (off + n \<noteq> S \<longrightarrow> st m (rtp_emit c 0 pk body False) B S (off + n)))"

locale frame_sender =
  fixes main :: "mem \<Rightarrow> rtsp_client \<Rightarrow> rtsp_client \<times> int"
    and unit :: "bytes \<Rightarrow> bytes"
    and st :: "mem \<Rightarrow> rtsp_client \<Rightarrow> nat \<Rightarrow> nat \<Rightarrow> nat \<Rightarrow> bool"
  assumes goes_on: "st m c B S off \<Longrightarrow> off < S \<Longrightarrow> sends unit main st m c B S off"
begin

text \<open>A call that sends a piece, followed by calls that deliver the rest.\<close>

lemma sends_then:
  assumes snds: "sends unit main st m c B S off"
    and rest: "\<And>c' n. st m c' B S (off + n) \<Longrightarrow> 0 < n \<Longrightarrow> off + n < S \<Longrightarrow>
      delivered unit c' (rtp_frame main N m c') (load m (B + (off + n)) (S - (off + n)))"
  shows "delivered unit c (rtp_frame main (Suc N) m c) (load m (B + off) (S - off))"
proof -
  obtain pk body n where
    d: "fst (main m c) = rtp_emit c 0 pk body (off + n = S)" and len: "length body \<le> body_limit c"
    and u: "unit body = load m (B + off) n" and n: "0 < n" "off + n \<le> S"
    and st: "off + n \<noteq> S \<Longrightarrow> st m (rtp_emit c 0 pk body False) B S (off + n)"
    using snds by (auto simp: sends_def)
  let ?c = "rtp_emit c 0 pk body (off + n = S)"
  let ?p = "rtp_pkt (rtp_ss ?c 0)"
  note p = rtp_emit_fits [OF len, of 0 pk "off + n = S"]
  show ?thesis
  proof (cases "off + n = S")
    case True
    then have "rtp_frame main (Suc N) m c = ([?p], ?c)"
      by (simp add: d Let_def rtp_emit_session)
    moreover have "n = S - off" using True by simp
    ultimately show ?thesis
      using True p u by (simp add: delivered_def rtp_emit_session reassemble_def marked_last_def)
  next
    case False
    have t: "eTransport ?c = eTransport c" by (rule rtp_emit_session)
    have "st m ?c B S (off + n)" using st False by simp
    from rest [OF this n(1)] False n
    have r: "delivered unit c (rtp_frame main N m ?c) (load m (B + (off + n)) (S - (off + n)))"
      unfolding delivered_cong [OF t] by simp
    have f: "rtp_frame main (Suc N) m c = (?p # fst (rtp_frame main N m ?c), snd (rtp_frame main N m ?c))"
      using False by (simp add: d Let_def rtp_emit_session split_beta)
    have l: "load m (B + off) (S - off) = load m (B + off) n @ load m (B + (off + n)) (S - (off + n))"
      using load_add [of m "B + off" n "S - off - n"] n by (simp add: add.assoc)
    have "fst (rtp_frame main N m ?c) \<noteq> []" using r by (simp add: delivered_def marked_last_def)
    then show ?thesis
      using r p u False unfolding f l by (simp add: delivered_def reassemble_def marked_last_Cons)
  qed
qed

lemma rest_sent:
  "st m c B S off \<Longrightarrow> off < S \<Longrightarrow> S - off \<le> N \<Longrightarrow>
   delivered unit c (rtp_frame main N m c) (load m (B + off) (S - off))"
proof (induction N arbitrary: c off)
  case 0
  then show ?case by simp
next
  case (Suc N)
  show ?case
    by (rule sends_then [OF goes_on [OF Suc.prems(1,2)]]) (rule Suc.IH, use Suc.prems(3) in auto)
qed

lemma all_sent:
  assumes "sends unit main st m c B S off" and "off < S" and "S - off \<le> N"
  shows "delivered unit c (rtp_frame main N m c) (load m (B + off) (S - off))"
proof -
  obtain N' where N: "N = Suc N'" using assms(2,3) by (cases N) auto
  show ?thesis
    unfolding N by (rule sends_then [OF assms(1)]) (use assms(3) N in \<open>auto intro!: rest_sent\<close>)
qed

end

text \<open>
  For the two video packetisers the state is that of a frame in progress with no further start
  code in the rest, and a frame begins with a start code.
\<close>

definition nal_state :: "mem \<Rightarrow> rtsp_client \<Rightarrow> nat \<Rightarrow> nat \<Rightarrow> nat \<Rightarrow> bool" where
  "nal_state m c B S off \<longleftrightarrow> sending c B S off \<and> no_start m (B + off) (S - off)"

definition nal_sends :: "(bytes \<Rightarrow> bytes) \<Rightarrow> (mem \<Rightarrow> rtsp_client \<Rightarrow> rtsp_client \<times> int) \<Rightarrow>
    mem \<Rightarrow> rtsp_client \<Rightarrow> nat \<Rightarrow> nat \<Rightarrow> nat \<Rightarrow> bool" where
  "nal_sends unit main m c B S off \<longleftrightarrow> (\<exists>pk body n.
     fst (main m c) = rtp_emit c 0 pk body (off + n = S) \<and> length body \<le> body_limit c
     \<and> unit body = load m (B + off) n \<and> 0 < n \<and> off + n \<le> S
     \<and> unat (pk_base pk) = B \<and> unat (pk_size pk) = S \<and> unat (pk_offset pk) = off + n)"

lemma nal_sends_sends:
  assumes s: "sending c B S off0" and ns: "no_start m (B + off) (S - off)"
    and snds: "nal_sends unit main m c B S off"
  shows "sends unit main nal_state m c B S off"
proof -
  obtain pk body n where
    d: "fst (main m c) = rtp_emit c 0 pk body (off + n = S)" "length body \<le> body_limit c"
      "unit body = load m (B + off) n" "0 < n" "off + n \<le> S"
    and pk: "unat (pk_base pk) = B" "unat (pk_size pk) = S" "unat (pk_offset pk) = off + n"
    using snds by (auto simp: nal_sends_def)
  have "nal_state m (rtp_emit c 0 pk body False) B S (off + n)"
    using sending_emit [OF s pk d(5)] no_start_drop [OF ns, of n]
    by (simp add: nal_state_def add.assoc)
  with d show ?thesis unfolding sends_def by blast
qed

locale nal_sender =
  fixes main :: "mem \<Rightarrow> rtsp_client \<Rightarrow> rtsp_client \<times> int"
    and unit :: "bytes \<Rightarrow> bytes"
    and slice :: "mem \<Rightarrow> nat \<Rightarrow> nat \<Rightarrow> nat \<Rightarrow> bool"
  assumes first: "sending c B S 0 \<Longrightarrow> slice m B S z \<Longrightarrow> nal_sends unit main m c B S z"
    and continue: "sending c B S off \<Longrightarrow> off < S \<Longrightarrow> no_start m (B + off) (S - off) \<Longrightarrow>
      nal_sends unit main m c B S off"
    and ready: "tx_ready (rtp_ss c 0) = ENX_RTP_TXSTE_READY \<Longrightarrow>
      eTransport c = ENX_RTSP_TRANSPORT_UDP \<or> eTransport c = ENX_RTSP_TRANSPORT_TCP \<Longrightarrow>
      fst (h26x_ready c) \<Longrightarrow> fst (main m c) = fst (main m (snd (h26x_ready c)))"
    and slice_start: "slice m B S z \<Longrightarrow> 0 < z \<and> z < S \<and> no_start m (B + z) (S - z)"

sublocale nal_sender \<subseteq> frame_sender main unit nal_state
  by unfold_locales (use continue nal_sends_sends in \<open>auto simp: nal_state_def\<close>)

context nal_sender
begin

lemma slice_sent:
  assumes s: "sending c B S 0" and f: "slice m B S z"
  shows "delivered unit c (rtp_frame main S m c) (load m (B + z) (S - z))"
  using slice_start [OF f] by (intro all_sent nal_sends_sends [OF s _ first [OF s f]]) auto

lemma frame_sent:
  assumes t: "eTransport c = ENX_RTSP_TRANSPORT_UDP \<or> eTransport c = ENX_RTSP_TRANSPORT_TCP"
    and r: "tx_ready (rtp_ss c 0) = ENX_RTP_TXSTE_READY"
    and q: "rtp_queue_get (rtp_queue_video c) = Some (d, q)"
      "rq_flags d = 1 \<or> pk_nalfirst (rtp_pk (rtp_ss c 0)) \<noteq> 0"
      "unat (rq_addr d) + unat (rq_size d) < 2 ^ 32"
    and f: "slice m (unat (rq_addr d)) (unat (rq_size d)) z"
  shows "delivered unit c (rtp_frame main (unat (rq_size d)) m c)
      (load m (unat (rq_addr d) + z) (unat (rq_size d) - z))"
proof -
  let ?c = "snd (h26x_ready c)"
  note h = h26x_ready_sending [OF t q]
  obtain N where N: "unat (rq_size d) = Suc N"
    using slice_start [OF f] by (cases "unat (rq_size d)") auto
  have "rtp_frame main (Suc N) m c = rtp_frame main (Suc N) m ?c"
    by (simp add: ready [OF r t h(1)])
  then show ?thesis
    using slice_sent [OF h(2) f] unfolding N delivered_cong [OF h(3)] by simp
qed

end

end
