(* ===== verification/RtpH264.thy ===== *)
theory RtpH264
  imports RtpNal
begin

text \<open>
  The H.264 packetiser, \<open>task/rtspd/rtp_h264.c\<close> (RFC 6184): a call takes the next frame from the
  queue if none is in progress and makes one packet of it, a single NAL unit or a fragment (FU-A).
  \<open>m\<close> is the memory the frames lie in. Proved here: packet sizes and numbering, and that the
  fragments of a NAL unit put together again are that NAL unit.
\<close>

section \<open>The state machine\<close>

text \<open>F, NRI and type FU-A; start, end and reserved bit and the type of the fragmented unit.\<close>

definition avcFUHeader_bytes :: "u32 \<Rightarrow> bool \<Rightarrow> bool \<Rightarrow> u32 \<Rightarrow> bytes" where
  "avcFUHeader_bytes nri st en type =
     [push_bit 5 (ucast nri AND 0x3) OR 0x1C,
      push_bit 7 (of_bool st) OR push_bit 6 (of_bool en) OR (ucast type AND 0x1F)]"

definition sizeof_avcFUHeader :: u32 where "sizeof_avcFUHeader = 1 + 1"

text \<open>
  What the code learns from the next bytes of the frame: the position behind the start code, if
  there is one, the NAL type, whether to fragment, and the size of a parameter set.
\<close>

definition h264_inspect :: "mem \<Rightarrow> rtsp_client \<Rightarrow> rtp_packet \<Rightarrow> nat \<times> rtp_packet \<times> u32 \<times> bool \<times> nat" where
  "h264_inspect m c pk =
     (let left = pk_size pk - pk_offset pk;
          p = unat (pk_base pk + pk_offset pk);
          nalzerocnt = (if m p = 0 then nal_start m p 0 (unat (min left 20)) else 0)
      in if nalzerocnt \<noteq> 0
         then (let pk = pk\<lparr>pk_offset := pk_offset pk + of_nat nalzerocnt\<rparr>;
                   left = left - of_nat nalzerocnt;
                   p = unat (pk_base pk + pk_offset pk);
                   pk = pk\<lparr>pk_naltype := ucast (m p AND 0x1F),
                           pk_nalidc := ucast (drop_bit 5 (m p AND 0x60))\<rparr>
               in if pk_naltype pk = 0x01 \<or> pk_naltype pk = 0x05
                  then (nalzerocnt, pk, left, left > rtp_mtu c - rtp_hdr_len c, 0)
                  else if pk_naltype pk = 0x07 \<or> pk_naltype pk = 0x08
                  then (nalzerocnt, pk, left, False, nal_end m p 0 0 20)
                  else (nalzerocnt, pk, left, False, 0))
         else (0, pk, left, True, 0))"

text \<open>State \<open>DOING\<close>: one packet.\<close>

definition h264_doing :: "mem \<Rightarrow> rtsp_client \<Rightarrow> rtsp_client" where
  "h264_doing m c =
     (let (nalzerocnt, pk, left, fu, spsppsSize) =
            h264_inspect m c (rtp_pk (rtp_ss c ENX_RTSP_STRTYPE_numVIDEO));
          base_offset = unat (pk_base pk + pk_offset pk)
      in if spsppsSize \<noteq> 0
         then (let pk = pk\<lparr>pk_offset := pk_offset pk + of_nat spsppsSize\<rparr>
               in rtp_emit c ENX_RTSP_STRTYPE_numVIDEO pk (load m base_offset spsppsSize)
                    (pk_offset pk = pk_size pk))
         else (let st = (fu \<and> nalzerocnt \<noteq> 0);
                   pk = (if st then pk\<lparr>pk_offset := pk_offset pk + 1\<rparr> else pk);
                   base_offset = (if st then base_offset + 1 else base_offset);
                   left = (if st then left - 1 else left);
                   room = rtp_mtu c - (rtp_hdr_len c + (if fu then sizeof_avcFUHeader else 0));
                   remaining = (if left < room then left else room);
                   pk = pk\<lparr>pk_offset := pk_offset pk + remaining,
                           pk_data_offset := pk_data_offset pk + remaining\<rparr>;
                   done = (pk_offset pk = pk_size pk);
                   fuHead = (if fu then avcFUHeader_bytes (pk_nalidc pk) st done (pk_naltype pk)
                             else [])
               in rtp_emit c ENX_RTSP_STRTYPE_numVIDEO pk
                    (fuHead @ load m base_offset (unat remaining)) done))"

definition rtspd_client_rtp_h264_main :: "mem \<Rightarrow> rtsp_client \<Rightarrow> rtsp_client \<times> int" where
  "rtspd_client_rtp_h264_main m c =
     (if eTransport c \<noteq> ENX_RTSP_TRANSPORT_UDP \<and> eTransport c \<noteq> ENX_RTSP_TRANSPORT_TCP then (c, - 1)
      else (case tx_ready (rtp_ss c ENX_RTSP_STRTYPE_numVIDEO) of
          ENX_RTP_TXSTE_READY \<Rightarrow>
            (let (go, c) = h26x_ready c
             in if go then (let c = h264_doing m c in (c, rtp_left c ENX_RTSP_STRTYPE_numVIDEO))
                else (c, 0))
        | ENX_RTP_TXSTE_DOING \<Rightarrow>
            (let c = h264_doing m c in (c, rtp_left c ENX_RTSP_STRTYPE_numVIDEO))
        | ENX_RTP_TXSTE_END \<Rightarrow>
            (let c = set_ss c ENX_RTSP_STRTYPE_numVIDEO
                   ((rtp_ss c ENX_RTSP_STRTYPE_numVIDEO)\<lparr>tx_ready := ENX_RTP_TXSTE_READY\<rparr>)
             in (c, rtp_left c ENX_RTSP_STRTYPE_numVIDEO))))"

section \<open>Sizes\<close>

lemma h264_doing_emit:
  "\<exists>pk body dn. h264_doing m c = rtp_emit c 0 pk body dn \<and> length body \<le> body_limit c"
proof -
  obtain z pk left fu sz where i: "h264_inspect m c (rtp_pk (rtp_ss c 0)) = (z, pk, left, fu, sz)"
    by (metis prod_cases5)
  have "sz \<le> 20"
    using i nal_end_le by (auto simp: h264_inspect_def Let_def split: if_splits)
  then have sz: "sz \<le> body_limit c"
    using rtp_sizes(4,5,6) [of c] by (simp add: body_limit_def)
  have r: "unat (if l < r then l else r) \<le> unat r" for l r :: u32
    by (auto simp: word_less_nat_alt)
  have fl: "length (avcFUHeader_bytes a b d e) = 2" for a b d e
    by (simp add: avcFUHeader_bytes_def)
  have "unat (rtp_mtu c - (rtp_hdr_len c + (if fu then sizeof_avcFUHeader else 0)))
      + (if fu then 2 else 0) = body_limit c"
  proof (cases fu)
    case True
    have "2 \<le> unat (rtp_mtu c) - unat (rtp_hdr_len c)" using rtp_sizes(5,6) [of c] by linarith
    with True rtp_sizes(2) [of c] show ?thesis
      by (simp add: body_limit_def sizeof_avcFUHeader_def)
  qed (simp add: body_limit_def rtp_sizes(1))
  then have b: "length ((if fu then avcFUHeader_bytes x y z w else []) @ load m q
      (unat (if l < rtp_mtu c - (rtp_hdr_len c + (if fu then sizeof_avcFUHeader else 0)) then l
             else rtp_mtu c - (rtp_hdr_len c + (if fu then sizeof_avcFUHeader else 0)))))
      \<le> body_limit c" for x y z w q l
    using r [of l "rtp_mtu c - (rtp_hdr_len c + (if fu then sizeof_avcFUHeader else 0))"] fl
    by (simp split: if_splits)
  show ?thesis
  proof (cases "sz = 0")
    case True
    then have sz0: "(sz \<noteq> 0) = False" by simp
    show ?thesis
      unfolding h264_doing_def Let_def video_0 i prod.case sz0 if_False
      by (intro exI conjI, rule refl, rule b)
  next
    case False
    then have sz1: "(sz \<noteq> 0) = True" by simp
    show ?thesis
      unfolding h264_doing_def Let_def video_0 i prod.case sz1 if_True
      by (intro exI conjI, rule refl) (simp add: sz)
  qed
qed

lemma h264_outcome: "outcome 0 c (fst (rtspd_client_rtp_h264_main m c))"
proof -
  have doing: "outcome 0 c (h264_doing m c')" if "quiet 0 c c'" for c'
    using h264_doing_emit [of m c'] outcome_emit [OF that] by auto
  have "quiet 0 c (set_ss c 0 ((rtp_ss c 0)\<lparr>tx_ready := ENX_RTP_TXSTE_READY\<rparr>))"
    by (simp add: quiet_def)
  then show ?thesis
    using doing h26x_ready_quiet [of c]
    by (auto simp: rtspd_client_rtp_h264_main_def Let_def outcome_quiet split: prod.splits rtp_txstate_type.split)
qed

section \<open>Putting a frame together again\<close>

text \<open>
  The receiver: a fragment contributes its bytes, behind the rebuilt NAL header if it is the
  first; any other payload is a NAL unit.
\<close>

definition avc_unit :: "bytes \<Rightarrow> bytes" where
  "avc_unit b =
     (if b ! 0 AND 0x1F = 0x1C
      then (if bit (b ! 1) 7 then [(b ! 0 AND 0xE0) OR (b ! 1 AND 0x1F)] else []) @ drop 2 b
      else b)"

text \<open>The fragment header's bits.\<close>

lemma fu_masks: "(0x1F :: u8) = mask 5" "(0x3 :: u8) = mask 2" "(0xE0 :: u8) = push_bit 5 (mask 3)"
  "(0x1C :: u8) = push_bit 2 (mask 3)" "(0x60 :: u8) = push_bit 5 (mask 2)"
  by (simp_all add: mask_eq_exp_minus_1 push_bit_eq_mult)

lemma fu_bits:
  fixes a b :: u8
  shows "(push_bit 5 (a AND 0x3) OR 0x1C) AND 0x1F = 0x1C"
     and "(push_bit 5 (a AND 0x3) OR 0x1C) AND 0xE0 = push_bit 5 (a AND 0x3)"
  unfolding fu_masks
  by (rule bit_word_eqI; auto simp: bit_simps)+

lemma fu_bits2:
  fixes b :: u8
  shows "bit (push_bit 7 (of_bool st) OR push_bit 6 (of_bool en) OR (b AND 0x1F)) 7 = st"
    and "(push_bit 7 (of_bool st) OR push_bit 6 (of_bool en) OR (b AND 0x1F)) AND 0x1F = b AND 0x1F"
  by (cases st; cases en; simp add: bit_simps fu_masks(1)) 
    (intro bit_word_eqI; cases st; cases en; auto simp: bit_simps fu_masks(1))

lemma nal_hdr:
  fixes b :: u8
  assumes "b AND 0x80 = 0"
  shows "push_bit 5 ((ucast (ucast (drop_bit 5 (b AND 0x60)) :: u32) :: u8) AND 0x3)
      OR ((ucast (ucast (b AND 0x1F) :: u32) :: u8) AND 0x1F) = b"
proof -
  have "bit (b AND 128) 7 = False" using assms by simp
  then have b7: "\<not> bit b 7" by (simp only: bit_and_iff) simp
  have lt: "n < 7" if "bit b n" for n
  proof -
    have "n \<noteq> 7" using that b7 by metis
    moreover have "\<not> 8 \<le> n" using that u8_bit_beyond by blast
    ultimately show ?thesis by arith
  qed
  show ?thesis
    unfolding fu_masks by (intro bit_word_eqI) (auto simp: bit_simps dest: lt)
qed

lemma fu_unit:
  "avc_unit (avcFUHeader_bytes nri st en type @ xs)
    = (if st then [push_bit 5 (ucast nri AND 0x3) OR (ucast type AND 0x1F)] else []) @ xs"
proof -
  have "avc_unit ([h0, h1] @ xs) = (if h0 AND 0x1F = 0x1C
      then (if bit h1 7 then [(h0 AND 0xE0) OR (h1 AND 0x1F)] else []) @ xs else h0 # h1 # xs)" for h0 h1
    by (simp add: avc_unit_def)
  then show ?thesis
    unfolding avcFUHeader_bytes_def fu_bits fu_bits2 by (simp only: fu_bits fu_bits2 refl if_True)
qed

lemma avc_single_unit: "b ! 0 AND 0x1F \<noteq> 0x1C \<Longrightarrow> avc_unit b = b"
  by (simp add: avc_unit_def)

definition fu_room :: "rtsp_client \<Rightarrow> nat" where
  "fu_room c = body_limit c - 2"

lemma fu_room_word: "unat (rtp_mtu c - (rtp_hdr_len c + sizeof_avcFUHeader)) = fu_room c"
  using rtp_sizes(2) [of c] by (simp add: fu_room_def body_limit_def sizeof_avcFUHeader_def)

lemma fu_room_pos: "0 < fu_room c" and fu_room_body: "fu_room c + 2 = body_limit c"
  using rtp_sizes(4,5,6) [of c] by (simp_all add: fu_room_def body_limit_def)

lemma h264_continue:
  assumes s: "sending c B S off" and "off < S" and ns: "no_start m (B + off) (S - off)"
  defines "n \<equiv> min (S - off) (fu_room c)"
  shows "\<exists>pk. h264_doing m c = rtp_emit c 0 pk
      (avcFUHeader_bytes (pk_nalidc pk) False (off + n = S) (pk_naltype pk) @ load m (B + off) n)
      (off + n = S)
    \<and> unat (pk_base pk) = B \<and> unat (pk_size pk) = S \<and> unat (pk_offset pk) = off + n"
proof -
  let ?pk = "rtp_pk (rtp_ss c 0)"
  let ?l = "pk_size ?pk - pk_offset ?pk" and ?r = "rtp_mtu c - (rtp_hdr_len c + sizeof_avcFUHeader)"
  have "off + 0 \<le> S" using assms(2) by simp
  note a = sending_numbers(1,2) [OF s this]
  have n: "unat (if ?l < ?r then ?l else ?r) = n"
    using a by (simp only: min_word fu_room_word n_def)
  note w = word_of_unat [OF n]
  have k: "unat (of_nat n :: u32) = n" using n w by simp
  have le: "off + n \<le> S" using assms(2) by (simp add: n_def)
  note b = sending_numbers [OF s le]
  have "unat (min ?l 20) \<le> S - off"
    using a(1) by (simp add: min_def word_le_nat_alt)
  then have z: "nal_start m (B + off) 0 (unat (min ?l 20)) = 0"
    by (rule no_start_le [OF ns])
  have i: "h264_inspect m c ?pk = (0, ?pk, ?l, True, 0)"
    using z a(2) by (simp add: h264_inspect_def Let_def)
  show ?thesis
    unfolding h264_doing_def Let_def video_0 i prod.case
    by (rule exI [of _ "?pk\<lparr>pk_offset := pk_offset ?pk + of_nat n,
          pk_data_offset := pk_data_offset ?pk + of_nat n\<rparr>"], intro conjI)
      (use s b in \<open>simp_all add: w k a(2) sending_def cong: if_cong\<close>)
qed

lemma h264_main_doing:
  "sending c B S off \<Longrightarrow> fst (rtspd_client_rtp_h264_main m c) = h264_doing m c"
  by (auto simp: rtspd_client_rtp_h264_main_def sending_def Let_def)

text \<open>The first packet: the start code is skipped; a unit that fits is one packet.\<close>

definition h264_slice :: "mem \<Rightarrow> nat \<Rightarrow> nat \<Rightarrow> nat \<Rightarrow> bool" where
  "h264_slice m B S z \<longleftrightarrow> m B = 0 \<and> nal_start m B 0 (min S 20) = z \<and> 0 < z \<and> z < S
     \<and> m (B + z) AND 0x80 = 0 \<and> (m (B + z) AND 0x1F = 1 \<or> m (B + z) AND 0x1F = 5)
     \<and> no_start m (B + z) (S - z)"

lemma h264_inspect_first:
  assumes s: "sending c B S 0" and f: "h264_slice m B S z"
  defines "pk \<equiv> rtp_pk (rtp_ss c 0)"
  shows "\<exists>l pk'. h264_inspect m c pk = (z, pk', l, body_limit c < S - z, 0) \<and> unat l = S - z
    \<and> unat (pk_base pk') = B \<and> unat (pk_size pk') = S \<and> unat (pk_offset pk') = z
    \<and> pk_naltype pk' = ucast (m (B + z) AND 0x1F)
    \<and> pk_nalidc pk' = ucast (drop_bit 5 (m (B + z) AND 0x60))"
proof -
  have z: "0 < z" "z < S" and b: "unat (pk_base pk) = B" "unat (pk_size pk) = S" "unat (pk_offset pk) = 0"
    "B + S < 4294967296"
    using f s by (auto simp: h264_slice_def sending_def pk_def)
  then have o0: "pk_offset pk = 0" by (simp add: unat_eq_zero)
  let ?pk = "pk\<lparr>pk_offset := of_nat z\<rparr>"
  let ?b = "m (B + z)"
  let ?pk' = "?pk\<lparr>pk_naltype := ucast (?b AND 0x1F), pk_nalidc := ucast (drop_bit 5 (?b AND 0x60))\<rparr>"
  have min20: "unat (min (pk_size pk) 20) = min S 20"
    using b(2) by (auto simp: min_def word_le_nat_alt)
  have a: "unat (pk_base pk + of_nat z) = B + z" "unat (pk_size pk - of_nat z) = S - z"
    using b z by (simp_all add: unat_word_ariths unat_of_nat unat_sub_if_size word_size)
  have t: "ucast (?b AND 0x1F) = (1 :: u32) \<or> ucast (?b AND 0x1F) = (5 :: u32)"
    using f by (auto simp: h264_slice_def)
  have l: "(pk_size pk - of_nat z > rtp_mtu c - rtp_hdr_len c) = (body_limit c < S - z)"
    by (simp add: word_less_nat_alt a(2) body_limit_word)
  have "h264_inspect m c pk = (z, ?pk', pk_size pk - of_nat z, body_limit c < S - z, 0)"
    using f t z by (simp add: h264_inspect_def Let_def o0 b(1) min20 a(1) h264_slice_def l)
  then show ?thesis
    by (intro exI conjI, assumption) (use a(2) b z in \<open>simp_all add: unat_of_nat\<close>)
qed

lemma h264_first_single:
  assumes s: "sending c B S 0" and f: "h264_slice m B S z" and le: "S - z \<le> body_limit c"
  shows "\<exists>pk. h264_doing m c = rtp_emit c 0 pk (load m (B + z) (S - z)) True
    \<and> unat (pk_base pk) = B \<and> unat (pk_size pk) = S \<and> unat (pk_offset pk) = S"
proof -
  obtain l pk where i: "h264_inspect m c (rtp_pk (rtp_ss c 0)) = (z, pk, l, False, 0)"
    and pk: "unat l = S - z" "unat (pk_base pk) = B" "unat (pk_size pk) = S" "unat (pk_offset pk) = z"
    using h264_inspect_first [OF s f] le by auto
  have b: "B + S < 4294967296" "z < S" using s f by (auto simp: sending_def h264_slice_def)
  have a: "unat (pk_base pk + pk_offset pk) = B + z"
    using pk b by (simp add: unat_word_ariths)
  have "unat (pk_offset pk + l) = unat (pk_size pk)"
    using pk b by (simp add: unat_word_ariths)
  then have e: "pk_offset pk + l = pk_size pk" by (simp add: word_unat_eq_iff)
  have "unat (if l < rtp_mtu c - rtp_hdr_len c then l else rtp_mtu c - rtp_hdr_len c) = unat l"
    using pk(1) le by (simp add: min_word body_limit_word)
  then have w: "(if l < rtp_mtu c - rtp_hdr_len c then l else rtp_mtu c - rtp_hdr_len c) = l"
    by (simp only: word_unat_eq_iff)
  show ?thesis
    unfolding h264_doing_def Let_def video_0 i prod.case
    by (rule exI [of _ "pk\<lparr>pk_offset := pk_size pk, pk_data_offset := pk_data_offset pk + l\<rparr>"],
        intro conjI) (simp_all add: w e a pk cong: if_cong)
qed

lemma h264_first_fragment:
  assumes s: "sending c B S 0" and f: "h264_slice m B S z" and gt: "body_limit c < S - z"
  defines "off \<equiv> z + 1 + fu_room c"
  shows "\<exists>pk. h264_doing m c = rtp_emit c 0 pk
      (avcFUHeader_bytes (pk_nalidc pk) True False (pk_naltype pk) @ load m (B + z + 1) (fu_room c)) False
    \<and> unat (pk_base pk) = B \<and> unat (pk_size pk) = S \<and> unat (pk_offset pk) = off \<and> off < S
    \<and> pk_naltype pk = ucast (m (B + z) AND 0x1F)
    \<and> pk_nalidc pk = ucast (drop_bit 5 (m (B + z) AND 0x60))"
proof -
  obtain l pk where i: "h264_inspect m c (rtp_pk (rtp_ss c 0)) = (z, pk, l, True, 0)"
    and pk: "unat l = S - z" "unat (pk_base pk) = B" "unat (pk_size pk) = S" "unat (pk_offset pk) = z"
      "pk_naltype pk = ucast (m (B + z) AND 0x1F)"
      "pk_nalidc pk = ucast (drop_bit 5 (m (B + z) AND 0x60))"
    using h264_inspect_first [OF s f] gt by auto
  let ?r = "rtp_mtu c - (rtp_hdr_len c + sizeof_avcFUHeader)"
  have b: "B + S < 4294967296" "0 < z" "z < S" using s f by (auto simp: sending_def h264_slice_def)
  have lt: "off < S" using gt fu_room_body [of c] by (simp add: off_def)
  have a: "unat (pk_base pk + pk_offset pk) = B + z"
    using pk b by (simp add: unat_word_ariths)
  have "1 \<le> unat l" using pk(1) b(3) by simp
  then have l1: "unat (l - 1) = S - z - 1" using pk(1) by (simp add: unat_sub_if_size word_size)
  have n: "unat (if l - 1 < ?r then l - 1 else ?r) = fu_room c"
    using gt fu_room_body [of c] unfolding min_word l1 fu_room_word by simp
  note w = word_of_unat [OF n]
  have o: "unat (pk_offset pk + 1 + of_nat (fu_room c)) = off"
    using pk b lt by (simp add: unat_word_ariths off_def unat_of_nat)
  then have ne: "(pk_offset pk + 1 + of_nat (fu_room c) = pk_size pk) = False"
    using lt pk(3) by auto
  have k: "unat (of_nat (fu_room c) :: u32) = fu_room c"
    using lt b by (simp add: off_def unat_of_nat)
  show ?thesis
    unfolding h264_doing_def Let_def video_0 i prod.case
    by (rule exI [of _ "pk\<lparr>pk_offset := pk_offset pk + 1 + of_nat (fu_room c),
          pk_data_offset := pk_data_offset pk + of_nat (fu_room c)\<rparr>"], intro conjI)
      (use b(2) pk o lt in \<open>simp_all add: w k ne a cong: if_cong\<close>)
qed

section \<open>The contract\<close>

lemma length_avcFUHeader [simp]: "length (avcFUHeader_bytes nri st en type) = 2"
  by (simp add: avcFUHeader_bytes_def)

lemma h264_sends_continue:
  assumes s: "sending c B S off" and "off < S" and ns: "no_start m (B + off) (S - off)"
  shows "nal_sends avc_unit rtspd_client_rtp_h264_main m c B S off"
proof -
  let ?n = "min (S - off) (fu_room c)"
  obtain pk where
    d: "h264_doing m c = rtp_emit c 0 pk (avcFUHeader_bytes (pk_nalidc pk) False (off + ?n = S)
        (pk_naltype pk) @ load m (B + off) ?n) (off + ?n = S)"
    and pk: "unat (pk_base pk) = B" "unat (pk_size pk) = S" "unat (pk_offset pk) = off + ?n"
    using h264_continue [OF assms] by blast
  have n: "?n \<le> fu_room c" "0 < ?n" "off + ?n \<le> S" using assms(2) fu_room_pos [of c] by auto
  show ?thesis
    unfolding nal_sends_def h264_main_doing [OF s] d
    by (intro exI conjI, rule refl, use pk n fu_room_body [of c] in \<open>simp_all add: fu_unit\<close>)
qed

lemma h264_sends_first:
  assumes s: "sending c B S 0" and f: "h264_slice m B S z"
  shows "nal_sends avc_unit rtspd_client_rtp_h264_main m c B S z"
proof (cases "S - z \<le> body_limit c")
  case True
  have z: "z < S" using f by (simp add: h264_slice_def)
  obtain pk where d: "h264_doing m c = rtp_emit c 0 pk (load m (B + z) (S - z)) True"
    and pk: "unat (pk_base pk) = B" "unat (pk_size pk) = S" "unat (pk_offset pk) = S"
    using h264_first_single [OF s f True] by blast
  have "load m (B + z) (S - z) ! 0 = m (B + z)" using z by (simp add: nth_load)
  then have "avc_unit (load m (B + z) (S - z)) = load m (B + z) (S - z)"
    using f by (intro avc_single_unit) (auto simp: h264_slice_def)
  moreover have "(z + (S - z) = S) = True" using z by simp
  ultimately show ?thesis
    unfolding nal_sends_def h264_main_doing [OF s] d using pk z True
    by (intro exI [of _ pk] exI [of _ "load m (B + z) (S - z)"] exI [of _ "S - z"]) simp
next
  case False
  then have gt: "body_limit c < S - z" by simp
  from h264_first_fragment [OF s f gt] obtain pk where
    d: "h264_doing m c = rtp_emit c 0 pk (avcFUHeader_bytes (pk_nalidc pk) True False (pk_naltype pk) @
      load m (B + z + 1) (fu_room c)) False"
    and pk: "unat (pk_base pk) = B" "unat (pk_size pk) = S" "unat (pk_offset pk) = z + 1 + fu_room c"
      "z + 1 + fu_room c < S" "pk_naltype pk = ucast (m (B + z) AND 0x1F)"
      "pk_nalidc pk = ucast (drop_bit 5 (m (B + z) AND 0x60))"
    by blast
  let ?b = "avcFUHeader_bytes (pk_nalidc pk) True False (pk_naltype pk) @ load m (B + z + 1) (fu_room c)"
  have hd: "push_bit 5 (ucast (pk_nalidc pk) AND 0x3) OR (ucast (pk_naltype pk) AND 0x1F) = m (B + z)"
    unfolding pk(5,6) by (rule nal_hdr) (use f in \<open>simp add: h264_slice_def\<close>)
  have "avc_unit ?b = load m (B + z) (1 + fu_room c)"
    using load_Cons [of "1 + fu_room c" m "B + z"] by (simp only: fu_unit hd if_True append.simps) simp
  moreover have "(z + (1 + fu_room c) = S) = False" using pk(4) by simp
  ultimately show ?thesis
    unfolding nal_sends_def h264_main_doing [OF s] d using pk(1-4) fu_room_body [of c]
    by (intro exI [of _ pk] exI [of _ ?b] exI [of _ "1 + fu_room c"]) simp
qed

lemma h264_ready:
  assumes "tx_ready (rtp_ss c 0) = ENX_RTP_TXSTE_READY" and
    t: "eTransport c = ENX_RTSP_TRANSPORT_UDP \<or> eTransport c = ENX_RTSP_TRANSPORT_TCP"
    and g: "fst (h26x_ready c)"
  shows "fst (rtspd_client_rtp_h264_main m c) = fst (rtspd_client_rtp_h264_main m (snd (h26x_ready c)))"
proof -
  have "tx_ready (rtp_ss (snd (h26x_ready c)) 0) = ENX_RTP_TXSTE_DOING
      \<and> eTransport (snd (h26x_ready c)) = eTransport c"
    using g by (auto simp: h26x_ready_def Let_def split: option.splits if_splits)
  with assms show ?thesis
    by (auto simp: rtspd_client_rtp_h264_main_def Let_def split_beta)
qed

interpretation h264: nal_sender rtspd_client_rtp_h264_main avc_unit h264_slice
  by unfold_locales
    (use h264_sends_first h264_sends_continue h264_ready in \<open>auto simp: h264_slice_def\<close>)

end
