(* ===== verification/RtpH265.thy ===== *)
theory RtpH265
  imports RtpNal
begin

text \<open>
  The H.265 packetiser, \<open>task/rtspd/rtp_h265.c\<close> (RFC 7798). It differs from the H.264 one in the
  two-byte NAL header, the three-byte fragment header, the slice and parameter set types, the
  limits of the searches and in what it returns for a frame it drops.
\<close>

section \<open>The state machine\<close>

text \<open>
  The payload header is the NAL header with the type replaced by 49; \<open>htons\<close> puts its upper byte
  first, and the type is \<open>OR\<close>ed into that byte. Then start bit, end bit and type.
\<close>

definition hevcFUHeader_bytes :: "u16 \<Rightarrow> bool \<Rightarrow> bool \<Rightarrow> u32 \<Rightarrow> bytes" where
  "hevcFUHeader_bytes nalunithdr st en type =
     [ucast (drop_bit 8 (nalunithdr AND 0x81FF)) OR push_bit 1 49, ucast (nalunithdr AND 0x81FF),
      push_bit 7 (of_bool st) OR push_bit 6 (of_bool en) OR (ucast type AND 0x3F)]"

definition sizeof_hevcFUHeader :: u32 where "sizeof_hevcFUHeader = 2 + 1"

definition h265_inspect :: "mem \<Rightarrow> rtsp_client \<Rightarrow> rtp_packet \<Rightarrow> nat \<times> rtp_packet \<times> u32 \<times> bool \<times> nat" where
  "h265_inspect m c pk =
     (let left = pk_size pk - pk_offset pk;
          p = unat (pk_base pk + pk_offset pk);
          nalzerocnt = (if m p = 0 then nal_start m p 0 (unat (min left 64)) else 0)
      in if nalzerocnt \<noteq> 0
         then (let pk = pk\<lparr>pk_offset := pk_offset pk + of_nat nalzerocnt\<rparr>;
                   left = left - of_nat nalzerocnt;
                   p = unat (pk_base pk + pk_offset pk);
                   pk = pk\<lparr>pk_nalunithdr := push_bit 8 (ucast (m p)) OR ucast (m (p + 1)),
                           pk_naltype := ucast (drop_bit 1 (m p) AND 0x3F)\<rparr>
               in if pk_naltype pk = 0x01 \<or> pk_naltype pk = 0x13 \<or> pk_naltype pk = 0x15
                  then (nalzerocnt, pk, left, left > rtp_mtu c - rtp_hdr_len c, 0)
                  else if pk_naltype pk = 0x20 \<or> pk_naltype pk = 0x21 \<or> pk_naltype pk = 0x22
                  then (nalzerocnt, pk, left, False, nal_end m p 0 0 64)
                  else (nalzerocnt, pk, left, False, 0))
         else (0, pk, left, True, 0))"

definition h265_doing :: "mem \<Rightarrow> rtsp_client \<Rightarrow> rtsp_client" where
  "h265_doing m c =
     (let (nalzerocnt, pk, left, fu, spsppsSize) =
            h265_inspect m c (rtp_pk (rtp_ss c ENX_RTSP_STRTYPE_numVIDEO));
          base_offset = unat (pk_base pk + pk_offset pk)
      in if spsppsSize \<noteq> 0
         then (let pk = pk\<lparr>pk_offset := pk_offset pk + of_nat spsppsSize\<rparr>
               in rtp_emit c ENX_RTSP_STRTYPE_numVIDEO pk (load m base_offset spsppsSize)
                    (pk_offset pk = pk_size pk))
         else (let st = (fu \<and> nalzerocnt \<noteq> 0);
                   pk = (if st then pk\<lparr>pk_offset := pk_offset pk + 2\<rparr> else pk);
                   base_offset = (if st then base_offset + 2 else base_offset);
                   left = (if st then left - 2 else left);
                   room = rtp_mtu c - (rtp_hdr_len c + (if fu then sizeof_hevcFUHeader else 0));
                   remaining = (if left < room then left else room);
                   pk = pk\<lparr>pk_offset := pk_offset pk + remaining,
                           pk_data_offset := pk_data_offset pk + remaining\<rparr>;
                   done = (pk_offset pk = pk_size pk);
                   fuHead = (if fu then hevcFUHeader_bytes (pk_nalunithdr pk) st done (pk_naltype pk)
                             else [])
               in rtp_emit c ENX_RTSP_STRTYPE_numVIDEO pk
                    (fuHead @ load m base_offset (unat remaining)) done))"

text \<open>A frame that is dropped leaves its size as the return value here.\<close>

definition rtspd_client_rtp_h265_main :: "mem \<Rightarrow> rtsp_client \<Rightarrow> rtsp_client \<times> int" where
  "rtspd_client_rtp_h265_main m c =
     (if eTransport c \<noteq> ENX_RTSP_TRANSPORT_UDP \<and> eTransport c \<noteq> ENX_RTSP_TRANSPORT_TCP then (c, - 1)
      else (case tx_ready (rtp_ss c ENX_RTSP_STRTYPE_numVIDEO) of
          ENX_RTP_TXSTE_READY \<Rightarrow>
            (let empty = (rtp_queue_get (rtp_queue_video c) = None);
                 (go, c) = h26x_ready c
             in if go then (let c = h265_doing m c in (c, rtp_left c ENX_RTSP_STRTYPE_numVIDEO))
                else (c, if empty then 0 else rtp_left c ENX_RTSP_STRTYPE_numVIDEO))
        | ENX_RTP_TXSTE_DOING \<Rightarrow>
            (let c = h265_doing m c in (c, rtp_left c ENX_RTSP_STRTYPE_numVIDEO))
        | ENX_RTP_TXSTE_END \<Rightarrow>
            (let c = set_ss c ENX_RTSP_STRTYPE_numVIDEO
                   ((rtp_ss c ENX_RTSP_STRTYPE_numVIDEO)\<lparr>tx_ready := ENX_RTP_TXSTE_READY\<rparr>)
             in (c, rtp_left c ENX_RTSP_STRTYPE_numVIDEO))))"

lemma length_hevcFUHeader [simp]: "length (hevcFUHeader_bytes h st en type) = 3"
  by (simp add: hevcFUHeader_bytes_def)

section \<open>Sizes\<close>

lemma h265_doing_emit:
  "\<exists>pk body dn. h265_doing m c = rtp_emit c 0 pk body dn \<and> length body \<le> body_limit c"
proof -
  obtain z pk left fu sz where i: "h265_inspect m c (rtp_pk (rtp_ss c 0)) = (z, pk, left, fu, sz)"
    by (metis prod_cases5)
  have "sz \<le> 64"
    using i nal_end_le by (auto simp: h265_inspect_def Let_def split: if_splits)
  then have sz: "sz \<le> body_limit c"
    using rtp_sizes(4,5,6) [of c] by (simp add: body_limit_def)
  have r: "unat (if l < r then l else r) \<le> unat r" for l r :: u32
    by (auto simp: word_less_nat_alt)
  have fl: "length (hevcFUHeader_bytes a b d e) = 3" for a b d e
    by simp
  have "unat (rtp_mtu c - (rtp_hdr_len c + (if fu then sizeof_hevcFUHeader else 0)))
      + (if fu then 3 else 0) = body_limit c"
  proof (cases fu)
    case True
    have "3 \<le> unat (rtp_mtu c) - unat (rtp_hdr_len c)" using rtp_sizes(5,6) [of c] by linarith
    with True rtp_sizes(3) [of c] show ?thesis
      by (simp add: body_limit_def sizeof_hevcFUHeader_def)
  qed (simp add: body_limit_def rtp_sizes(1))
  then have b: "length ((if fu then hevcFUHeader_bytes x y z w else []) @ load m q
      (unat (if l < rtp_mtu c - (rtp_hdr_len c + (if fu then sizeof_hevcFUHeader else 0)) then l
             else rtp_mtu c - (rtp_hdr_len c + (if fu then sizeof_hevcFUHeader else 0)))))
      \<le> body_limit c" for x y z w q l
    using r [of l "rtp_mtu c - (rtp_hdr_len c + (if fu then sizeof_hevcFUHeader else 0))"] fl
    by (simp split: if_splits)
  show ?thesis
  proof (cases "sz = 0")
    case True
    then have sz0: "(sz \<noteq> 0) = False" by simp
    show ?thesis
      unfolding h265_doing_def Let_def video_0 i prod.case sz0 if_False
      by (intro exI conjI, rule refl, rule b)
  next
    case False
    then have sz1: "(sz \<noteq> 0) = True" by simp
    show ?thesis
      unfolding h265_doing_def Let_def video_0 i prod.case sz1 if_True
      by (intro exI conjI, rule refl) (simp add: sz)
  qed
qed

lemma h265_outcome: "outcome 0 c (fst (rtspd_client_rtp_h265_main m c))"
proof -
  have doing: "outcome 0 c (h265_doing m c')" if "quiet 0 c c'" for c'
    using h265_doing_emit [of m c'] outcome_emit [OF that] by auto
  have "quiet 0 c (set_ss c 0 ((rtp_ss c 0)\<lparr>tx_ready := ENX_RTP_TXSTE_READY\<rparr>))"
    by (simp add: quiet_def)
  then show ?thesis
    using doing h26x_ready_quiet [of c]
    by (auto simp: rtspd_client_rtp_h265_main_def Let_def outcome_quiet split: prod.splits rtp_txstate_type.split)
qed

section \<open>The receiver\<close>

definition hevc_unit :: "bytes \<Rightarrow> bytes" where
  "hevc_unit b =
     (if drop_bit 1 (b ! 0) AND 0x3F = 49
      then (if bit (b ! 2) 7 then [(b ! 0 AND 0x81) OR push_bit 1 (b ! 2 AND 0x3F), b ! 1] else [])
           @ drop 3 b
      else b)"

text \<open>The bits of the fragment header.\<close>

lemma hevc_masks: "(0x3F :: u8) = mask 6" "(0x81 :: u8) = push_bit 7 1 OR 1"
  "(0x81FF :: u16) = push_bit 15 1 OR mask 9" "(49 :: u8) = push_bit 4 (mask 2) OR 1"
  by (simp_all add: mask_eq_exp_minus_1 push_bit_eq_mult)

lemma u8_eqI:
  fixes a b :: u8
  assumes "bit a 0 = bit b 0" "bit a 1 = bit b 1" "bit a 2 = bit b 2" "bit a 3 = bit b 3"
    "bit a 4 = bit b 4" "bit a 5 = bit b 5" "bit a 6 = bit b 6" "bit a 7 = bit b 7"
  shows "a = b"
proof (rule bit_word_eqI)
  fix n assume "n < LENGTH(8)"
  then have "n = 0 \<or> n = 1 \<or> n = 2 \<or> n = 3 \<or> n = 4 \<or> n = 5 \<or> n = 6 \<or> n = 7" by auto
  then show "bit a n = bit b n" using assms by (elim disjE) simp_all
qed

lemma u8_double: "bit (x * 2 :: u8) n \<longleftrightarrow> 0 < n \<and> n < 8 \<and> bit x (n - 1)"
  using bit_push_bit_iff [of 1 x n] by (auto simp: push_bit_eq_mult Suc_le_eq)

lemma hevc_hdr0:
  fixes b0 b1 :: u8
  shows "ucast (drop_bit 8 ((push_bit 8 (ucast b0) OR ucast b1 :: u16) AND 0x81FF)) = b0 AND 0x81"
    and "ucast ((push_bit 8 (ucast b0) OR ucast b1 :: u16) AND 0x81FF) = b1"
  by (rule u8_eqI; simp add: bit_simps)+

lemma hevc_type: "drop_bit 1 ((b AND 0x81) OR push_bit 1 49) AND 0x3F = (49 :: u8)"
  by (rule u8_eqI; simp add: bit_simps)

lemma hevc_rebuild:
  fixes b :: u8
  shows "(((b AND 0x81) OR push_bit 1 49) AND 0x81)
      OR push_bit 1 (ucast (ucast (drop_bit 1 b AND 0x3F) :: u32) AND 0x3F) = b"
  by (rule u8_eqI) (simp_all add: bit_simps u8_double, simp_all add: eval_nat_numeral)

lemma hevc_fu_bits:
  fixes b :: u8
  shows "bit (push_bit 7 (of_bool st) OR push_bit 6 (of_bool en) OR (b AND 0x3F)) 7 = st"
    and "(push_bit 7 (of_bool st) OR push_bit 6 (of_bool en) OR (b AND 0x3F)) AND 0x3F = b AND 0x3F"
  by (cases st; cases en; simp add: bit_simps hevc_masks(1))
    (intro bit_word_eqI; cases st; cases en; auto simp: bit_simps hevc_masks(1))

lemma hevc_hdr_type:
  "drop_bit 1 (ucast (drop_bit 8 ((h :: u16) AND 0x81FF)) OR push_bit 1 49) AND 0x3F = (49 :: u8)"
  by (rule u8_eqI; simp add: bit_simps)

lemma hevc_fu_unit:
  "hevc_unit (hevcFUHeader_bytes h False en type @ xs) = xs"
  "hevc_unit (hevcFUHeader_bytes (push_bit 8 (ucast b0) OR ucast b1) True en
     (ucast (drop_bit 1 b0 AND 0x3F)) @ xs) = b0 # b1 # xs"
proof -
  have u: "hevc_unit ([h0, h1, h2] @ xs) = (if drop_bit 1 h0 AND 0x3F = 49
      then (if bit h2 7 then [(h0 AND 0x81) OR push_bit 1 (h2 AND 0x3F), h1] else []) @ xs
      else h0 # h1 # h2 # xs)" for h0 h1 h2
    by (simp add: hevc_unit_def)
  show "hevc_unit (hevcFUHeader_bytes h False en type @ xs) = xs"
    unfolding hevcFUHeader_bytes_def u hevc_hdr_type hevc_fu_bits by (simp only: refl if_True if_False append.simps)
  show "hevc_unit (hevcFUHeader_bytes (push_bit 8 (ucast b0) OR ucast b1) True en
     (ucast (drop_bit 1 b0 AND 0x3F)) @ xs) = b0 # b1 # xs"
    unfolding hevcFUHeader_bytes_def u hevc_hdr_type hevc_fu_bits hevc_hdr0 hevc_rebuild
    by (simp only: hevc_type refl if_True append.simps)
qed

lemma hevc_single_unit: "drop_bit 1 (b ! 0) AND 0x3F \<noteq> 49 \<Longrightarrow> hevc_unit b = b"
  by (simp add: hevc_unit_def)

definition hevc_room :: "rtsp_client \<Rightarrow> nat" where
  "hevc_room c = body_limit c - 3"

lemma hevc_room_word: "unat (rtp_mtu c - (rtp_hdr_len c + sizeof_hevcFUHeader)) = hevc_room c"
  using rtp_sizes(3) [of c] by (simp add: hevc_room_def body_limit_def sizeof_hevcFUHeader_def)

lemma hevc_room_pos: "0 < hevc_room c" and hevc_room_body: "hevc_room c + 3 = body_limit c"
  using rtp_sizes(4,5,6) [of c] by (simp_all add: hevc_room_def body_limit_def)

lemma h265_continue:
  assumes s: "sending c B S off" and "off < S" and ns: "no_start m (B + off) (S - off)"
  defines "n \<equiv> min (S - off) (hevc_room c)"
  shows "\<exists>pk. h265_doing m c = rtp_emit c 0 pk
      (hevcFUHeader_bytes (pk_nalunithdr pk) False (off + n = S) (pk_naltype pk) @ load m (B + off) n)
      (off + n = S)
    \<and> unat (pk_base pk) = B \<and> unat (pk_size pk) = S \<and> unat (pk_offset pk) = off + n"
proof -
  let ?pk = "rtp_pk (rtp_ss c 0)"
  let ?l = "pk_size ?pk - pk_offset ?pk" and ?r = "rtp_mtu c - (rtp_hdr_len c + sizeof_hevcFUHeader)"
  have "off + 0 \<le> S" using assms(2) by simp
  note a = sending_numbers(1,2) [OF s this]
  have n: "unat (if ?l < ?r then ?l else ?r) = n"
    using a by (simp only: min_word hevc_room_word n_def)
  note w = word_of_unat [OF n]
  have k: "unat (of_nat n :: u32) = n" using n w by simp
  have le: "off + n \<le> S" using assms(2) by (simp add: n_def)
  note b = sending_numbers [OF s le]
  have "unat (min ?l 64) \<le> S - off"
    using a(1) by (simp add: min_def word_le_nat_alt)
  then have z: "nal_start m (B + off) 0 (unat (min ?l 64)) = 0"
    by (rule no_start_le [OF ns])
  have i: "h265_inspect m c ?pk = (0, ?pk, ?l, True, 0)"
    using z a(2) by (simp add: h265_inspect_def Let_def)
  show ?thesis
    unfolding h265_doing_def Let_def video_0 i prod.case
    by (rule exI [of _ "?pk\<lparr>pk_offset := pk_offset ?pk + of_nat n,
          pk_data_offset := pk_data_offset ?pk + of_nat n\<rparr>"], intro conjI)
      (use s b in \<open>simp_all add: w k a(2) sending_def cong: if_cong\<close>)
qed

lemma h265_main_doing:
  "sending c B S off \<Longrightarrow> fst (rtspd_client_rtp_h265_main m c) = h265_doing m c"
  by (auto simp: rtspd_client_rtp_h265_main_def sending_def Let_def)

text \<open>The first packet: the start code is skipped; a unit that fits is one packet.\<close>

definition h265_slice :: "mem \<Rightarrow> nat \<Rightarrow> nat \<Rightarrow> nat \<Rightarrow> bool" where
  "h265_slice m B S z \<longleftrightarrow> m B = 0 \<and> nal_start m B 0 (min S 64) = z \<and> 0 < z \<and> z < S
     \<and> drop_bit 1 (m (B + z)) AND 0x3F \<in> {1, 0x13, 0x15}
     \<and> no_start m (B + z) (S - z)"

lemma h265_inspect_first:
  assumes s: "sending c B S 0" and f: "h265_slice m B S z"
  defines "pk \<equiv> rtp_pk (rtp_ss c 0)"
  shows "\<exists>l pk'. h265_inspect m c pk = (z, pk', l, body_limit c < S - z, 0) \<and> unat l = S - z
    \<and> unat (pk_base pk') = B \<and> unat (pk_size pk') = S \<and> unat (pk_offset pk') = z
    \<and> pk_naltype pk' = ucast (drop_bit 1 (m (B + z)) AND 0x3F)
    \<and> pk_nalunithdr pk' = push_bit 8 (ucast (m (B + z))) OR ucast (m (B + z + 1))"
proof -
  have z: "0 < z" "z < S" and b: "unat (pk_base pk) = B" "unat (pk_size pk) = S" "unat (pk_offset pk) = 0"
    "B + S < 4294967296"
    using f s by (auto simp: h265_slice_def sending_def pk_def)
  then have o0: "pk_offset pk = 0" by (simp add: unat_eq_zero)
  let ?pk = "pk\<lparr>pk_offset := of_nat z\<rparr>"
  let ?b = "m (B + z)" and ?b1 = "m (B + z + 1)"
  let ?pk' = "?pk\<lparr>pk_nalunithdr := push_bit 8 (ucast ?b) OR ucast ?b1,
      pk_naltype := ucast (drop_bit 1 ?b AND 0x3F)\<rparr>"
  have min20: "unat (min (pk_size pk) 64) = min S 64"
    using b(2) by (auto simp: min_def word_le_nat_alt)
  have a: "unat (pk_base pk + of_nat z) = B + z" "unat (pk_size pk - of_nat z) = S - z"
    using b z by (simp_all add: unat_word_ariths unat_of_nat unat_sub_if_size word_size)
  have t: "ucast (drop_bit 1 ?b AND 0x3F) = (1 :: u32) \<or> ucast (drop_bit 1 ?b AND 0x3F) = (0x13 :: u32)
      \<or> ucast (drop_bit 1 ?b AND 0x3F) = (0x15 :: u32)"
    using f by (auto simp: h265_slice_def)
  have l: "(pk_size pk - of_nat z > rtp_mtu c - rtp_hdr_len c) = (body_limit c < S - z)"
    by (simp add: word_less_nat_alt a(2) body_limit_word)
  have "h265_inspect m c pk = (z, ?pk', pk_size pk - of_nat z, body_limit c < S - z, 0)"
    using f t z by (simp add: h265_inspect_def Let_def o0 b(1) min20 a(1) h265_slice_def l)
  then show ?thesis
    by (intro exI conjI, assumption) (use a(2) b z in \<open>simp_all add: unat_of_nat\<close>)
qed

lemma h265_first_single:
  assumes s: "sending c B S 0" and f: "h265_slice m B S z" and le: "S - z \<le> body_limit c"
  shows "\<exists>pk. h265_doing m c = rtp_emit c 0 pk (load m (B + z) (S - z)) True
    \<and> unat (pk_base pk) = B \<and> unat (pk_size pk) = S \<and> unat (pk_offset pk) = S"
proof -
  obtain l pk where i: "h265_inspect m c (rtp_pk (rtp_ss c 0)) = (z, pk, l, False, 0)"
    and pk: "unat l = S - z" "unat (pk_base pk) = B" "unat (pk_size pk) = S" "unat (pk_offset pk) = z"
    using h265_inspect_first [OF s f] le by auto
  have b: "B + S < 4294967296" "z < S" using s f by (auto simp: sending_def h265_slice_def)
  have a: "unat (pk_base pk + pk_offset pk) = B + z"
    using pk b by (simp add: unat_word_ariths)
  have "unat (pk_offset pk + l) = unat (pk_size pk)"
    using pk b by (simp add: unat_word_ariths)
  then have e: "pk_offset pk + l = pk_size pk" by (simp add: word_unat_eq_iff)
  have "unat (if l < rtp_mtu c - rtp_hdr_len c then l else rtp_mtu c - rtp_hdr_len c) = unat l"
    using pk(1) le by (simp add: min_word body_limit_word)
  then have w: "(if l < rtp_mtu c - rtp_hdr_len c then l else rtp_mtu c - rtp_hdr_len c) = l"
    by (simp only: word_unat_eq_iff)
  show ?thesis
    unfolding h265_doing_def Let_def video_0 i prod.case
    by (rule exI [of _ "pk\<lparr>pk_offset := pk_size pk, pk_data_offset := pk_data_offset pk + l\<rparr>"],
        intro conjI) (simp_all add: w e a pk cong: if_cong)
qed

lemma h265_first_fragment:
  assumes s: "sending c B S 0" and f: "h265_slice m B S z" and gt: "body_limit c < S - z"
  defines "off \<equiv> z + 2 + hevc_room c"
  shows "\<exists>pk. h265_doing m c = rtp_emit c 0 pk
      (hevcFUHeader_bytes (pk_nalunithdr pk) True False (pk_naltype pk) @ load m (B + z + 2) (hevc_room c)) False
    \<and> unat (pk_base pk) = B \<and> unat (pk_size pk) = S \<and> unat (pk_offset pk) = off \<and> off < S
    \<and> pk_naltype pk = ucast (drop_bit 1 (m (B + z)) AND 0x3F)
    \<and> pk_nalunithdr pk = push_bit 8 (ucast (m (B + z))) OR ucast (m (B + z + 1))"
proof -
  obtain l pk where i: "h265_inspect m c (rtp_pk (rtp_ss c 0)) = (z, pk, l, True, 0)"
    and pk: "unat l = S - z" "unat (pk_base pk) = B" "unat (pk_size pk) = S" "unat (pk_offset pk) = z"
      "pk_naltype pk = ucast (drop_bit 1 (m (B + z)) AND 0x3F)"
      "pk_nalunithdr pk = push_bit 8 (ucast (m (B + z))) OR ucast (m (B + z + 1))"
    using h265_inspect_first [OF s f] gt by auto
  let ?r = "rtp_mtu c - (rtp_hdr_len c + sizeof_hevcFUHeader)"
  have b: "B + S < 4294967296" "0 < z" "z < S" using s f by (auto simp: sending_def h265_slice_def)
  have lt: "off < S" using gt hevc_room_body [of c] by (simp add: off_def)
  have a: "unat (pk_base pk + pk_offset pk) = B + z"
    using pk b by (simp add: unat_word_ariths)
  have "2 \<le> unat l" using pk(1) gt hevc_room_body [of c] by simp
  then have l1: "unat (l - 2) = S - z - 2" using pk(1) by (simp add: unat_sub_if_size word_size)
  have n: "unat (if l - 2 < ?r then l - 2 else ?r) = hevc_room c"
    using gt hevc_room_body [of c] unfolding min_word l1 hevc_room_word by simp
  note w = word_of_unat [OF n]
  have o: "unat (pk_offset pk + 2 + of_nat (hevc_room c)) = off"
    using pk b lt by (simp add: unat_word_ariths off_def unat_of_nat)
  then have ne: "(pk_offset pk + 2 + of_nat (hevc_room c) = pk_size pk) = False"
    using lt pk(3) by auto
  have k: "unat (of_nat (hevc_room c) :: u32) = hevc_room c"
    using lt b by (simp add: off_def unat_of_nat)
  show ?thesis
    unfolding h265_doing_def Let_def video_0 i prod.case
    by (rule exI [of _ "pk\<lparr>pk_offset := pk_offset pk + 2 + of_nat (hevc_room c),
          pk_data_offset := pk_data_offset pk + of_nat (hevc_room c)\<rparr>"], intro conjI)
      (use b(2) pk o lt in \<open>simp_all add: w k ne a cong: if_cong\<close>)
qed

section \<open>The contract\<close>

lemma h265_sends_continue:
  assumes s: "sending c B S off" and "off < S" and ns: "no_start m (B + off) (S - off)"
  shows "nal_sends hevc_unit rtspd_client_rtp_h265_main m c B S off"
proof -
  let ?n = "min (S - off) (hevc_room c)"
  obtain pk where
    d: "h265_doing m c = rtp_emit c 0 pk (hevcFUHeader_bytes (pk_nalunithdr pk) False (off + ?n = S)
        (pk_naltype pk) @ load m (B + off) ?n) (off + ?n = S)"
    and pk: "unat (pk_base pk) = B" "unat (pk_size pk) = S" "unat (pk_offset pk) = off + ?n"
    using h265_continue [OF assms] by blast
  have n: "?n \<le> hevc_room c" "0 < ?n" "off + ?n \<le> S" using assms(2) hevc_room_pos [of c] by auto
  show ?thesis
    unfolding nal_sends_def h265_main_doing [OF s] d
    by (intro exI conjI, rule refl, use pk n hevc_room_body [of c] in \<open>simp_all add: hevc_fu_unit\<close>)
qed

lemma h265_sends_first:
  assumes s: "sending c B S 0" and f: "h265_slice m B S z"
  shows "nal_sends hevc_unit rtspd_client_rtp_h265_main m c B S z"
proof (cases "S - z \<le> body_limit c")
  case True
  have z: "z < S" using f by (simp add: h265_slice_def)
  obtain pk where d: "h265_doing m c = rtp_emit c 0 pk (load m (B + z) (S - z)) True"
    and pk: "unat (pk_base pk) = B" "unat (pk_size pk) = S" "unat (pk_offset pk) = S"
    using h265_first_single [OF s f True] by blast
  have "load m (B + z) (S - z) ! 0 = m (B + z)" using z by (simp add: nth_load)
  then have "hevc_unit (load m (B + z) (S - z)) = load m (B + z) (S - z)"
    using f by (intro hevc_single_unit) (auto simp: h265_slice_def)
  moreover have "(z + (S - z) = S) = True" using z by simp
  ultimately show ?thesis
    unfolding nal_sends_def h265_main_doing [OF s] d using pk z True
    by (intro exI [of _ pk] exI [of _ "load m (B + z) (S - z)"] exI [of _ "S - z"]) simp
next
  case False
  then have gt: "body_limit c < S - z" by simp
  from h265_first_fragment [OF s f gt] obtain pk where
    d: "h265_doing m c = rtp_emit c 0 pk (hevcFUHeader_bytes (pk_nalunithdr pk) True False (pk_naltype pk) @
      load m (B + z + 2) (hevc_room c)) False"
    and pk: "unat (pk_base pk) = B" "unat (pk_size pk) = S" "unat (pk_offset pk) = z + 2 + hevc_room c"
      "z + 2 + hevc_room c < S" "pk_naltype pk = ucast (drop_bit 1 (m (B + z)) AND 0x3F)"
      "pk_nalunithdr pk = push_bit 8 (ucast (m (B + z))) OR ucast (m (B + z + 1))"
    by blast
  let ?b = "hevcFUHeader_bytes (pk_nalunithdr pk) True False (pk_naltype pk) @ load m (B + z + 2) (hevc_room c)"
  have "hevc_unit ?b = load m (B + z) (2 + hevc_room c)"
    using load_Cons [of "2 + hevc_room c" m "B + z"] load_Cons [of "1 + hevc_room c" m "B + z + 1"]
    by (simp only: pk(5,6) hevc_fu_unit) simp
  moreover have "(z + (2 + hevc_room c) = S) = False" using pk(4) by simp
  ultimately show ?thesis
    unfolding nal_sends_def h265_main_doing [OF s] d using pk(1-4) hevc_room_body [of c]
    by (intro exI [of _ pk] exI [of _ ?b] exI [of _ "2 + hevc_room c"]) simp
qed

lemma h265_ready:
  assumes "tx_ready (rtp_ss c 0) = ENX_RTP_TXSTE_READY" and
    t: "eTransport c = ENX_RTSP_TRANSPORT_UDP \<or> eTransport c = ENX_RTSP_TRANSPORT_TCP"
    and g: "fst (h26x_ready c)"
  shows "fst (rtspd_client_rtp_h265_main m c) = fst (rtspd_client_rtp_h265_main m (snd (h26x_ready c)))"
proof -
  have "tx_ready (rtp_ss (snd (h26x_ready c)) 0) = ENX_RTP_TXSTE_DOING
      \<and> eTransport (snd (h26x_ready c)) = eTransport c"
    using g by (auto simp: h26x_ready_def Let_def split: option.splits if_splits)
  with assms show ?thesis
    by (auto simp: rtspd_client_rtp_h265_main_def Let_def split_beta)
qed

interpretation h265: nal_sender rtspd_client_rtp_h265_main hevc_unit h265_slice
  by unfold_locales
    (use h265_sends_first h265_sends_continue h265_ready in \<open>auto simp: h265_slice_def\<close>)

end
