(* ===== verification/RtpJpeg.thy ===== *)
theory RtpJpeg
  imports RtpNal
begin

text \<open>
  The motion JPEG packetiser, \<open>task/rtspd/rtp_jpeg.c\<close> (RFC 2435). A frame of the encoder has a
  header of 613 bytes, which is not sent; the picture size in it and its two quantisation tables
  are. Proved here: packet sizes, that the payloads put together are the scan data, the contents of
  the first packet, and the fragment offset in the payload header of the later ones.
\<close>

section \<open>The state machine\<close>

definition JPG_numHeaderSize :: nat where "JPG_numHeaderSize = 613"
definition JPG_numOffset_YQUNT :: nat where "JPG_numOffset_YQUNT = 0x19"
definition JPG_numOffset_CQUNT :: nat where "JPG_numOffset_CQUNT = 0x5a"
definition JPG_numQUNTSize :: nat where "JPG_numQUNTSize = 64"
definition JPG_numYCQUNTSize :: nat where "JPG_numYCQUNTSize = JPG_numQUNTSize * 2"
definition JPG_numOffset_SOFO :: u32 where "JPG_numOffset_SOFO = 0x23e"

text \<open>
  The payload header. The two fields of the first word are one argument of \<open>BF_2\<close> (\<open>rtp_jpeg.h\<close>
  separates them by semicolons), so they stay in the order they are written: the type-specific byte
  is first in memory and the 24 bits of the offset follow. The code stores the offset with its bytes
  swapped, so the most significant one comes first.
\<close>

definition jpgHeader_bytes :: "u32 \<Rightarrow> u32 \<Rightarrow> u32 \<Rightarrow> bytes" where
  "jpgHeader_bytes data_offset width height =
     [0, ucast (drop_bit 16 (data_offset AND 0xff0000)), ucast (drop_bit 8 (data_offset AND 0xff00)),
      ucast (data_offset AND 0xff), 0, 128, ucast (drop_bit 3 width), ucast (drop_bit 3 height)]"

definition jpgQTHeader_bytes :: "u16 \<Rightarrow> bytes" where
  "jpgQTHeader_bytes len = [0, 0] @ be16 len"

definition sizeof_jpgHeader :: u32 where "sizeof_jpgHeader = 4 + 1 + 1 + 1 + 1"
definition sizeof_jpgQTHeader :: u32 where "sizeof_jpgQTHeader = 1 + 1 + 2"

text \<open>State \<open>READY\<close>: take a frame and read the picture size; the flag says whether to go on.\<close>

definition jpeg_ready :: "mem \<Rightarrow> rtsp_client \<Rightarrow> bool \<times> rtsp_client" where
  "jpeg_ready m c =
     (case rtp_queue_get (rtp_queue_video c) of
        None \<Rightarrow> (False, c)
      | Some (pdata, q) \<Rightarrow>
          (let s = rtp_ss c ENX_RTSP_STRTYPE_numVIDEO;
               pk = (rtp_pk s)\<lparr>pk_base := rq_addr pdata, pk_size := rq_size pdata, pk_offset := 0\<rparr>;
               s = s\<lparr>start_rtptime := start_rtptime s + rq_ts pdata\<rparr>;
               c = c\<lparr>rtp_queue_video := q\<rparr>;
               size_base = unat (pk_base pk + JPG_numOffset_SOFO)
           in if m size_base = 0xFF \<and> m (size_base + 1) = 0xC0
              then (True, set_ss c ENX_RTSP_STRTYPE_numVIDEO (s\<lparr>
                     rtp_pk := pk\<lparr>
                       pk_width := push_bit 8 (ucast (m (size_base + 7))) OR ucast (m (size_base + 8)),
                       pk_height := push_bit 8 (ucast (m (size_base + 5))) OR ucast (m (size_base + 6)),
                       pk_data_offset := 0\<rparr>,
                     tx_ready := ENX_RTP_TXSTE_DOING\<rparr>))
              else (False, set_ss c ENX_RTSP_STRTYPE_numVIDEO (s\<lparr>rtp_pk := pk\<rparr>))))"

text \<open>State \<open>DOING\<close>: the first packet takes the tables along.\<close>

definition jpeg_doing :: "mem \<Rightarrow> rtsp_client \<Rightarrow> rtsp_client" where
  "jpeg_doing m c =
     (let pk = rtp_pk (rtp_ss c ENX_RTSP_STRTYPE_numVIDEO);
          left = pk_size pk - pk_offset pk;
          base_offset = unat (pk_base pk + pk_offset pk);
          jpgHead = jpgHeader_bytes (pk_data_offset pk) (pk_width pk) (pk_height pk);
          buf_len = rtp_hdr_len c + sizeof_jpgHeader
      in if pk_offset pk = 0
         then (let buf_len = buf_len + sizeof_jpgQTHeader + of_nat JPG_numYCQUNTSize;
                   remaining = TCP_MSS - buf_len;
                   remaining = (if left - of_nat JPG_numHeaderSize < remaining
                                then left - of_nat JPG_numHeaderSize else remaining);
                   pk = pk\<lparr>pk_offset := of_nat JPG_numHeaderSize + remaining,
                           pk_data_offset := pk_data_offset pk + (remaining + of_nat JPG_numYCQUNTSize)\<rparr>
               in rtp_emit c ENX_RTSP_STRTYPE_numVIDEO pk
                    (jpgHead @ jpgQTHeader_bytes (of_nat JPG_numYCQUNTSize)
                       @ load m (base_offset + JPG_numOffset_YQUNT) JPG_numQUNTSize
                       @ load m (base_offset + JPG_numOffset_CQUNT) JPG_numQUNTSize
                       @ load m (base_offset + JPG_numHeaderSize) (unat remaining))
                    (pk_offset pk = pk_size pk))
         else (let remaining = TCP_MSS - buf_len;
                   remaining = (if left < remaining then left else remaining);
                   pk = pk\<lparr>pk_offset := pk_offset pk + remaining,
                           pk_data_offset := pk_data_offset pk + remaining\<rparr>
               in rtp_emit c ENX_RTSP_STRTYPE_numVIDEO pk
                    (jpgHead @ load m base_offset (unat remaining)) (pk_offset pk = pk_size pk)))"

definition rtspd_client_rtp_jpeg_main :: "mem \<Rightarrow> rtsp_client \<Rightarrow> rtsp_client \<times> int" where
  "rtspd_client_rtp_jpeg_main m c =
     (if eTransport c \<noteq> ENX_RTSP_TRANSPORT_UDP \<and> eTransport c \<noteq> ENX_RTSP_TRANSPORT_TCP then (c, - 1)
      else (let c = (case tx_ready (rtp_ss c ENX_RTSP_STRTYPE_numVIDEO) of
                ENX_RTP_TXSTE_READY \<Rightarrow>
                  (let (go, c) = jpeg_ready m c in if go then jpeg_doing m c else c)
              | ENX_RTP_TXSTE_DOING \<Rightarrow> jpeg_doing m c
              | ENX_RTP_TXSTE_END \<Rightarrow> set_ss c ENX_RTSP_STRTYPE_numVIDEO
                   ((rtp_ss c ENX_RTSP_STRTYPE_numVIDEO)\<lparr>tx_ready := ENX_RTP_TXSTE_READY\<rparr>))
            in (c, rtp_left c ENX_RTSP_STRTYPE_numVIDEO)))"

section \<open>Sizes\<close>

lemma length_jpg [simp]: "length (jpgHeader_bytes d w h) = 8" "length (jpgQTHeader_bytes n) = 4"
  by (simp_all add: jpgHeader_bytes_def jpgQTHeader_bytes_def)

lemmas jpg_consts = JPG_numHeaderSize_def JPG_numOffset_YQUNT_def JPG_numOffset_CQUNT_def
  JPG_numQUNTSize_def JPG_numYCQUNTSize_def sizeof_jpgHeader_def sizeof_jpgQTHeader_def

text \<open>The room for scan data in a first and in a later packet.\<close>

definition jpeg_room :: "rtsp_client \<Rightarrow> nat \<Rightarrow> nat" where
  "jpeg_room c h = 1460 - unat (rtp_hdr_len c) - h"

lemma jpeg_rooms:
  "unat (TCP_MSS - (rtp_hdr_len c + sizeof_jpgHeader)) = jpeg_room c 8"
  "unat (TCP_MSS - (rtp_hdr_len c + sizeof_jpgHeader + sizeof_jpgQTHeader + of_nat JPG_numYCQUNTSize))
     = jpeg_room c 140"
  by (auto simp: jpeg_room_def jpg_consts TCP_MSS_def rtp_hdr_len_def sizeof_rthInterleaved_def
      sizeof_rthRTPHeader_def)

lemma jpeg_room_fits: "h \<le> 140 \<Longrightarrow> n \<le> jpeg_room c h \<Longrightarrow> h + n \<le> body_limit c"
  and jpeg_room_pos: "h \<le> 140 \<Longrightarrow> 0 < jpeg_room c h"
  using rtp_sizes(5,6) [of c] by (simp_all add: jpeg_room_def body_limit_def)

lemma jpeg_doing_head:
  "\<exists>pk rest dn. jpeg_doing m c = rtp_emit c 0 pk
      (jpgHeader_bytes (pk_data_offset (rtp_pk (rtp_ss c 0))) (pk_width (rtp_pk (rtp_ss c 0)))
        (pk_height (rtp_pk (rtp_ss c 0))) @ rest) dn
    \<and> 8 + length rest \<le> body_limit c"
proof -
  have "unat (if l < r then l else r) \<le> unat r" for l r :: u32
    by (simp add: min_word)
  note r = this [of _ "TCP_MSS - (rtp_hdr_len c + sizeof_jpgHeader)", unfolded jpeg_rooms]
    this [of _ "TCP_MSS - (rtp_hdr_len c + sizeof_jpgHeader + sizeof_jpgQTHeader + of_nat JPG_numYCQUNTSize)",
      unfolded jpeg_rooms]
  show ?thesis
  proof (cases "pk_offset (rtp_pk (rtp_ss c 0)) = 0")
    case True
    show ?thesis
      unfolding jpeg_doing_def Let_def video_0 True if_True eqTrueI [OF refl]
      by (intro exI conjI, rule refl)
        (use jpeg_room_fits [OF _ r(2)] in \<open>simp add: JPG_numQUNTSize_def split del: if_split cong: if_cong\<close>)
  next
    case False
    show ?thesis
      unfolding jpeg_doing_def Let_def video_0 if_not_P [OF False]
      by (intro exI conjI, rule refl)
        (use jpeg_room_fits [OF _ r(1)] in \<open>simp split del: if_split cong: if_cong\<close>)
  qed
qed

lemma jpeg_doing_emit:
  "\<exists>pk body dn. jpeg_doing m c = rtp_emit c 0 pk body dn \<and> length body \<le> body_limit c"
proof -
  obtain pk rest dn where e: "jpeg_doing m c = rtp_emit c 0 pk
      (jpgHeader_bytes (pk_data_offset (rtp_pk (rtp_ss c 0))) (pk_width (rtp_pk (rtp_ss c 0)))
        (pk_height (rtp_pk (rtp_ss c 0))) @ rest) dn" and l: "8 + length rest \<le> body_limit c"
    using jpeg_doing_head [of m c] by blast
  show ?thesis by (intro exI conjI, rule e) (simp add: l)
qed

lemma jpeg_ready_quiet: "quiet 0 c (snd (jpeg_ready m c))"
  by (auto simp: jpeg_ready_def Let_def quiet_def split: option.split)

lemma jpeg_outcome: "outcome 0 c (fst (rtspd_client_rtp_jpeg_main m c))"
proof -
  have doing: "outcome 0 c (jpeg_doing m c')" if "quiet 0 c c'" for c'
    using jpeg_doing_emit [of m c'] outcome_emit [OF that] by auto
  have "quiet 0 c (set_ss c 0 ((rtp_ss c 0)\<lparr>tx_ready := ENX_RTP_TXSTE_READY\<rparr>))"
    by (simp add: quiet_def)
  then show ?thesis
    using doing jpeg_ready_quiet [of c m]
    by (auto simp: rtspd_client_rtp_jpeg_main_def Let_def outcome_quiet split: prod.splits rtp_txstate_type.split)
qed

section \<open>The scan data\<close>

text \<open>The fragment offset where RFC 2435 has it: three bytes behind the type-specific one.\<close>

definition rfc2435_offset :: "bytes \<Rightarrow> u32" where
  "rfc2435_offset b = push_bit 16 (ucast (b ! 1)) OR push_bit 8 (ucast (b ! 2)) OR ucast (b ! 3)"

lemma jpg_offset_bytes: "rfc2435_offset (jpgHeader_bytes d w h @ xs) = take_bit 24 d"
proof (rule bit_word_eqI)
  have h: "jpgHeader_bytes d w h @ xs = [0, ucast (drop_bit 16 (d AND push_bit 16 (mask 8))),
      ucast (drop_bit 8 (d AND push_bit 8 (mask 8))), ucast (d AND mask 8)] @ drop 4 (jpgHeader_bytes d w h) @ xs"
    by (simp add: jpgHeader_bytes_def mask_eq_exp_minus_1 push_bit_eq_mult)
  fix n :: nat
  assume "n < LENGTH(32)"
  then show "bit (rfc2435_offset (jpgHeader_bytes d w h @ xs)) n = bit (take_bit 24 d) n"
    unfolding h by (cases n rule: byte_lane) (auto simp: rfc2435_offset_def bit_simps)
qed

text \<open>What a receiver keeps of a payload: the first one, at offset 0, has the tables in front.\<close>

definition jpeg_unit :: "bytes \<Rightarrow> bytes" where
  "jpeg_unit b = (if rfc2435_offset b = 0 then drop 140 b else drop 8 b)"

definition jpeg_state :: "mem \<Rightarrow> rtsp_client \<Rightarrow> nat \<Rightarrow> nat \<Rightarrow> nat \<Rightarrow> bool" where
  "jpeg_state m c B S off \<longleftrightarrow> sending c B S off \<and> 613 \<le> off \<and> S < 2 ^ 24
     \<and> unat (pk_data_offset (rtp_pk (rtp_ss c 0))) = off - 485"

lemma small_offset: "unat d < 2 ^ 24 \<Longrightarrow> take_bit 24 d = (d :: u32)"
  by (simp add: word_unat_eq_iff take_bit_eq_mod unat_mod_distrib)

lemma jpeg_unit_later:
  "unat d < 2 ^ 24 \<Longrightarrow> d \<noteq> 0 \<Longrightarrow> jpeg_unit (jpgHeader_bytes d w h @ xs) = xs"
  by (simp add: jpeg_unit_def jpg_offset_bytes small_offset)

lemma jpeg_unit_first:
  "length q = 132 \<Longrightarrow> jpeg_unit (jpgHeader_bytes 0 w h @ q @ xs) = xs"
  by (simp add: jpeg_unit_def jpg_offset_bytes)

lemma jpeg_main_doing:
  "sending c B S off \<Longrightarrow> fst (rtspd_client_rtp_jpeg_main m c) = jpeg_doing m c"
  by (auto simp: rtspd_client_rtp_jpeg_main_def sending_def Let_def)

lemma jpeg_state_emit:
  assumes "sending c B S off0" and "off \<le> S" and "613 \<le> off" and "S < 2 ^ 24"
    and "unat (pk_base pk) = B" "unat (pk_size pk) = S" "unat (pk_offset pk) = off"
    and "unat (pk_data_offset pk) = off - 485"
  shows "jpeg_state m (rtp_emit c 0 pk body False) B S off"
  using sending_emit [OF assms(1,5,6,7,2)] assms by (simp add: jpeg_state_def rtp_emit_session)

lemma jpeg_goes_on:
  assumes st: "jpeg_state m c B S off" and lt: "off < S"
  shows "sends jpeg_unit rtspd_client_rtp_jpeg_main jpeg_state m c B S off"
proof -
  let ?pk = "rtp_pk (rtp_ss c 0)"
  have s: "sending c B S off" and o: "613 \<le> off" "S < 2 ^ 24" and d: "unat (pk_data_offset ?pk) = off - 485"
    using st by (auto simp: jpeg_state_def)
  define n where "n = min (S - off) (jpeg_room c 8)"
  let ?l = "pk_size ?pk - pk_offset ?pk" and ?r = "TCP_MSS - (rtp_hdr_len c + sizeof_jpgHeader)"
  have n: "0 < n" "off + n \<le> S" "8 + n \<le> body_limit c"
    using lt jpeg_room_pos [of 8 c] jpeg_room_fits [of 8 n c] by (auto simp: n_def)
  have "off + 0 \<le> S" using lt by simp
  note a = sending_numbers(1,2) [OF s this] and b = sending_numbers [OF s n(2)]
  have "unat (if ?l < ?r then ?l else ?r) = n"
    using a by (simp only: min_word jpeg_rooms n_def)
  note w = word_of_unat [OF this]
  have k: "unat (of_nat n :: u32) = n" using n o by (simp add: unat_of_nat)
  have ne: "pk_offset ?pk \<noteq> 0" using s o by (auto simp: sending_def)
  let ?pk' = "?pk\<lparr>pk_offset := pk_offset ?pk + of_nat n, pk_data_offset := pk_data_offset ?pk + of_nat n\<rparr>"
  let ?h = "jpgHeader_bytes (pk_data_offset ?pk) (pk_width ?pk) (pk_height ?pk)"
  have e: "jpeg_doing m c = rtp_emit c 0 ?pk' (?h @ load m (B + off) n) (off + n = S)"
    unfolding jpeg_doing_def Let_def video_0 if_not_P [OF ne] w
    by (simp add: k a(2) b(4))
  have do: "unat (pk_data_offset ?pk + of_nat n) = off + n - 485"
    using d n(2) o by (simp add: unat_word_ariths unat_of_nat)
  have f: "unat (pk_base ?pk) = B" "unat (pk_size ?pk) = S" using s by (auto simp: sending_def)
  have "jpeg_state m (rtp_emit c 0 ?pk' (?h @ load m (B + off) n) False) B S (off + n)"
    by (rule jpeg_state_emit [OF s n(2) _ o(2)]) (use o f b(3) do in simp_all)
  moreover have "jpeg_unit (?h @ load m (B + off) n) = load m (B + off) n"
    by (rule jpeg_unit_later) (use d o lt in auto)
  ultimately show ?thesis
    unfolding sends_def jpeg_main_doing [OF s] e using n
    by (intro exI [of _ ?pk'] exI [of _ "?h @ load m (B + off) n"] exI [of _ n]) simp
qed

interpretation jpeg: frame_sender rtspd_client_rtp_jpeg_main jpeg_unit jpeg_state
  by unfold_locales (rule jpeg_goes_on)

section \<open>A whole frame\<close>

text \<open>The tables in the first packet, behind the payload header.\<close>

definition jpeg_tables :: "mem \<Rightarrow> nat \<Rightarrow> bytes" where
  "jpeg_tables m B = jpgQTHeader_bytes 128 @ load m (B + 0x19) 64 @ load m (B + 0x5a) 64"

lemma jpeg_first:
  assumes s: "sending c B S 0" and S: "613 < S" "S < 2 ^ 24"
    and d: "pk_data_offset (rtp_pk (rtp_ss c 0)) = 0"
  defines "n \<equiv> min (S - 613) (jpeg_room c 140)"
  shows "\<exists>pk. jpeg_doing m c = rtp_emit c 0 pk
      (jpgHeader_bytes 0 (pk_width pk) (pk_height pk) @ jpeg_tables m B @ load m (B + 613) n) (613 + n = S)
    \<and> unat (pk_base pk) = B \<and> unat (pk_size pk) = S \<and> unat (pk_offset pk) = 613 + n
    \<and> unat (pk_data_offset pk) = n + 128
    \<and> pk_width pk = pk_width (rtp_pk (rtp_ss c 0)) \<and> pk_height pk = pk_height (rtp_pk (rtp_ss c 0))"
proof -
  let ?pk = "rtp_pk (rtp_ss c 0)"
  have f: "unat (pk_base ?pk) = B" "unat (pk_size ?pk) = S" "pk_offset ?pk = 0"
    using s by (auto simp: sending_def unat_eq_zero)
  let ?l = "pk_size ?pk - pk_offset ?pk - of_nat JPG_numHeaderSize"
  let ?r = "TCP_MSS - (rtp_hdr_len c + sizeof_jpgHeader + sizeof_jpgQTHeader + of_nat JPG_numYCQUNTSize)"
  have n: "613 + n \<le> S" using S(1) by (simp add: n_def)
  have l: "unat ?l = S - 613"
    using f S by (simp add: JPG_numHeaderSize_def unat_sub_if_size word_size)
  have "unat (if ?l < ?r then ?l else ?r) = n"
    by (simp only: min_word jpeg_rooms n_def l)
  note w = word_of_unat [OF this]
  have k: "unat (of_nat n :: u32) = n" using n S by (simp add: unat_of_nat)
  have o: "unat (613 + of_nat n :: u32) = 613 + n"
    using n S by (simp add: unat_word_ariths unat_of_nat)
  have e: "(613 + of_nat n = pk_size ?pk) = (613 + n = S)"
    using o f(2) by (simp only: word_unat_eq_iff)
  have do: "unat (of_nat n + 128 :: u32) = n + 128"
    using n S by (simp add: unat_word_ariths unat_of_nat)
  let ?pk' = "?pk\<lparr>pk_offset := 613 + of_nat n, pk_data_offset := of_nat n + 128\<rparr>"
  have "jpeg_doing m c = rtp_emit c 0 ?pk' (jpgHeader_bytes 0 (pk_width ?pk) (pk_height ?pk)
      @ jpeg_tables m B @ load m (B + 613) n) (613 + n = S)"
    unfolding jpeg_doing_def Let_def video_0 if_P [OF f(3)] w
    by (simp add: k d f(1,3) e [symmetric])
      (simp add: JPG_numHeaderSize_def JPG_numYCQUNTSize_def JPG_numQUNTSize_def
        JPG_numOffset_YQUNT_def JPG_numOffset_CQUNT_def jpeg_tables_def f(1))
  then show ?thesis
    using f o do by (intro exI [of _ ?pk']) simp
qed

lemma jpeg_sends_first:
  assumes "sending c B S 0" and S: "613 < S" "S < 2 ^ 24"
    and "pk_data_offset (rtp_pk (rtp_ss c 0)) = 0"
  shows "sends jpeg_unit rtspd_client_rtp_jpeg_main jpeg_state m c B S 613"
proof -
  define n where "n = min (S - 613) (jpeg_room c 140)"
  have n: "0 < n" "613 + n \<le> S" "140 + n \<le> body_limit c"
    using S jpeg_room_pos [of 140 c] jpeg_room_fits [of 140 n c] by (auto simp: n_def)
  from jpeg_first [OF assms, folded n_def] obtain pk where
    e: "jpeg_doing m c = rtp_emit c 0 pk (jpgHeader_bytes 0 (pk_width pk) (pk_height pk)
      @ jpeg_tables m B @ load m (B + 613) n) (613 + n = S)"
    and pk: "unat (pk_base pk) = B" "unat (pk_size pk) = S" "unat (pk_offset pk) = 613 + n"
      "unat (pk_data_offset pk) = n + 128"
    by blast
  let ?b = "jpgHeader_bytes 0 (pk_width pk) (pk_height pk) @ jpeg_tables m B @ load m (B + 613) n"
  have "jpeg_state m (rtp_emit c 0 pk ?b False) B S (613 + n)"
    by (rule jpeg_state_emit [OF assms(1) n(2) _ S(2)]) (use pk in simp_all)
  moreover have t: "length (jpeg_tables m B) = 132" by (simp add: jpeg_tables_def)
  moreover have "jpeg_unit ?b = load m (B + 613) n" by (rule jpeg_unit_first [OF t])
  ultimately show ?thesis
    unfolding sends_def jpeg_main_doing [OF assms(1)] e using n
    by (intro exI [of _ pk] exI [of _ ?b] exI [of _ n]) simp
qed

text \<open>A frame of the encoder at \<open>B\<close>: the start-of-frame marker is where the code expects it.\<close>

definition jpeg_frame :: "mem \<Rightarrow> nat \<Rightarrow> nat \<Rightarrow> bool" where
  "jpeg_frame m B S \<longleftrightarrow> 613 < S \<and> S < 2 ^ 24 \<and> B + S < 2 ^ 32
     \<and> m (B + 0x23e) = 0xFF \<and> m (B + 0x23f) = 0xC0"

lemma jpeg_ready_sending:
  assumes t: "eTransport c = ENX_RTSP_TRANSPORT_UDP \<or> eTransport c = ENX_RTSP_TRANSPORT_TCP"
    and q: "rtp_queue_get (rtp_queue_video c) = Some (d, q)"
    and f: "jpeg_frame m (unat (rq_addr d)) (unat (rq_size d))"
  shows "fst (jpeg_ready m c)" "sending (snd (jpeg_ready m c)) (unat (rq_addr d)) (unat (rq_size d)) 0"
    "eTransport (snd (jpeg_ready m c)) = eTransport c"
    "pk_data_offset (rtp_pk (rtp_ss (snd (jpeg_ready m c)) 0)) = 0"
proof -
  have "unat (rq_addr d + JPG_numOffset_SOFO) = unat (rq_addr d) + 0x23e"
    using f by (simp add: JPG_numOffset_SOFO_def unat_word_ariths jpeg_frame_def)
  moreover have "m (575 + unat (rq_addr d)) = 0xC0" "m (574 + unat (rq_addr d)) = 0xFF"
    using f by (simp_all add: jpeg_frame_def add.commute)
  ultimately show "fst (jpeg_ready m c)"
    "sending (snd (jpeg_ready m c)) (unat (rq_addr d)) (unat (rq_size d)) 0"
    "eTransport (snd (jpeg_ready m c)) = eTransport c"
    "pk_data_offset (rtp_pk (rtp_ss (snd (jpeg_ready m c)) 0)) = 0"
    using t q f by (auto simp: jpeg_ready_def Let_def sending_def jpeg_frame_def add.commute)
qed

lemma jpeg_frame_sent:
  assumes t: "eTransport c = ENX_RTSP_TRANSPORT_UDP \<or> eTransport c = ENX_RTSP_TRANSPORT_TCP"
    and r: "tx_ready (rtp_ss c 0) = ENX_RTP_TXSTE_READY"
    and q: "rtp_queue_get (rtp_queue_video c) = Some (d, q)"
    and f: "jpeg_frame m (unat (rq_addr d)) (unat (rq_size d))"
  shows "delivered jpeg_unit c (rtp_frame rtspd_client_rtp_jpeg_main (unat (rq_size d)) m c)
    (load m (unat (rq_addr d) + 613) (unat (rq_size d) - 613))"
proof -
  let ?c = "snd (jpeg_ready m c)"
  note h = jpeg_ready_sending [OF t q f]
  have S: "613 < unat (rq_size d)" "unat (rq_size d) < 2 ^ 24" using f by (simp_all add: jpeg_frame_def)
  obtain N where N: "unat (rq_size d) = Suc N" using S(1) by (cases "unat (rq_size d)") auto
  have "fst (rtspd_client_rtp_jpeg_main m c) = jpeg_doing m ?c"
    using t r h(1) by (auto simp: rtspd_client_rtp_jpeg_main_def Let_def split_beta)
  then have "rtp_frame rtspd_client_rtp_jpeg_main (Suc N) m c
      = rtp_frame rtspd_client_rtp_jpeg_main (Suc N) m ?c"
    using jpeg_main_doing [OF h(2), of m] by simp
  moreover have "delivered jpeg_unit ?c (rtp_frame rtspd_client_rtp_jpeg_main (Suc N) m ?c)
      (load m (unat (rq_addr d) + 613) (unat (rq_size d) - 613))"
    by (rule jpeg.all_sent [OF jpeg_sends_first [OF h(2) S h(4)] S(1), of "Suc N" m]) (simp add: N)
  ultimately show ?thesis
    unfolding N delivered_cong [OF h(3)] by simp
qed

section \<open>The payload header of a packet\<close>

lemma jpeg_packet_head:
  assumes s: "sending c B S off"
  defines "pk \<equiv> rtp_pk (rtp_ss c 0)"
  shows "\<exists>rest. pkt_body c (rtp_pkt (rtp_ss (fst (rtspd_client_rtp_jpeg_main m c)) 0))
    = jpgHeader_bytes (pk_data_offset pk) (pk_width pk) (pk_height pk) @ rest"
proof -
  obtain pk' rest dn where e: "jpeg_doing m c = rtp_emit c 0 pk'
      (jpgHeader_bytes (pk_data_offset pk) (pk_width pk) (pk_height pk) @ rest) dn"
    and l: "8 + length rest \<le> body_limit c"
    using jpeg_doing_head [of m c] unfolding pk_def by blast
  have "length (jpgHeader_bytes (pk_data_offset pk) (pk_width pk) (pk_height pk) @ rest) \<le> body_limit c"
    using l by simp
  from rtp_emit_fits(1) [OF this] show ?thesis
    unfolding jpeg_main_doing [OF s] e by blast
qed

end
