(* ===== verification/RtpG711.thy ===== *)
theory RtpG711
  imports RtpTypes
begin

text \<open>
  The audio packetiser, \<open>task/rtspd/rtp_g711.c\<close>, and the RTCP sender report,
  \<open>task/rtspd/rtcp_process.c\<close>. The audio packetiser takes the other send buffer on every call,
  also on those that make no packet.
\<close>

section \<open>Audio packets\<close>

definition g711_toggle :: "rtsp_client \<Rightarrow> rtsp_client" where
  "g711_toggle c =
     (let s = rtp_ss c ENX_RTSP_STRTYPE_numAUDIO
      in set_ss c ENX_RTSP_STRTYPE_numAUDIO (s\<lparr>buf_idx := (buf_idx s + 1) mod 2\<rparr>))"

text \<open>State \<open>DOING\<close>; the buffer is taken in \<open>rtp_emit\<close>.\<close>

definition g711_doing :: "mem \<Rightarrow> rtsp_client \<Rightarrow> rtsp_client" where
  "g711_doing m c =
     (let pk = rtp_pk (rtp_ss c ENX_RTSP_STRTYPE_numAUDIO);
          left = pk_size pk - pk_offset pk;
          base_offset = unat (pk_base pk + pk_offset pk);
          remaining = TCP_MSS - rtp_hdr_len c;
          remaining = (if left < remaining then left else remaining);
          pk = pk\<lparr>pk_offset := pk_offset pk + remaining\<rparr>
      in rtp_emit c ENX_RTSP_STRTYPE_numAUDIO pk (load m base_offset (unat remaining))
           (pk_offset pk = pk_size pk))"

definition rtspd_client_rtp_g711_main :: "mem \<Rightarrow> rtsp_client \<Rightarrow> rtsp_client \<times> int" where
  "rtspd_client_rtp_g711_main m c =
     (if eTransport c \<noteq> ENX_RTSP_TRANSPORT_UDP \<and> eTransport c \<noteq> ENX_RTSP_TRANSPORT_TCP then (c, - 1)
      else (let c = (case tx_ready (rtp_ss c ENX_RTSP_STRTYPE_numAUDIO) of
                ENX_RTP_TXSTE_READY \<Rightarrow>
                  (case rtp_queue_get (rtp_queue_audio c) of
                     None \<Rightarrow> g711_toggle c
                   | Some (pdata, q) \<Rightarrow>
                       (let s = rtp_ss c ENX_RTSP_STRTYPE_numAUDIO
                        in g711_doing m (set_ss (c\<lparr>rtp_queue_audio := q\<rparr>) ENX_RTSP_STRTYPE_numAUDIO
                             (s\<lparr>rtp_pk := (rtp_pk s)\<lparr>pk_base := rq_addr pdata,
                                  pk_size := rq_size pdata, pk_offset := 0\<rparr>,
                                start_rtptime := start_rtptime s + rq_ts pdata,
                                tx_ready := ENX_RTP_TXSTE_DOING\<rparr>))))
              | ENX_RTP_TXSTE_DOING \<Rightarrow> g711_doing m c
              | ENX_RTP_TXSTE_END \<Rightarrow> (let c = g711_toggle c; s = rtp_ss c ENX_RTSP_STRTYPE_numAUDIO
                   in set_ss c ENX_RTSP_STRTYPE_numAUDIO (s\<lparr>tx_ready := ENX_RTP_TXSTE_READY\<rparr>)))
            in (c, rtp_left c ENX_RTSP_STRTYPE_numAUDIO)))"

lemma g711_doing_emit:
  "\<exists>pk body dn. g711_doing m c = rtp_emit c 1 pk body dn \<and> length body \<le> body_limit c"
proof -
  have "unat (TCP_MSS - rtp_hdr_len c) \<le> body_limit c"
    by (auto simp: TCP_MSS_def rtp_hdr_len_def sizeof_rthInterleaved_def sizeof_rthRTPHeader_def
        body_limit_def rtp_mtu_def)
  then have l: "unat (if l < TCP_MSS - rtp_hdr_len c then l else TCP_MSS - rtp_hdr_len c) \<le> body_limit c"
    for l :: u32
    by (auto simp: word_less_nat_alt)
  show ?thesis
    unfolding g711_doing_def Let_def audio_1 by (intro exI conjI, rule refl) (simp only: length_load l)
qed

text \<open>A call either makes one packet that fits, or only takes the other buffer.\<close>

definition g711_idle :: "rtsp_client \<Rightarrow> rtsp_client \<Rightarrow> bool" where
  "g711_idle c c' \<longleftrightarrow> eTransport c' = eTransport c \<and> start_seq (rtp_ss c' 1) = start_seq (rtp_ss c 1)
     \<and> buf_len (rtp_ss c' 1) = buf_len (rtp_ss c 1) \<and> cur (rtp_ss c' 1) = other (rtp_ss c 1)
     \<and> buf_idx (rtp_ss c' 1) < 2"

lemma g711_idle_toggle: "g711_idle c (g711_toggle c)"
  by (simp add: g711_idle_def g711_toggle_def Let_def cur_def other_def word_mod_less_divisor)

lemma g711_outcome:
  "eTransport c \<noteq> ENX_RTSP_TRANSPORT_UDP \<and> eTransport c \<noteq> ENX_RTSP_TRANSPORT_TCP
     \<and> fst (rtspd_client_rtp_g711_main m c) = c
   \<or> g711_idle c (fst (rtspd_client_rtp_g711_main m c))
   \<or> (\<exists>c1 pk body dn. quiet 1 c c1 \<and> fst (rtspd_client_rtp_g711_main m c) = rtp_emit c1 1 pk body dn
        \<and> length body \<le> body_limit c)"
proof (cases "eTransport c \<noteq> ENX_RTSP_TRANSPORT_UDP \<and> eTransport c \<noteq> ENX_RTSP_TRANSPORT_TCP")
  case True
  then show ?thesis by (simp add: rtspd_client_rtp_g711_main_def)
next
  case t: False
  have doing: "\<exists>c1 pk body dn. quiet 1 c c1 \<and> g711_doing m c' = rtp_emit c1 1 pk body dn
      \<and> length body \<le> body_limit c" if "quiet 1 c c'" for c'
    using g711_doing_emit [of m c'] that body_limit_cong [of c' c] by (auto simp: quiet_def)
  show ?thesis
  proof (cases "tx_ready (rtp_ss c 1)")
    case ENX_RTP_TXSTE_READY
    show ?thesis
    proof (cases "rtp_queue_get (rtp_queue_audio c)")
      case None
      with t ENX_RTP_TXSTE_READY show ?thesis
        by (simp add: rtspd_client_rtp_g711_main_def Let_def g711_idle_toggle)
    next
      case (Some r)
      obtain d q where r: "r = (d, q)" by (cases r) auto
      let ?s = "rtp_ss c 1"
      let ?c = "set_ss (c\<lparr>rtp_queue_audio := q\<rparr>) 1 (?s\<lparr>rtp_pk := (rtp_pk ?s)\<lparr>pk_base := rq_addr d,
        pk_size := rq_size d, pk_offset := 0\<rparr>, start_rtptime := start_rtptime ?s + rq_ts d,
        tx_ready := ENX_RTP_TXSTE_DOING\<rparr>)"
      have "quiet 1 c ?c" by (simp add: quiet_def)
      moreover have "fst (rtspd_client_rtp_g711_main m c) = g711_doing m ?c"
        using t ENX_RTP_TXSTE_READY Some r by (auto simp: rtspd_client_rtp_g711_main_def Let_def)
      ultimately show ?thesis using doing [of ?c] by simp
    qed
  next
    case ENX_RTP_TXSTE_DOING
    with t have "fst (rtspd_client_rtp_g711_main m c) = g711_doing m c"
      by (auto simp: rtspd_client_rtp_g711_main_def Let_def)
    with doing [of c] show ?thesis by simp
  next
    case ENX_RTP_TXSTE_END
    with t show ?thesis
      using g711_idle_toggle [of c] by (simp add: rtspd_client_rtp_g711_main_def Let_def g711_idle_def cur_def)
  qed
qed

section \<open>Sender reports\<close>

text \<open>
  The structures are declared without the reversal of the bit fields and filled without
  \<open>htons\<close> or \<open>htonl\<close>. \<open>time\<close> is the clock of the system, \<open>ntp_lsw\<close> the fraction of a second,
  which the code computes in floating point.
\<close>

definition RTCP_SR :: u8 where "RTCP_SR = 200"

definition rtspd_client_rtcp_make_sr :: "u32 \<Rightarrow> u32 \<Rightarrow> rtp_session \<Rightarrow> bytes" where
  "rtspd_client_rtcp_make_sr time ntp_lsw s =
     [2 OR push_bit 2 0 OR push_bit 3 0, RTCP_SR] @ le16 6 @
     le32 (ssrc s) @ le32 (time + 0x83AA7E80) @ le32 ntp_lsw @ le32 (start_rtptime s) @
     le32 (packet_cnt s) @ le32 (total_length s)"

definition rtspd_client_rtcp_send_sr :: "u32 \<Rightarrow> u32 \<Rightarrow> rtsp_client \<Rightarrow> nat \<Rightarrow> bytes option" where
  "rtspd_client_rtcp_send_sr time ntp_lsw c k =
     (if eTransport c \<noteq> ENX_RTSP_TRANSPORT_UDP \<and> eTransport c \<noteq> ENX_RTSP_TRANSPORT_TCP then None
      else Some ((if is_interleaved c
                  then [of_char (CHR ''$''), ucast (rtcp_port c k)] @ le16 28 else [])
                 @ rtspd_client_rtcp_make_sr time ntp_lsw (rtp_ss c k)))"

end
