(* ===== verification/RtpPlay.thy ===== *)
theory RtpPlay
  imports RtpH264 RtpH265 RtpJpeg RtpG711
begin

text \<open>
  The calls of the send loop of \<open>task/rtspd/rtspd.c\<close>, \<open>rtspd_client_rtp_main\<close>, for one client, and
  the distribution of frames to the clients. The calls meet the contract \<open>rtp_sender\<close>: whatever
  the tasks queue in between, the packets of a session are numbered without gaps and none is longer
  than the maximum segment, so that the loop never stops at its length check.
\<close>

section \<open>One round of the send loop\<close>

text \<open>
  \<open>JPEG_STREAM\<close> is 1 and the software encoder is off, so its stream type is an error here.
\<close>

definition rtspd_client_rtp_video_play :: "mem \<Rightarrow> rtsp_client \<Rightarrow> rtsp_client \<times> int" where
  "rtspd_client_rtp_video_play m c =
     (let s = rtp_ss c ENX_RTSP_STRTYPE_numVIDEO;
          c = set_ss c ENX_RTSP_STRTYPE_numVIDEO (s\<lparr>buf_len := (buf_len s)(cur s := 0)\<rparr>)
      in if play_query c AND ENX_RTSP_STRTYPE_VIDEO \<noteq> 0
         then (case isLive c of
             ENX_RTSP_STREAM_FILE_H264_TYPE \<Rightarrow> (c, 0)
           | ENX_RTSP_STREAM_FILE_H265_TYPE \<Rightarrow> (c, 0)
           | ENX_RTSP_STREAM_LIVE_H264_1 \<Rightarrow> rtspd_client_rtp_h264_main m c
           | ENX_RTSP_STREAM_LIVE_H264_2 \<Rightarrow> rtspd_client_rtp_h264_main m c
           | ENX_RTSP_STREAM_LIVE_H265_1 \<Rightarrow> rtspd_client_rtp_h265_main m c
           | ENX_RTSP_STREAM_LIVE_H265_2 \<Rightarrow> rtspd_client_rtp_h265_main m c
           | ENX_RTSP_STREAM_LIVE_JPEG \<Rightarrow> rtspd_client_rtp_jpeg_main m c
           | _ \<Rightarrow> (c, - 1))
         else (c, 0))"

definition rtspd_client_rtp_audio_play :: "mem \<Rightarrow> rtsp_client \<Rightarrow> rtsp_client \<times> int" where
  "rtspd_client_rtp_audio_play m c =
     (let s = rtp_ss c ENX_RTSP_STRTYPE_numAUDIO;
          c = set_ss c ENX_RTSP_STRTYPE_numAUDIO (s\<lparr>buf_len := (buf_len s)(cur s := 0)\<rparr>)
      in if play_query c AND ENX_RTSP_STRTYPE_AUDIO \<noteq> 0
         then (case isLive c of
             ENX_RTSP_STREAM_FILE_H264_TYPE \<Rightarrow> (c, 0)
           | ENX_RTSP_STREAM_LIVE_H264_1 \<Rightarrow> rtspd_client_rtp_g711_main m c
           | ENX_RTSP_STREAM_LIVE_H264_2 \<Rightarrow> rtspd_client_rtp_g711_main m c
           | ENX_RTSP_STREAM_LIVE_H265_1 \<Rightarrow> rtspd_client_rtp_g711_main m c
           | ENX_RTSP_STREAM_LIVE_H265_2 \<Rightarrow> rtspd_client_rtp_g711_main m c
           | ENX_RTSP_STREAM_LIVE_JPEG \<Rightarrow> rtspd_client_rtp_g711_main m c
           | _ \<Rightarrow> (c, - 1))
         else (c, 0))"

section \<open>Queueing frames\<close>

text \<open>What \<open>rtp_queue_stream_video_put\<close> and \<open>..._audio_put\<close> do to one client, and to all.\<close>

definition stream_video_put1 :: "rtsp_stream_type \<Rightarrow> rtp_queue_data \<Rightarrow> rtsp_client \<Rightarrow> rtsp_client" where
  "stream_video_put1 video_type d c =
     (if cl_valid c \<and> cl_state c = ENX_RTSP_STATE_PLAY \<and> play_query c AND ENX_RTSP_STRTYPE_VIDEO \<noteq> 0
      then (if isLive c = video_type
            then c\<lparr>rtp_queue_video := snd (rtp_queue_put (rtp_queue_video c) d)\<rparr> else c)
      else c)"

definition rtp_queue_stream_video_put ::
  "u32 \<Rightarrow> u32 \<Rightarrow> u32 \<Rightarrow> rtsp_stream_type \<Rightarrow> u32 \<Rightarrow> rtsp_client list \<Rightarrow> rtsp_client list" where
  "rtp_queue_stream_video_put addr sz flags video_type ts rclist =
     map (stream_video_put1 video_type \<lparr>rq_addr = addr, rq_size = sz, rq_flags = flags, rq_ts = ts\<rparr>) rclist"

definition stream_audio_put1 :: "rtp_queue_data \<Rightarrow> rtsp_client \<Rightarrow> rtsp_client" where
  "stream_audio_put1 d c =
     (if cl_valid c \<and> cl_state c = ENX_RTSP_STATE_PLAY \<and> play_query c AND ENX_RTSP_STRTYPE_AUDIO \<noteq> 0
      then c\<lparr>rtp_queue_audio := snd (rtp_queue_put (rtp_queue_audio c) d)\<rparr> else c)"

definition rtp_queue_stream_audio_put :: "u32 \<Rightarrow> u32 \<Rightarrow> u32 \<Rightarrow> rtsp_client list \<Rightarrow> rtsp_client list" where
  "rtp_queue_stream_audio_put addr sz ts rclist =
     map (stream_audio_put1 \<lparr>rq_addr = addr, rq_size = sz, rq_flags = 0, rq_ts = ts\<rparr>) rclist"

section \<open>The contract\<close>

text \<open>
  Between rounds the buffer that is not current is marked empty. The audio packetiser, which
  switches buffers without filling one, relies on it.
\<close>

definition ss_ok :: "nat \<Rightarrow> rtsp_client \<Rightarrow> bool" where
  "ss_ok k c \<longleftrightarrow> buf_idx (rtp_ss c k) < 2 \<and> buf_len (rtp_ss c k) (other (rtp_ss c k)) = 0"

lemma cur_other: "buf_idx s < 2 \<Longrightarrow> unat ((of_nat (other s) + 1) mod 2 :: u32) = cur s"
  using idx_cases [of "buf_idx s"] by (auto simp: cur_def other_def)

lemma cur_not_other: "buf_idx s < 2 \<Longrightarrow> cur s \<noteq> other s"
  using idx_cases [of "buf_idx s"] by (auto simp: cur_def other_def)

definition reset_len :: "nat \<Rightarrow> rtsp_client \<Rightarrow> rtsp_client" where
  "reset_len k c = set_ss c k ((rtp_ss c k)\<lparr>buf_len := (buf_len (rtp_ss c k))(cur (rtp_ss c k) := 0)\<rparr>)"

lemma reset_len_facts [simp]:
  "eTransport (reset_len k c) = eTransport c" "start_seq (rtp_ss (reset_len k c) k) = start_seq (rtp_ss c k)"
  "buf_idx (rtp_ss (reset_len k c) k) = buf_idx (rtp_ss c k)"
  "buf_len (rtp_ss (reset_len k c) k) = (buf_len (rtp_ss c k))(cur (rtp_ss c k) := 0)"
  "play_query (reset_len k c) = play_query c" "isLive (reset_len k c) = isLive c"
  by (simp_all add: reset_len_def)

text \<open>A round does nothing the receiver sees, or makes one packet from such a state.\<close>

definition round_ok :: "nat \<Rightarrow> rtsp_client \<Rightarrow> rtsp_client \<Rightarrow> bool" where
  "round_ok k c c' \<longleftrightarrow> ss_ok k c' \<and> eTransport c' = eTransport c
     \<and> (if buf_len (rtp_ss c' k) (cur (rtp_ss c' k)) = 0 then start_seq (rtp_ss c' k) = start_seq (rtp_ss c k)
        else start_seq (rtp_ss c' k) = start_seq (rtp_ss c k) + 1
          \<and> pkt_seq c (rtp_pkt (rtp_ss c' k)) = start_seq (rtp_ss c k) + 1
          \<and> length (rtp_pkt (rtp_ss c' k)) \<le> unat (rtp_mtu c))"

lemma emit_buf_len:
  "buf_len (rtp_ss (rtp_emit c k pk body dn) k) i
    = (if i = other (rtp_ss c k) then of_nat ((if is_interleaved c then 16 else 12) + length body)
       else buf_len (rtp_ss c k) i)"
  by (simp add: rtp_emit_def Let_def other_def length_rtp_bytes)

lemma emit_other:
  "buf_idx (rtp_ss c k) < 2 \<Longrightarrow> other (rtp_ss (rtp_emit c k pk body dn) k) = cur (rtp_ss c k)"
  using idx_cases [of "buf_idx (rtp_ss c k)"]
  by (auto simp: rtp_emit_def Let_def other_def cur_def)

lemma of_nat_not_0: "0 < n \<Longrightarrow> n < 2 ^ 32 \<Longrightarrow> (of_nat n :: u32) \<noteq> 0"
proof
  assume "0 < n" "n < 2 ^ 32" "(of_nat n :: u32) = 0"
  moreover have "unat (of_nat n :: u32) = n" using calculation(2) by (simp add: unat_of_nat)
  ultimately show False by simp
qed

lemma round_emit:
  assumes ok: "ss_ok k c" and q: "quiet k (reset_len k c) c1" and len: "length body \<le> body_limit c"
  shows "round_ok k c (rtp_emit c1 k pk body dn)"
proof -
  let ?c = "rtp_emit c1 k pk body dn"
  have t: "eTransport c1 = eTransport c" and i: "buf_idx (rtp_ss c1 k) = buf_idx (rtp_ss c k)"
    and s: "start_seq (rtp_ss c1 k) = start_seq (rtp_ss c k)"
    and l: "buf_len (rtp_ss c1 k) (cur (rtp_ss c k)) = 0"
    using q by (simp_all add: quiet_def)
  have i2: "buf_idx (rtp_ss c1 k) < 2" using ok i by (simp add: ss_ok_def)
  have cur1: "cur (rtp_ss c1 k) = cur (rtp_ss c k)" using i by (simp add: cur_def)
  have len1: "length body \<le> body_limit c1" using len body_limit_cong [OF t] by simp
  note f = rtp_emit_fits [OF len1, of k pk dn]
  have o: "buf_len (rtp_ss ?c k) (other (rtp_ss ?c k)) = 0"
    using cur_not_other [OF i2] l cur1 unfolding emit_other [OF i2] emit_buf_len by simp
  have "body_limit c1 \<le> 1472" using rtp_sizes(4) [of c1] by (simp add: body_limit_def)
  then have n: "of_nat ((if is_interleaved c1 then 16 else 12) + length body) \<noteq> (0 :: u32)"
    using len1 by (intro of_nat_not_0) auto
  have "cur (rtp_ss ?c k) = other (rtp_ss c1 k)" by (rule rtp_emit_session)
  then have "buf_len (rtp_ss ?c k) (cur (rtp_ss ?c k)) \<noteq> 0"
    unfolding emit_buf_len using n by simp
  then show ?thesis
    using f o s pkt_seq_transport [OF t] reassemble_cong(3) [OF t]
    by (simp add: round_ok_def ss_ok_def rtp_emit_session t)
qed

lemma round_quiet:
  assumes ok: "ss_ok k c" and q: "quiet k (reset_len k c) c'"
  shows "round_ok k c c'"
  using assms by (auto simp: round_ok_def ss_ok_def quiet_def cur_def other_def)

lemma round_outcome:
  assumes ok: "ss_ok k c" and q: "outcome k (reset_len k c) c'"
  shows "round_ok k c c'"
proof -
  have "body_limit (reset_len k c) = body_limit c" by (rule body_limit_cong) simp
  with q show ?thesis
    using round_quiet [OF ok] round_emit [OF ok] by (auto simp: outcome_def)
qed

lemma video_round:
  assumes "ss_ok 0 c"
  shows "round_ok 0 c (fst (rtspd_client_rtp_video_play m c))"
proof -
  have "outcome 0 (reset_len 0 c) (fst (rtspd_client_rtp_video_play m c))"
    using h264_outcome [of "reset_len 0 c" m] h265_outcome [of "reset_len 0 c" m]
      jpeg_outcome [of "reset_len 0 c" m] outcome_quiet [OF quiet_refl, of 0 "reset_len 0 c"]
    by (simp add: rtspd_client_rtp_video_play_def Let_def reset_len_def [symmetric]
        split: rtsp_stream_type.split)
  with assms show ?thesis by (rule round_outcome)
qed

lemma g711_round:
  assumes ok: "ss_ok 1 c"
  shows "round_ok 1 c (fst (rtspd_client_rtp_g711_main m (reset_len 1 c)))"
proof -
  let ?c = "reset_len 1 c" and ?c' = "fst (rtspd_client_rtp_g711_main m (reset_len 1 c))"
  have b: "body_limit ?c = body_limit c" by (rule body_limit_cong) simp
  consider "?c' = ?c" | "g711_idle ?c ?c'"
    | c1 pk body dn where "quiet 1 ?c c1" "?c' = rtp_emit c1 1 pk body dn" "length body \<le> body_limit ?c"
    using g711_outcome [of ?c m] by blast
  then show ?thesis
  proof cases
    case 1
    then show ?thesis using round_quiet [OF ok quiet_refl] by simp
  next
    case 2
    have i: "buf_idx (rtp_ss c 1) < 2" using ok by (simp add: ss_ok_def)
    have "other (rtp_ss ?c 1) = other (rtp_ss c 1)" by (simp add: other_def)
    moreover have "other (rtp_ss ?c' 1) = cur (rtp_ss c 1)"
      using 2 i idx_cases [OF i] idx_cases [of "buf_idx (rtp_ss ?c' 1)"]
      by (auto simp: g711_idle_def cur_def other_def)
    ultimately show ?thesis
      using 2 ok by (auto simp: g711_idle_def round_ok_def ss_ok_def)
  next
    case 3
    then show ?thesis using round_emit [OF ok] b by simp
  qed
qed

lemma audio_round:
  assumes ok: "ss_ok 1 c"
  shows "round_ok 1 c (fst (rtspd_client_rtp_audio_play m c))"
  using g711_round [OF ok, of m] round_quiet [OF ok quiet_refl]
  by (simp add: rtspd_client_rtp_audio_play_def Let_def reset_len_def [symmetric]
      split: rtsp_stream_type.split)

lemma put1_facts:
  "eTransport (stream_video_put1 vt d c) = eTransport c" "rtp_ss (stream_video_put1 vt d c) = rtp_ss c"
  "eTransport (stream_audio_put1 d c) = eTransport c" "rtp_ss (stream_audio_put1 d c) = rtp_ss c"
  by (simp_all add: stream_video_put1_def stream_audio_put1_def)

lemma round_okD:
  assumes "round_ok k c c'"
  shows "ss_ok k c' \<and> eTransport c' = eTransport c"
    and "buf_len (rtp_ss c' k) (cur (rtp_ss c' k)) = 0 \<Longrightarrow> start_seq (rtp_ss c' k) = start_seq (rtp_ss c k)"
    and "buf_len (rtp_ss c' k) (cur (rtp_ss c' k)) \<noteq> 0 \<Longrightarrow>
      start_seq (rtp_ss c' k) = start_seq (rtp_ss c k) + 1
      \<and> pkt_seq c (rtp_pkt (rtp_ss c' k)) = start_seq (rtp_ss c k) + 1
      \<and> length (rtp_pkt (rtp_ss c' k)) \<le> unat (rtp_mtu c)"
  using assms by (simp_all add: round_ok_def)

lemma put1_ok:
  "ss_ok 0 c \<Longrightarrow> ss_ok 0 (stream_video_put1 vt d c) \<and> eTransport (stream_video_put1 vt d c) = eTransport c
    \<and> start_seq (rtp_ss (stream_video_put1 vt d c) 0) = start_seq (rtp_ss c 0)"
  "ss_ok 1 c \<Longrightarrow> ss_ok 1 (stream_audio_put1 d c) \<and> eTransport (stream_audio_put1 d c) = eTransport c
    \<and> start_seq (rtp_ss (stream_audio_put1 d c) 1) = start_seq (rtp_ss c 1)"
  by (simp_all add: ss_ok_def put1_facts)

lemma unat_rtp_mtu_cong: "eTransport c = eTransport c' \<Longrightarrow> unat (rtp_mtu c) = unat (rtp_mtu c')"
  by (simp add: rtp_mtu_def)

lemmas video_laws = round_okD [OF video_round] put1_ok(1) unat_rtp_mtu_cong
lemmas audio_laws = round_okD [OF audio_round] put1_ok(2) unat_rtp_mtu_cong

interpretation video: rtp_sender "ss_ok 0" "\<lambda>m c. fst (rtspd_client_rtp_video_play m c)"
    "stream_video_put1 vt" 0 "\<lambda>c. unat (rtp_mtu c)" for vt
  by unfold_locales (fact video_laws)+

interpretation audio: rtp_sender "ss_ok 1" "\<lambda>m c. fst (rtspd_client_rtp_audio_play m c)"
    stream_audio_put1 1 "\<lambda>c. unat (rtp_mtu c)"
  by unfold_locales (fact audio_laws)+

end
