(* ===== verification/RtpProps.thy ===== *)
theory RtpProps
  imports RtpPlay
begin

text \<open>
  The properties of the RTP sender: numbering and size of the packets of the two sessions of a
  client, delivery of H.264, H.265 and JPEG frames, and the distribution of frames to clients.
\<close>

section \<open>A concrete client\<close>

text \<open>A TCP client in play with one frame of 3000 bytes at address 4096 in its video queue.\<close>

definition ex_session :: rtp_session where
  "ex_session = \<lparr>tx_ready = ENX_RTP_TXSTE_READY,
     rtp_pk = \<lparr>pk_base = 0, pk_size = 0, pk_offset = 0, pk_width = 0, pk_height = 0, pk_data_offset = 0,
       pk_nalfirst = 0, pk_naltype = 0, pk_nalidc = 0, pk_nalnum = 0, pk_nalunithdr = 0\<rparr>,
     payload_type = 96, ssrc = 7, start_rtptime = 0, start_seq = 65534, sr_send_time = 0,
     packet_cnt = 0, total_length = 0, buffer = (\<lambda>_ _. 0), buf_len = (\<lambda>_. 0), buf_idx = 0\<rparr>"

definition ex_frame :: rtp_queue_data where
  "ex_frame = \<lparr>rq_addr = 4096, rq_size = 3000, rq_flags = 1, rq_ts = 3000\<rparr>"

definition ex_queue :: "rtp_queue_data list \<Rightarrow> rtp_queue" where
  "ex_queue ds = \<lparr>rq_head = 0, rq_tail = of_nat (length ds), rq_tot_num = 4,
     rq_data = ds @ replicate 3 rtp_queue_data_zero\<rparr>"

definition ex_client :: "rtsp_stream_type \<Rightarrow> rtsp_client" where
  "ex_client live = \<lparr>cl_valid = True, cl_state = ENX_RTSP_STATE_PLAY, eTransport = ENX_RTSP_TRANSPORT_TCP,
     rtp_port = (\<lambda>k. if k = 0 then 0 else 2), rtcp_port = (\<lambda>k. if k = 0 then 1 else 3),
     rtp_queue_video = ex_queue [ex_frame], rtp_queue_audio = ex_queue [ex_frame],
     isLive = live, play_query = 3, rtp_ss = (\<lambda>_. ex_session)\<rparr>"

text \<open>Frame memory: a start code, the bytes \<open>h\<close>, and a filler other than zero.\<close>

definition ex_mem :: "u8 list \<Rightarrow> mem" where
  "ex_mem h a = (if a < 4098 then 0 else if a = 4098 then 1
     else if a < 4099 + length h then h ! (a - 4099) else 7)"

lemma ex_client_facts:
  "eTransport (ex_client v) = ENX_RTSP_TRANSPORT_TCP" "tx_ready (rtp_ss (ex_client v) 0) = ENX_RTP_TXSTE_READY"
  "rtp_queue_get (rtp_queue_video (ex_client v)) = Some (ex_frame, (ex_queue [ex_frame])\<lparr>rq_head := 1\<rparr>)"
  "ss_ok 0 (ex_client v)" "ss_ok 1 (ex_client v)"
  by (simp_all add: ex_client_def ex_session_def ex_queue_def ex_frame_def rtp_queue_get_def
      cQueue_isempty_def num_loop_def ss_ok_def word_le_nat_alt)

lemma ex_frame_facts: "unat (rq_addr ex_frame) = 4096" "unat (rq_size ex_frame) = 3000" "rq_flags ex_frame = 1"
  by (simp_all add: ex_frame_def)

lemma ex_start: "nal_start (ex_mem h) 4096 0 n = (if n = 0 then 0 else 3)"
  by (subst nal_start.simps) (simp add: ex_mem_def)

lemma ex_no_start: "list_all (\<lambda>x. x \<noteq> 0) h \<Longrightarrow> no_start (ex_mem h) 4099 n"
  by (auto simp: no_start_def ex_mem_def list_all_length)

section \<open>Properties\<close>

text \<open>C14: whatever frames are queued between the rounds, the video packets a client is sent are
  numbered consecutively from its sequence number, modulo 2^16, and none is longer than the maximum
  segment, 1472 bytes over UDP and 1460 otherwise, so the length check before the TCP send, which
  hangs the task, never fires.\<close>

theorem rtp_video_packets_numbered:
  assumes "ss_ok 0 c"
  shows "let ps = rtp_run (\<lambda>m c. fst (rtspd_client_rtp_video_play m c)) (stream_video_put1 vt) 0 es c in
    list_all (\<lambda>p. length p \<le> (if eTransport c = ENX_RTSP_TRANSPORT_UDP then 1472 else 1460)) ps
    \<and> (\<forall>i < length ps. pkt_seq c (ps ! i) = start_seq (rtp_ss c 0) + of_nat (Suc i))"
proof -
  have m: "unat (rtp_mtu c) = (if eTransport c = ENX_RTSP_TRANSPORT_UDP then 1472 else 1460)"
    by (simp add: rtp_mtu_def TCP_MSS_def)
  show ?thesis
    using video.run_numbered [OF assms, of vt es, unfolded m] unfolding Let_def .
qed

theorem rtp_video_packets_numbered_witness:
  "list_all (\<lambda>p. length p \<le> 1460) (rtp_run (\<lambda>m c. fst (rtspd_client_rtp_video_play m c))
     (stream_video_put1 ENX_RTSP_STREAM_LIVE_H264_1) 0
     [Play (ex_mem [0x65]), Feed ex_frame, Play (ex_mem [0x65])] (ex_client ENX_RTSP_STREAM_LIVE_H264_1))"
  using rtp_video_packets_numbered [OF ex_client_facts(4), of ENX_RTSP_STREAM_LIVE_H264_1
    "[Play (ex_mem [0x65]), Feed ex_frame, Play (ex_mem [0x65])]" ENX_RTSP_STREAM_LIVE_H264_1]
  by (simp add: ex_client_facts(1) Let_def)

text \<open>The same holds for the audio session, whose packetiser changes buffers even when it
  makes no packet.\<close>

theorem rtp_audio_packets_numbered:
  assumes "ss_ok 1 c"
  shows "let ps = rtp_run (\<lambda>m c. fst (rtspd_client_rtp_audio_play m c)) stream_audio_put1 1 es c in
    list_all (\<lambda>p. length p \<le> (if eTransport c = ENX_RTSP_TRANSPORT_UDP then 1472 else 1460)) ps
    \<and> (\<forall>i < length ps. pkt_seq c (ps ! i) = start_seq (rtp_ss c 1) + of_nat (Suc i))"
proof -
  have m: "unat (rtp_mtu c) = (if eTransport c = ENX_RTSP_TRANSPORT_UDP then 1472 else 1460)"
    by (simp add: rtp_mtu_def TCP_MSS_def)
  show ?thesis
    using audio.run_numbered [OF assms, of es, unfolded m] unfolding Let_def .
qed

theorem rtp_audio_packets_numbered_witness:
  "list_all (\<lambda>p. length p \<le> 1460) (rtp_run (\<lambda>m c. fst (rtspd_client_rtp_audio_play m c)) stream_audio_put1 1
     [Play (ex_mem []), Feed ex_frame, Play (ex_mem [])] (ex_client ENX_RTSP_STREAM_LIVE_H264_1))"
  using rtp_audio_packets_numbered [OF ex_client_facts(5), where es = "[Play (ex_mem []), Feed ex_frame, Play (ex_mem [])]"]
  by (simp add: ex_client_facts(1) Let_def)

text \<open>C15: an H.264 slice taken from the queue is sent in at most as many calls as it has bytes,
  after which the packetiser is ready again; the packets fit, exactly the last one carries the
  marker bit, and a receiver that removes the fragment headers and rebuilds the NAL header of the
  first fragment has the NAL unit, byte for byte, without its start code.\<close>

theorem h264_frame_delivered:
  assumes "eTransport c = ENX_RTSP_TRANSPORT_UDP \<or> eTransport c = ENX_RTSP_TRANSPORT_TCP"
    and "tx_ready (rtp_ss c 0) = ENX_RTP_TXSTE_READY"
    and "rtp_queue_get (rtp_queue_video c) = Some (d, q)"
    and "rq_flags d = 1 \<or> pk_nalfirst (rtp_pk (rtp_ss c 0)) \<noteq> 0"
    and "unat (rq_addr d) + unat (rq_size d) < 2 ^ 32"
    and "h264_slice m (unat (rq_addr d)) (unat (rq_size d)) z"
  shows "delivered avc_unit c (rtp_frame rtspd_client_rtp_h264_main (unat (rq_size d)) m c)
      (load m (unat (rq_addr d) + z) (unat (rq_size d) - z))"
  using assms by (rule h264.frame_sent)

theorem h264_frame_delivered_witness:
  "delivered avc_unit (ex_client ENX_RTSP_STREAM_LIVE_H264_1)
     (rtp_frame rtspd_client_rtp_h264_main 3000 (ex_mem [0x65]) (ex_client ENX_RTSP_STREAM_LIVE_H264_1))
     (load (ex_mem [0x65]) 4099 2997)"
proof -
  have "h264_slice (ex_mem [0x65]) (unat (rq_addr ex_frame)) (unat (rq_size ex_frame)) 3"
    by (simp add: h264_slice_def ex_frame_facts ex_start ex_no_start) (simp add: ex_mem_def)
  from h264_frame_delivered [OF _ ex_client_facts(2,3) _ _ this] show ?thesis
    by (simp add: ex_client_facts(1) ex_frame_facts)
qed

text \<open>C16: the same for an H.265 slice, with its two-byte NAL header.\<close>

theorem h265_frame_delivered:
  assumes "eTransport c = ENX_RTSP_TRANSPORT_UDP \<or> eTransport c = ENX_RTSP_TRANSPORT_TCP"
    and "tx_ready (rtp_ss c 0) = ENX_RTP_TXSTE_READY"
    and "rtp_queue_get (rtp_queue_video c) = Some (d, q)"
    and "rq_flags d = 1 \<or> pk_nalfirst (rtp_pk (rtp_ss c 0)) \<noteq> 0"
    and "unat (rq_addr d) + unat (rq_size d) < 2 ^ 32"
    and "h265_slice m (unat (rq_addr d)) (unat (rq_size d)) z"
  shows "delivered hevc_unit c (rtp_frame rtspd_client_rtp_h265_main (unat (rq_size d)) m c)
      (load m (unat (rq_addr d) + z) (unat (rq_size d) - z))"
  using assms by (rule h265.frame_sent)

theorem h265_frame_delivered_witness:
  "delivered hevc_unit (ex_client ENX_RTSP_STREAM_LIVE_H265_1)
     (rtp_frame rtspd_client_rtp_h265_main 3000 (ex_mem [0x26, 1]) (ex_client ENX_RTSP_STREAM_LIVE_H265_1))
     (load (ex_mem [0x26, 1]) 4099 2997)"
proof -
  have "h265_slice (ex_mem [0x26, 1]) (unat (rq_addr ex_frame)) (unat (rq_size ex_frame)) 3"
    by (simp add: h265_slice_def ex_frame_facts ex_start ex_no_start) (simp add: ex_mem_def)
  from h265_frame_delivered [OF _ ex_client_facts(2,3) _ _ this] show ?thesis
    by (simp add: ex_client_facts(1) ex_frame_facts)
qed

text \<open>C17: a JPEG frame taken from the queue is sent in at most as many calls as it has bytes;
  the packets fit, exactly the last carries the marker bit, and a receiver that takes the payloads
  behind the headers, and behind the tables where the fragment offset (as RFC 2435 places it) is 0,
  puts together the scan data behind the 613 header bytes.\<close>

theorem jpeg_frame_delivered:
  assumes "eTransport c = ENX_RTSP_TRANSPORT_UDP \<or> eTransport c = ENX_RTSP_TRANSPORT_TCP"
    and "tx_ready (rtp_ss c 0) = ENX_RTP_TXSTE_READY"
    and "rtp_queue_get (rtp_queue_video c) = Some (d, q)"
    and "jpeg_frame m (unat (rq_addr d)) (unat (rq_size d))"
  shows "delivered jpeg_unit c (rtp_frame rtspd_client_rtp_jpeg_main (unat (rq_size d)) m c)
      (load m (unat (rq_addr d) + 613) (unat (rq_size d) - 613))"
  using assms by (rule jpeg_frame_sent)

text \<open>A frame with the start-of-frame marker in its place.\<close>

definition ex_jpeg :: mem where
  "ex_jpeg a = (if a = 4096 + 0x23e then 0xFF else if a = 4096 + 0x23f then 0xC0 else 5)"

lemma ex_jpeg_frame: "jpeg_frame ex_jpeg (unat (rq_addr ex_frame)) (unat (rq_size ex_frame))"
  by (simp add: jpeg_frame_def ex_frame_facts ex_jpeg_def)

theorem jpeg_frame_delivered_witness:
  "delivered jpeg_unit (ex_client ENX_RTSP_STREAM_LIVE_JPEG)
     (rtp_frame rtspd_client_rtp_jpeg_main 3000 ex_jpeg (ex_client ENX_RTSP_STREAM_LIVE_JPEG))
     (load ex_jpeg (4096 + 613) (3000 - 613))"
  using jpeg_frame_delivered [OF _ ex_client_facts(2,3) ex_jpeg_frame]
  by (simp add: ex_client_facts(1) ex_frame_facts)

text \<open>the first packet of a JPEG frame carries the picture size read from the start-of-frame
  marker, in units of eight, the type and quality fields, and the two quantisation tables of the
  frame's header.\<close>

theorem jpeg_first_packet_tables:
  assumes "eTransport c = ENX_RTSP_TRANSPORT_UDP \<or> eTransport c = ENX_RTSP_TRANSPORT_TCP"
    and "tx_ready (rtp_ss c 0) = ENX_RTP_TXSTE_READY"
    and "rtp_queue_get (rtp_queue_video c) = Some (d, q)"
    and "jpeg_frame m (unat (rq_addr d)) (unat (rq_size d))"
  shows "let B = unat (rq_addr d);
             b = pkt_body c (rtp_pkt (rtp_ss (fst (rtspd_client_rtp_jpeg_main m c)) 0))
    in take 8 b = [0, 0, 0, 0, 0, 128,
         ucast (drop_bit 3 (push_bit 8 (ucast (m (B + 0x245))) OR ucast (m (B + 0x246)) :: u32)),
         ucast (drop_bit 3 (push_bit 8 (ucast (m (B + 0x243))) OR ucast (m (B + 0x244)) :: u32))]
     \<and> take 132 (drop 8 b) = [0, 0, 0, 128] @ load m (B + 0x19) 64 @ load m (B + 0x5a) 64"
proof -
  let ?c = "snd (jpeg_ready m c)" and ?B = "unat (rq_addr d)"
  note h = jpeg_ready_sending [OF assms(1,3,4)]
  have S: "613 < unat (rq_size d)" "unat (rq_size d) < 2 ^ 24" using assms(4) by (simp_all add: jpeg_frame_def)
  obtain n pk where e: "jpeg_doing m ?c = rtp_emit ?c 0 pk
      (jpgHeader_bytes 0 (pk_width pk) (pk_height pk) @ jpeg_tables m ?B @ load m (?B + 613) n)
      (613 + n = unat (rq_size d))" and n: "n \<le> jpeg_room ?c 140"
    and pk: "pk_width pk = pk_width (rtp_pk (rtp_ss ?c 0))" "pk_height pk = pk_height (rtp_pk (rtp_ss ?c 0))"
    using jpeg_first [OF h(2) S h(4), of m] min.cobounded2 by blast
  have main: "fst (rtspd_client_rtp_jpeg_main m c) = jpeg_doing m ?c"
    using assms(1,2) h(1) by (auto simp: rtspd_client_rtp_jpeg_main_def Let_def split_beta)
  have t: "length (jpeg_tables m ?B) = 132" by (simp add: jpeg_tables_def)
  have "length (jpgHeader_bytes 0 (pk_width pk) (pk_height pk) @ jpeg_tables m ?B @ load m (?B + 613) n)
      \<le> body_limit ?c"
    using jpeg_room_fits [OF _ n] t by simp
  from rtp_emit_fits(1) [OF this] have b:
    "pkt_body c (rtp_pkt (rtp_ss (fst (rtspd_client_rtp_jpeg_main m c)) 0))
      = jpgHeader_bytes 0 (pk_width pk) (pk_height pk) @ jpeg_tables m ?B @ load m (?B + 613) n"
    unfolding main e by (simp add: pkt_body_def is_interleaved_def h(3))
  have "unat (rq_addr d + JPG_numOffset_SOFO) = ?B + 0x23e"
    using assms(4) by (simp add: JPG_numOffset_SOFO_def unat_word_ariths jpeg_frame_def)
  moreover have "m (575 + ?B) = 0xC0" "m (574 + ?B) = 0xFF"
    using assms(4) by (simp_all add: jpeg_frame_def add.commute)
  ultimately have "pk_width pk = push_bit 8 (ucast (m (?B + 0x245))) OR ucast (m (?B + 0x246))"
    "pk_height pk = push_bit 8 (ucast (m (?B + 0x243))) OR ucast (m (?B + 0x244))"
    unfolding pk by (simp_all add: jpeg_ready_def assms(3) Let_def add.commute)
  then show ?thesis
    unfolding b by (simp add: Let_def t jpgHeader_bytes_def jpeg_tables_def jpgQTHeader_bytes_def be16_def)
qed

theorem jpeg_first_packet_tables_witness:
  "take 132 (drop 8 (pkt_body (ex_client ENX_RTSP_STREAM_LIVE_JPEG) (rtp_pkt (rtp_ss (fst
      (rtspd_client_rtp_jpeg_main ex_jpeg (ex_client ENX_RTSP_STREAM_LIVE_JPEG))) 0))))
    = [0, 0, 0, 128] @ load ex_jpeg (4096 + 0x19) 64 @ load ex_jpeg (4096 + 0x5a) 64"
  using jpeg_first_packet_tables [OF _ ex_client_facts(2,3) ex_jpeg_frame]
  by (simp add: ex_client_facts(1) ex_frame_facts Let_def)

text \<open>The fragment offset of every packet but the first is 128 more than the place of its scan data
  in the frame (\<open>off - 613\<close>): the code counts the two tables of the first packet, which RFC 2435
  does not.\<close>

theorem jpeg_offset_counts_tables:
  assumes "jpeg_state m c B S off" and "off < S"
  shows "unat (rfc2435_offset (pkt_body c (rtp_pkt (rtp_ss (fst (rtspd_client_rtp_jpeg_main m c)) 0))))
    = (off - 613) + 128"
proof -
  have s: "sending c B S off" and o: "613 \<le> off" "unat (pk_data_offset (rtp_pk (rtp_ss c 0))) = off - 485"
    and S: "S < 2 ^ 24"
    using assms(1) by (auto simp: jpeg_state_def)
  have "unat (pk_data_offset (rtp_pk (rtp_ss c 0))) < 2 ^ 24"
    using o S assms(2) by simp
  note d = small_offset [OF this]
  show ?thesis
    using jpeg_packet_head [OF s, of m] o by (auto simp: jpg_offset_bytes d)
qed

theorem jpeg_offset_counts_tables_witness:
  "unat (rfc2435_offset (pkt_body (ex_client ENX_RTSP_STREAM_LIVE_JPEG)
      (rtp_pkt (rtp_ss (fst (rtspd_client_rtp_jpeg_main ex_jpeg
        (set_ss (ex_client ENX_RTSP_STREAM_LIVE_JPEG) 0 (ex_session\<lparr>tx_ready := ENX_RTP_TXSTE_DOING,
          rtp_pk := (rtp_pk ex_session)\<lparr>pk_base := 4096, pk_size := 3000, pk_offset := 1917,
            pk_data_offset := 1432\<rparr>\<rparr>)))) 0)))) = 1304 + 128"
proof -
  let ?c = "set_ss (ex_client ENX_RTSP_STREAM_LIVE_JPEG) 0 (ex_session\<lparr>tx_ready := ENX_RTP_TXSTE_DOING,
    rtp_pk := (rtp_pk ex_session)\<lparr>pk_base := 4096, pk_size := 3000, pk_offset := 1917,
      pk_data_offset := 1432\<rparr>\<rparr>)"
  have "jpeg_state ex_jpeg ?c 4096 3000 1917"
    by (simp add: jpeg_state_def sending_def ex_client_facts(1))
  moreover have "pkt_body (ex_client ENX_RTSP_STREAM_LIVE_JPEG) = pkt_body ?c"
    by (rule ext) (simp add: pkt_body_def)
  ultimately show ?thesis
    using jpeg_offset_counts_tables [of ex_jpeg ?c 4096 3000 1917] by simp
qed

text \<open>a frame of a stream reaches the video queue of exactly the valid clients in play that
  asked for video of this stream; nothing else of any client changes.\<close>

theorem stream_video_put_selects:
  "rtp_queue_stream_video_put addr sz flags vt ts rclist =
   map (\<lambda>c. if cl_valid c \<and> cl_state c = ENX_RTSP_STATE_PLAY \<and> bit (play_query c) 0 \<and> isLive c = vt
     then c\<lparr>rtp_queue_video := snd (rtp_queue_put (rtp_queue_video c)
       (\<lparr>rq_addr = addr, rq_size = sz, rq_flags = flags, rq_ts = ts\<rparr>))\<rparr> else c) rclist"
proof -
  have "(q AND ENX_RTSP_STRTYPE_VIDEO \<noteq> 0) = bit q 0" for q
    by (simp add: ENX_RTSP_STRTYPE_VIDEO_def and_one_eq bit_0 odd_iff_mod_2_eq_one)
  then show ?thesis
    by (simp add: rtp_queue_stream_video_put_def stream_video_put1_def)
qed

end
