(* ===== verification/EnxMath.thy ===== *)
theory EnxMath
  imports Prelude
begin

text \<open>
  \<open>floorSqrt\<close> of \<open>dev/minilib/enx_math.c\<close>, a binary search on 32-bit words. The loop is a partial
  function: that it returns is proved. Below 262142 it returns the integer square root; from there
  on the square of the first middle value wraps around.
\<close>

partial_function (option) floorSqrt_loop :: "u32 \<Rightarrow> u32 \<Rightarrow> u32 \<Rightarrow> u32 \<Rightarrow> u32 option" where
  [code]: "floorSqrt_loop x start e ans =
     (if start \<le> e
      then (let mid = (start + e) div 2
            in if mid * mid = x then Some mid
               else if mid * mid < x then floorSqrt_loop x (mid + 1) e mid
               else floorSqrt_loop x start (mid - 1) ans)
      else Some ans)"

definition floorSqrt :: "u32 \<Rightarrow> u32 option" where
  "floorSqrt x = (if x = 0 \<or> x = 1 then Some x else floorSqrt_loop x 1 (x div 2) 0)"

text \<open>The state of the loop in naturals: everything below \<open>start\<close> is too small, above \<open>e\<close> too large.\<close>

definition sqrt_inv :: "nat \<Rightarrow> nat \<Rightarrow> nat \<Rightarrow> nat \<Rightarrow> bool" where
  "sqrt_inv x s e a \<longleftrightarrow> 1 \<le> s \<and> s = a + 1 \<and> a * a < x \<and> x < (e + 1) * (e + 1) \<and> s + e < 131072 \<and> x < 262142"

lemma sqrt_inv_step:
  assumes i: "sqrt_inv x s e a" and le: "s \<le> e"
  defines "m \<equiv> (s + e) div 2"
  shows "m < 65536" and "1 \<le> m" and "m \<le> e" and "s \<le> m" and "m * m < 4294967296"
    and "m * m < x \<Longrightarrow> sqrt_inv x (m + 1) e m" and "x < m * m \<Longrightarrow> sqrt_inv x s (m - 1) a"
proof -
  show m: "m < 65536" "1 \<le> m" "m \<le> e" "s \<le> m" using i le by (auto simp: sqrt_inv_def m_def)
  have "m * m \<le> 65535 * 65535" using m(1) by (intro mult_mono) auto
  then show "m * m < 4294967296" by simp
  {
    assume lt: "m * m < x"
    have "m < 512"
    proof (rule ccontr)
      assume "\<not> m < 512"
      then have "512 * 512 \<le> m * m" by (intro mult_mono) auto
      with lt i show False by (simp add: sqrt_inv_def)
    qed
    then have "e < 1024" using le unfolding m_def by simp
    with \<open>m < 512\<close> lt i show "sqrt_inv x (m + 1) e m" by (auto simp: sqrt_inv_def)
  next
    assume "x < m * m"
    moreover have "m - 1 + 1 = m" using m(2) by simp
    moreover have "s + (m - 1) < 131072" using m(1,3) i by (auto simp: sqrt_inv_def)
    ultimately show "sqrt_inv x s (m - 1) a" using i by (simp add: sqrt_inv_def)
  }
qed

lemma floorSqrt_loop_correct:
  "sqrt_inv (unat x) (unat s) (unat e) (unat a) \<Longrightarrow>
   \<exists>r. floorSqrt_loop x s e a = Some r \<and> unat r * unat r \<le> unat x \<and> unat x < (unat r + 1) * (unat r + 1)"
proof (induction "unat e + 1 - unat s" arbitrary: s e a rule: less_induct)
  case less
  note i = less.prems
  show ?case
  proof (cases "s \<le> e")
    case False
    then have "unat e < unat s" by (simp add: word_le_nat_alt)
    then have "unat e \<le> unat a" using i by (simp add: sqrt_inv_def)
    then have "(unat e + 1) * (unat e + 1) \<le> (unat a + 1) * (unat a + 1)" by (intro mult_mono) auto
    with i have "unat x < (unat a + 1) * (unat a + 1)" unfolding sqrt_inv_def by linarith
    with False i show ?thesis
      by (subst floorSqrt_loop.simps) (simp add: sqrt_inv_def)
  next
    case True
    then have le: "unat s \<le> unat e" by (simp add: word_le_nat_alt)
    define m where "m = (s + e) div 2"
    let ?m = "(unat s + unat e) div 2"
    note st = sqrt_inv_step [OF i le]
    have "unat (s + e) = unat s + unat e"
      using i by (simp add: sqrt_inv_def unat_word_ariths)
    then have um: "unat m = ?m" by (simp add: m_def unat_div)
    have sq: "unat (m * m) = ?m * ?m" using st(5) um by (simp add: unat_word_ariths)
    have loop: "floorSqrt_loop x s e a = (if m * m = x then Some m
        else if m * m < x then floorSqrt_loop x (m + 1) e m else floorSqrt_loop x s (m - 1) a)"
      using True by (subst floorSqrt_loop.simps) (simp add: m_def Let_def)
    consider "?m * ?m = unat x" | "?m * ?m < unat x" | "unat x < ?m * ?m" by linarith
    then show ?thesis
    proof cases
      case 1
      then have "m * m = x" using sq by (simp add: word_unat_eq_iff)
      then show ?thesis using 1 um loop by (intro exI [of _ m]) simp
    next
      case 2
      have m1: "unat (m + 1) = ?m + 1" using um st(1) by (simp add: unat_word_ariths)
      have "m * m < x" "m * m \<noteq> x" using 2 sq by (auto simp: word_less_nat_alt)
      then have l: "floorSqrt_loop x s e a = floorSqrt_loop x (m + 1) e m" using loop by simp
      show ?thesis
        unfolding l by (rule less.hyps) (use m1 um st(3,4) st(6) [OF 2] le in \<open>simp_all\<close>)
    next
      case 3
      have "m \<noteq> 0" using um st(2) by auto
      then have m1: "unat (m - 1) = ?m - 1" using um by (simp add: unat_minus_one)
      have "\<not> m * m < x" "m * m \<noteq> x" using 3 sq by (auto simp: word_less_nat_alt)
      then have l: "floorSqrt_loop x s e a = floorSqrt_loop x s (m - 1) a" using loop by simp
      show ?thesis
        unfolding l by (rule less.hyps) (use m1 st(2,3,4) st(7) [OF 3] le in \<open>simp_all\<close>)
    qed
  qed
qed

text \<open>Below 262142 the binary search ends and returns the integer square root.\<close>

theorem floorSqrt_correct:
  assumes "x < 262142"
  shows "\<exists>r. floorSqrt x = Some r \<and> unat r * unat r \<le> unat x \<and> unat x < (unat r + 1) * (unat r + 1)"
proof (cases "x = 0 \<or> x = 1")
  case True
  then show ?thesis by (auto simp: floorSqrt_def)
next
  case False
  have x: "2 \<le> unat x" "unat x < 262142"
    using False assms by (auto simp: word_less_nat_alt word_unat_eq_iff)
  have "unat x < (unat x div 2 + 1) * (unat x div 2 + 1)"
  proof -
    have "unat x < 2 * (unat x div 2 + 1)" by simp
    also have "\<dots> \<le> (unat x div 2 + 1) * (unat x div 2 + 1)" using x(1) by (intro mult_right_mono) auto
    finally show ?thesis .
  qed
  then have "sqrt_inv (unat x) (unat (1 :: u32)) (unat (x div 2)) (unat (0 :: u32))"
    using x by (simp add: sqrt_inv_def unat_div)
  from floorSqrt_loop_correct [OF this] show ?thesis using False by (simp add: floorSqrt_def)
qed

theorem floorSqrt_correct_witness:
  "\<exists>r. floorSqrt 250000 = Some r \<and> unat r * unat r \<le> 250000 \<and> 250000 < (unat r + 1) * (unat r + 1)"
  using floorSqrt_correct [of 250000] by simp

text \<open>at 262142 the square of the first middle value, 65536, wraps around to zero and the
  search goes the wrong way: the result is not the square root.\<close>

theorem floorSqrt_wraps:
  "floorSqrt 262142 = Some 65537"
  by (simp add: floorSqrt_def floorSqrt_loop.simps)

end
