(* ===== verification/EnxString.thy ===== *)
theory EnxString
  imports Prelude
begin

text \<open>
  The string routines of \<open>dev/string/enx_string.c\<close>: printing addresses, digests and binary
  numbers, concatenation, and the search for a byte string. Proved here: the printed forms can be
  read back, buffers are not overrun, and the search finds the first occurrence.
\<close>

section \<open>Addresses\<close>

text \<open>The digits of a byte, least significant first, as the \<open>do\<close> loop collects them in \<open>inv\<close>.\<close>

function byte_digits :: "u8 \<Rightarrow> bytes" where
  "byte_digits b = (0x30 + b mod 10) # (if b div 10 = 0 then [] else byte_digits (b div 10))"
  by pat_completeness auto
termination
  by (relation "measure unat") (auto simp: unat_div word_unat_eq_iff)

declare byte_digits.simps [simp del]

text \<open>
  One character is written unless \<open>buflen\<close> have been; \<open>None\<close> in the second component is the early
  return.
\<close>

fun ip_put :: "int \<Rightarrow> bytes \<Rightarrow> bytes \<Rightarrow> bytes \<times> bool" where
  "ip_put buflen out [] = (out, True)"
| "ip_put buflen out (x # xs) =
     (if int (length out) \<ge> buflen then (out, False) else ip_put buflen (out @ [x]) xs)"

definition ip_octet :: "bool \<Rightarrow> u8 \<Rightarrow> bytes" where
  "ip_octet padded b =
     (let inv = byte_digits b
      in (if padded then replicate (3 - length inv) 0x30 else []) @ rev inv @ [of_char (CHR ''.'')])"

fun ip_octets :: "int \<Rightarrow> bool \<Rightarrow> u8 list \<Rightarrow> bytes \<Rightarrow> bytes \<times> bool" where
  "ip_octets buflen padded [] out = (out, True)"
| "ip_octets buflen padded (b # bs) out =
     (let (out, ok) = ip_put buflen out (ip_octet padded b)
      in if ok then ip_octets buflen padded bs out else (out, False))"

text \<open>The buffer's contents and the returned count; the last dot is overwritten by the zero.\<close>

definition IPtoStr :: "u32 \<Rightarrow> int \<Rightarrow> u32 \<Rightarrow> bytes \<times> nat" where
  "IPtoStr addr buflen type =
     (let (out, ok) = ip_octets buflen (bit type 0) (le32 addr) []
      in if ok then (butlast out @ [0], length out - 1) else (out, length out))"

lemma ip_put_fits: "int (length out + length xs) \<le> buflen \<Longrightarrow> ip_put buflen out xs = (out @ xs, True)"
  by (induction buflen out xs rule: ip_put.induct) auto

lemma ip_put_ok: "snd (ip_put buflen out xs) \<Longrightarrow> fst (ip_put buflen out xs) = out @ xs"
  by (induction buflen out xs rule: ip_put.induct) (auto split: if_splits)

lemma ip_octets_ok:
  "snd (ip_octets buflen pad bs out) \<Longrightarrow>
   fst (ip_octets buflen pad bs out) = out @ concat (map (ip_octet pad) bs)"
proof (induction bs arbitrary: out)
  case (Cons b bs)
  obtain out' ok where p: "ip_put buflen out (ip_octet pad b) = (out', ok)" by force
  with Cons.prems have ok by (auto split: if_splits)
  with p have "out' = out @ ip_octet pad b" using ip_put_ok [of buflen out "ip_octet pad b"] by simp
  with Cons p \<open>ok\<close> show ?case by simp
qed simp

lemma ip_put_bounded: "length (fst (ip_put buflen out xs)) \<le> max (length out) (nat buflen)"
  by (induction buflen out xs rule: ip_put.induct) auto

lemma ip_octets_fits:
  "int (length out + length (concat (map (ip_octet pad) bs))) \<le> buflen \<Longrightarrow>
   ip_octets buflen pad bs out = (out @ concat (map (ip_octet pad) bs), True)"
  by (induction bs arbitrary: out) (auto simp: ip_put_fits)

lemma ip_octets_bounded: "length (fst (ip_octets buflen pad bs out)) \<le> max (length out) (nat buflen)"
proof (induction bs arbitrary: out)
  case (Cons b bs)
  obtain out' ok where p: "ip_put buflen out (ip_octet pad b) = (out', ok)" by force
  then have "length out' \<le> max (length out) (nat buflen)"
    using ip_put_bounded [of buflen out "ip_octet pad b"] by simp
  with Cons.IH [of out'] p show ?case by auto
qed simp

text \<open>Reading an address: numbers separated by dots.\<close>

fun read_dec :: "nat \<Rightarrow> bytes \<Rightarrow> nat list" where
  "read_dec n [] = [n]"
| "read_dec n (c # cs) =
     (if c = of_char (CHR ''.'') then n # read_dec 0 cs else read_dec (n * 10 + (unat c - 48)) cs)"

lemma byte_digit: "unat (0x30 + b mod 10 :: u8) = 48 + unat b mod 10" "0x30 + b mod 10 \<noteq> (0x2E :: u8)"
proof -
  have "unat b mod 10 < 10" by simp
  then show 1: "unat (0x30 + b mod 10 :: u8) = 48 + unat b mod 10"
    by (simp add: unat_word_ariths unat_mod)
  show "0x30 + b mod 10 \<noteq> (0x2E :: u8)"
  proof
    assume "0x30 + b mod 10 = (0x2E :: u8)"
    from arg_cong [OF this, of unat] show False unfolding 1 by simp
  qed
qed

lemma read_dec_digits:
  "read_dec n (rev (byte_digits b) @ ys) = read_dec (n * 10 ^ length (byte_digits b) + unat b) ys"
proof (induction b arbitrary: n ys rule: byte_digits.induct)
  case (1 b)
  show ?case
  proof (cases "b div 10 = 0")
    case True
    then have "unat (b div 10) = 0" by simp
    then have "unat b mod 10 = unat b" by (simp add: unat_div)
    with True show ?thesis
      by (subst (1 2) byte_digits.simps) (simp add: byte_digit)
  next
    case False
    let ?k = "length (byte_digits (b div 10))"
    have d: "byte_digits b = (0x30 + b mod 10) # byte_digits (b div 10)"
      using False by (subst byte_digits.simps) simp
    have u: "unat b = unat (b div 10) * 10 + unat b mod 10" by (simp add: unat_div)
    have "read_dec n (rev (byte_digits b) @ ys)
        = read_dec ((n * 10 ^ ?k + unat (b div 10)) * 10 + unat b mod 10) ys"
      using 1 [OF False] by (simp add: d byte_digit)
    also have "(n * 10 ^ ?k + unat (b div 10)) * 10 + unat b mod 10 = n * 10 ^ length (byte_digits b) + unat b"
      unfolding d by (subst (2) u) simp
    finally show ?thesis .
  qed
qed

lemma read_dec_zeros: "read_dec 0 (replicate k 0x30 @ ys) = read_dec 0 ys"
  by (induction k) auto

lemma length_byte_digits: "length (byte_digits b) \<le> 3" "0 < length (byte_digits b)"
proof -
  have "unat b < 256" by (rule unat_u8_less)
  then have "unat (b div 10 div 10 div 10) = 0" by (simp add: unat_div)
  then have z: "b div 10 div 10 div 10 = 0" by (simp add: unat_eq_zero)
  show "length (byte_digits b) \<le> 3"
    by (subst byte_digits.simps, subst byte_digits.simps, subst byte_digits.simps) (simp add: z)
  show "0 < length (byte_digits b)" by (subst byte_digits.simps) simp
qed

lemma ip_octet_read: "read_dec 0 (ip_octet pad b @ ys) = unat b # read_dec 0 ys"
  by (simp add: ip_octet_def Let_def read_dec_zeros read_dec_digits)

lemma ip_octet_last: "read_dec 0 (butlast (ip_octet pad b)) = [unat b]"
proof -
  have "read_dec 0 (replicate k 0x30 @ rev (byte_digits b)) = [unat b]" for k
    using read_dec_digits [of 0 b "[]"] by (simp add: read_dec_zeros)
  from this [of "3 - length (byte_digits b)"] this [of 0] show ?thesis
    by (simp add: ip_octet_def Let_def butlast_append)
qed

lemma length_ip_octet: "length (ip_octet pad b) \<le> 4" "0 < length (ip_octet pad b)"
  using length_byte_digits [of b] by (auto simp: ip_octet_def Let_def)

text \<open>with a buffer of at least 16 bytes the address is printed as four decimal numbers
  separated by dots, in the order of its bytes in memory, zero-terminated and counted, whether
  padded or not; with a smaller buffer at most \<open>buflen\<close> bytes are written.\<close>

theorem IPtoStr_prints:
  "(16 \<le> buflen \<longrightarrow> (\<exists>s. IPtoStr addr buflen type = (s @ [0], length s) \<and> length s \<le> 15
      \<and> read_dec 0 s = map unat (le32 addr)))
   \<and> length (fst (IPtoStr addr buflen type)) \<le> nat buflen \<and> snd (IPtoStr addr buflen type) \<le> nat buflen"
proof -
  let ?p = "bit type 0"
  obtain a b c d where l: "le32 addr = [a, b, c, d]" by (simp add: le32_def)
  let ?s = "concat (map (ip_octet ?p) [a, b, c, d])"
  note n = length_ip_octet [of ?p a] length_ip_octet [of ?p b] length_ip_octet [of ?p c] length_ip_octet [of ?p d]
  have ne: "ip_octet ?p d \<noteq> []" using n by auto
  have "IPtoStr addr buflen type = (butlast ?s @ [0], length (butlast ?s)) \<and> length (butlast ?s) \<le> 15
      \<and> read_dec 0 (butlast ?s) = map unat (le32 addr)" if "16 \<le> buflen"
  proof -
    have "ip_octets buflen ?p [a, b, c, d] [] = (?s, True)"
      using ip_octets_fits [of "[]" ?p "[a, b, c, d]" buflen] n that by simp
    then show ?thesis
      using n ne by (simp add: IPtoStr_def l Let_def butlast_append ip_octet_read ip_octet_last
          del: ip_octets.simps length_greater_0_conv)
  qed
  then have 1: "16 \<le> buflen \<longrightarrow> (\<exists>s. IPtoStr addr buflen type = (s @ [0], length s) \<and> length s \<le> 15
      \<and> read_dec 0 s = map unat (le32 addr))" by blast
  obtain out ok where o: "ip_octets buflen ?p [a, b, c, d] [] = (out, ok)" by force
  then have b: "length out \<le> nat buflen"
    using ip_octets_bounded [of buflen ?p "[a, b, c, d]" "[]"] by simp
  have "out = ?s" if ok
    using ip_octets_ok [of buflen ?p "[a, b, c, d]" "[]"] o that by simp
  then have "ok \<Longrightarrow> out \<noteq> []" using ne by auto
  then show ?thesis
    using 1 b o by (auto simp: IPtoStr_def l Let_def simp del: ip_octets.simps)
qed

theorem IPtoStr_prints_witness:
  "\<exists>s. IPtoStr 0x0100A8C0 16 0 = (s @ [0], length s) \<and> length s \<le> 15
     \<and> read_dec 0 s = [192, 168, 0, 1]"
  using IPtoStr_prints [of 16 "0x0100A8C0" 0] by (simp add: le32_def drop_bit_eq_div)

section \<open>Concatenation\<close>

text \<open>Both loops run until they see a zero; strings without one are \<open>None\<close>.\<close>

partial_function (option) str_end :: "mem \<Rightarrow> nat \<Rightarrow> nat option" where
  [code]: "str_end m p = (if m p = 0 then Some p else str_end m (p + 1))"

partial_function (option) str_copy :: "mem \<Rightarrow> nat \<Rightarrow> nat \<Rightarrow> (mem \<times> nat) option" where
  [code]: "str_copy m d s =
     (let c = m s; m = m(d := c) in if c = 0 then Some (m, d + 1) else str_copy m (d + 1) (s + 1))"

definition enx_strcat :: "mem \<Rightarrow> nat \<Rightarrow> nat \<Rightarrow> (mem \<times> nat) option" where
  "enx_strcat m dest src =
     (case str_end m dest of None \<Rightarrow> None
      | Some d \<Rightarrow> map_option (\<lambda>(m, d). (m, d - 1)) (str_copy m d src))"

definition is_str :: "mem \<Rightarrow> nat \<Rightarrow> nat \<Rightarrow> bool" where
  "is_str m p n \<longleftrightarrow> m (p + n) = 0 \<and> (\<forall>i < n. m (p + i) \<noteq> 0)"

lemma is_str_Suc: "is_str m p (Suc n) \<longleftrightarrow> m p \<noteq> 0 \<and> is_str m (p + 1) n"
  by (auto simp: is_str_def less_Suc_eq_0_disj)

lemma str_end_is_str: "is_str m p n \<Longrightarrow> str_end m p = Some (p + n)"
proof (induction n arbitrary: p)
  case 0
  then show ?case by (subst str_end.simps) (simp add: is_str_def)
next
  case (Suc n)
  then have "m p \<noteq> 0" "str_end m (p + 1) = Some (p + 1 + n)" by (simp_all add: is_str_Suc)
  then show ?case by (subst str_end.simps) simp
qed

lemma store_Cons: "store m d (c # xs) = store (m(d := c)) (d + 1) xs"
  by (rule ext) (auto simp: store_def nth_Cons')

lemma str_copy_is_str:
  "is_str m s n \<Longrightarrow> s + n < d \<or> d + n < s \<Longrightarrow> str_copy m d s = Some (store m d (load m s (n + 1)), d + n + 1)"
proof (induction n arbitrary: m s d)
  case 0
  then show ?case
    by (subst str_copy.simps) (auto simp: is_str_def load_def store_def fun_eq_iff)
next
  case (Suc n)
  let ?m = "m(d := m s)"
  have nz: "m s \<noteq> 0" and t: "is_str m (s + 1) n" using Suc.prems(1) by (simp_all add: is_str_Suc)
  have d: "s + 1 + n < d + 1 \<or> d + 1 + n < s + 1" using Suc.prems(2) by arith
  have same: "?m (s + 1 + i) = m (s + 1 + i)" if "i \<le> n" for i
    using Suc.prems(2) that by auto
  then have t': "is_str ?m (s + 1) n" using t by (simp add: is_str_def)
  have l: "load ?m (s + 1) (n + 1) = load m (s + 1) (n + 1)"
    using same by (intro nth_equalityI) (auto simp: nth_load)
  note IH = Suc.IH [OF t' d, unfolded l]
  have "load m s (Suc n + 1) = m s # load m (s + 1) (n + 1)" by (simp add: load_Cons)
  then show ?case
    using nz IH by (subst str_copy.simps) (simp add: Let_def store_Cons del: fun_upd_apply)
qed

text \<open>for two zero-terminated strings where the source does not overlap the end of the result,
  the concatenation ends, copies the source with its zero behind the destination, changes nothing
  else and returns the address of the new end.\<close>

theorem enx_strcat_correct:
  assumes "is_str m dest a" and "is_str m src b" and "src + b < dest + a \<or> dest + a + b < src"
  shows "enx_strcat m dest src = Some (store m (dest + a) (load m src (b + 1)), dest + a + b)"
  using str_end_is_str [OF assms(1)] str_copy_is_str [OF assms(2,3)] by (simp add: enx_strcat_def)

theorem enx_strcat_correct_witness:
  "enx_strcat (\<lambda>a. if a = 10 \<or> a = 11 \<or> a = 20 then 65 else 0) 10 20
    = Some (store (\<lambda>a. if a = 10 \<or> a = 11 \<or> a = 20 then 65 else 0) 12 [65, 0], 13)"
  using enx_strcat_correct [of "\<lambda>a. if a = 10 \<or> a = 11 \<or> a = 20 then 65 else 0" 10 2 20 1]
  by (auto simp: is_str_def load_def less_2_cases_iff)

section \<open>Searching\<close>

text \<open>
  \<open>bs\<close> are the bytes searched for; addresses are natural numbers, 0 is the null pointer. The
  result is the address behind the occurrence.
\<close>

function memstr_from :: "mem \<Rightarrow> nat \<Rightarrow> int \<Rightarrow> bytes \<Rightarrow> nat option" where
  "memstr_from m p lim bs =
     (if int p \<le> lim
      then (if load m p (length bs) = bs then Some (p + length bs) else memstr_from m (p + 1) lim bs)
      else None)"
  by pat_completeness auto
termination
  by (relation "measure (\<lambda>(m, p, lim, bs). nat (lim + 1 - int p))") auto

declare memstr_from.simps [simp del]

definition enx_memstr :: "mem \<Rightarrow> nat \<Rightarrow> int \<Rightarrow> bytes \<Rightarrow> nat option" where
  "enx_memstr m src srcSize bs =
     (if src \<noteq> 0 then memstr_from m src (int src + srcSize - int (length bs)) bs else None)"

lemma memstr_from_Some:
  "memstr_from m p lim bs = Some q \<Longrightarrow> \<exists>r. q = r + length bs \<and> p \<le> r \<and> int r \<le> lim
     \<and> load m r (length bs) = bs \<and> (\<forall>r'. p \<le> r' \<and> r' < r \<longrightarrow> load m r' (length bs) \<noteq> bs)"
proof (induction m p lim bs rule: memstr_from.induct)
  case (1 m p lim bs)
  have e: "memstr_from m p lim bs = (if int p \<le> lim then if load m p (length bs) = bs
      then Some (p + length bs) else memstr_from m (p + 1) lim bs else None)"
    by (subst memstr_from.simps) (rule refl)
  have le: "int p \<le> lim" using 1(2) e by (simp split: if_splits)
  show ?case
  proof (cases "load m p (length bs) = bs")
    case True
    then have "q = p + length bs" using 1(2) e le by simp
    with True le show ?thesis by auto
  next
    case False
    then have "memstr_from m (p + 1) lim bs = Some q" using 1(2) e le by simp
    from 1(1) [OF le False this] obtain r where r: "q = r + length bs" "p + 1 \<le> r" "int r \<le> lim"
      "load m r (length bs) = bs" "\<forall>r'. p + 1 \<le> r' \<and> r' < r \<longrightarrow> load m r' (length bs) \<noteq> bs"
      by blast
    have "load m r' (length bs) \<noteq> bs" if "p \<le> r'" "r' < r" for r'
      using that r(5) False by (cases "r' = p") auto
    with r(1-4) show ?thesis by (intro exI [of _ r]) auto
  qed
qed

lemma memstr_from_None:
  "memstr_from m p lim bs = None \<Longrightarrow> p \<le> r \<Longrightarrow> int r \<le> lim \<Longrightarrow> load m r (length bs) \<noteq> bs"
proof (induction m p lim bs arbitrary: r rule: memstr_from.induct)
  case (1 m p lim bs)
  have e: "memstr_from m p lim bs = (if int p \<le> lim then if load m p (length bs) = bs
      then Some (p + length bs) else memstr_from m (p + 1) lim bs else None)"
    by (subst memstr_from.simps) (rule refl)
  have le: "int p \<le> lim" using 1(3,4) by simp
  then have ne: "load m p (length bs) \<noteq> bs" "memstr_from m (p + 1) lim bs = None"
    using 1(2) e by (simp_all split: if_splits)
  show ?case using 1(1) [OF le ne, of r] 1(3,4) ne(1) by (cases "r = p") auto
qed

text \<open>The search returns the address behind the first occurrence that lies wholly in the given
  range, and the null pointer if there is none.\<close>

theorem enx_memstr_first:
  assumes "src \<noteq> 0"
  shows "case enx_memstr m src srcSize bs of
      Some q \<Rightarrow> \<exists>r. q = r + length bs \<and> src \<le> r \<and> int q \<le> int src + srcSize \<and> load m r (length bs) = bs
        \<and> (\<forall>r'. src \<le> r' \<and> r' < r \<longrightarrow> load m r' (length bs) \<noteq> bs)
    | None \<Rightarrow> \<forall>r. src \<le> r \<and> int (r + length bs) \<le> int src + srcSize \<longrightarrow> load m r (length bs) \<noteq> bs"
proof (cases "enx_memstr m src srcSize bs")
  case None
  then have "memstr_from m src (int src + srcSize - int (length bs)) bs = None"
    using assms by (simp add: enx_memstr_def)
  from memstr_from_None [OF this] None show ?thesis by auto
next
  case (Some q)
  then have "memstr_from m src (int src + srcSize - int (length bs)) bs = Some q"
    using assms by (simp add: enx_memstr_def)
  from memstr_from_Some [OF this] Some show ?thesis by force
qed

theorem enx_memstr_first_witness:
  "\<exists>r. enx_memstr (\<lambda>a. if a = 7 then 1 else 0) 4 32 [0, 0, 1] = Some (r + 3)"
proof -
  let ?m = "\<lambda>a. if a = 7 then 1 else (0 :: u8)"
  have l: "load ?m 5 3 = [0, 0, 1]" by (simp add: load_def upt_rec numeral_eq_Suc)
  show ?thesis
    using enx_memstr_first [where src = 4 and m = ?m and srcSize = 32 and bs = "[0, 0, 1]"] l
    by (cases "enx_memstr ?m 4 32 [0, 0, 1]") (auto dest: spec [of _ 5] simp: numeral_3_eq_3)
qed

section \<open>Digests and binary numbers\<close>

definition hex_char :: "u8 \<Rightarrow> u8" where
  "hex_char ctemp = (if ctemp \<le> 0x9 then ctemp + 0x30
     else if ctemp \<le> 0xF then (ctemp - 0xA) + 0x61 else 0x30)"

text \<open>The first 16 bytes of the digest; the result is what the buffer holds, with its zero.\<close>

definition Hex2Str32B :: "bytes \<Rightarrow> bytes" where
  "Hex2Str32B digest =
     concat (map (\<lambda>i. [hex_char (drop_bit 4 (digest ! i AND 0xf0)), hex_char (digest ! i AND 0x0f)]) [0..<16])
     @ [0]"

text \<open>\<open>Dec2Str64B\<close> from bit \<open>i - 1\<close> down; \<open>first\<close> says that a one has been seen.\<close>

fun dec2_bits :: "nat \<Rightarrow> bool \<Rightarrow> u64 \<Rightarrow> bytes" where
  "dec2_bits 0 first val = []"
| "dec2_bits (Suc i) first val =
     (if bit (drop_bit i val) 0 then 0x31 # dec2_bits i True val
      else if \<not> first then dec2_bits i first val
      else 0x30 # dec2_bits i first val)"

definition Dec2Str64B :: "u64 \<Rightarrow> bytes" where
  "Dec2Str64B val = dec2_bits 64 False val @ [0]"

text \<open>Reading them back.\<close>

definition unhex :: "u8 \<Rightarrow> u8" where
  "unhex c = (if c \<ge> 0x61 then c - 0x61 + 10 else c - 0x30)"

fun unhex_pairs :: "bytes \<Rightarrow> bytes" where
  "unhex_pairs (a # b # cs) = (push_bit 4 (unhex a) OR unhex b) # unhex_pairs cs"
| "unhex_pairs _ = []"

definition read_bin :: "bytes \<Rightarrow> nat" where
  "read_bin cs = foldl (\<lambda>n c. 2 * n + (if c = 0x31 then 1 else 0)) 0 cs"

lemma unhex_hex:
  assumes "w < 16"
  shows "unhex (hex_char w) = w" "hex_char w \<noteq> 0"
proof -
  have "unat w \<in> set [0..<16]" using assms by (simp add: word_less_nat_alt)
  moreover have "\<forall>n \<in> set [0..<16]. unhex (hex_char (of_nat n)) = of_nat n \<and> hex_char (of_nat n) \<noteq> 0"
    by code_simp
  ultimately have "unhex (hex_char (of_nat (unat w))) = of_nat (unat w) \<and> hex_char (of_nat (unat w)) \<noteq> 0"
    by (rule bspec [rotated])
  then show "unhex (hex_char w) = w" "hex_char w \<noteq> 0" by simp_all
qed

lemma nibbles:
  fixes b :: u8
  shows "drop_bit 4 (b AND 0xf0) < 16" "b AND 0x0f < 16"
    "push_bit 4 (drop_bit 4 (b AND 0xf0)) OR (b AND 0x0f) = b"
proof -
  have m: "(0x0f :: u8) = mask 4" "(0xf0 :: u8) = push_bit 4 (mask 4)"
    by (simp_all add: mask_eq_exp_minus_1 push_bit_eq_mult)
  have lt: "w < 16" if "take_bit 4 w = w" for w :: u8
  proof -
    have "unat w = unat (w mod 16)" using that by (simp add: take_bit_eq_mod)
    also have "\<dots> = unat w mod 16" by (simp add: unat_mod)
    finally have "unat w < 16" by (metis mod_less_divisor zero_less_numeral)
    then show ?thesis by (simp add: word_less_nat_alt)
  qed
  show "push_bit 4 (drop_bit 4 (b AND 0xf0)) OR (b AND 0x0f) = b"
    unfolding m by (rule bit_word_eqI) (auto simp: bit_simps)
  show "drop_bit 4 (b AND 0xf0) < 16" unfolding m
    by (rule lt, rule bit_word_eqI) (auto simp: bit_simps)
  show "b AND 0x0f < 16" unfolding m
    by (rule lt, rule bit_word_eqI) (auto simp: bit_simps)
qed

lemma unhex_pairs_concat:
  "unhex_pairs (concat (map (\<lambda>b. [hex_char (drop_bit 4 (b AND 0xf0)), hex_char (b AND 0x0f)]) bs)) = bs"
  using nibbles by (induction bs) (simp_all add: unhex_hex)

text \<open>The 32 characters of a printed digest are hexadecimal digits that read back as its 16
  bytes, and the string is terminated.\<close>

theorem Hex2Str32B_roundtrip:
  assumes "length digest = 16"
  shows "unhex_pairs (butlast (Hex2Str32B digest)) = digest \<and> length (Hex2Str32B digest) = 33
    \<and> last (Hex2Str32B digest) = 0 \<and> 0 \<notin> set (butlast (Hex2Str32B digest))"
proof -
  have "map (\<lambda>i. [hex_char (drop_bit 4 (digest ! i AND 0xf0)), hex_char (digest ! i AND 0x0f)]) [0..<16]
      = map (\<lambda>b. [hex_char (drop_bit 4 (b AND 0xf0)), hex_char (b AND 0x0f)]) (map ((!) digest) [0..<16])"
    by simp
  also have "map ((!) digest) [0..<16] = digest" using map_nth [of digest] assms by simp
  finally have d: "Hex2Str32B digest
      = concat (map (\<lambda>b. [hex_char (drop_bit 4 (b AND 0xf0)), hex_char (b AND 0x0f)]) digest) @ [0]"
    by (simp add: Hex2Str32B_def)
  have "length (concat (map (\<lambda>b. [hex_char (drop_bit 4 (b AND 0xf0)), hex_char (b AND 0x0f)]) bs)) = 2 * length bs"
    for bs by (induction bs) auto
  moreover have "0 \<notin> set (concat (map (\<lambda>b. [hex_char (drop_bit 4 (b AND 0xf0)), hex_char (b AND 0x0f)]) bs))"
    for bs using unhex_hex(2) [OF nibbles(1)] unhex_hex(2) [OF nibbles(2)] by (induction bs) auto
  ultimately show ?thesis
    unfolding d using assms by (simp only: butlast_snoc unhex_pairs_concat last_snoc length_append) simp
qed

theorem Hex2Str32B_roundtrip_witness:
  "unhex_pairs (butlast (Hex2Str32B (map of_nat [200..<216]))) = map of_nat [200..<216]"
  using Hex2Str32B_roundtrip [of "map of_nat [200..<216]"] by simp

lemma read_bin_append: "read_bin (xs @ ys) = read_bin xs * 2 ^ length ys + read_bin ys"
proof (induction ys rule: rev_induct)
  case (snoc y ys)
  then show ?case by (simp add: read_bin_def append.assoc [symmetric] del: append.assoc append_assoc)
qed (simp add: read_bin_def)

lemma dec2_bits_True: "length (dec2_bits i True val) = i \<and> read_bin (dec2_bits i True val) = unat (take_bit i val)"
proof (induction i)
  case (Suc i)
  have "read_bin (c # cs) = (if c = 0x31 then 2 ^ length cs else 0) + read_bin cs" for c cs
    using read_bin_append [of "[c]" cs] by (simp add: read_bin_def)
  moreover have "unat (take_bit (Suc i) val) = (if bit val i then 2 ^ i else 0) + unat (take_bit i val)"
    by (simp add: unsigned_take_bit_eq take_bit_Suc_from_most bit_unsigned_iff)
  ultimately show ?case using Suc by (simp add: bit_simps)
qed (simp add: read_bin_def)

lemma dec2_bits_False:
  "read_bin (dec2_bits i False val) = unat (take_bit i val)
   \<and> (take_bit i val = 0 \<longrightarrow> dec2_bits i False val = [])
   \<and> (take_bit i val \<noteq> 0 \<longrightarrow> hd (dec2_bits i False val) = 0x31 \<and> dec2_bits i False val \<noteq> [])"
proof (induction i)
  case (Suc i)
  show ?case
  proof (cases "bit val i")
    case True
    then have "bit (take_bit (Suc i) val) i" by (simp add: bit_take_bit_iff)
    then have "take_bit (Suc i) val \<noteq> 0" by force
    moreover have "dec2_bits (Suc i) False val = dec2_bits (Suc i) True val" using True by (simp add: bit_simps)
    ultimately show ?thesis using True dec2_bits_True [of "Suc i" val] by (simp add: bit_simps)
  next
    case False
    then have "take_bit (Suc i) val = take_bit i val"
      by (intro bit_word_eqI) (auto simp: bit_take_bit_iff less_Suc_eq)
    with False Suc show ?thesis by (simp add: bit_simps)
  qed
qed (simp add: read_bin_def)

lemma dec2_bits_chars: "set (dec2_bits i f val) \<subseteq> {0x30, 0x31}"
  by (induction i f val rule: dec2_bits.induct) auto

text \<open>a number other than zero is printed in binary without leading zeros, a string that reads
  back as the number; for zero the string is empty.\<close>

theorem Dec2Str64B_prints:
  "\<exists>s. Dec2Str64B val = s @ [0] \<and> read_bin s = unat val \<and> set s \<subseteq> {0x30, 0x31}
     \<and> (if val = 0 then s = [] else s \<noteq> [] \<and> hd s = 0x31)"
proof -
  have "take_bit 64 val = val" by (rule bit_word_eqI) (auto simp: bit_take_bit_iff dest: bit_imp_le_length)
  then show ?thesis
    using dec2_bits_False [of 64 val] dec2_bits_chars [of 64 False val]
    by (intro exI [of _ "dec2_bits 64 False val"]) (auto simp: Dec2Str64B_def)
qed

end
