(* ===== verification/Base64.thy ===== *)
theory Base64
  imports Prelude
begin

text \<open>
  Base 64, \<open>dev/minilib/Base64.c\<close>, used for the parameter sets of an SDP description and for basic
  authentication. Proved here: the decoder undoes the encoder for every input that is not empty,
  and the encoder's output has the length and alphabet it should.
\<close>

definition encoding_table :: bytes where
  "encoding_table = str ''ABCDEFGHIJKLMNOPQRSTUVWXYZabcdefghijklmnopqrstuvwxyz0123456789+/''"

text \<open>The table of 256 entries, zero but for the 64 characters; building it again changes nothing.\<close>

definition decoding_table :: bytes where
  "decoding_table = fold (\<lambda>i t. t[unat (encoding_table ! i) := of_nat i]) [0..<64] (replicate 256 0)"

definition mod_table :: "nat list" where
  "mod_table = [0, 2, 1]"

definition enc_char :: "u32 \<Rightarrow> u8" where
  "enc_char w = encoding_table ! unat (w AND 0x3F)"

text \<open>One round of the loop: three bytes, missing ones read as zero, become four characters.\<close>

definition enc_triple :: "u8 \<Rightarrow> u8 \<Rightarrow> u8 \<Rightarrow> bytes" where
  "enc_triple a b c =
     (let triple = push_bit 0x10 (ucast a) + push_bit 0x08 (ucast b) + (ucast c :: u32)
      in [enc_char (drop_bit 18 triple), enc_char (drop_bit 12 triple), enc_char (drop_bit 6 triple),
          enc_char triple])"

fun enc_loop :: "bytes \<Rightarrow> bytes" where
  "enc_loop [] = []"
| "enc_loop [a] = enc_triple a 0 0"
| "enc_loop [a, b] = enc_triple a b 0"
| "enc_loop (a # b # c # xs) = enc_triple a b c @ enc_loop xs"

text \<open>
  \<open>alloc\<close> is whether the allocation succeeds. The last one or two characters are replaced.
\<close>

definition base64_encode :: "bool \<Rightarrow> bytes \<Rightarrow> bytes option" where
  "base64_encode alloc data =
     (let output_length = 4 * ((length data + 2) div 3)
      in if \<not> alloc then None
         else Some (fold (\<lambda>i e. e[output_length - 1 - i := of_char (CHR ''='')])
                      [0..<mod_table ! (length data mod 3)] (enc_loop data)))"

definition sextet :: "u8 \<Rightarrow> u32" where
  "sextet c = (if c = of_char (CHR ''='') then 0 else ucast (decoding_table ! unat c))"

definition dec_quad :: "u8 \<Rightarrow> u8 \<Rightarrow> u8 \<Rightarrow> u8 \<Rightarrow> bytes" where
  "dec_quad a b c d =
     (let triple = push_bit 18 (sextet a) + push_bit 12 (sextet b) + push_bit 6 (sextet c) + sextet d
      in [ucast (drop_bit 16 triple AND 0xFF), ucast (drop_bit 8 triple AND 0xFF), ucast (triple AND 0xFF)])"

fun dec_loop :: "bytes \<Rightarrow> bytes" where
  "dec_loop (a # b # c # d # xs) = dec_quad a b c d @ dec_loop xs"
| "dec_loop _ = []"

datatype base64_result = B64_NULL | B64_READS_BEFORE | B64 bytes

text \<open>
  The length may be 0: then the test of the padding reads in front of the data. Each of the three
  stores of a round is made only below the output length.
\<close>

definition base64_decode :: "bool \<Rightarrow> bytes \<Rightarrow> base64_result" where
  "base64_decode alloc data =
     (let n = length data
      in if n mod 4 \<noteq> 0 then B64_NULL
         else if n = 0 then B64_READS_BEFORE
         else (let output_length = n div 4 * 3
                 - (if data ! (n - 1) = of_char (CHR ''='') then 1 else 0)
                 - (if data ! (n - 2) = of_char (CHR ''='') then 1 else 0)
               in if \<not> alloc then B64_NULL else B64 (take output_length (dec_loop data))))"

section \<open>Characters\<close>

lemma fold_update_nth:
  assumes "\<And>i j. i < n \<Longrightarrow> j < n \<Longrightarrow> f i = f j \<Longrightarrow> i = j" and "\<And>i. i < n \<Longrightarrow> f i < length t"
  shows "length (fold (\<lambda>i t. t[f i := g i]) [0..<n] t) = length t
    \<and> (\<forall>k < n. fold (\<lambda>i t. t[f i := g i]) [0..<n] t ! f k = g k)"
  using assms
proof (induction n)
  case (Suc n)
  then have IH: "length (fold (\<lambda>i t. t[f i := g i]) [0..<n] t) = length t"
    "\<forall>k < n. fold (\<lambda>i t. t[f i := g i]) [0..<n] t ! f k = g k" by simp_all
  have "f n \<noteq> f k" if "k < n" for k using Suc.prems(1) [of n k] that by auto
  moreover have "f n < length t" using Suc.prems(2) by simp
  ultimately show ?case using IH by (auto simp: nth_list_update less_Suc_eq)
qed simp

lemma encoding_table_facts: "length encoding_table = 64" "distinct encoding_table"
  "set encoding_table \<inter> {0x3D} = {}"
  by (simp_all add: encoding_table_def str_def)

lemma unat_u8_inject: "unat (a :: u8) = unat b \<Longrightarrow> a = b"
  by (simp add: word_unat_eq_iff)

lemma decoding_nth: "k < 64 \<Longrightarrow> decoding_table ! unat (encoding_table ! k) = of_nat k"
proof -
  assume k: "k < 64"
  have "i = j" if "i < 64" "j < 64" "unat (encoding_table ! i) = unat (encoding_table ! j)" for i j
    using that encoding_table_facts(1,2) unat_u8_inject nth_eq_iff_index_eq by metis
  moreover have "unat (encoding_table ! i) < length (replicate 256 (0 :: u8))" for i
    using unat_u8_less [of "encoding_table ! i"] by simp
  ultimately show ?thesis
    using fold_update_nth [of 64 "\<lambda>i. unat (encoding_table ! i)" "replicate 256 0" of_nat] k
    unfolding decoding_table_def by blast
qed

lemma sextet_table: "k < 64 \<Longrightarrow> sextet (encoding_table ! k) = of_nat k \<and> encoding_table ! k \<noteq> 0x3D"
proof -
  assume k: "k < 64"
  then have "encoding_table ! k \<in> set encoding_table" using encoding_table_facts(1) by simp
  then have "encoding_table ! k \<noteq> 0x3D" using encoding_table_facts(3) by auto
  with k show ?thesis by (simp add: sextet_def decoding_nth unsigned_of_nat take_bit_nat_eq_self)
qed

lemma mask6: "(0x3F :: u32) = mask 6" "(0xFF :: u32) = mask 8"
  by (simp_all add: mask_eq_exp_minus_1)

lemma sextet_enc: "sextet (enc_char w) = take_bit 6 w" and enc_not_pad: "enc_char w \<noteq> 0x3D"
proof -
  have "unat (take_bit 6 w) < 64"
    using take_bit_nat_less_exp [of 6 "unat w"] by (simp add: unsigned_take_bit_eq)
  from sextet_table [OF this] show "sextet (enc_char w) = take_bit 6 w" "enc_char w \<noteq> 0x3D"
    unfolding enc_char_def mask6 take_bit_eq_mask [symmetric] by simp_all
qed

lemma sextet_pad: "sextet 0x3D = 0"
  by (simp add: sextet_def)

text \<open>A round undone: all three bytes, or those that stand before the padding.\<close>

definition triple_of :: "u8 \<Rightarrow> u8 \<Rightarrow> u8 \<Rightarrow> u32" where
  "triple_of a b c = push_bit 0x10 (ucast a) + push_bit 0x08 (ucast b) + ucast c"

lemma triple_or: "triple_of a b c = push_bit 16 (ucast a) OR push_bit 8 (ucast b) OR ucast c"
proof -
  have "push_bit 16 (ucast a :: u32) AND push_bit 8 (ucast b) = 0"
    by (rule bit_word_eqI) (auto simp: bit_simps)
  moreover have "(push_bit 16 (ucast a) OR push_bit 8 (ucast b)) AND (ucast c :: u32) = 0"
    by (rule bit_word_eqI) (auto simp: bit_simps)
  ultimately show ?thesis by (simp add: triple_of_def disjunctive_add_eq_or or.assoc)
qed

lemma sextet_lane:
  fixes n :: nat
  obtains "n < 6" | i where "i < 6" "n = 6 + i" | i where "i < 6" "n = 12 + i"
    | i where "i < 6" "n = 18 + i" | "24 \<le> n"
proof -
  have "n < 6 \<or> (n - 6 < 6 \<and> n = 6 + (n - 6)) \<or> (n - 12 < 6 \<and> n = 12 + (n - 12))
      \<or> (n - 18 < 6 \<and> n = 18 + (n - 18)) \<or> 24 \<le> n"
    by arith
  then show ?thesis using that by blast
qed

lemma sextets_or:
  fixes w :: u32
  shows "push_bit 18 (take_bit 6 (drop_bit 18 w)) + push_bit 12 (take_bit 6 (drop_bit 12 w))
    + push_bit 6 (take_bit 6 (drop_bit 6 w)) + take_bit 6 w = take_bit 24 w"
proof -
  have "push_bit 18 (take_bit 6 (drop_bit 18 w)) AND push_bit 12 (take_bit 6 (drop_bit 12 w)) = 0"
    by (rule bit_word_eqI) (auto simp: bit_simps)
  moreover have "(push_bit 18 (take_bit 6 (drop_bit 18 w)) OR push_bit 12 (take_bit 6 (drop_bit 12 w)))
      AND push_bit 6 (take_bit 6 (drop_bit 6 w)) = 0"
    by (rule bit_word_eqI) (auto simp: bit_simps)
  moreover have "(push_bit 18 (take_bit 6 (drop_bit 18 w)) OR push_bit 12 (take_bit 6 (drop_bit 12 w))
      OR push_bit 6 (take_bit 6 (drop_bit 6 w))) AND take_bit 6 w = 0"
    by (rule bit_word_eqI) (auto simp: bit_simps)
  moreover have "push_bit 18 (take_bit 6 (drop_bit 18 w)) OR push_bit 12 (take_bit 6 (drop_bit 12 w))
      OR push_bit 6 (take_bit 6 (drop_bit 6 w)) OR take_bit 6 w = take_bit 24 w"
  proof (rule bit_word_eqI)
    fix n :: nat
    show "bit (push_bit 18 (take_bit 6 (drop_bit 18 w)) OR push_bit 12 (take_bit 6 (drop_bit 12 w))
      OR push_bit 6 (take_bit 6 (drop_bit 6 w)) OR take_bit 6 w) n = bit (take_bit 24 w) n"
      by (cases n rule: sextet_lane) (auto simp: bit_simps)
  qed
  ultimately show ?thesis by (simp add: disjunctive_add_eq_or or.assoc)
qed

lemma triple_bytes:
  "take_bit 24 (triple_of a b c) = triple_of a b c"
  "ucast (drop_bit 16 (triple_of a b c) AND 0xFF) = a"
  "ucast (drop_bit 8 (triple_of a b c) AND 0xFF) = b"
  "ucast (triple_of a b c AND 0xFF) = c"
  unfolding triple_or mask6 by (rule bit_word_eqI; auto simp: bit_simps)+

lemma enc_triple_eq:
  "enc_triple a b c = [enc_char (drop_bit 18 (triple_of a b c)), enc_char (drop_bit 12 (triple_of a b c)),
     enc_char (drop_bit 6 (triple_of a b c)), enc_char (triple_of a b c)]"
  by (simp add: enc_triple_def triple_of_def Let_def)

lemma dec_quad_bytes:
  assumes "push_bit 18 (sextet p) + push_bit 12 (sextet q) + push_bit 6 (sextet r) + sextet s = triple_of a b c"
  shows "dec_quad p q r s = [a, b, c]"
  unfolding dec_quad_def assms by (simp add: triple_bytes)

lemma dec_enc_triple: "dec_loop (enc_triple a b c @ xs) = a # b # c # dec_loop xs"
  using sextets_or [of "triple_of a b c"]
  by (simp add: enc_triple_eq dec_quad_bytes [of _ _ _ _ a b c] sextet_enc triple_bytes(1))

text \<open>With one or two bytes missing, the padded characters are zero anyway.\<close>

lemma missing_zero: "take_bit 6 (triple_of a b 0) = 0" "take_bit 6 (drop_bit 6 (triple_of a 0 0)) = 0"
  unfolding triple_or by (rule bit_word_eqI; auto simp: bit_simps)+

lemma length_enc_loop: "length (enc_loop xs) = 4 * ((length xs + 2) div 3)"
proof (induction xs rule: enc_loop.induct)
  case (4 a b c xs)
  have "(length (a # b # c # xs) + 2) div 3 = (length xs + 2) div 3 + 1" by simp
  with 4 show ?case by (simp only: enc_loop.simps length_append enc_triple_eq list.size) simp
qed (simp_all add: enc_triple_eq)

lemma enc_loop_chars: "0x3D \<notin> set (enc_loop xs)"
  using enc_not_pad by (induction xs rule: enc_loop.induct) (auto simp: enc_triple_eq)

text \<open>The encoder by groups, with the padding in place.\<close>

fun enc_groups :: "bytes \<Rightarrow> bytes" where
  "enc_groups [] = []"
| "enc_groups [a] = take 2 (enc_triple a 0 0) @ [0x3D, 0x3D]"
| "enc_groups [a, b] = take 3 (enc_triple a b 0) @ [0x3D]"
| "enc_groups (a # b # c # xs) = enc_triple a b c @ enc_groups xs"

definition pad :: "nat \<Rightarrow> bytes \<Rightarrow> bytes" where
  "pad k e = (if k = 0 then e else if k = 1 then e[length e - 1 := 0x3D]
     else e[length e - 1 := 0x3D, length e - 2 := 0x3D])"

lemma mod_table_vals: "mod_table ! 0 = 0" "mod_table ! Suc 0 = 2" "mod_table ! Suc (Suc 0) = Suc 0"
  by (simp_all add: mod_table_def)

lemma pad_zero: "pad 0 e = e"
  by (simp add: pad_def)

lemma pad_one: "pad (Suc 0) [p, q, r, s] = [p, q, r, 0x3D]"
  and pad_two: "pad 2 [p, q, r, s] = [p, q, 0x3D, 0x3D]"
  by (simp_all add: pad_def numeral_eq_Suc)

lemma take_quad: "take 2 [p, q, r, s] = [p, q]" "take 3 [p, q, r, s] = [p, q, r]"
  by (simp_all add: numeral_eq_Suc)

lemma pad_append: "k = 0 \<or> 2 \<le> length e \<Longrightarrow> pad k (t @ e) = t @ pad k e"
  by (auto simp: pad_def list_update_append)

lemma mod_table_cases: "mod_table ! (n mod 3) = (if n mod 3 = 0 then 0 else if n mod 3 = 1 then 2 else 1)"
proof -
  have "n mod 3 = 0 \<or> n mod 3 = 1 \<or> n mod 3 = 2" by arith
  then show ?thesis by (auto simp: mod_table_def)
qed

lemma fold_pad:
  "k \<le> 2 \<Longrightarrow> fold (\<lambda>i e. e[n - 1 - i := 0x3D]) [0..<k] e = (if n = length e then pad k e else
     fold (\<lambda>i e. e[n - 1 - i := 0x3D]) [0..<k] e)"
  by (auto simp: pad_def le_Suc_eq numeral_2_eq_2)

lemma pad_groups: "pad (mod_table ! (length xs mod 3)) (enc_loop xs) = enc_groups xs"
proof (induction xs rule: enc_groups.induct)
  case (4 a b c xs)
  have "mod_table ! (length xs mod 3) = 0 \<or> 2 \<le> length (enc_loop xs)"
    by (cases xs rule: enc_loop.cases) (auto simp: mod_table_def enc_triple_eq)
  moreover have "length (a # b # c # xs) mod 3 = length xs mod 3" by simp
  ultimately show ?case using 4 by (simp add: pad_append)
qed (simp_all add: mod_table_vals pad_zero pad_one pad_two enc_triple_eq take_quad)

lemma base64_encode_groups: "base64_encode True data = Some (enc_groups data)"
proof -
  have "mod_table ! (length data mod 3) \<le> 2" by (simp add: mod_table_cases)
  from fold_pad [OF this, of "length (enc_loop data)" "enc_loop data"] show ?thesis
    unfolding base64_encode_def Let_def length_enc_loop [symmetric] by (simp add: pad_groups)
qed

section \<open>Decoding\<close>

text \<open>The number of padding characters at the end, as the decoder counts them.\<close>

definition pads :: "bytes \<Rightarrow> nat" where
  "pads e = (if e ! (length e - 1) = 0x3D then 1 else 0) + (if e ! (length e - 2) = 0x3D then 1 else 0)"

lemma pads_append: "2 \<le> length e \<Longrightarrow> pads (t @ e) = pads e"
proof -
  assume "2 \<le> length e"
  then have i: "length (t @ e) - 1 = length t + (length e - 1)" "length (t @ e) - 2 = length t + (length e - 2)"
    by simp_all
  show ?thesis unfolding pads_def i nth_append_length_plus ..
qed

lemma pads_quad: "pads [p, q, r, s] = (if s = 0x3D then 1 else 0) + (if r = 0x3D then 1 else 0)"
  by (simp add: pads_def numeral_eq_Suc)

lemma enc_groups_decode:
  "length (enc_groups xs) mod 4 = 0 \<and> (xs \<noteq> [] \<longrightarrow> 4 \<le> length (enc_groups xs)
     \<and> length (enc_groups xs) div 4 * 3 = length xs + pads (enc_groups xs))
   \<and> take (length xs) (dec_loop (enc_groups xs)) = xs"
proof (induction xs rule: enc_groups.induct)
  case (2 a)
  have "dec_quad (enc_char (drop_bit 18 (triple_of a 0 0))) (enc_char (drop_bit 12 (triple_of a 0 0))) 0x3D 0x3D
      = [a, 0, 0]"
    using sextets_or [of "triple_of a 0 0"]
    by (intro dec_quad_bytes) (simp add: sextet_enc sextet_pad triple_bytes missing_zero)
  then show ?case by (simp add: enc_triple_eq take_quad pads_quad)
next
  case (3 a b)
  have "dec_quad (enc_char (drop_bit 18 (triple_of a b 0))) (enc_char (drop_bit 12 (triple_of a b 0)))
      (enc_char (drop_bit 6 (triple_of a b 0))) 0x3D = [a, b, 0]"
    using sextets_or [of "triple_of a b 0"]
    by (intro dec_quad_bytes) (simp add: sextet_enc sextet_pad triple_bytes missing_zero)
  then show ?case by (simp add: enc_triple_eq take_quad pads_quad enc_not_pad)
next
  case (4 a b c xs)
  show ?case
  proof (cases "xs = []")
    case True
    then show ?thesis using dec_enc_triple [of a b c "[]"] by (simp add: enc_triple_eq pads_quad enc_not_pad)
  next
    case False
    with 4 have l: "4 \<le> length (enc_groups xs)" by simp
    have "length (enc_triple a b c) = 4" by (simp add: enc_triple_eq)
    moreover have "(4 + n) div 4 * 3 = n div 4 * 3 + 3" for n :: nat by presburger
    ultimately show ?thesis
      using 4 False l pads_append [of "enc_groups xs" "enc_triple a b c"] by (simp add: dec_enc_triple)
  qed
qed simp

text \<open>Encoding succeeds when memory does, gives four characters for every three bytes begun,
  all from the alphabet or padding, and for every input that is not empty the decoder gives the
  bytes back.\<close>

theorem base64_roundtrip:
  "\<exists>e. base64_encode True data = Some e \<and> length e = 4 * ((length data + 2) div 3)
     \<and> (base64_decode True e = (if data = [] then B64_READS_BEFORE else B64 data))"
proof (intro exI conjI)
  show "base64_encode True data = Some (enc_groups data)" by (rule base64_encode_groups)
  show len: "length (enc_groups data) = 4 * ((length data + 2) div 3)"
    unfolding pad_groups [symmetric] by (simp add: pad_def length_enc_loop)
  note d = enc_groups_decode [of data]
  show "base64_decode True (enc_groups data) = (if data = [] then B64_READS_BEFORE else B64 data)"
  proof (cases "data = []")
    case False
    with d have l: "length (enc_groups data) mod 4 = 0" "length (enc_groups data) \<noteq> 0"
      "length (enc_groups data) div 4 * 3
        - (if enc_groups data ! (length (enc_groups data) - 1) = 0x3D then 1 else 0)
        - (if enc_groups data ! (length (enc_groups data) - 2) = 0x3D then 1 else 0) = length data"
      by (auto simp: pads_def)
    then show ?thesis
      using d False by (simp add: base64_decode_def Let_def del: diff_diff_left)
  qed (simp add: base64_decode_def)
qed

end
