(* ===== verification/EnxTime.thy ===== *)
theory EnxTime
  imports Prelude
begin

text \<open>
  The time zone of \<open>dev/minilib/enx_time.c\<close>: kept as an index by the firmware and as the
  environment variable \<open>TZ\<close> for the C library. \<open>setTimeZone\<close> prints the variable from a table,
  \<open>getTimeZone\<close> reads it back. Proved here: for which zones reading back gives the zone that was set,
  and what setting the clock checks.
\<close>

text \<open>Hours, minutes and seconds of the 29 zones, from \<open>e_tzM1200\<close> to \<open>e_tzP1400\<close>.\<close>

definition nTimeZoneSec :: "(int \<times> int \<times> int) list" where
  "nTimeZoneSec =
     [(-12, 0, -43200), (-11, 0, -39600), (-10, 0, -36000), (-9, 0, -32400), (-8, 0, -28800),
      (-7, 0, -25200), (-6, 0, -21600), (-5, 0, -18000), (-4, 0, -14400), (-3, 0, -10800),
      (-2, 0, -7200), (-1, 0, -3600), (0, 0, 0), (1, 0, 3600), (2, 0, 7200), (3, 0, 10800),
      (3, 30, 12600), (4, 0, 14400), (5, 0, 18000), (5, 30, 19800), (6, 0, 21600), (7, 0, 25200),
      (8, 0, 28800), (9, 0, 32400), (10, 0, 36000), (11, 0, 39600), (12, 0, 43200), (13, 0, 46800),
      (14, 0, 50400)]"

definition e_tzM1200 :: nat where "e_tzM1200 = 0"
definition e_tzN0000 :: nat where "e_tzN0000 = 12"
definition e_tzP1400 :: nat where "e_tzP1400 = 28"

text \<open>
  \<open>gtUser\<close> and \<open>gptMsgShare\<close> contribute two fields; the environment variable is kept as the two
  numbers printed with \<open>"UTC%d:%d"\<close> and scanned with the same format.
\<close>

record time_state =
  nTimeZone :: u32
  nTimeSummer :: u32
  TIMEZONE :: int
  env_TZ :: "(int \<times> int) option"

definition setTimeZone :: "nat \<Rightarrow> time_state \<Rightarrow> time_state" where
  "setTimeZone tzIndex s =
     (let (h, m, sec) = nTimeZoneSec ! tzIndex
      in s\<lparr>nTimeZone := of_nat tzIndex, TIMEZONE := sec + uint (nTimeSummer s) * 3600, env_TZ := Some (- h, m)\<rparr>)"

text \<open>The search of the table from index \<open>i\<close> on.\<close>

fun find_zone :: "int \<Rightarrow> nat \<Rightarrow> (int \<times> int \<times> int) list \<Rightarrow> nat option" where
  "find_zone mux i [] = None"
| "find_zone mux i ((h, m, sec) # zs) = (if sec = mux then Some i else find_zone mux (i + 1) zs)"

definition tz_mux :: "int \<Rightarrow> int \<Rightarrow> int" where
  "tz_mux nHour nMin = (if nHour \<ge> 0 then (- nHour * 3600) - (nMin * 30) else (- nHour * 3600) + (nMin * 30))"

definition getTimeZone :: "time_state \<Rightarrow> time_state \<times> nat" where
  "getTimeZone s =
     (case env_TZ s of
        None \<Rightarrow> (s, e_tzN0000)
      | Some (nHour, nMin) \<Rightarrow>
          (let mux = tz_mux nHour nMin
           in case find_zone mux e_tzM1200 (take (e_tzP1400 + 1) nTimeZoneSec) of
                None \<Rightarrow> (s, e_tzN0000)
              | Some i \<Rightarrow>
                  (s\<lparr>nTimeZone := of_nat i,
                     TIMEZONE := (if TIMEZONE s \<noteq> mux then mux + uint (nTimeSummer s) * 3600 else TIMEZONE s)\<rparr>, i)))"

lemma zones_found:
  "\<forall>i \<in> set [0..<29]. let (h, m, sec) = nTimeZoneSec ! i
     in find_zone (tz_mux (- h) m) 0 nTimeZoneSec = (if i = 16 \<or> i = 19 then None else Some i)
       \<and> (i \<noteq> 16 \<and> i \<noteq> 19 \<longrightarrow> tz_mux (- h) m = sec)"
  by code_simp

text \<open>After a zone of full hours has been set it is read back, and neither the index nor the
  offset kept by the firmware changes; the two zones of half hours, whose minutes are counted with
  30 instead of 60 seconds, are not found and read back as UTC.\<close>

theorem getTimeZone_setTimeZone:
  assumes "i < 29"
  shows "getTimeZone (setTimeZone i s) = (setTimeZone i s, if i = 16 \<or> i = 19 then e_tzN0000 else i)"
proof -
  obtain h m sec where z: "nTimeZoneSec ! i = (h, m, sec)" by (cases "nTimeZoneSec ! i") auto
  have "i \<in> set [0..<29]" using assms by simp
  from bspec [OF zones_found this] have
    f: "find_zone (tz_mux (- h) m) 0 nTimeZoneSec = (if i = 16 \<or> i = 19 then None else Some i)"
      "i \<noteq> 16 \<and> i \<noteq> 19 \<longrightarrow> tz_mux (- h) m = sec"
    by (simp_all add: z)
  have t: "take (e_tzP1400 + 1) nTimeZoneSec = nTimeZoneSec" by (simp add: e_tzP1400_def nTimeZoneSec_def)
  show ?thesis
    using f unfolding getTimeZone_def setTimeZone_def z t e_tzM1200_def by (auto simp: Let_def)
qed

theorem getTimeZone_setTimeZone_witness:
  "snd (getTimeZone (setTimeZone 19 \<lparr>nTimeZone = 0, nTimeSummer = 0, TIMEZONE = 0, env_TZ = None\<rparr>)) = 12"
  using getTimeZone_setTimeZone [of 19] by (simp add: e_tzN0000_def)

section \<open>Setting the clock\<close>

text \<open>
  \<open>mktime\<close> gets year from 1900, month from 0, day, hour, minute and second of \<open>tmget\<close>; the second result
  is \<open>gptMsgShare.TIME\<close>. The time zone that is passed is not used; the clock chip is not compiled.
\<close>

definition set_devicetime ::
  "(int \<times> int \<times> int \<times> int \<times> int \<times> int \<Rightarrow> u64) \<Rightarrow> u32 \<Rightarrow> u32 \<Rightarrow> u32 \<Rightarrow> u32 \<Rightarrow> u32 \<Rightarrow> u32 \<Rightarrow> u64 \<Rightarrow> ENX_OKFAIL \<times> u64" where
  "set_devicetime mktime nYear nMonth nDay nHour nMin nSec now =
     (if nYear < 1970 \<or> nYear > 2030 then (ENX_FAIL, now)
      else if nMonth < 1 \<or> nMonth > 12 then (ENX_FAIL, now)
      else if nDay < 1 \<or> nDay > 31 then (ENX_FAIL, now)
      else if nHour > 23 then (ENX_FAIL, now)
      else if nMin > 59 then (ENX_FAIL, now)
      else if nSec > 59 then (ENX_FAIL, now)
      else (ENX_OK, mktime (sint (nYear - 1900), sint (nMonth - 1), sint nDay, sint nHour, sint nMin, sint nSec)))"

text \<open>What is checked: each number on its own, so the 31st of February passes, and no year after 2030.\<close>

lemma set_devicetime_checks:
  "fst (set_devicetime mktime y mo d h mi s now) = ENX_OK \<longleftrightarrow>
     1970 \<le> y \<and> y \<le> 2030 \<and> mo \<noteq> 0 \<and> mo \<le> 12 \<and> d \<noteq> 0 \<and> d \<le> 31 \<and> h \<le> 23 \<and> mi \<le> 59 \<and> s \<le> 59"
  "fst (set_devicetime mktime y mo d h mi s now) = ENX_FAIL \<Longrightarrow> snd (set_devicetime mktime y mo d h mi s now) = now"
  "fst (set_devicetime mktime 2024 2 31 0 0 0 now) = ENX_OK"
  by (auto simp: set_devicetime_def not_less split: if_splits)

end
