(* ===== verification/RtspText.thy ===== *)
theory RtspText
  imports Prelude
begin

text \<open>
  The C string functions the RTSP server reads requests and writes replies with: \<open>strchr\<close>,
  \<open>strstr\<close>, \<open>strncmp\<close> against a literal, \<open>strlcpy\<close>, \<open>atoi\<close>, \<open>sscanf\<close> of two numbers, and the
  conversions \<open>%u\<close>, \<open>%02u\<close>, \<open>%04u\<close> and \<open>%8x\<close> of \<open>sprintf\<close>. A string is the characters in front of
  its NUL. Values that leave the range of \<open>int\<close>, undefined in C, are taken modulo the word size by
  the callers.
\<close>

section \<open>Searching\<close>

fun strchr :: "string \<Rightarrow> char \<Rightarrow> nat option" where
  "strchr [] c = None"
| "strchr (x # xs) c = (if x = c then Some 0 else map_option Suc (strchr xs c))"

definition starts_with :: "string \<Rightarrow> string \<Rightarrow> bool" where
  "starts_with s n \<longleftrightarrow> take (length n) s = n"

fun strstr :: "string \<Rightarrow> string \<Rightarrow> nat option" where
  "strstr s n = (if starts_with s n then Some 0
     else (case s of [] \<Rightarrow> None | x # xs \<Rightarrow> map_option Suc (strstr xs n)))"

declare strstr.simps [simp del]

definition strlcpy :: "nat \<Rightarrow> string \<Rightarrow> string" where
  "strlcpy n s = take (n - 1) s"

definition CRLF :: string where
  "CRLF = [CHR 0x0D, CHR 0x0A]"

lemma strchr_append [simp]: "c \<notin> set s \<Longrightarrow> strchr (s @ c # t) c = Some (length s)"
  by (induction s) auto

lemma strchr_None [simp]: "c \<notin> set s \<Longrightarrow> strchr s c = None"
  by (induction s) auto

lemma strstr_Nil [simp]: "n \<noteq> [] \<Longrightarrow> strstr [] n = None"
  by (simp add: strstr.simps [of "[]"] starts_with_def)

lemma strstr_Cons:
  "strstr (x # xs) n = (if starts_with (x # xs) n then Some 0 else map_option Suc (strstr xs n))"
  by (simp add: strstr.simps [of "x # xs"])

text \<open>A line without a carriage return ends at the first \<open>CRLF\<close>.\<close>

lemma strstr_line: "CHR 0x0D \<notin> set s \<Longrightarrow> strstr (s @ CRLF @ t) CRLF = Some (length s)"
  by (induction s) (auto simp: strstr_Cons starts_with_def CRLF_def)

lemma strstr_length: "strstr s n = Some k \<Longrightarrow> k + length n \<le> length s"
proof (induction s arbitrary: k)
  case Nil
  then show ?case by (cases n) (auto simp: strstr.simps [of "[]"] starts_with_def)
next
  case (Cons x xs)
  from Cons.prems show ?case
  proof (cases "starts_with (x # xs) n")
    case True
    then have "length n = min (Suc (length xs)) (length n)"
      by (metis starts_with_def length_Cons length_take min.commute)
    with True Cons.prems show ?thesis by (simp add: strstr_Cons)
  next
    case False
    with Cons.prems obtain j where "strstr xs n = Some j" "k = Suc j"
      by (auto simp: strstr_Cons)
    with Cons.IH show ?thesis by fastforce
  qed
qed

section \<open>Numbers\<close>

definition is_digit :: "char \<Rightarrow> bool" where
  "is_digit c \<longleftrightarrow> 48 \<le> (of_char c :: nat) \<and> (of_char c :: nat) \<le> 57"

definition is_space :: "char \<Rightarrow> bool" where
  "is_space c \<longleftrightarrow> (of_char c :: nat) = 32 \<or> (9 \<le> (of_char c :: nat) \<and> (of_char c :: nat) \<le> 13)"

definition digits_value :: "string \<Rightarrow> nat" where
  "digits_value = foldl (\<lambda>n c. 10 * n + (of_char c - 48)) 0"

text \<open>What \<open>%d\<close> of \<open>sscanf\<close> reads, with the text behind it.\<close>

definition scan_int :: "string \<Rightarrow> (int \<times> string) option" where
  "scan_int s =
     (let s = dropWhile is_space s;
          (sg, s) = (case s of [] \<Rightarrow> (1, s)
             | c # t \<Rightarrow> if c = CHR ''-'' then (- 1, t) else if c = CHR ''+'' then (1, t) else (1, s));
          ds = takeWhile is_digit s
      in if ds = [] then None else Some (sg * int (digits_value ds), dropWhile is_digit s))"

definition atoi :: "string \<Rightarrow> int" where
  "atoi s = (case scan_int s of None \<Rightarrow> 0 | Some (n, _) \<Rightarrow> n)"

text \<open>\<open>sscanf(s, "...%d-%d", &a, &b)\<close> behind the literal text, both variables being - 1 before.\<close>

definition scan_pair :: "string \<Rightarrow> int \<times> int" where
  "scan_pair s = (case scan_int s of
       None \<Rightarrow> (- 1, - 1)
     | Some (a, t) \<Rightarrow> (case t of
           [] \<Rightarrow> (a, - 1)
         | c # t \<Rightarrow> if c = CHR ''-'' then (case scan_int t of None \<Rightarrow> (a, - 1) | Some (b, _) \<Rightarrow> (a, b))
                    else (a, - 1)))"

definition digit :: "nat \<Rightarrow> char" where
  "digit n = (if n < 10 then char_of (48 + n) else char_of (87 + n))"

text \<open>\<open>%u\<close> and \<open>%x\<close>, in the given base, and the paddings with a width.\<close>

fun fmt_base :: "nat \<Rightarrow> nat \<Rightarrow> string" where
  "fmt_base b n = (if b \<le> 1 \<or> n < b then [digit n] else fmt_base b (n div b) @ [digit (n mod b)])"

declare fmt_base.simps [simp del]

definition fmt_u :: "nat \<Rightarrow> string" where
  "fmt_u n = fmt_base 10 n"

definition pad_left :: "char \<Rightarrow> nat \<Rightarrow> string \<Rightarrow> string" where
  "pad_left c w s = replicate (w - length s) c @ s"

definition fmt_02u :: "nat \<Rightarrow> string" where "fmt_02u n = pad_left (CHR ''0'') 2 (fmt_u n)"
definition fmt_04u :: "nat \<Rightarrow> string" where "fmt_04u n = pad_left (CHR ''0'') 4 (fmt_u n)"
definition fmt_8x :: "nat \<Rightarrow> string" where "fmt_8x n = pad_left (CHR '' '') 8 (fmt_base 16 n)"

subsection \<open>Printed numbers are read back\<close>

lemma of_char_digit: "n < 10 \<Longrightarrow> of_char (digit n) = 48 + n"
  by (simp add: digit_def)

lemma is_digit_digit: "n < 10 \<Longrightarrow> is_digit (digit n)"
  by (simp add: is_digit_def of_char_digit)

lemma digits_value_snoc: "digits_value (s @ [c]) = 10 * digits_value s + (of_char c - 48)"
  by (simp add: digits_value_def)

lemma fmt_u_unfold: "fmt_u n = (if n < 10 then [digit n] else fmt_u (n div 10) @ [digit (n mod 10)])"
  by (simp add: fmt_u_def fmt_base.simps [of 10 n])

lemma fmt_u_facts: "digits_value (fmt_u n) = n \<and> list_all is_digit (fmt_u n) \<and> fmt_u n \<noteq> []"
proof (induction n rule: less_induct)
  case (less n)
  show ?case
  proof (cases "n < 10")
    case True
    then show ?thesis
      by (simp add: fmt_u_unfold [of n] is_digit_digit digits_value_def of_char_digit)
  next
    case False
    then have "n div 10 < n" by simp
    from less.IH [OF this] show ?thesis
      by (simp add: fmt_u_unfold [of n] False digits_value_snoc is_digit_digit of_char_digit)
  qed
qed

lemma fmt_u_digits: "list_all is_digit (fmt_u n)"
  using fmt_u_facts [of n] by simp

lemma digits_not_space: "is_digit c \<Longrightarrow> \<not> is_space c"
  by (simp add: is_digit_def is_space_def)

lemma digit_not_sign: "is_digit c \<Longrightarrow> c \<noteq> CHR ''-'' \<and> c \<noteq> CHR ''+''"
  by (auto simp: is_digit_def)

lemma scan_int_fmt:
  assumes "list_all is_space sp" and "t = [] \<or> \<not> is_digit (hd t)"
  shows "scan_int (sp @ fmt_u n @ t) = Some (int n, t)"
proof -
  obtain d ds where u: "fmt_u n = d # ds" using fmt_u_facts [of n] by (cases "fmt_u n") auto
  have d: "is_digit d" using fmt_u_digits [of n] u by simp
  have "dropWhile is_space (sp @ fmt_u n @ t) = fmt_u n @ t"
    using assms(1) digits_not_space [OF d] u by (simp add: dropWhile_append2 list_all_iff)
  moreover have "takeWhile is_digit (fmt_u n @ t) = fmt_u n" "dropWhile is_digit (fmt_u n @ t) = t"
    using fmt_u_digits [of n] assms(2)
    by (cases t; simp add: takeWhile_append2 dropWhile_append2 list_all_iff)+
  ultimately show ?thesis
    using digit_not_sign [OF d] fmt_u_facts [of n] u by (simp add: scan_int_def)
qed

lemma atoi_fmt:
  "list_all is_space sp \<Longrightarrow> t = [] \<or> \<not> is_digit (hd t) \<Longrightarrow> atoi (sp @ fmt_u n @ t) = int n"
  by (simp add: atoi_def scan_int_fmt)

text \<open>The length of a printed number.\<close>

lemma length_fmt_u: "0 < k \<Longrightarrow> n < 10 ^ k \<Longrightarrow> length (fmt_u n) \<le> k"
proof (induction k arbitrary: n)
  case 0
  then show ?case by simp
next
  case (Suc k)
  show ?case
  proof (cases "n < 10")
    case True
    then show ?thesis by (simp add: fmt_u_unfold [of n])
  next
    case False
    then have "0 < k" using Suc.prems by (cases k) auto
    moreover have "n div 10 < 10 ^ k" using Suc.prems by (simp add: div_less_iff_less_mult)
    ultimately have "length (fmt_u (n div 10)) \<le> k" by (rule Suc.IH)
    with False show ?thesis by (simp add: fmt_u_unfold [of n])
  qed
qed

lemma length_fmt_u32 [simp]: "length (fmt_u (unat (w :: u32))) \<le> 10"
proof (rule length_fmt_u)
  show "unat w < 10 ^ 10" using unat_u32_less [of w] by simp
qed simp

lemma length_fmt_u16 [simp]: "length (fmt_u (unat (w :: u16))) \<le> 5"
proof (rule length_fmt_u)
  show "unat w < 10 ^ 5" using unat_u16_less [of w] by simp
qed simp

lemma length_pad_left: "length (pad_left c w s) = max w (length s)"
  by (simp add: pad_left_def)

end
