(* ===== verification/Printf.thy ===== *)
theory Printf
  imports EnxString RtspText
begin

text \<open>
  The formatted printer of the firmware, \<open>dev/string/vsnprintf.c\<close>. By the macros of \<open>vsnprintf.h\<close> it
  stands behind \<open>printf\<close> and \<open>sprintf\<close> everywhere, with a limit of 512 characters. The argument list
  is a list of values; a result \<open>None\<close> is an argument of the wrong kind or a missing one, which is
  undefined. Proved here: what a number looks like, that texts stay inside the buffer, and that
  numbers do not.
\<close>

section \<open>Numbers\<close>

definition ZEROPAD :: u32 where "ZEROPAD = 1"
definition SIGN :: u32 where "SIGN = 2"
definition PLUS :: u32 where "PLUS = 4"
definition SPACE :: u32 where "SPACE = 8"
definition LEFT :: u32 where "LEFT = 16"
definition SPECIAL :: u32 where "SPECIAL = 32"
definition LARGE :: u32 where "LARGE = 64"
definition PRINTFBUF_SIZE :: u64 where "PRINTFBUF_SIZE = 512"

definition has :: "u32 \<Rightarrow> u32 \<Rightarrow> bool" where "has type f \<longleftrightarrow> type AND f \<noteq> 0"

definition upper_digit :: "nat \<Rightarrow> char" where
  "upper_digit n = (if n < 10 then char_of (48 + n) else char_of (55 + n))"

text \<open>The digits collected in \<open>tmp\<close>, the last one first; zero is one digit.\<close>

function num_digits :: "(nat \<Rightarrow> char) \<Rightarrow> nat \<Rightarrow> nat \<Rightarrow> string" where
  "num_digits dig base n = (if n = 0 \<or> base < 2 then [] else dig (n mod base) # num_digits dig base (n div base))"
  by pat_completeness auto
termination by (relation "measure (\<lambda>(_, _, n). n)") auto

declare num_digits.simps [simp del]

text \<open>The sign of \<open>num\<close> and its magnitude; negating the smallest number leaves it as it is.\<close>

definition num_sign :: "u32 \<Rightarrow> u64 \<Rightarrow> string \<times> u64" where
  "num_sign type num =
     (if has type SIGN then
        (if sint num < 0 then (''-'', - num)
         else if has type PLUS then (''+'', num)
         else if has type SPACE then ('' '', num) else ([], num))
      else ([], num))"

definition num_prefix :: "u32 \<Rightarrow> nat \<Rightarrow> string" where
  "num_prefix type base = (if has type SPECIAL then (if base = 8 then ''0'' else if base = 16 then ''0x'' else []) else [])"

definition number :: "u64 \<Rightarrow> nat \<Rightarrow> int \<Rightarrow> int \<Rightarrow> u32 \<Rightarrow> string" where
  "number num base wd precision type =
     (let dig = (if has type LARGE then upper_digit else digit);
          type = (if has type LEFT then type AND NOT ZEROPAD else type);
          c = (if has type ZEROPAD then CHR ''0'' else CHR '' '');
          (sg, num) = num_sign type num;
          pre = num_prefix type base;
          tmp = (if num = 0 then ''0'' else num_digits dig base (unat num));
          prec = max precision (int (length tmp));
          pad = nat (wd - int (length sg) - int (length pre) - prec)
      in (if has type ZEROPAD \<or> has type LEFT then [] else replicate pad (CHR '' '')) @ sg @ pre @
         (if has type ZEROPAD \<and> \<not> has type LEFT then replicate pad c else []) @
         replicate (nat prec - length tmp) (CHR ''0'') @ rev tmp @
         (if has type LEFT then replicate pad (CHR '' '') else []))"

section \<open>The format\<close>

text \<open>An argument: a number as it is passed in a register, or a string, which may be a null pointer.\<close>

datatype parg = Num u64 | Str "string option"

text \<open>
  The state of the loop: what has been written, \<open>size\<close>, the arguments left, and what \<open>%n\<close> has stored
  where, as a long or as an int.
\<close>

record printer =
  pr_out :: string
  pr_size :: nat
  pr_args :: "parg list"
  pr_stores :: "(u64 \<times> bool \<times> nat) list"

text \<open>Characters are written while \<open>size\<close> lasts.\<close>

definition put_text :: "string \<Rightarrow> printer \<Rightarrow> printer" where
  "put_text s p = p\<lparr>pr_out := pr_out p @ take (pr_size p) s, pr_size := pr_size p - length s\<rparr>"

definition put_number :: "string \<Rightarrow> printer \<Rightarrow> printer" where
  "put_number s p = p\<lparr>pr_out := pr_out p @ s\<rparr>"

definition va_num :: "printer \<Rightarrow> (u64 \<times> printer) option" where
  "va_num p = (case pr_args p of Num w # as \<Rightarrow> Some (w, p\<lparr>pr_args := as\<rparr>) | _ \<Rightarrow> None)"

definition va_str :: "printer \<Rightarrow> (string option \<times> printer) option" where
  "va_str p = (case pr_args p of Str s # as \<Rightarrow> Some (s, p\<lparr>pr_args := as\<rparr>) | _ \<Rightarrow> None)"

definition as_int :: "u64 \<Rightarrow> int" where "as_int w = sint (ucast w :: u32)"

fun skip_atoi :: "int \<Rightarrow> string \<Rightarrow> int \<times> string" where
  "skip_atoi i [] = (i, [])"
| "skip_atoi i (c # s) = (if is_digit c then skip_atoi (i * 10 + (of_char c - 48)) s else (i, c # s))"

fun read_flags :: "u32 \<Rightarrow> string \<Rightarrow> u32 \<times> string" where
  "read_flags f [] = (f, [])"
| "read_flags f (c # s) =
     (if c = CHR ''-'' then read_flags (f OR LEFT) s
      else if c = CHR ''+'' then read_flags (f OR PLUS) s
      else if c = CHR '' '' then read_flags (f OR SPACE) s
      else if c = CHR ''#'' then read_flags (f OR SPECIAL) s
      else if c = CHR ''0'' then read_flags (f OR ZEROPAD) s
      else (f, c # s))"

definition starts :: "(char \<Rightarrow> bool) \<Rightarrow> string \<Rightarrow> bool" where
  "starts P s = (case s of [] \<Rightarrow> False | c # _ \<Rightarrow> P c)"

definition read_width :: "u32 \<Rightarrow> string \<Rightarrow> printer \<Rightarrow> (u32 \<times> int \<times> string \<times> printer) option" where
  "read_width f s p =
     (if starts is_digit s then (let (w, s) = skip_atoi 0 s in Some (f, w, s, p))
      else if starts (\<lambda>c. c = CHR ''*'') s then
        (case va_num p of None \<Rightarrow> None
         | Some (n, p) \<Rightarrow> Some (if as_int n < 0 then (f OR LEFT, - as_int n, tl s, p) else (f, as_int n, tl s, p)))
      else Some (f, - 1, s, p))"

definition read_precision :: "string \<Rightarrow> printer \<Rightarrow> (bool \<times> int \<times> string \<times> printer) option" where
  "read_precision s p =
     (if starts (\<lambda>c. c = CHR ''.'') s then
        (if starts is_digit (tl s) then (let (n, s) = skip_atoi 0 (tl s) in Some (True, n, s, p))
         else if starts (\<lambda>c. c = CHR ''*'') (tl s) then
           (case va_num p of None \<Rightarrow> None | Some (n, p) \<Rightarrow> Some (True, as_int n, tl (tl s), p))
         else Some (True, - 1, tl s, p))
      else Some (False, - 1, s, p))"

definition read_qualifier :: "string \<Rightarrow> char option \<times> string" where
  "read_qualifier s = (if starts (\<lambda>c. c \<in> set ''hlLI'') s then (Some (hd s), tl s) else (None, s))"

text \<open>A text in its field.\<close>

definition in_field :: "u32 \<Rightarrow> int \<Rightarrow> string \<Rightarrow> string" where
  "in_field f w s =
     (let pad = replicate (nat (w - int (length s))) (CHR '' '')
      in if has f LEFT then s @ pad else pad @ s)"

text \<open>The value of a numeric conversion.\<close>

definition num_value :: "char option \<Rightarrow> u32 \<Rightarrow> u64 \<Rightarrow> u64" where
  "num_value q f w =
     (if q = Some (CHR ''l'') then w
      else if q = Some (CHR ''h'') then
        (if has f SIGN then scast (ucast w :: u16) else ucast (ucast w :: u16))
      else if has f SIGN then scast (ucast w :: u32) else ucast (ucast w :: u32))"

text \<open>The base and the flags a numeric conversion adds.\<close>

definition num_conversion :: "char \<Rightarrow> (nat \<times> u32) option" where
  "num_conversion c =
     (if c = CHR ''b'' then Some (2, 0) else if c = CHR ''o'' then Some (8, 0)
      else if c = CHR ''d'' \<or> c = CHR ''i'' then Some (10, SIGN) else if c = CHR ''u'' then Some (10, 0)
      else if c = CHR ''X'' then Some (16, LARGE) else if c = CHR ''x'' then Some (16, 0) else None)"

text \<open>One conversion with what has been read in front of its letter; \<open>dp\<close> is the precision of \<open>%s\<close>.\<close>

definition convert_char :: "u32 \<Rightarrow> int \<Rightarrow> printer \<Rightarrow> printer option" where
  "convert_char f w p = (case va_num p of None \<Rightarrow> None
     | Some (n, p) \<Rightarrow> Some (put_text (in_field f w
         [if (ucast n :: u8) = 0 then CHR '' '' else char_of (unat (ucast n :: u8))]) p))"

definition convert_str :: "u32 \<Rightarrow> int \<Rightarrow> int \<Rightarrow> printer \<Rightarrow> printer option" where
  "convert_str f w dp p = (case va_str p of None \<Rightarrow> None
     | Some (s, p) \<Rightarrow>
         (let s = (case s of None \<Rightarrow> ''(null)'' | Some s \<Rightarrow> s);
              s = (if dp < 0 then s else take (nat dp) s)
          in Some (put_text (in_field f w s) p)))"

definition convert_ip :: "u32 \<Rightarrow> int \<Rightarrow> printer \<Rightarrow> printer option" where
  "convert_ip f w p = (case va_num p of None \<Rightarrow> None
     | Some (n, p) \<Rightarrow>
         (let (b, len) = IPtoStr (ucast n) (int (min (pr_size p) 15)) f
          in Some (put_text (in_field f w (map (char_of \<circ> unat) (take len b))) p)))"

definition convert_rest :: "char option \<Rightarrow> string \<Rightarrow> printer \<Rightarrow> printer" where
  "convert_rest q s p =
     put_text ((if starts (\<lambda>c. c = CHR ''%'') s then [] else ''%'') @
       (if q = Some (CHR ''l'') then ''l'' else []) @ take 1 s) p"

definition convert :: "u32 \<Rightarrow> int \<Rightarrow> bool \<Rightarrow> int \<Rightarrow> char option \<Rightarrow> string \<Rightarrow> printer \<Rightarrow> printer option" where
  "convert f w dot prec q s p =
     (let dp = (if dot \<and> prec < 0 then 0 else prec) in
      case s of
        [] \<Rightarrow> Some (convert_rest q s p)
      | c # _ \<Rightarrow>
         if c = CHR ''c'' then convert_char f w p
         else if c = CHR ''s'' then convert_str f w dp p
         else if c = CHR ''p'' then
           (case va_num p of None \<Rightarrow> None
            | Some (n, p) \<Rightarrow> Some (put_number (if w = - 1 then number n 16 16 dp (f OR ZEROPAD) else number n 16 w dp f) p))
         else if c = CHR ''n'' then
           (case va_num p of None \<Rightarrow> None
            | Some (n, p) \<Rightarrow> Some (p\<lparr>pr_stores := pr_stores p @ [(n, q = Some (CHR ''l''), length (pr_out p))]\<rparr>))
         else if c = CHR ''P'' then
           (if q = Some (CHR ''I'') then convert_ip f w p else Some (put_text ''%P'' p))
         else (case num_conversion c of
             None \<Rightarrow> Some (convert_rest q s p)
           | Some (base, fl) \<Rightarrow>
              (case va_num p of None \<Rightarrow> None
               | Some (n, p) \<Rightarrow> Some (put_number (number (num_value q (f OR fl) n) base w dp (f OR fl)) p))))"

text \<open>What follows a percent sign; the result is the format behind the conversion.\<close>

definition directive :: "string \<Rightarrow> printer \<Rightarrow> (string \<times> printer) option" where
  "directive s p =
     (let (f, s) = read_flags 0 s in
      case read_width f s p of None \<Rightarrow> None | Some (f, w, s, p) \<Rightarrow>
      case read_precision s p of None \<Rightarrow> None | Some (dot, prec, s, p) \<Rightarrow>
      (let (q, s) = read_qualifier s in
       case convert f w dot prec q s p of None \<Rightarrow> None | Some p \<Rightarrow> Some (tl s, p)))"

lemma skip_atoi_length: "length (snd (skip_atoi i s)) \<le> length s"
  by (induction i s rule: skip_atoi.induct) auto

lemma read_flags_length: "length (snd (read_flags f s)) \<le> length s"
  by (induction f s rule: read_flags.induct) auto

lemma directive_length:
  assumes "directive s p = Some (s', p')"
  shows "length s' \<le> length s"
proof -
  obtain f1 s1 where 1: "read_flags 0 s = (f1, s1)" by fastforce
  obtain f2 w s2 p2 where 2: "read_width f1 s1 p = Some (f2, w, s2, p2)"
    using assms 1 by (auto simp: directive_def split: option.splits)
  obtain dot prec s3 p3 where 3: "read_precision s2 p2 = Some (dot, prec, s3, p3)"
    using assms 1 2 by (auto simp: directive_def split: option.splits)
  obtain q s4 where 4: "read_qualifier s3 = (q, s4)" by fastforce
  have "s' = tl s4" using assms 1 2 3 4 by (auto simp: directive_def split: option.splits)
  moreover have "length s4 \<le> length s3" using 4 by (auto simp: read_qualifier_def split: if_splits)
  moreover have "length s3 \<le> length s2"
    using 3 skip_atoi_length [of 0 "tl s2"]
    by (auto simp: read_precision_def split: if_splits option.splits prod.splits)
  moreover have "length s2 \<le> length s1"
    using 2 skip_atoi_length [of 0 s1]
    by (auto simp: read_width_def split: if_splits option.splits prod.splits)
  moreover have "length s1 \<le> length s" using 1 read_flags_length [of 0 s] by simp
  ultimately show ?thesis by simp
qed

function vsn_loop :: "string \<Rightarrow> printer \<Rightarrow> printer option" where
  "vsn_loop s p =
     (case s of
        [] \<Rightarrow> Some p
      | c # t \<Rightarrow>
         if pr_size p = 0 then Some p
         else if c \<noteq> CHR ''%'' then vsn_loop t (put_text [c] p)
         else (case directive t p of None \<Rightarrow> None | Some (s, p) \<Rightarrow> vsn_loop s p))"
  by pat_completeness auto
termination
  by (relation "measure (length \<circ> fst)") (auto dest: directive_length)

declare vsn_loop.simps [simp del]

text \<open>
  The text written in front of the terminating zero, and the stores of \<open>%n\<close>. A \<open>size\<close> of zero wraps.
\<close>

definition vsnprintf :: "u64 \<Rightarrow> string \<Rightarrow> parg list \<Rightarrow> (string \<times> (u64 \<times> bool \<times> nat) list) option" where
  "vsnprintf bufsize fmt args =
     map_option (\<lambda>p. (pr_out p, pr_stores p))
       (vsn_loop fmt \<lparr>pr_out = [], pr_size = unat (bufsize - 1), pr_args = args, pr_stores = []\<rparr>)"

definition sprintf :: "string \<Rightarrow> parg list \<Rightarrow> string option" where
  "sprintf fmt args = map_option fst (vsnprintf PRINTFBUF_SIZE fmt args)"

definition es_snprintf :: "u64 \<Rightarrow> string \<Rightarrow> parg list \<Rightarrow> string option" where
  "es_snprintf bufsize fmt args = map_option fst (vsnprintf bufsize fmt args)"

section \<open>What a number looks like\<close>

lemma num_digits_rev: "2 \<le> base \<Longrightarrow> 0 < n \<Longrightarrow> rev (num_digits digit base n) = fmt_base base n"
proof (induction n rule: less_induct)
  case (less n)
  show ?case
  proof (cases "n < base")
    case True
    with less.prems show ?thesis
      by (simp add: num_digits.simps [of digit base n] num_digits.simps [of digit base 0]
          fmt_base.simps [of base n])
  next
    case False
    with less.prems have "n div base < n" "0 < n div base" by (simp_all add: div_greater_zero_iff)
    with less False show ?thesis
      by (simp add: num_digits.simps [of digit base n] fmt_base.simps [of base n])
  qed
qed

lemma fmt_base_0 [simp]: "fmt_base base 0 = ''0''"
proof -
  have "char_of (48 :: nat) = CHR ''0''" by code_simp
  then show ?thesis by (subst fmt_base.simps) (auto simp: digit_def)
qed

lemma number_digits:
  assumes "2 \<le> base"
  shows "rev (if num = 0 then ''0'' else num_digits digit base (unat num)) = fmt_base base (unat (num :: u64))"
  using num_digits_rev [OF assms, of "unat num"] by (simp add: unat_gt_0)

lemmas flag_defs = ZEROPAD_def SIGN_def PLUS_def SPACE_def LEFT_def SPECIAL_def LARGE_def has_def

text \<open>The forms the firmware's formats use: plain, padded with zeros, padded with blanks, signed.\<close>

lemma number_plain: "2 \<le> base \<Longrightarrow> number w base (- 1) (- 1) 0 = fmt_base base (unat w)"
  using number_digits [of base w]
  by (simp add: number_def num_sign_def num_prefix_def flag_defs Let_def)

lemma number_padded:
  assumes "2 \<le> base" "0 \<le> wd"
  shows "number w base wd (- 1) 0 = pad_left (CHR '' '') (nat wd) (fmt_base base (unat w))"
    and "number w base wd (- 1) ZEROPAD = pad_left (CHR ''0'') (nat wd) (fmt_base base (unat w))"
proof -
  let ?t = "if w = 0 then ''0'' else num_digits digit base (unat w)"
  have l: "length ?t = length (fmt_base base (unat w))"
    using arg_cong [OF number_digits [OF assms(1), of w], of length] by simp
  have n: "nat (wd - max (- 1) (int k)) = nat wd - k" for k :: nat using assms(2) by simp
  show "number w base wd (- 1) 0 = pad_left (CHR '' '') (nat wd) (fmt_base base (unat w))"
    using number_digits [OF assms(1), of w] l n [of "length ?t"]
    by (simp add: number_def num_sign_def num_prefix_def flag_defs Let_def pad_left_def)
  show "number w base wd (- 1) ZEROPAD = pad_left (CHR ''0'') (nat wd) (fmt_base base (unat w))"
    using number_digits [OF assms(1), of w] l n [of "length ?t"]
    by (simp add: number_def num_sign_def num_prefix_def flag_defs Let_def pad_left_def)
qed

lemma sint_range64: "- (2 ^ 63) \<le> sint (w :: u64)" "sint (w :: u64) < 2 ^ 63"
  using sint_greater_eq [of w] sint_less [of w] by simp_all

lemma magnitude:
  fixes w :: u64
  shows "unat (if sint w < 0 then - w else w) = nat \<bar>sint w\<bar>"
proof -
  have n: "uint (word_of_int k :: u64) = k" if "0 \<le> k" "k \<le> 2 ^ 63" for k
    using that by (simp add: uint_word_of_int)
  have w: "word_of_int (sint w) = w" by simp
  show ?thesis
  proof (cases "sint w < 0")
    case True
    have "uint (- w) = - sint w" using n [of "- sint w"] True sint_range64 [of w] w
      by (metis abs_of_neg minus_le_iff neg_0_le_iff_le less_imp_le wi_hom_neg)
    with True show ?thesis by (simp add: unat_eq_nat_uint)
  next
    case False
    then have "uint w = sint w" using n [of "sint w"] sint_range64 [of w] w by simp
    with False show ?thesis by (simp add: unat_eq_nat_uint)
  qed
qed

lemma number_signed:
  "number w 10 (- 1) (- 1) SIGN = (if sint w < 0 then ''-'' else []) @ fmt_u (nat \<bar>sint w\<bar>)"
  using magnitude [of w] number_digits [of 10 "- w"] number_digits [of 10 w]
  by (cases "sint w < 0") (auto simp: number_def num_sign_def num_prefix_def flag_defs Let_def fmt_u_def)

section \<open>The loop\<close>

lemma vsn_Nil [simp]: "vsn_loop [] p = Some p"
  by (simp add: vsn_loop.simps [of "[]"])

lemma vsn_full [simp]: "pr_size p = 0 \<Longrightarrow> vsn_loop s p = Some p"
  by (subst vsn_loop.simps) (simp split: list.split)

lemma put_text_Nil [simp]: "put_text [] p = p"
  by (simp add: put_text_def)

lemma put_text_append: "put_text t (put_text s p) = put_text (s @ t) p"
  by (simp add: put_text_def)

lemma put_text_full: "pr_size p = 0 \<Longrightarrow> put_text s p = p"
  by (simp add: put_text_def)

text \<open>Characters that are not a percent sign are copied.\<close>

lemma vsn_lit: "CHR ''%'' \<notin> set l \<Longrightarrow> vsn_loop (l @ s) p = vsn_loop s (put_text l p)"
proof (induction l arbitrary: p)
  case (Cons c l)
  show ?case
  proof (cases "pr_size p = 0")
    case True
    then show ?thesis by (simp add: put_text_full)
  next
    case False
    with Cons.prems have "vsn_loop ((c # l) @ s) p = vsn_loop (l @ s) (put_text [c] p)"
      by (subst vsn_loop.simps) auto
    also have "\<dots> = vsn_loop s (put_text l (put_text [c] p))" using Cons by simp
    finally show ?thesis by (simp add: put_text_append)
  qed
qed simp

lemma vsn_directive:
  "0 < pr_size p \<Longrightarrow> vsn_loop (CHR ''%'' # s) p =
     (case directive s p of None \<Rightarrow> None | Some (s', p') \<Rightarrow> vsn_loop s' p')"
  by (simp add: vsn_loop.simps [of "CHR ''%'' # s"])

lemmas directive_defs = directive_def read_width_def read_precision_def read_qualifier_def starts_def is_digit_def
  convert_def num_conversion_def convert_str_def convert_char_def convert_rest_def va_num_def va_str_def
  num_value_def flag_defs Let_def

lemma in_field_none: "w \<le> 0 \<Longrightarrow> in_field f w s = s"
  by (simp add: in_field_def)

text \<open>The directives of the firmware's formats.\<close>

lemma directive_s:
  "pr_args p = Str (Some x) # as \<Longrightarrow> directive (CHR ''s'' # s) p = Some (s, put_text x (p\<lparr>pr_args := as\<rparr>))"
  by (simp add: directive_defs in_field_none)

lemma directive_percent: "directive (CHR ''%'' # s) p = Some (s, put_text ''%'' p)"
  by (simp add: directive_defs)

lemma unat_ucast32: "unat (ucast (w :: u32) :: u64) = unat w"
proof -
  have "unat w < 2 ^ 64" using unat_u32_less [of w] by simp
  then show ?thesis by (simp add: unsigned_ucast_eq take_bit_nat_eq_self)
qed

lemma sint_scast32: "sint (scast (w :: u32) :: u64) = sint w"
  by (rule sint_up_scast) (simp add: is_up)

lemma directive_u:
  assumes "pr_args p = Num n # as"
  shows "directive (CHR ''u'' # s) p = Some (s, put_number (fmt_u (unat (ucast n :: u32))) (p\<lparr>pr_args := as\<rparr>))"
proof -
  have "unat (ucast (ucast n :: u32) :: u64) = unat (ucast n :: u32)" by (rule unat_ucast32)
  with assms number_plain [of 10 "ucast (ucast n :: u32)"] show ?thesis
    by (simp add: directive_defs fmt_u_def)
qed

lemma directive_d:
  assumes "pr_args p = Num n # as"
  shows "directive (CHR ''d'' # s) p = Some (s, put_number
    ((if as_int n < 0 then ''-'' else []) @ fmt_u (nat \<bar>as_int n\<bar>)) (p\<lparr>pr_args := as\<rparr>))"
proof -
  have "sint (scast (ucast n :: u32) :: u64) = as_int n" by (simp add: as_int_def sint_scast32)
  with assms number_signed [of "scast (ucast n :: u32)"] show ?thesis
    by (simp add: directive_defs del: ucast_id)
qed

lemma directive_ld:
  assumes "pr_args p = Num n # as"
  shows "directive (CHR ''l'' # CHR ''d'' # s) p = Some (s, put_number
    ((if sint n < 0 then ''-'' else []) @ fmt_u (nat \<bar>sint n\<bar>)) (p\<lparr>pr_args := as\<rparr>))"
  using assms number_signed [of n] by (simp add: directive_defs)

lemma directive_02u:
  assumes "pr_args p = Num n # as"
  shows "directive (''02u'' @ s) p = Some (s, put_number (fmt_02u (unat (ucast n :: u32))) (p\<lparr>pr_args := as\<rparr>))"
    "directive (''04u'' @ s) p = Some (s, put_number (fmt_04u (unat (ucast n :: u32))) (p\<lparr>pr_args := as\<rparr>))"
    "directive (''8x'' @ s) p = Some (s, put_number (fmt_8x (unat (ucast n :: u32))) (p\<lparr>pr_args := as\<rparr>))"
  using assms number_padded [of 10 2 "ucast (ucast n :: u32)"] number_padded [of 10 4 "ucast (ucast n :: u32)"]
    number_padded [of 16 8 "ucast (ucast n :: u32)"] unat_ucast32 [of "ucast n"]
  by (simp_all add: directive_defs fmt_02u_def fmt_04u_def fmt_8x_def fmt_u_def)

section \<open>Formats in pieces\<close>

text \<open>
  A format with its arguments, cut into what is copied and what is converted. As long as the texts
  leave room, the printer writes the pieces one behind the other; numbers take no room.
\<close>

datatype piece = Lit string | Text string | Uint u64 | Sint u64 | U02 u64 | U04 u64 | X8 u64

fun piece_fmt :: "piece \<Rightarrow> string" where
  "piece_fmt (Lit s) = s"
| "piece_fmt (Text s) = ''%s''"
| "piece_fmt (Uint w) = ''%u''"
| "piece_fmt (Sint w) = ''%d''"
| "piece_fmt (U02 w) = ''%02u''"
| "piece_fmt (U04 w) = ''%04u''"
| "piece_fmt (X8 w) = ''%8x''"

fun piece_args :: "piece \<Rightarrow> parg list" where
  "piece_args (Lit s) = []"
| "piece_args (Text s) = [Str (Some s)]"
| "piece_args (Uint w) = [Num w]"
| "piece_args (Sint w) = [Num w]"
| "piece_args (U02 w) = [Num w]"
| "piece_args (U04 w) = [Num w]"
| "piece_args (X8 w) = [Num w]"

definition low :: "u64 \<Rightarrow> nat" where "low w = unat (ucast w :: u32)"

fun piece_text :: "piece \<Rightarrow> string" where
  "piece_text (Lit s) = s"
| "piece_text (Text s) = s"
| "piece_text (Uint w) = fmt_u (low w)"
| "piece_text (Sint w) = (if as_int w < 0 then ''-'' else []) @ fmt_u (nat \<bar>as_int w\<bar>)"
| "piece_text (U02 w) = fmt_02u (low w)"
| "piece_text (U04 w) = fmt_04u (low w)"
| "piece_text (X8 w) = fmt_8x (low w)"

fun piece_room :: "piece \<Rightarrow> nat" where
  "piece_room (Lit s) = length s"
| "piece_room (Text s) = length s"
| "piece_room _ = 0"

fun piece_ok :: "piece \<Rightarrow> bool" where
  "piece_ok (Lit s) \<longleftrightarrow> CHR ''%'' \<notin> set s"
| "piece_ok _ \<longleftrightarrow> True"

lemma low_32 [simp]: "low (ucast (w :: u32)) = unat w" "low (scast (w :: u32)) = unat w" "low (ucast (v :: u16)) = unat v"
proof -
  have "(ucast (ucast w :: u64) :: u32) = w" "(ucast (scast w :: u64) :: u32) = w"
    "(ucast (ucast v :: u64) :: u32) = ucast v"
    by (rule bit_word_eqI, simp add: bit_simps)+
  moreover have "unat (ucast v :: u32) = unat v"
    using unat_u16_less [of v] by (simp add: unsigned_ucast_eq take_bit_nat_eq_self)
  ultimately show "low (ucast w) = unat w" "low (scast w) = unat w" "low (ucast v) = unat v"
    by (simp_all add: low_def)
qed

lemma low_nat: "n < 4294967296 \<Longrightarrow> low (of_nat n) = n"
proof -
  assume "n < 4294967296"
  moreover have "(ucast (of_nat n :: u64) :: u32) = of_nat n"
    by (rule bit_word_eqI) (simp add: bit_simps)
  ultimately show ?thesis by (simp add: low_def)
qed

lemma as_int_16: "as_int (ucast (v :: u16)) = uint v"
proof -
  have "(ucast (ucast v :: u64) :: u32) = ucast v" by (rule bit_word_eqI, simp add: bit_simps)
  moreover have "sint (ucast v :: u32) = uint v"
  proof -
    have v: "uint v < 65536" using uint_lt2p [of v] by simp
    have "signed_take_bit 31 (uint v) = uint v"
    proof (rule signed_take_bit_int_eq_self)
      show "- (2 ^ 31) \<le> uint v" by (rule order_trans [OF _ uint_ge_0]) simp
      show "uint v < 2 ^ 31" using v by simp
    qed
    with v show ?thesis by (simp add: sint_uint unsigned_ucast_eq take_bit_int_eq_self)
  qed
  ultimately show ?thesis by (simp add: as_int_def)
qed

lemma piece_step:
  assumes "piece_ok x" "piece_room x < pr_size p" "pr_args p = piece_args x @ as"
  shows "vsn_loop (piece_fmt x @ s) p = vsn_loop s (p\<lparr>pr_out := pr_out p @ piece_text x,
    pr_size := pr_size p - piece_room x, pr_args := as\<rparr>)"
proof -
  from assms(2) have "0 < pr_size p" by simp
  note d = vsn_directive [OF this]
  show ?thesis
  proof (cases x)
    case (Lit l)
    with assms show ?thesis by (cases p) (simp add: vsn_lit put_text_def)
  next
    case (Text l)
    with assms d directive_s [of p l as s] show ?thesis by (cases p) (simp add: put_text_def)
  next
    case (Uint w)
    with assms d directive_u [of p w as s] show ?thesis by (cases p) (simp add: put_number_def low_def)
  next
    case (Sint w)
    with assms d directive_d [of p w as s] show ?thesis by (cases p) (simp add: put_number_def low_def)
  next
    case (U02 w)
    with assms d directive_02u(1) [of p w as s] show ?thesis by (cases p) (simp add: put_number_def low_def)
  next
    case (U04 w)
    with assms d directive_02u(2) [of p w as s] show ?thesis by (cases p) (simp add: put_number_def low_def)
  next
    case (X8 w)
    with assms d directive_02u(3) [of p w as s] show ?thesis by (cases p) (simp add: put_number_def low_def)
  qed
qed

lemma pieces_loop:
  assumes "list_all piece_ok ps" "sum_list (map piece_room ps) < pr_size p"
    and "pr_args p = concat (map piece_args ps)"
  shows "map_option pr_out (vsn_loop (concat (map piece_fmt ps)) p) =
    Some (pr_out p @ concat (map piece_text ps))"
  using assms
proof (induction ps arbitrary: p)
  case (Cons x ps)
  then have "piece_ok x" "piece_room x < pr_size p" "pr_args p = piece_args x @ concat (map piece_args ps)"
    by simp_all
  note step = piece_step [OF this]
  let ?p = "p\<lparr>pr_out := pr_out p @ piece_text x, pr_size := pr_size p - piece_room x,
    pr_args := concat (map piece_args ps)\<rparr>"
  have "map_option pr_out (vsn_loop (concat (map piece_fmt ps)) ?p) = Some (pr_out ?p @ concat (map piece_text ps))"
    by (rule Cons.IH) (use Cons.prems in simp_all)
  with step show ?case by simp
qed simp

lemma sprintf_pieces:
  assumes "list_all piece_ok ps" "sum_list (map piece_room ps) < 511"
  shows "sprintf (concat (map piece_fmt ps)) (concat (map piece_args ps)) = Some (concat (map piece_text ps))"
  using pieces_loop [of ps "\<lparr>pr_out = [], pr_size = 511, pr_args = concat (map piece_args ps), pr_stores = []\<rparr>"] assms
  by (simp add: sprintf_def vsnprintf_def PRINTFBUF_SIZE_def option.map_comp comp_def)

section \<open>Reading back\<close>

lemma atoi_signed: "atoi ((if k < 0 then ''-'' else []) @ fmt_u (nat \<bar>k\<bar>)) = k"
proof (cases "k < 0")
  case False
  with atoi_fmt [of "[]" "[]" "nat \<bar>k\<bar>"] show ?thesis by simp
next
  case True
  have f: "fmt_u (nat (- k)) \<noteq> []" "digits_value (fmt_u (nat (- k))) = nat (- k)"
    using fmt_u_facts [of "nat (- k)"] by simp_all
  have t: "takeWhile is_digit (fmt_u (nat (- k))) = fmt_u (nat (- k))"
    using fmt_u_digits [of "nat (- k)"] by (simp add: list_all_iff takeWhile_eq_all_conv)
  from True f show ?thesis by (simp add: atoi_def scan_int_def is_space_def Let_def t)
qed


text \<open>Numbers are printed so that they can be read back: signed and unsigned ones of 32 bits and
  signed ones of 64 bits, the smallest ones included.\<close>

theorem printf_numbers_read_back:
  "map_option atoi (sprintf ''%d'' [Num n]) = Some (sint (ucast n :: u32)) \<and>
   map_option atoi (sprintf ''%ld'' [Num n]) = Some (sint n) \<and>
   map_option atoi (sprintf ''%u'' [Num n]) = Some (uint (ucast n :: u32))"
proof -
  have read: "atoi ((if k < 0 then ''-'' else []) @ fmt_u (nat \<bar>k\<bar>)) = k" for k
    using atoi_signed [of k] .
  have "sprintf ''%d'' [Num n] = Some ((if as_int n < 0 then ''-'' else []) @ fmt_u (nat \<bar>as_int n\<bar>))"
    "sprintf ''%ld'' [Num n] = Some ((if sint n < 0 then ''-'' else []) @ fmt_u (nat \<bar>sint n\<bar>))"
    "sprintf ''%u'' [Num n] = Some (fmt_u (unat (ucast n :: u32)))"
    by (simp_all add: sprintf_def vsnprintf_def PRINTFBUF_SIZE_def vsn_directive directive_d directive_ld
        directive_u put_number_def)
  with read [of "as_int n"] read [of "sint n"] atoi_fmt [of "[]" "[]" "unat (ucast n :: u32)"] show ?thesis
    by (simp add: as_int_def)
qed

section \<open>The buffer\<close>

text \<open>Formats that only contain characters, strings and percent signs.\<close>

fun text_only :: "string \<Rightarrow> bool" where
  "text_only [] \<longleftrightarrow> True"
| "text_only [c] \<longleftrightarrow> True"
| "text_only (c # d # s) \<longleftrightarrow>
     (if c = CHR ''%'' then d \<in> set ''sc%'' \<and> text_only s else text_only (d # s))"

text \<open>What has been written and what may still be written add up to the same as before.\<close>

abbreviation room :: "printer \<Rightarrow> nat" where "room p \<equiv> length (pr_out p) + pr_size p"

lemma put_text_room: "room (put_text s p) = room p"
  by (simp add: put_text_def)

lemma args_room [simp]: "room (p\<lparr>pr_args := as\<rparr>) = room p"
  by simp

lemma directive_text:
  assumes "d \<in> set ''sc%''" "directive (d # s) p = Some (s', p')"
  shows "s' = s \<and> room p' = room p"
proof -
  consider "d = CHR ''s''" | "d = CHR ''c''" | "d = CHR ''%''" using assms(1) by auto
  then show ?thesis
    by cases (use assms(2) in \<open>auto simp: directive_defs put_text_room split: list.splits parg.splits\<close>)
qed

lemma text_only_room: "text_only s \<Longrightarrow> vsn_loop s p = Some p' \<Longrightarrow> room p' = room p"
proof (induction s arbitrary: p rule: text_only.induct)
  case (2 c)
  have "directive [] q = Some ([], put_text ''%'' q)" for q by (simp add: directive_defs)
  with 2 show ?case
    by (subst (asm) vsn_loop.simps) (auto simp: put_text_room split: if_splits)
next
  case (3 c d s)
  show ?case
  proof (cases "pr_size p = 0")
    case True
    with 3 show ?thesis by simp
  next
    case False
    show ?thesis
    proof (cases "c = CHR ''%''")
      case True
      with 3(4) False obtain s1 p1 where d: "directive (d # s) p = Some (s1, p1)" "vsn_loop s1 p1 = Some p'"
        by (auto simp: vsn_directive split: option.splits)
      have "d \<in> set ''sc%''" "text_only s" using 3(3) True by simp_all
      with directive_text [OF this(1) d(1)] 3(1) [OF True] d(2) show ?thesis by simp
    next
      case c: False
      with False 3(4) have "vsn_loop (d # s) (put_text [c] p) = Some p'"
        by (subst (asm) vsn_loop.simps) simp
      with 3(2) [OF c] 3(3) c show ?thesis by (simp add: put_text_room)
    qed
  qed
qed simp

text \<open>C29: A format of characters and strings never writes behind the buffer, the terminating zero
  included, whatever the arguments; a string that does not fit is cut off.\<close>

theorem printf_text_bounded:
  assumes "bufsize \<noteq> 0" "text_only fmt" "es_snprintf bufsize fmt args = Some s"
  shows "length s < unat bufsize \<and> es_snprintf bufsize ''%s'' [Str (Some t)] = Some (take (unat bufsize - 1) t)"
proof
  have u: "unat (bufsize - 1) = unat bufsize - 1" using assms(1) by (simp add: unat_minus_one)
  have pos: "0 < unat bufsize" using assms(1) by (simp add: unat_gt_0)
  from assms(3) obtain p' where l: "vsn_loop fmt \<lparr>pr_out = [], pr_size = unat (bufsize - 1), pr_args = args,
      pr_stores = []\<rparr> = Some p'" "s = pr_out p'"
    by (auto simp: es_snprintf_def vsnprintf_def)
  from text_only_room [OF assms(2) l(1)] l(2) u pos show "length s < unat bufsize" by simp
  show "es_snprintf bufsize ''%s'' [Str (Some t)] = Some (take (unat bufsize - 1) t)"
    by (cases "unat bufsize - 1 = 0")
      (simp_all add: es_snprintf_def vsnprintf_def u vsn_directive directive_s put_text_def)
qed

theorem printf_text_bounded_witness:
  "\<exists>s. es_snprintf 8 ''GET %s'' [Str (Some ''/index.html'')] = Some s \<and> length s < 8"
proof -
  obtain s where s: "es_snprintf 8 ''GET %s'' [Str (Some ''/index.html'')] = Some s"
    using vsn_lit [of "''GET ''" "''%s''"]
    by (simp add: es_snprintf_def vsnprintf_def vsn_directive directive_s put_text_def)
  have "length s < unat (8 :: u64)"
    using printf_text_bounded [OF _ _ s] by simp
  with s show ?thesis by simp
qed

lemma directive_sevens:
  "0 < pr_size p \<Longrightarrow> pr_args p = replicate n (Num 7) \<Longrightarrow>
     map_option pr_out (vsn_loop (concat (replicate n ''%u'')) p) = Some (pr_out p @ replicate n (CHR ''7''))"
proof (induction n arbitrary: p)
  case (Suc n)
  have "fmt_u 7 = ''7''" by code_simp
  with Suc.prems Suc.IH [of "put_number ''7'' (p\<lparr>pr_args := replicate n (Num 7)\<rparr>)"] show ?case
    by (simp add: vsn_directive directive_u [of p 7 "replicate n (Num 7)"] put_number_def)
qed simp

text \<open>C30: Numbers do not count: whatever the size of the buffer, \<open>n\<close> conversions of a digit write \<open>n\<close>
  characters, so a buffer of that size or less is overrun; and a size of zero is no limit at all.\<close>

theorem printf_numbers_overrun:
  assumes "2 \<le> unat bufsize" "length t < 2 ^ 64 - 1"
  shows "es_snprintf bufsize (concat (replicate n ''%u'')) (replicate n (Num 7)) = Some (replicate n (CHR ''7''))
    \<and> es_snprintf 0 ''%s'' [Str (Some t)] = Some t"
proof
  have "bufsize \<noteq> 0" using assms(1) by auto
  then have "unat (bufsize - 1) = unat bufsize - 1" by (simp add: unat_minus_one)
  with assms(1) directive_sevens [of "\<lparr>pr_out = [], pr_size = unat bufsize - 1, pr_args = replicate n (Num 7), pr_stores = []\<rparr>" n]
  show "es_snprintf bufsize (concat (replicate n ''%u'')) (replicate n (Num 7)) = Some (replicate n (CHR ''7''))"
    by (simp add: es_snprintf_def vsnprintf_def option.map_comp comp_def)
  have "unat (- 1 :: u64) = 18446744073709551615" by (simp add: unsigned_minus_1_eq_mask mask_eq_exp_minus_1)
  with assms(2) show "es_snprintf 0 ''%s'' [Str (Some t)] = Some t"
    by (simp add: es_snprintf_def vsnprintf_def vsn_directive directive_s put_text_def)
qed

theorem printf_numbers_overrun_witness:
  "es_snprintf 4 (concat (replicate 9 ''%u'')) (replicate 9 (Num 7)) = Some (replicate 9 (CHR ''7''))
   \<and> es_snprintf 0 ''%s'' [Str (Some ''abc'')] = Some ''abc''"
  by (rule printf_numbers_overrun) simp_all

end
