(* ===== verification/RtspConn.thy ===== *)
theory RtspConn
  imports RtspText RtpTypes
begin

text \<open>
  One connection of the RTSP server, \<open>task/rtspd/rtspd_process.c\<close>: the client record, the state
  machine \<open>rtspd_client_rtsp_state\<close>, the parsing of a request (\<open>rtspd_client_rtsp_method_parse\<close> and
  \<open>rtspd_client_rtsp_header_parse\<close>) and the choice of the stream (\<open>rtspd_client_rtsp_check_url\<close>).
  What is undefined in C, a write outside an array, is an error value.
\<close>

section \<open>The connection\<close>

datatype rtsp_method_type =
    ENX_RTSP_METHOD_OPTIONS | ENX_RTSP_METHOD_DESCRIBE | ENX_RTSP_METHOD_SETUP
  | ENX_RTSP_METHOD_PLAY | ENX_RTSP_METHOD_PAUSE | ENX_RTSP_METHOD_TEARDOWN
  | ENX_RTSP_METHOD_GET_PARAMETER | ENX_RTSP_METHOD_SET_PARAMETER

definition ENX_RTSP_STRTYPE_NONE :: u32 where "ENX_RTSP_STRTYPE_NONE = 0"
definition ENX_RTSP_STRTYPE_numNONE :: nat where "ENX_RTSP_STRTYPE_numNONE = 2"

text \<open>
  The remaining fields of \<open>rtsp_client\<close>, with those of its \<open>conn_info\<close>. The pointer \<open>rtp_ss\<close> is
  NULL when \<open>ss_alloc\<close> is false.
\<close>

record rtsp_conn = rtsp_client +
  index :: nat
  clientid :: u32
  sockfd :: int
  login :: bool
  lastTime :: u32
  errCount :: u32
  erroldTime :: u32
  server_addr :: u32
  server_port :: u16
  client_port :: u16
  client_addr :: u32
  video_type :: rtsp_stream_type
  rtp_type :: rtsp_transport_type
  connect_time :: u32
  nVEncoderIdx :: int
  nSession :: u32
  ss_alloc :: bool
  nCSeq :: u32
  rtsp_method :: rtsp_method_type
  strUrl :: string
  strVersion :: string
  isAccept :: bool
  isTransport :: bool
  setup_query :: u32
  nQuery :: nat

text \<open>
  What can go wrong for good: a loop on a NULL session or on a packet that is too long, an access
  outside an array, a variable read before it is set.
\<close>

datatype rtsp_fault = Null_session | Bad_packet | Out_of_bounds | Uninitialised

section \<open>The state machine\<close>

text \<open>The switch of \<open>rtspd_client_rtsp_state\<close>: may a client in the second state enter the first?\<close>

fun state_allowed :: "rtsp_client_state \<Rightarrow> rtsp_client_state \<Rightarrow> bool" where
  "state_allowed ENX_RTSP_STATE_NONE st = (case st of
       ENX_RTSP_STATE_NONE \<Rightarrow> True | ENX_RTSP_STATE_ERROR \<Rightarrow> True | _ \<Rightarrow> False)"
| "state_allowed ENX_RTSP_STATE_OPTIONS st = (case st of
       ENX_RTSP_STATE_TEARDOWN \<Rightarrow> False | ENX_RTSP_STATE_ERROR \<Rightarrow> False | _ \<Rightarrow> True)"
| "state_allowed ENX_RTSP_STATE_DESCRIBE st = (case st of
       ENX_RTSP_STATE_NONE \<Rightarrow> False | ENX_RTSP_STATE_TEARDOWN \<Rightarrow> False
     | ENX_RTSP_STATE_ERROR \<Rightarrow> False | _ \<Rightarrow> True)"
| "state_allowed ENX_RTSP_STATE_SETUP st = (case st of
       ENX_RTSP_STATE_OPTIONS \<Rightarrow> True | ENX_RTSP_STATE_DESCRIBE \<Rightarrow> True | ENX_RTSP_STATE_SETUP \<Rightarrow> True
     | ENX_RTSP_STATE_GET_PARAMETER \<Rightarrow> True | ENX_RTSP_STATE_SET_PARAMETER \<Rightarrow> True | _ \<Rightarrow> False)"
| "state_allowed ENX_RTSP_STATE_PLAY st = (case st of
       ENX_RTSP_STATE_SETUP \<Rightarrow> True | ENX_RTSP_STATE_PLAY \<Rightarrow> True | ENX_RTSP_STATE_PAUSE \<Rightarrow> True
     | ENX_RTSP_STATE_GET_PARAMETER \<Rightarrow> True | ENX_RTSP_STATE_SET_PARAMETER \<Rightarrow> True | _ \<Rightarrow> False)"
| "state_allowed ENX_RTSP_STATE_PAUSE st = (case st of
       ENX_RTSP_STATE_PLAY \<Rightarrow> True | ENX_RTSP_STATE_PAUSE \<Rightarrow> True
     | ENX_RTSP_STATE_GET_PARAMETER \<Rightarrow> True | ENX_RTSP_STATE_SET_PARAMETER \<Rightarrow> True | _ \<Rightarrow> False)"
| "state_allowed ENX_RTSP_STATE_TEARDOWN st = (case st of ENX_RTSP_STATE_ERROR \<Rightarrow> False | _ \<Rightarrow> True)"
| "state_allowed ENX_RTSP_STATE_GET_PARAMETER st = (case st of
       ENX_RTSP_STATE_TEARDOWN \<Rightarrow> False | ENX_RTSP_STATE_ERROR \<Rightarrow> False | _ \<Rightarrow> True)"
| "state_allowed ENX_RTSP_STATE_SET_PARAMETER st = (case st of
       ENX_RTSP_STATE_TEARDOWN \<Rightarrow> False | ENX_RTSP_STATE_ERROR \<Rightarrow> False | _ \<Rightarrow> True)"
| "state_allowed ENX_RTSP_STATE_ERROR st = True"

definition rtspd_client_rtsp_state :: "rtsp_conn \<Rightarrow> rtsp_client_state \<Rightarrow> rtsp_conn \<times> int" where
  "rtspd_client_rtsp_state c st =
     (if state_allowed st (cl_state c)
      then (case st of
          ENX_RTSP_STATE_GET_PARAMETER \<Rightarrow> (c, 0)
        | ENX_RTSP_STATE_SET_PARAMETER \<Rightarrow> (c, 0)
        | _ \<Rightarrow> (c\<lparr>cl_state := st\<rparr>, 0))
      else (c, - 1))"

section \<open>Request headers\<close>

text \<open>
  A header line \<open>h\<close> ends in a NUL that has replaced the carriage return; \<open>after\<close> is what follows
  the NUL. The value is read from one character behind the name, past the NUL when the line ends
  with the name.
\<close>

definition hdr_value :: "string \<Rightarrow> string \<Rightarrow> string \<Rightarrow> string" where
  "hdr_value name h after =
     (let n = length name + 1
      in if n \<le> length h then drop n h else drop (n - length h - 1) after)"

text \<open>The track of a SETUP URL: what follows the second slash behind the \<open>//\<close>.\<close>

definition setup_track :: "string \<Rightarrow> string option" where
  "setup_track url = (case strstr url ''//'' of None \<Rightarrow> None | Some i \<Rightarrow>
     (let s = drop (i + 2) url in case strchr s (CHR ''/'') of None \<Rightarrow> None | Some j \<Rightarrow>
       (let s = drop (j + 1) s in case strchr s (CHR ''/'') of None \<Rightarrow> None | Some k \<Rightarrow>
          Some (drop (k + 1) s))))"

text \<open>
  The ports are arrays of \<open>ENX_RTSP_STRTYPE_numNONE\<close> words: storing at that index writes into the
  next field of the client, its queue pointer.
\<close>

definition set_ports :: "int \<times> int \<Rightarrow> rtsp_conn \<Rightarrow> rtsp_fault + rtsp_conn" where
  "set_ports ports c =
     (if nQuery c < ENX_RTSP_STRTYPE_numNONE
      then Inr (c\<lparr>rtp_port := (rtp_port c)(nQuery c := word_of_int (fst ports)),
                 rtcp_port := (rtcp_port c)(nQuery c := word_of_int (snd ports))\<rparr>)
      else Inl Out_of_bounds)"

text \<open>The two ports behind a key of the transport header.\<close>

definition transport_ports :: "string \<Rightarrow> string \<Rightarrow> int \<times> int" where
  "transport_ports key v = (case strstr v key of None \<Rightarrow> (- 1, - 1)
     | Some i \<Rightarrow> scan_pair (drop (i + length key) v))"

definition header_setup :: "string \<Rightarrow> string \<Rightarrow> rtsp_conn \<Rightarrow> rtsp_fault + rtsp_conn" where
  "header_setup h after c =
     (let track = setup_track (strUrl c);
          c' = (case track of None \<Rightarrow> c | Some t \<Rightarrow>
              if starts_with t ''video''
              then c\<lparr>setup_query := ENX_RTSP_STRTYPE_VIDEO, nQuery := ENX_RTSP_STRTYPE_numVIDEO\<rparr>
              else if starts_with t ''audio''
              then c\<lparr>setup_query := ENX_RTSP_STRTYPE_AUDIO, nQuery := ENX_RTSP_STRTYPE_numAUDIO\<rparr>
              else c);
          c = (if setup_query c = ENX_RTSP_STRTYPE_NONE then c' else c)
      in if setup_query c = ENX_RTSP_STRTYPE_NONE \<and> track = None then Inr c
         else if starts_with h ''Transport'' then
           (let c = c\<lparr>isTransport := True\<rparr>; v = hdr_value ''Transport'' h after
            in if strstr v ''RTP/AVP/TCP'' \<noteq> None
               then set_ports (transport_ports ''interleaved='' v) (c\<lparr>eTransport := ENX_RTSP_TRANSPORT_TCP\<rparr>)
               else if strstr v ''RTP/AVP'' \<noteq> None
               then set_ports (transport_ports ''client_port='' v) (c\<lparr>eTransport := ENX_RTSP_TRANSPORT_UDP\<rparr>)
               else Inr c)
         else Inr c)"

definition header_common :: "string \<Rightarrow> string \<Rightarrow> rtsp_conn \<Rightarrow> rtsp_conn" where
  "header_common h after c =
     (if starts_with h ''CSeq'' then c\<lparr>nCSeq := word_of_int (atoi (hdr_value ''CSeq'' h after))\<rparr>
      else if starts_with h ''Session''
      then c\<lparr>nSession := word_of_int (atoi (hdr_value ''Session'' h after))\<rparr> else c)"

definition rtspd_client_rtsp_header_parse ::
  "string \<Rightarrow> string \<Rightarrow> rtsp_conn \<Rightarrow> rtsp_fault + rtsp_conn" where
  "rtspd_client_rtsp_header_parse h after c =
     (let c = header_common h after c
      in case rtsp_method c of
          ENX_RTSP_METHOD_DESCRIBE \<Rightarrow>
            if starts_with h ''Accept''
            then Inr (c\<lparr>isAccept := strstr (hdr_value ''Accept'' h after) ''application/sdp'' \<noteq> None\<rparr>)
            else Inr c
        | ENX_RTSP_METHOD_SETUP \<Rightarrow> header_setup h after c
        | _ \<Rightarrow> Inr c)"

text \<open>The header loop of \<open>rtspd_client_rtsp_method_parse\<close>.\<close>

function header_loop :: "string \<Rightarrow> rtsp_conn \<Rightarrow> rtsp_fault + rtsp_conn" where
  "header_loop s c = (case strstr s CRLF of
       None \<Rightarrow> Inr c
     | Some k \<Rightarrow> (case rtspd_client_rtsp_header_parse (take k s) (drop (k + 1) s) c of
           Inl e \<Rightarrow> Inl e
         | Inr c \<Rightarrow> header_loop (drop (k + 2) s) c))"
  by pat_completeness auto

termination
proof (relation "measure (\<lambda>(s, c). length s)", goal_cases)
  case (2 s c k c')
  then show ?case using strstr_length [of s CRLF k] by (simp add: CRLF_def)
qed simp

declare header_loop.simps [simp del]

definition method_of :: "string \<Rightarrow> rtsp_method_type option" where
  "method_of s =
     (if s = ''OPTIONS'' then Some ENX_RTSP_METHOD_OPTIONS
      else if s = ''TEARDOWN'' then Some ENX_RTSP_METHOD_TEARDOWN
      else if s = ''DESCRIBE'' then Some ENX_RTSP_METHOD_DESCRIBE
      else if s = ''SETUP'' then Some ENX_RTSP_METHOD_SETUP
      else if s = ''PLAY'' then Some ENX_RTSP_METHOD_PLAY
      else if s = ''PAUSE'' then Some ENX_RTSP_METHOD_PAUSE
      else if s = ''GET_PARAMETER'' then Some ENX_RTSP_METHOD_GET_PARAMETER
      else if s = ''SET_PARAMETER'' then Some ENX_RTSP_METHOD_SET_PARAMETER
      else None)"

definition rtspd_client_rtsp_method_parse :: "string \<Rightarrow> rtsp_conn \<Rightarrow> rtsp_fault + rtsp_conn \<times> int" where
  "rtspd_client_rtsp_method_parse s c =
     (case strchr s (CHR '' '') of None \<Rightarrow> Inr (c, - 1) | Some i \<Rightarrow>
      (case method_of (take i s) of None \<Rightarrow> Inr (c, - 1) | Some m \<Rightarrow>
       (let c = c\<lparr>rtsp_method := m\<rparr>; s = drop (i + 1) s in
        case strchr s (CHR '' '') of None \<Rightarrow> Inr (c, - 1) | Some j \<Rightarrow>
        (let c = c\<lparr>strUrl := strlcpy 128 (take j s)\<rparr>; s = drop (j + 1) s in
         case strstr s CRLF of None \<Rightarrow> Inr (c, - 1) | Some k \<Rightarrow>
         (let c = c\<lparr>strVersion := strlcpy 12 (take k s), isAccept := False, isTransport := False,
                   setup_query := ENX_RTSP_STRTYPE_NONE, nQuery := ENX_RTSP_STRTYPE_numNONE\<rparr>
          in case header_loop (drop (k + 2) s) c of Inl e \<Rightarrow> Inl e | Inr c \<Rightarrow> Inr (c, 0))))))"

section \<open>The stream of a URL\<close>

text \<open>The configured channels \<open>gtUser.vcVideo\<close>: the URL of the stream and its codec.\<close>

type_synonym vcVideo = "(string \<times> VideoCodec) list"

definition live_stream :: "VideoCodec \<Rightarrow> rtsp_stream_type" where
  "live_stream vc = (case vc of
       e_vcodecH265 \<Rightarrow> ENX_RTSP_STREAM_LIVE_H265_1
     | e_vcodecH264 \<Rightarrow> ENX_RTSP_STREAM_LIVE_H264_1
     | e_vcodecJPEG \<Rightarrow> ENX_RTSP_STREAM_LIVE_JPEG)"

text \<open>The loop over the channels; \<open>snprintf\<close> keeps 17 characters of the slash and the URL.\<close>

fun find_channel :: "string \<Rightarrow> int \<Rightarrow> vcVideo \<Rightarrow> (int \<times> VideoCodec) option" where
  "find_channel path i [] = None"
| "find_channel path i ((url, vc) # vs) =
     (if path = take 17 (CHR ''/'' # url) then Some (i, vc) else find_channel path (i + 1) vs)"

definition rtspd_client_rtsp_check_url :: "vcVideo \<Rightarrow> string \<Rightarrow> rtsp_conn \<Rightarrow> rtsp_conn \<times> int" where
  "rtspd_client_rtsp_check_url vs url c =
     (let c = c\<lparr>nVEncoderIdx := - 1\<rparr> in
      if isLive c = ENX_RTSP_STREAM_NONE then
        (let c = c\<lparr>isLive := ENX_RTSP_STREAM_ERROR\<rparr> in
         case strstr url ''//'' of None \<Rightarrow> (c, - 1) | Some i \<Rightarrow>
         (let s = drop (i + 2) url in
          case strchr s (CHR ''/'') of None \<Rightarrow> (c, - 1) | Some j \<Rightarrow>
          (let path = drop j s in
           if starts_with path ''/sdcard/'' then (c\<lparr>isLive := ENX_RTSP_STREAM_FILE_H264_TYPE\<rparr>, 0)
           else (case find_channel path 0 vs of None \<Rightarrow> (c, - 1)
             | Some (n, vc) \<Rightarrow> (c\<lparr>nVEncoderIdx := n, isLive := live_stream vc\<rparr>, 0)))))
      else if isLive c \<in> {ENX_RTSP_STREAM_FILE_H264_TYPE, ENX_RTSP_STREAM_FILE_H265_TYPE,
                ENX_RTSP_STREAM_LIVE_H264_1, ENX_RTSP_STREAM_LIVE_H264_2,
                ENX_RTSP_STREAM_LIVE_H265_1, ENX_RTSP_STREAM_LIVE_H265_2, ENX_RTSP_STREAM_LIVE_JPEG}
      then (c\<lparr>video_type := isLive c\<rparr>, 0)
      else (c, - 1))"

end
