(* ===== verification/RtspReply.thy ===== *)
theory RtspReply
  imports RtspConn
begin

text \<open>
  The replies of \<open>task/rtspd/rtspd_process.c\<close>: one definition per \<open>rtspd_client_rtsp_process_*\<close>
  and their dispatch, \<open>rtspd_client_rtsp_response\<close>. A reply is the text in the send buffer; the
  return values of the handlers, which the dispatch discards, are left out. The configuration is
  the one of the sources with audio: raw PCM at 44.1 kHz, JPEG streaming on, no login.
\<close>

section \<open>The environment of a request\<close>

record tm =
  tm_sec :: nat
  tm_min :: nat
  tm_hour :: nat
  tm_mday :: nat
  tm_mon :: nat
  tm_year :: nat
  tm_wday :: nat

text \<open>
  What a handler reads from outside: the clock, the configured channels, the address of the
  interface, whether the allocation of the sessions succeeds, three values of \<open>rand\<close>, and the
  machine timer.
\<close>

record rtsp_env =
  env_now :: tm
  env_channels :: vcVideo
  env_ip :: string
  env_calloc :: bool
  env_rand :: "u32 \<times> u32 \<times> u32"
  env_mtime :: u64

text \<open>The text to send and whether \<open>rtspd_client_rtp_main\<close> has been started.\<close>

record rtsp_reply =
  rp_text :: string
  rp_spawn :: bool

definition reply :: "rtsp_conn \<Rightarrow> string \<Rightarrow> rtsp_conn \<times> rtsp_reply" where
  "reply c s = (c, \<lparr>rp_text = s, rp_spawn = False\<rparr>)"

section \<open>Common parts of a reply\<close>

definition strWeek :: "string list" where
  "strWeek = [''Sun'', ''Mon'', ''Tue'', ''Wed'', ''Thu'', ''Fri'', ''Sat'']"

definition strMonth :: "string list" where
  "strMonth = [''Jan'', ''Feb'', ''Mar'', ''Apr'', ''May'', ''Jun'', ''Jul'', ''Aug'', ''Sep'', ''Oct'', ''Nov'', ''Dec'']"

definition rtspd_client_rtsp_make_datetime :: "tm \<Rightarrow> string" where
  "rtspd_client_rtsp_make_datetime t =
     ''Date: '' @ strWeek ! tm_wday t @ '', '' @ strMonth ! tm_mon t @ '' '' @ fmt_02u (tm_mday t) @ '' '' @
     fmt_04u (tm_year t + 1900) @ '' '' @ fmt_02u (tm_hour t) @ '':'' @ fmt_02u (tm_min t) @ '':'' @
     fmt_02u (tm_sec t) @ '' GMT'' @ CRLF"

definition RESPONSE_HEAD :: "string \<Rightarrow> rtsp_conn \<Rightarrow> string" where
  "RESPONSE_HEAD code c = ''RTSP/1.0 '' @ code @ CRLF @ ''CSeq: '' @ fmt_u (unat (nCSeq c)) @ CRLF"

definition RESPONSE_HEAD_S :: "string \<Rightarrow> rtsp_conn \<Rightarrow> string" where
  "RESPONSE_HEAD_S code c = ''RTSP/1.0 '' @ code @ CRLF @ ''CSeq: '' @ fmt_u (unat (nCSeq c)) @ CRLF @
     ''Session: '' @ fmt_u (unat (nSession c)) @ CRLF"

definition reply_head :: "string \<Rightarrow> rtsp_conn \<Rightarrow> string" where
  "reply_head code c = (if nSession c = 0 then RESPONSE_HEAD code c else RESPONSE_HEAD_S code c)"

definition ENX_RTSP_RESPONSE_200 :: string where "ENX_RTSP_RESPONSE_200 = ''200 OK''"
definition ENX_RTSP_RESPONSE_400 :: string where "ENX_RTSP_RESPONSE_400 = ''400 Bad Request''"
definition ENX_RTSP_RESPONSE_401 :: string where "ENX_RTSP_RESPONSE_401 = ''401 Unauthorized''"
definition ENX_RTSP_RESPONSE_404 :: string where "ENX_RTSP_RESPONSE_404 = ''404 Not Found''"
definition ENX_RTSP_RESPONSE_406 :: string where "ENX_RTSP_RESPONSE_406 = ''406 Not Acceptable''"
definition ENX_RTSP_RESPONSE_412 :: string where "ENX_RTSP_RESPONSE_412 = ''412 Precondition Failed''"
definition ENX_RTSP_RESPONSE_453 :: string where "ENX_RTSP_RESPONSE_453 = ''453 Not Enough Bandwidth''"
definition ENX_RTSP_RESPONSE_455 :: string where
  "ENX_RTSP_RESPONSE_455 = ''455 Method Not Valid in This State''"
definition ENX_RTSP_RESPONSE_458 :: string where "ENX_RTSP_RESPONSE_458 = ''458 Parameter Is Read-Only''"
definition ENX_RTSP_RESPONSE_461 :: string where "ENX_RTSP_RESPONSE_461 = ''461 Unsupported transport''"
definition ENX_RTSP_RESPONSE_500 :: string where "ENX_RTSP_RESPONSE_500 = ''500 Internal Server Error''"
definition ENX_RTSP_RESPONSE_501 :: string where "ENX_RTSP_RESPONSE_501 = ''501 Not Implemented''"

lemmas response_codes = ENX_RTSP_RESPONSE_200_def ENX_RTSP_RESPONSE_400_def ENX_RTSP_RESPONSE_401_def
  ENX_RTSP_RESPONSE_404_def ENX_RTSP_RESPONSE_406_def ENX_RTSP_RESPONSE_412_def
  ENX_RTSP_RESPONSE_453_def ENX_RTSP_RESPONSE_455_def ENX_RTSP_RESPONSE_458_def
  ENX_RTSP_RESPONSE_461_def ENX_RTSP_RESPONSE_500_def ENX_RTSP_RESPONSE_501_def

definition ENX_RTSP_RESPONSE_OPTIONS :: string where
  "ENX_RTSP_RESPONSE_OPTIONS =
     ''Public: OPTIONS, DESCRIBE, PLAY, PAUSE, SETUP, TEARDOWN, SET_PARAMETER, GET_PARAMETER'' @ CRLF"

section \<open>Handlers\<close>

text \<open>An error reply: five of the codes leave the state, every other one sets \<open>ERROR\<close>.\<close>

definition rtspd_client_rtsp_process_error ::
  "rtsp_env \<Rightarrow> string \<Rightarrow> rtsp_conn \<Rightarrow> rtsp_conn \<times> rtsp_reply" where
  "rtspd_client_rtsp_process_error e code c =
     (let c = (if code \<in> {ENX_RTSP_RESPONSE_404, ENX_RTSP_RESPONSE_461, ENX_RTSP_RESPONSE_458,
                          ENX_RTSP_RESPONSE_453, ENX_RTSP_RESPONSE_401} then c
               else fst (rtspd_client_rtsp_state c ENX_RTSP_STATE_ERROR))
      in reply c (reply_head code c @ rtspd_client_rtsp_make_datetime (env_now e) @ CRLF))"

text \<open>The plain positive reply of PAUSE, TEARDOWN and GET_PARAMETER.\<close>

definition reply_ok :: "rtsp_env \<Rightarrow> rtsp_conn \<Rightarrow> rtsp_conn \<times> rtsp_reply" where
  "reply_ok e c = reply c (reply_head ENX_RTSP_RESPONSE_200 c @
     rtspd_client_rtsp_make_datetime (env_now e) @ CRLF)"

definition rtspd_client_rtsp_process_options :: "rtsp_env \<Rightarrow> rtsp_conn \<Rightarrow> rtsp_conn \<times> rtsp_reply" where
  "rtspd_client_rtsp_process_options e c =
     (let (c, res) = rtspd_client_rtsp_state c ENX_RTSP_STATE_OPTIONS
      in if res = 0
         then reply c (reply_head ENX_RTSP_RESPONSE_200 c @ ENX_RTSP_RESPONSE_OPTIONS @
                rtspd_client_rtsp_make_datetime (env_now e) @ CRLF)
         else rtspd_client_rtsp_process_error e ENX_RTSP_RESPONSE_400 c)"

subsection \<open>DESCRIBE\<close>

definition LF :: string where "LF = [CHR 0x0A]"

definition RTSPD_SERVER_AGENT :: string where
  "RTSPD_SERVER_AGENT = ''Eyenix Network Camera System''"

definition RTP_numPayload_L16S :: u32 where "RTP_numPayload_L16S = 11"
definition RTP_numPayload_JPEG :: u32 where "RTP_numPayload_JPEG = 26"
definition RTP_numPayload_H264 :: u32 where "RTP_numPayload_H264 = 96"
definition RTP_numPayload_H265 :: u32 where "RTP_numPayload_H265 = 96"

definition sdpSession :: "string \<Rightarrow> string \<Rightarrow> string \<Rightarrow> string" where
  "sdpSession ip name url =
     ''v=0'' @ LF @
     ''o=- 0 0 IN IP4 '' @ ip @ LF @
     ''s=Session streamed by \"'' @ RTSPD_SERVER_AGENT @ ''\"'' @ LF @
     ''i='' @ name @ LF @
     ''c=IN IP4 0.0.0.0'' @ LF @
     ''t=0 0'' @ LF @
     ''a=tool:'' @ RTSPD_SERVER_AGENT @ LF @
     ''a=control:'' @ url @ LF @
     ''a=range:npt=0-'' @ LF @
     ''a=x-qt-text-nam:Session streamed by \"'' @ RTSPD_SERVER_AGENT @ ''\"'' @ LF @
     ''a=x-qt-text-inf:'' @ name @ LF"

definition sdpH264Line :: "string \<Rightarrow> string" where
  "sdpH264Line url =
     ''m=video 0 RTP/AVP '' @ fmt_u (unat RTP_numPayload_H264) @ LF @
     ''b=AS:20480'' @ LF @
     ''a=rtpmap:'' @ fmt_u (unat RTP_numPayload_H264) @ '' H264/90000'' @ LF @
     ''a=control:'' @ url @ ''/video'' @ LF @
     ''a=recvonly'' @ LF @
     ''a=fmtp:'' @ fmt_u (unat RTP_numPayload_H264) @ '' packetization-mode=1'' @ LF"

definition sdpH265Line :: "string \<Rightarrow> string" where
  "sdpH265Line url =
     ''m=video 0 RTP/AVP '' @ fmt_u (unat RTP_numPayload_H265) @ LF @
     ''b=AS:20480'' @ LF @
     ''a=rtpmap:'' @ fmt_u (unat RTP_numPayload_H265) @ '' H265/90000'' @ LF @
     ''a=control:'' @ url @ ''/video'' @ LF @
     ''a=recvonly'' @ LF @
     ''a=fmtp:'' @ fmt_u (unat RTP_numPayload_H265) @
       '' sprop-sps=QgEBAWAAAAMAsAAAAwAAAwB7oAPAgBDlja5JMvwCAAADAAIAAAMAeUI=; sprop-pps=RAHA8vA8kAA='' @ LF @
     ''a=Media_header:MEDIAINFO=494D4B480102000004000500000000000000000000000000'' @
       ''00000000000000000000000000000000;'' @ LF @
     ''a=appversion:1.0'' @ LF"

definition sdpJPEGLine :: "string \<Rightarrow> string" where
  "sdpJPEGLine url =
     ''m=video 0 RTP/AVP '' @ fmt_u (unat RTP_numPayload_JPEG) @ LF @
     ''b=AS:20480'' @ LF @
     ''a=rtpmap:'' @ fmt_u (unat RTP_numPayload_JPEG) @ '' JPEG/90000'' @ LF @
     ''a=control:'' @ url @ ''/video'' @ LF @
     ''a=recvonly'' @ LF"

definition sdpAudLine :: "string \<Rightarrow> string" where
  "sdpAudLine url =
     ''m=audio 0 RTP/AVP '' @ fmt_u (unat RTP_numPayload_L16S) @ LF @
     ''b=AS:705'' @ LF @
     ''a=rtpmap:'' @ fmt_u (unat RTP_numPayload_L16S) @ '' L16/44100'' @ LF @
     ''a=control:'' @ url @ ''/audio'' @ LF @
     ''a=recvonly'' @ LF"

text \<open>The address in the URL, at most 15 characters of it.\<close>

definition sdp_ip :: "rtsp_env \<Rightarrow> string \<Rightarrow> string" where
  "sdp_ip e url = (case strstr url ''//'' of None \<Rightarrow> [] | Some i \<Rightarrow>
     (let s = drop (i + 2) url in
      case (case strchr s (CHR '':'') of None \<Rightarrow> strchr s (CHR ''/'') | Some k \<Rightarrow> Some k) of
          None \<Rightarrow> env_ip e
        | Some k \<Rightarrow> strlcpy (min 16 (k + 1)) s))"

definition describe_sdp :: "rtsp_env \<Rightarrow> rtsp_conn \<Rightarrow> string" where
  "describe_sdp e c =
     (let ip = sdp_ip e (strUrl c); url = strUrl c in
      (case isLive c of
          ENX_RTSP_STREAM_LIVE_H264_1 \<Rightarrow> sdpSession ip ''H264Stream'' url @ sdpH264Line url
        | ENX_RTSP_STREAM_LIVE_H264_2 \<Rightarrow> sdpSession ip ''H264Stream'' url @ sdpH264Line url
        | ENX_RTSP_STREAM_LIVE_H265_1 \<Rightarrow> sdpSession ip ''H265Stream'' url @ sdpH265Line url
        | ENX_RTSP_STREAM_LIVE_H265_2 \<Rightarrow> sdpSession ip ''H265Stream'' url @ sdpH265Line url
        | ENX_RTSP_STREAM_LIVE_JPEG \<Rightarrow> sdpSession ip ''JPEGStream'' url @ sdpJPEGLine url
        | _ \<Rightarrow> []) @ sdpAudLine url)"

text \<open>The description is printed into an array of 1024 characters, unchecked.\<close>

definition strSdp_size :: nat where "strSdp_size = 1024"

definition rtspd_client_rtsp_process_describe ::
  "rtsp_env \<Rightarrow> rtsp_conn \<Rightarrow> rtsp_fault + rtsp_conn \<times> rtsp_reply" where
  "rtspd_client_rtsp_process_describe e c =
     (let (c, res) = rtspd_client_rtsp_state c ENX_RTSP_STATE_DESCRIBE
      in if res = 0 then
           (if isAccept c then
              (let sdp = describe_sdp e c in
               if strSdp_size \<le> length sdp then Inl Out_of_bounds
               else Inr (reply c (reply_head ENX_RTSP_RESPONSE_200 c @
                      rtspd_client_rtsp_make_datetime (env_now e) @
                      ''Content-Type: application/sdp'' @ CRLF @
                      ''Content-Length: '' @ fmt_u (length sdp) @ CRLF @ CRLF @ sdp)))
            else Inr (rtspd_client_rtsp_process_error e ENX_RTSP_RESPONSE_406 c))
         else Inr (rtspd_client_rtsp_process_error e ENX_RTSP_RESPONSE_412 c))"

subsection \<open>SETUP\<close>

definition RTSP_play_MAX :: nat where "RTSP_play_MAX = 2"

text \<open>
  A session from \<open>pvPortCalloc\<close>. Its state is the number 0, which names no state; it is never read:
  SETUP stores \<open>READY\<close> in the session of the track before its bit is set in \<open>play_query\<close>.
\<close>

definition zero_session :: rtp_session where
  "zero_session = \<lparr>tx_ready = ENX_RTP_TXSTE_END,
     rtp_pk = \<lparr>pk_base = 0, pk_size = 0, pk_offset = 0, pk_width = 0, pk_height = 0, pk_data_offset = 0,
       pk_nalfirst = 0, pk_naltype = 0, pk_nalidc = 0, pk_nalnum = 0, pk_nalunithdr = 0\<rparr>,
     payload_type = 0, ssrc = 0, start_rtptime = 0, start_seq = 0, sr_send_time = 0, packet_cnt = 0,
     total_length = 0, buffer = (\<lambda>_ _. 0), buf_len = (\<lambda>_. 0), buf_idx = 0\<rparr>"

text \<open>The payload type of the track asked for, if it can be served.\<close>

definition setup_payload :: "rtsp_conn \<Rightarrow> u32 option" where
  "setup_payload c =
     (if setup_query c = ENX_RTSP_STRTYPE_VIDEO then
        (if isLive c \<in> {ENX_RTSP_STREAM_FILE_H264_TYPE, ENX_RTSP_STREAM_LIVE_H264_1, ENX_RTSP_STREAM_LIVE_H264_2}
         then Some RTP_numPayload_H264
         else if isLive c \<in> {ENX_RTSP_STREAM_FILE_H265_TYPE, ENX_RTSP_STREAM_LIVE_H265_1, ENX_RTSP_STREAM_LIVE_H265_2}
         then Some RTP_numPayload_H265
         else if isLive c = ENX_RTSP_STREAM_LIVE_JPEG then Some RTP_numPayload_JPEG
         else None)
      else if setup_query c = ENX_RTSP_STRTYPE_AUDIO then Some RTP_numPayload_L16S
      else None)"

definition setup_session :: "rtsp_env \<Rightarrow> u32 \<Rightarrow> rtp_session \<Rightarrow> rtp_session" where
  "setup_session e pt s =
     (case env_rand e of (r1, r2, r3) \<Rightarrow>
       s\<lparr>payload_type := pt, ssrc := r1 * r2,
         start_rtptime := ucast (env_mtime e * 9 div 50),
         start_seq := 1 + ucast (r3 mod 0xFFFF),
         packet_cnt := 0, total_length := 0,
         rtp_pk := (rtp_pk s)\<lparr>pk_nalnum := 0xFFFFFFFF\<rparr>,
         tx_ready := ENX_RTP_TXSTE_READY\<rparr>)"

definition setup_transport :: "rtsp_conn \<Rightarrow> string" where
  "setup_transport c =
     (let k = nQuery c; ports = fmt_u (unat (rtp_port c k)) @ ''-'' @ fmt_u (unat (rtcp_port c k))
      in (if eTransport c = ENX_RTSP_TRANSPORT_UDP
          then ''Transport: RTP/AVP;unicast;client_port='' @ ports @ '';server_port='' @ fmt_u 554 @ ''-'' @ fmt_u 555
          else ''Transport: RTP/AVP/TCP;unicast;interleaved='' @ ports) @
         '';ssrc='' @ fmt_8x (unat (ssrc (rtp_ss c k))) @ '';mode=\"PLAY\"'' @ CRLF)"

text \<open>The sessions are allocated by the first SETUP.\<close>

definition setup_alloc :: "rtsp_conn \<Rightarrow> rtsp_conn" where
  "setup_alloc c = (if ss_alloc c then c else c\<lparr>ss_alloc := True, rtp_ss := \<lambda>_. zero_session\<rparr>)"

text \<open>What a SETUP that succeeds leaves in the client.\<close>

definition setup_done :: "rtsp_env \<Rightarrow> u32 \<Rightarrow> rtsp_conn \<Rightarrow> rtsp_conn" where
  "setup_done e pt c =
     (let c = (if nSession c = 0 then c\<lparr>nSession := clientid c\<rparr> else c);
          c = c\<lparr>rtp_ss := (rtp_ss c)(nQuery c := setup_session e pt (rtp_ss c (nQuery c)))\<rparr>
      in c\<lparr>rtp_type := eTransport c, play_query := play_query c OR setup_query c\<rparr>)"

text \<open>
  \<open>players\<close> is \<open>rtspd_player_count()\<close>; the mutex makes the check and the update of \<open>play_query\<close>
  one step with respect to other SETUP requests. The first SETUP over an interleaved connection
  starts the task that sends.
\<close>

definition rtspd_client_rtsp_process_setup ::
  "rtsp_env \<Rightarrow> nat \<Rightarrow> rtsp_conn \<Rightarrow> rtsp_conn \<times> rtsp_reply" where
  "rtspd_client_rtsp_process_setup e players c =
     (let (c1, res) = rtspd_client_rtsp_state c ENX_RTSP_STATE_SETUP; c2 = setup_alloc c1
      in if res = 0 then
           (if RTSP_play_MAX \<le> players then rtspd_client_rtsp_process_error e ENX_RTSP_RESPONSE_453 c1
            else if \<not> ss_alloc c1 \<and> \<not> env_calloc e
            then rtspd_client_rtsp_process_error e ENX_RTSP_RESPONSE_500 c1
            else if \<not> isTransport c2 then rtspd_client_rtsp_process_error e ENX_RTSP_RESPONSE_400 c2
            else if eTransport c2 \<notin> {ENX_RTSP_TRANSPORT_TCP, ENX_RTSP_TRANSPORT_UDP}
            then rtspd_client_rtsp_process_error e ENX_RTSP_RESPONSE_461 c2
            else (case setup_payload c2 of
                None \<Rightarrow> rtspd_client_rtsp_process_error e ENX_RTSP_RESPONSE_404 c2
              | Some pt \<Rightarrow> (setup_done e pt c2,
                  \<lparr>rp_text = RESPONSE_HEAD_S ENX_RTSP_RESPONSE_200 (setup_done e pt c2) @
                     setup_transport (setup_done e pt c2) @
                     rtspd_client_rtsp_make_datetime (env_now e) @ CRLF,
                   rp_spawn = (eTransport c2 = ENX_RTSP_TRANSPORT_TCP
                     \<and> play_query c2 = ENX_RTSP_STRTYPE_NONE)\<rparr>)))
         else if cl_state c1 \<in> {ENX_RTSP_STATE_PLAY, ENX_RTSP_STATE_PAUSE}
         then rtspd_client_rtsp_process_error e ENX_RTSP_RESPONSE_455 c1
         else if cl_state c1 \<in> {ENX_RTSP_STATE_NONE, ENX_RTSP_STATE_TEARDOWN, ENX_RTSP_STATE_ERROR}
         then rtspd_client_rtsp_process_error e ENX_RTSP_RESPONSE_412 c1
         else reply c1 [])"

subsection \<open>PLAY, PAUSE and the rest\<close>

definition RTPINFO_B :: "string \<Rightarrow> string \<Rightarrow> rtp_session \<Rightarrow> string" where
  "RTPINFO_B url track s =
     '' url='' @ url @ ''/'' @ track @ '';seq='' @ fmt_u (unat (start_seq s)) @ '';rtptime='' @
     fmt_u (unat (start_rtptime s)) @ '',''"

text \<open>The closing comma is overwritten by the end of the line.\<close>

definition play_rtpinfo :: "rtsp_conn \<Rightarrow> string" where
  "play_rtpinfo c =
     butlast (''RTP-Info:'' @
       (if play_query c AND ENX_RTSP_STRTYPE_VIDEO \<noteq> 0
        then RTPINFO_B (strUrl c) ''video'' (rtp_ss c ENX_RTSP_STRTYPE_numVIDEO) else []) @
       (if play_query c AND ENX_RTSP_STRTYPE_AUDIO \<noteq> 0
        then RTPINFO_B (strUrl c) ''audio'' (rtp_ss c ENX_RTSP_STRTYPE_numAUDIO) else [])) @ CRLF"

definition strRtpinfo_size :: nat where "strRtpinfo_size = 1024"

definition rtspd_client_rtsp_process_play ::
  "rtsp_env \<Rightarrow> rtsp_conn \<Rightarrow> rtsp_fault + rtsp_conn \<times> rtsp_reply" where
  "rtspd_client_rtsp_process_play e c =
     (if play_query c \<noteq> ENX_RTSP_STRTYPE_NONE then
        (let (c, res) = rtspd_client_rtsp_state c ENX_RTSP_STATE_PLAY
         in if res = 0 then
              (if nSession c \<noteq> 0 then
                 (if \<not> ss_alloc c then Inl Null_session
                  else if strRtpinfo_size \<le> length (play_rtpinfo c) then Inl Out_of_bounds
                  else Inr (reply c (RESPONSE_HEAD_S ENX_RTSP_RESPONSE_200 c @ play_rtpinfo c @
                         rtspd_client_rtsp_make_datetime (env_now e) @ CRLF)))
               else Inr (reply c []))
            else Inr (rtspd_client_rtsp_process_error e ENX_RTSP_RESPONSE_400 c))
      else Inr (rtspd_client_rtsp_process_error e ENX_RTSP_RESPONSE_400 c))"

definition rtspd_client_rtsp_process_pause :: "rtsp_env \<Rightarrow> rtsp_conn \<Rightarrow> rtsp_conn \<times> rtsp_reply" where
  "rtspd_client_rtsp_process_pause e c =
     (let (c, res) = rtspd_client_rtsp_state c ENX_RTSP_STATE_PAUSE
      in if res = 0 then reply_ok e c else rtspd_client_rtsp_process_error e ENX_RTSP_RESPONSE_400 c)"

definition rtspd_client_rtsp_process_teardown :: "rtsp_env \<Rightarrow> rtsp_conn \<Rightarrow> rtsp_conn \<times> rtsp_reply" where
  "rtspd_client_rtsp_process_teardown e c =
     (let (c, res) = rtspd_client_rtsp_state c ENX_RTSP_STATE_TEARDOWN
      in if res = 0 then (let (c, r) = reply_ok e c in (c\<lparr>ss_alloc := False\<rparr>, r))
         else rtspd_client_rtsp_process_error e ENX_RTSP_RESPONSE_400 c)"

definition rtspd_client_rtsp_process_get_parameter ::
  "rtsp_env \<Rightarrow> rtsp_conn \<Rightarrow> rtsp_conn \<times> rtsp_reply" where
  "rtspd_client_rtsp_process_get_parameter e c =
     (let (c, res) = rtspd_client_rtsp_state c ENX_RTSP_STATE_GET_PARAMETER
      in if res = 0 then reply_ok e c else rtspd_client_rtsp_process_error e ENX_RTSP_RESPONSE_400 c)"

definition rtspd_client_rtsp_process_set_parameter ::
  "rtsp_env \<Rightarrow> rtsp_conn \<Rightarrow> rtsp_conn \<times> rtsp_reply" where
  "rtspd_client_rtsp_process_set_parameter e c =
     (let (c, res) = rtspd_client_rtsp_state c ENX_RTSP_STATE_SET_PARAMETER
      in if res = 0 then rtspd_client_rtsp_process_error e ENX_RTSP_RESPONSE_458 c
         else rtspd_client_rtsp_process_error e ENX_RTSP_RESPONSE_400 c)"

section \<open>Dispatch\<close>

definition rtsp_dispatch ::
  "rtsp_env \<Rightarrow> nat \<Rightarrow> rtsp_conn \<Rightarrow> rtsp_fault + rtsp_conn \<times> rtsp_reply" where
  "rtsp_dispatch e players c = (case rtsp_method c of
       ENX_RTSP_METHOD_OPTIONS \<Rightarrow> Inr (rtspd_client_rtsp_process_options e c)
     | ENX_RTSP_METHOD_DESCRIBE \<Rightarrow> rtspd_client_rtsp_process_describe e c
     | ENX_RTSP_METHOD_SETUP \<Rightarrow> Inr (rtspd_client_rtsp_process_setup e players c)
     | ENX_RTSP_METHOD_PLAY \<Rightarrow> rtspd_client_rtsp_process_play e c
     | ENX_RTSP_METHOD_PAUSE \<Rightarrow> Inr (rtspd_client_rtsp_process_pause e c)
     | ENX_RTSP_METHOD_TEARDOWN \<Rightarrow> Inr (rtspd_client_rtsp_process_teardown e c)
     | ENX_RTSP_METHOD_GET_PARAMETER \<Rightarrow> Inr (rtspd_client_rtsp_process_get_parameter e c)
     | ENX_RTSP_METHOD_SET_PARAMETER \<Rightarrow> Inr (rtspd_client_rtsp_process_set_parameter e c))"

definition rtspd_client_rtsp_response ::
  "rtsp_env \<Rightarrow> nat \<Rightarrow> rtsp_conn \<Rightarrow> rtsp_fault + rtsp_conn \<times> rtsp_reply" where
  "rtspd_client_rtsp_response e players c =
     (if cl_state c = ENX_RTSP_STATE_TEARDOWN
      then Inr (rtspd_client_rtsp_process_error e ENX_RTSP_RESPONSE_412 c)
      else
        (let (c, res) = rtspd_client_rtsp_check_url (env_channels e) (strUrl c) c
         in if res \<noteq> - 1 then rtsp_dispatch e players c
            else Inr (rtspd_client_rtsp_process_error e ENX_RTSP_RESPONSE_501 c)))"

end
