(* ===== verification/RtspServer.thy ===== *)
theory RtspServer
  imports RtspReply RtpPlay
begin

text \<open>
  The tasks of the RTSP server, \<open>task/rtspd/rtspd.c\<close>: accepting connections, the task of a
  connection (\<open>rtspd_client_main\<close>) with the assembly of requests from what the socket delivers, the
  task that sends over an interleaved connection (\<open>rtspd_client_rtp_main\<close>), the task that serves all
  UDP clients (\<open>rtspd_client_udp_rtp_main\<close>), and the step relation of their interleaving. A step is
  one round of a task's loop. What the sockets return is an argument.
\<close>

section \<open>Slots\<close>

definition RTSP_info_MAX :: nat where "RTSP_info_MAX = 20"
definition RTSP_TIMEOUT :: u32 where "RTSP_TIMEOUT = 60"

definition empty_queue :: rtp_queue where
  "empty_queue = \<lparr>rq_head = 0, rq_tail = 0, rq_tot_num = 0, rq_data = []\<rparr>"

text \<open>\<open>memset(prcInfo, 0, sizeof(rtsp_client))\<close>; the enumerations start with the names given here.\<close>

definition zero_conn :: rtsp_conn where
  "zero_conn = \<lparr>cl_valid = False, cl_state = ENX_RTSP_STATE_NONE, eTransport = ENX_RTSP_TRANSPORT_NONE,
     rtp_port = \<lambda>_. 0, rtcp_port = \<lambda>_. 0, rtp_queue_video = empty_queue, rtp_queue_audio = empty_queue,
     isLive = ENX_RTSP_STREAM_FILE_H264_TYPE, play_query = 0, rtp_ss = \<lambda>_. zero_session,
     index = 0, clientid = 0, sockfd = 0, login = False, lastTime = 0, errCount = 0, erroldTime = 0,
     server_addr = 0, server_port = 0, client_port = 0, client_addr = 0,
     video_type = ENX_RTSP_STREAM_FILE_H264_TYPE, rtp_type = ENX_RTSP_TRANSPORT_NONE, connect_time = 0,
     nVEncoderIdx = 0, nSession = 0, ss_alloc = False, nCSeq = 0,
     rtsp_method = ENX_RTSP_METHOD_OPTIONS, strUrl = [], strVersion = [], isAccept = False,
     isTransport = False, setup_query = 0, nQuery = 0\<rparr>"

text \<open>
  Where \<open>rtspd_client_main\<close> is: in its loop, waiting for the sender to stop, or in the delay of
  \<open>rtspd_client_close\<close>. Its locals are the bytes read so far and the size of the last reply, which
  has no value before the first one.
\<close>

datatype main_phase = Main_loop | Main_wait | Main_close

record rtsp_task =
  rt_phase :: main_phase
  rt_buf :: string
  rt_wsize :: "nat option"

record rtsp_server =
  client_count :: int
  client_last_id :: u32
  rclist :: "nat \<Rightarrow> rtsp_conn"
  main_task :: "nat \<Rightarrow> rtsp_task option"
  rtp_tasks :: "nat \<Rightarrow> nat"

definition rtspd_player_count :: "rtsp_server \<Rightarrow> nat" where
  "rtspd_player_count s = length (filter (\<lambda>i. play_query (rclist s i) \<noteq> 0) [0..<RTSP_info_MAX])"

definition set_conn :: "nat \<Rightarrow> rtsp_conn \<Rightarrow> rtsp_server \<Rightarrow> rtsp_server" where
  "set_conn i c s = s\<lparr>rclist := (rclist s)(i := c)\<rparr>"

definition set_task :: "nat \<Rightarrow> rtsp_task option \<Rightarrow> rtsp_server \<Rightarrow> rtsp_server" where
  "set_task i t s = s\<lparr>main_task := (main_task s)(i := t)\<rparr>"

section \<open>Accepting a connection\<close>

text \<open>The addresses of both ends, as the socket reports them, and the time.\<close>

record rtsp_peer =
  peer_fd :: int
  peer_server :: "u32 \<times> u16"
  peer_client :: "u32 \<times> u16"
  peer_time :: u32
  peer_uptime :: u32

definition rtspd_socket_client_new :: "rtsp_peer \<Rightarrow> rtsp_server \<Rightarrow> rtsp_server \<times> nat option" where
  "rtspd_socket_client_new p s =
     (case List.find (\<lambda>i. \<not> cl_valid (rclist s i)) [0..<RTSP_info_MAX] of
        None \<Rightarrow> (s, None)
      | Some i \<Rightarrow>
          (set_conn i (zero_conn\<lparr>cl_valid := True, sockfd := peer_fd p,
               server_addr := fst (peer_server p), server_port := snd (peer_server p),
               client_addr := fst (peer_client p), client_port := snd (peer_client p),
               connect_time := peer_time p\<rparr>)
             (s\<lparr>client_count := client_count s + 1\<rparr>), Some i))"

text \<open>The initialisation of \<open>rtspd_client_main\<close>; the queues have 60 and 100 entries.\<close>

definition fresh_queue :: "u32 \<Rightarrow> rtp_queue" where
  "fresh_queue n = (case snd (rtp_queue_init True True n) of
       None \<Rightarrow> empty_queue | Some q \<Rightarrow> snd (rtp_queue_freebuffer q))"

definition client_main_init :: "u32 \<Rightarrow> rtsp_conn \<Rightarrow> rtsp_conn" where
  "client_main_init uptime c =
     c\<lparr>login := True, lastTime := uptime, errCount := 0, cl_state := ENX_RTSP_STATE_NONE,
       isLive := ENX_RTSP_STREAM_NONE, eTransport := ENX_RTSP_TRANSPORT_NONE,
       play_query := ENX_RTSP_STRTYPE_NONE, ss_alloc := False,
       rtp_queue_video := fresh_queue 60, rtp_queue_audio := fresh_queue 100\<rparr>"

text \<open>
  One round of \<open>rtspd_socket_server\<close> in which a connection is accepted: at the limit its socket is
  closed; otherwise it gets a slot and its task starts. The result says whether the socket is in
  use or closed; when there is no free slot it is neither.
\<close>

datatype socket_fate = Served | Closed | Leaked

definition rtspd_socket_server :: "rtsp_peer \<Rightarrow> rtsp_server \<Rightarrow> rtsp_server \<times> socket_fate" where
  "rtspd_socket_server p s =
     (if int RTSP_info_MAX \<le> client_count s then (s, Closed)
      else (case rtspd_socket_client_new p s of
          (s, None) \<Rightarrow> (s, Leaked)
        | (s, Some i) \<Rightarrow>
            (set_task i (Some \<lparr>rt_phase = Main_loop, rt_buf = [], rt_wsize = None\<rparr>)
              (set_conn i (client_main_init (peer_uptime p)
                   ((rclist s i)\<lparr>index := i, clientid := client_last_id s\<rparr>))
                (s\<lparr>client_last_id := client_last_id s + 1\<rparr>)), Served)))"

definition rtspd_connect_kick :: "nat \<Rightarrow> rtsp_server \<Rightarrow> rtsp_server \<times> int" where
  "rtspd_connect_kick i s =
     (let (c, res) = rtspd_client_rtsp_state (rclist s i) ENX_RTSP_STATE_TEARDOWN
      in (set_conn i c s, res))"

section \<open>The task of a connection\<close>

datatype rtsp_output = Sent string | Sent_stale nat

record rtsp_round =
  ro_conn :: rtsp_conn
  ro_task :: rtsp_task
  ro_out :: "rtsp_output option"
  ro_spawn :: bool

text \<open>The length field of an interleaved packet is compared as it lies in memory.\<close>

definition interleaved_length :: "string \<Rightarrow> nat" where
  "interleaved_length b = of_char (b ! 2) + 256 * of_char (b ! 3)"

definition buffer_size :: nat where "buffer_size = 4096"

text \<open>
  A request is complete in \<open>b\<close>. When it cannot be parsed the size of the previous reply is sent
  again, from a buffer that holds the request by now.
\<close>

definition rtsp_request ::
  "rtsp_env \<Rightarrow> nat \<Rightarrow> string \<Rightarrow> rtsp_conn \<Rightarrow> rtsp_task \<Rightarrow> rtsp_fault + rtsp_round" where
  "rtsp_request e players b c t =
     (case rtspd_client_rtsp_method_parse (takeWhile (\<lambda>x. x \<noteq> CHR 0x00) b) c of
        Inl f \<Rightarrow> Inl f
      | Inr (c, res) \<Rightarrow>
         if res = - 1 then
           (case rt_wsize t of
               None \<Rightarrow> Inl Uninitialised
             | Some w \<Rightarrow> Inr \<lparr>ro_conn = c, ro_task = t\<lparr>rt_buf := []\<rparr>,
                   ro_out = (if w = 0 then None else Some (Sent_stale w)), ro_spawn = False\<rparr>)
         else if login c \<or> rtsp_method c = ENX_RTSP_METHOD_OPTIONS \<or> rtsp_method c = ENX_RTSP_METHOD_TEARDOWN
         then (case rtspd_client_rtsp_response e players c of
             Inl f \<Rightarrow> Inl f
           | Inr (c, r) \<Rightarrow> Inr \<lparr>ro_conn = c,
                 ro_task = t\<lparr>rt_buf := [], rt_wsize := Some (length (rp_text r))\<rparr>,
                 ro_out = (if rp_text r = [] then None else Some (Sent (rp_text r))),
                 ro_spawn = rp_spawn r\<rparr>)
         else (let (c, r) = rtspd_client_rtsp_process_error e ENX_RTSP_RESPONSE_401 c;
                   s = take (length (rp_text r) - 2) (rp_text r)
               in Inr \<lparr>ro_conn = c, ro_task = t\<lparr>rt_buf := [], rt_wsize := Some (length s)\<rparr>,
                    ro_out = (if s = [] then None else Some (Sent s)), ro_spawn = False\<rparr>))"

text \<open>
  What the loop does with the characters \<open>d\<close> just read. The four last characters are looked at
  before it is known that there are four.
\<close>

definition rtsp_receive ::
  "rtsp_env \<Rightarrow> nat \<Rightarrow> string \<Rightarrow> rtsp_conn \<Rightarrow> rtsp_task \<Rightarrow> rtsp_fault + rtsp_round" where
  "rtsp_receive e players d c t =
     (let b = rt_buf t @ d;
          idle = (\<lambda>b. Inr \<lparr>ro_conn = c, ro_task = t\<lparr>rt_buf := b\<rparr>, ro_out = None, ro_spawn = False\<rparr>)
      in if buffer_size < length b then Inl Out_of_bounds
         else if take 1 b = ''$'' then
           (if 4 \<le> length b \<and> interleaved_length b = length b - 4 then idle [] else idle b)
         else if length b < 4 then Inl Out_of_bounds
         else if drop (length b - 4) b = CRLF @ CRLF then
           (if length b = buffer_size then Inl Out_of_bounds else rtsp_request e players b c t)
         else idle b)"

text \<open>One round of \<open>rtspd_client_main\<close> at uptime \<open>now\<close>.\<close>

datatype read_result = Read_fail | Read_timeout | Read_data string

definition rtspd_client_main ::
  "rtsp_env \<Rightarrow> u32 \<Rightarrow> read_result \<Rightarrow> nat \<Rightarrow> rtsp_server \<Rightarrow> rtsp_fault + rtsp_server \<times> rtsp_output option" where
  "rtspd_client_main e now rd i s =
     (case main_task s i of None \<Rightarrow> Inr (s, None) | Some t \<Rightarrow>
      (let c = rclist s i;
           leave = set_task i (Some (t\<lparr>rt_phase := Main_wait\<rparr>))
             (set_conn i (c\<lparr>cl_state := ENX_RTSP_STATE_TEARDOWN\<rparr>) s)
       in case rt_phase t of
          Main_loop \<Rightarrow>
            if cl_state c = ENX_RTSP_STATE_TEARDOWN \<or> cl_state c = ENX_RTSP_STATE_ERROR
              \<or> lastTime c + RTSP_TIMEOUT < now then Inr (leave, None)
            else (case rd of
                Read_fail \<Rightarrow> Inr (leave, None)
              | Read_timeout \<Rightarrow> Inr (set_task i (Some (t\<lparr>rt_buf := []\<rparr>)) s, None)
              | Read_data d \<Rightarrow>
                 (case rtsp_receive e (rtspd_player_count s) d (c\<lparr>lastTime := now\<rparr>) t of
                     Inl f \<Rightarrow> Inl f
                   | Inr r \<Rightarrow> Inr (set_task i (Some (ro_task r)) (set_conn i (ro_conn r)
                         (s\<lparr>rtp_tasks := (rtp_tasks s)(i := rtp_tasks s i + of_bool (ro_spawn r))\<rparr>)),
                         ro_out r)))
        | Main_wait \<Rightarrow>
            if play_query c \<noteq> 0 then Inr (s, None)
            else Inr (set_task i (Some (t\<lparr>rt_phase := Main_close\<rparr>)) (s\<lparr>client_count := client_count s - 1\<rparr>), None)
        | Main_close \<Rightarrow> Inr (set_task i None (set_conn i zero_conn s), None)))"

section \<open>The sending tasks\<close>

text \<open>What \<open>lwip_select\<close> says and, when the socket is ready, the result of the send call.\<close>

datatype select_result = Sel_fail | Sel_intr | Sel_timeout | Sel_ready int

definition play_on :: "(rtsp_client \<Rightarrow> rtsp_client \<times> int) \<Rightarrow> rtsp_conn \<Rightarrow> rtsp_conn \<times> int" where
  "play_on f c = (let (cl, res) = f (rtsp_client.truncate c)
     in (rtsp_client.extend cl (rtsp_client.more c), res))"

definition rtspd_client_rtp_tcp_send :: "select_result \<Rightarrow> nat \<Rightarrow> rtsp_conn \<Rightarrow> rtsp_fault + int" where
  "rtspd_client_rtp_tcp_send sel k c = (case sel of
       Sel_fail \<Rightarrow> Inr (- 1) | Sel_intr \<Rightarrow> Inr (- 3) | Sel_timeout \<Rightarrow> Inr (- 2)
     | Sel_ready n \<Rightarrow>
         if \<not> ss_alloc c then Inl Null_session
         else if ENX_RTSP_STRTYPE_numNONE \<le> k then Inl Bad_packet
         else if 1 < buf_idx (rtp_ss c k) then Inl Bad_packet
         else if 1460 < buf_len (rtp_ss c k) (cur (rtp_ss c k)) then Inl Bad_packet
         else Inr n)"

definition count_sent :: "nat \<Rightarrow> int \<Rightarrow> rtsp_conn \<Rightarrow> rtsp_conn" where
  "count_sent k n c = c\<lparr>rtp_ss := (rtp_ss c)(k := (rtp_ss c k)\<lparr>
     packet_cnt := packet_cnt (rtp_ss c k) + 1,
     total_length := total_length (rtp_ss c k) + word_of_int n\<rparr>)\<rparr>"

text \<open>One track of the interleaved sender; the flag says that the loop is left by an error.\<close>

definition tcp_track ::
  "(rtsp_client \<Rightarrow> rtsp_client \<times> int) \<Rightarrow> select_result \<Rightarrow> nat \<Rightarrow> rtsp_conn \<Rightarrow>
     rtsp_fault + rtsp_conn \<times> int \<times> bool" where
  "tcp_track play sel k c =
     (let (c, res) = play_on play c; ss = rtp_ss c k
      in if buf_len ss (cur ss) \<noteq> 0 then
           (case rtspd_client_rtp_tcp_send sel k c of
               Inl f \<Rightarrow> Inl f
             | Inr n \<Rightarrow> if n = - 1 then Inr (c, - 1, True)
                 else if 0 < n then Inr (count_sent k n c, res, False) else Inr (c, res, False))
         else Inr (c, res, False))"

text \<open>A round of \<open>rtspd_client_rtp_main\<close>; the flag says that the task has ended.\<close>

definition rtspd_client_rtp_main ::
  "mem \<Rightarrow> select_result \<Rightarrow> select_result \<Rightarrow> rtsp_conn \<Rightarrow> rtsp_fault + rtsp_conn \<times> bool" where
  "rtspd_client_rtp_main m sv sa c =
     (let stop = (\<lambda>c. Inr (c\<lparr>play_query := 0\<rparr>, True)) in
      case cl_state c of
        ENX_RTSP_STATE_PLAY \<Rightarrow>
          if \<not> ss_alloc c then Inl Null_session
          else (case tcp_track (rtspd_client_rtp_video_play m) sv ENX_RTSP_STRTYPE_numVIDEO c of
              Inl f \<Rightarrow> Inl f
            | Inr (c, _, broken) \<Rightarrow>
                if broken then stop c
                else (case tcp_track (rtspd_client_rtp_audio_play m) sa ENX_RTSP_STRTYPE_numAUDIO c of
                    Inl f \<Rightarrow> Inl f
                  | Inr (c, res, _) \<Rightarrow> if res = - 1 then stop c else Inr (c, False)))
      | ENX_RTSP_STATE_SETUP \<Rightarrow> Inr (c, False)
      | ENX_RTSP_STATE_PAUSE \<Rightarrow> Inr (c, False)
      | ENX_RTSP_STATE_GET_PARAMETER \<Rightarrow> Inr (c, False)
      | ENX_RTSP_STATE_SET_PARAMETER \<Rightarrow> Inr (c, False)
      | _ \<Rightarrow> stop c)"

text \<open>A datagram: thirty failures without a success or five seconds between them end the client.\<close>

definition rtspd_client_rtp_udp_send ::
  "u32 \<Rightarrow> select_result \<Rightarrow> nat \<Rightarrow> rtsp_conn \<Rightarrow> rtsp_fault + rtsp_conn \<times> int" where
  "rtspd_client_rtp_udp_send now sel k c = (case sel of
       Sel_fail \<Rightarrow> Inr (c, - 1) | Sel_intr \<Rightarrow> Inr (c, 0) | Sel_timeout \<Rightarrow> Inr (c, 0)
     | Sel_ready n \<Rightarrow>
         if \<not> ss_alloc c then Inl Null_session
         else if n = - 1 then
           (let c = c\<lparr>errCount := errCount c + 1\<rparr>;
                c = (if 30 < errCount c then c\<lparr>cl_state := ENX_RTSP_STATE_ERROR\<rparr> else c);
                c = (if erroldTime c + 5 \<le> now then c\<lparr>erroldTime := now, errCount := 0\<rparr> else c)
            in Inr (c, n))
         else if n \<noteq> sint (buf_len (rtp_ss c k) (cur (rtp_ss c k))) then Inr (c, n)
         else Inr (c\<lparr>erroldTime := now, errCount := 0\<rparr>, n))"

definition udp_track ::
  "(rtsp_client \<Rightarrow> rtsp_client \<times> int) \<Rightarrow> u32 \<Rightarrow> select_result \<Rightarrow> nat \<Rightarrow> rtsp_conn \<Rightarrow>
     rtsp_fault + rtsp_conn \<times> bool" where
  "udp_track play now sel k c =
     (let (c, res) = play_on play c; ss = rtp_ss c k
      in if buf_len ss (cur ss) \<noteq> 0 then
           (case rtspd_client_rtp_udp_send now sel k c of
               Inl f \<Rightarrow> Inl f
             | Inr (c, n) \<Rightarrow> if n = - 1 then Inr (c, True)
                 else if 0 < n then Inr (count_sent k n c, False) else Inr (c, False))
         else Inr (c, False))"

text \<open>What a round of \<open>rtspd_client_udp_rtp_main\<close> does to one client.\<close>

definition rtspd_client_udp_rtp_main ::
  "mem \<Rightarrow> u32 \<Rightarrow> select_result \<Rightarrow> select_result \<Rightarrow> rtsp_conn \<Rightarrow> rtsp_fault + rtsp_conn" where
  "rtspd_client_udp_rtp_main m now sv sa c =
     (if eTransport c = ENX_RTSP_TRANSPORT_UDP then
        (case cl_state c of
          ENX_RTSP_STATE_PLAY \<Rightarrow>
            if \<not> ss_alloc c then Inl Null_session
            else (case udp_track (rtspd_client_rtp_video_play m) now sv ENX_RTSP_STRTYPE_numVIDEO c of
                Inl f \<Rightarrow> Inl f
              | Inr (c, broken) \<Rightarrow>
                  if broken then Inr c
                  else map_sum id fst (udp_track (rtspd_client_rtp_audio_play m) now sa ENX_RTSP_STRTYPE_numAUDIO c))
        | ENX_RTSP_STATE_TEARDOWN \<Rightarrow> Inr (c\<lparr>play_query := 0\<rparr>)
        | _ \<Rightarrow> Inr c)
      else Inr c)"

section \<open>Interleaving\<close>

definition rtsp_init :: "u32 \<Rightarrow> rtsp_server" where
  "rtsp_init id0 = \<lparr>client_count = 0, client_last_id = id0, rclist = \<lambda>_. zero_conn,
     main_task = \<lambda>_. None, rtp_tasks = \<lambda>_. 0\<rparr>"

definition feed_all :: "(rtsp_client \<Rightarrow> rtsp_client) \<Rightarrow> rtsp_server \<Rightarrow> rtsp_server" where
  "feed_all f s = s\<lparr>rclist := \<lambda>i. fst (play_on (\<lambda>c. (f c, 0)) (rclist s i))\<rparr>"

inductive rtsp_step :: "rtsp_server \<Rightarrow> rtsp_server \<Rightarrow> bool" where
  step_accept: "rtsp_step s (fst (rtspd_socket_server p s))"
| step_kick: "i < RTSP_info_MAX \<Longrightarrow> rtsp_step s (fst (rtspd_connect_kick i s))"
| step_main: "i < RTSP_info_MAX \<Longrightarrow> rtspd_client_main e now rd i s = Inr (s', out) \<Longrightarrow> rtsp_step s s'"
| step_rtp: "i < RTSP_info_MAX \<Longrightarrow> 0 < rtp_tasks s i \<Longrightarrow>
    rtspd_client_rtp_main m sv sa (rclist s i) = Inr (c, ended) \<Longrightarrow>
    rtsp_step s (set_conn i c (s\<lparr>rtp_tasks := (rtp_tasks s)(i := rtp_tasks s i - of_bool ended)\<rparr>))"
| step_udp: "i < RTSP_info_MAX \<Longrightarrow> rtspd_client_udp_rtp_main m now sv sa (rclist s i) = Inr c \<Longrightarrow>
    rtsp_step s (set_conn i c s)"
| step_rtcp: "i < RTSP_info_MAX \<Longrightarrow> rtsp_step s (set_conn i ((rclist s i)\<lparr>lastTime := now\<rparr>) s)"
| step_video: "rtsp_step s (feed_all (stream_video_put1 vt d) s)"
| step_audio: "rtsp_step s (feed_all (stream_audio_put1 d) s)"

inductive rtsp_steps :: "rtsp_server \<Rightarrow> rtsp_server \<Rightarrow> bool" where
  steps_refl: "rtsp_steps s s"
| steps_step: "rtsp_steps s s' \<Longrightarrow> rtsp_step s' s'' \<Longrightarrow> rtsp_steps s s''"

end
