(* ===== verification/RtspHandlers.thy ===== *)
theory RtspHandlers
  imports RtspServer
begin

text \<open>
  What the handlers of a request promise the task of the connection: the locale \<open>rtsp_handler\<close>,
  interpreted on each of them and on the dispatch.
\<close>

section \<open>A connection that can be served\<close>

text \<open>
  Sessions are allocated wherever a loop would stop without them, the sending tasks find two
  buffers of which the other one is empty, and the URL is terminated.
\<close>

definition needs_session :: "rtsp_conn \<Rightarrow> bool" where
  "needs_session c \<longleftrightarrow> cl_state c \<notin> {ENX_RTSP_STATE_TEARDOWN, ENX_RTSP_STATE_ERROR}
     \<and> (play_query c \<noteq> 0 \<or> cl_state c \<in> {ENX_RTSP_STATE_PLAY, ENX_RTSP_STATE_PAUSE})"

definition session_ok :: "rtp_session \<Rightarrow> bool" where
  "session_ok s \<longleftrightarrow> buf_idx s < 2 \<and> buf_len s (other s) = 0"

definition conn_ok :: "rtsp_conn \<Rightarrow> bool" where
  "conn_ok c \<longleftrightarrow> (needs_session c \<longrightarrow> ss_alloc c)
     \<and> (ss_alloc c \<longrightarrow> session_ok (rtp_ss c 0) \<and> session_ok (rtp_ss c 1))
     \<and> length (strUrl c) \<le> 127
     \<and> cl_state c \<notin> {ENX_RTSP_STATE_GET_PARAMETER, ENX_RTSP_STATE_SET_PARAMETER}"

definition rtsp_codes :: "string list" where
  "rtsp_codes = [ENX_RTSP_RESPONSE_200, ENX_RTSP_RESPONSE_400, ENX_RTSP_RESPONSE_401,
     ENX_RTSP_RESPONSE_404, ENX_RTSP_RESPONSE_406, ENX_RTSP_RESPONSE_412, ENX_RTSP_RESPONSE_453,
     ENX_RTSP_RESPONSE_455, ENX_RTSP_RESPONSE_458, ENX_RTSP_RESPONSE_461, ENX_RTSP_RESPONSE_500,
     ENX_RTSP_RESPONSE_501]"

text \<open>A reply: the status line with one of the codes, and the number of the request.\<close>

definition answers :: "u32 \<Rightarrow> string \<Rightarrow> bool" where
  "answers n s \<longleftrightarrow> (\<exists>code rest. code \<in> set rtsp_codes \<and>
     s = ''RTSP/1.0 '' @ code @ CRLF @ ''CSeq: '' @ fmt_u (unat n) @ CRLF @ rest)"

lemma answersI:
  "code \<in> set rtsp_codes \<Longrightarrow> nCSeq c = n \<Longrightarrow> answers n (reply_head code c @ rest)"
  "code \<in> set rtsp_codes \<Longrightarrow> nCSeq c = n \<Longrightarrow> answers n (RESPONSE_HEAD_S code c @ rest)"
  by (auto simp: answers_def reply_head_def RESPONSE_HEAD_def RESPONSE_HEAD_S_def)

lemma head_state [simp]:
  "reply_head code (c\<lparr>cl_state := st\<rparr>) = reply_head code c"
  "RESPONSE_HEAD_S code (c\<lparr>cl_state := st\<rparr>) = RESPONSE_HEAD_S code c"
  by (simp_all add: reply_head_def RESPONSE_HEAD_def RESPONSE_HEAD_S_def)

lemma codes_in [simp]:
  "ENX_RTSP_RESPONSE_200 \<in> set rtsp_codes" "ENX_RTSP_RESPONSE_400 \<in> set rtsp_codes"
  "ENX_RTSP_RESPONSE_401 \<in> set rtsp_codes" "ENX_RTSP_RESPONSE_404 \<in> set rtsp_codes"
  "ENX_RTSP_RESPONSE_406 \<in> set rtsp_codes" "ENX_RTSP_RESPONSE_412 \<in> set rtsp_codes"
  "ENX_RTSP_RESPONSE_453 \<in> set rtsp_codes" "ENX_RTSP_RESPONSE_455 \<in> set rtsp_codes"
  "ENX_RTSP_RESPONSE_458 \<in> set rtsp_codes" "ENX_RTSP_RESPONSE_461 \<in> set rtsp_codes"
  "ENX_RTSP_RESPONSE_500 \<in> set rtsp_codes" "ENX_RTSP_RESPONSE_501 \<in> set rtsp_codes"
  by (simp_all add: rtsp_codes_def)

section \<open>The contract\<close>

text \<open>
  A handler keeps a connection that can be served, answers under the number of the request or not
  at all, follows the state machine, and makes the connection a player only below the limit. It
  never waits for a session that is not there.
\<close>

locale rtsp_handler =
  fixes h :: "rtsp_conn \<Rightarrow> rtsp_fault + rtsp_conn \<times> rtsp_reply"
    and players :: nat
  assumes keeps: "conn_ok c \<Longrightarrow> h c = Inr (c', r) \<Longrightarrow> conn_ok c'"
    and echoes: "h c = Inr (c', r) \<Longrightarrow> rp_text r = [] \<or> answers (nCSeq c) (rp_text r)"
    and no_hang: "conn_ok c \<Longrightarrow> h c \<noteq> Inl Null_session"
    and moves: "h c = Inr (c', r) \<Longrightarrow> cl_state c' = cl_state c \<or> state_allowed (cl_state c') (cl_state c)"
    and admits: "h c = Inr (c', r) \<Longrightarrow> play_query c' \<noteq> play_query c \<Longrightarrow> players < RTSP_play_MAX"
    and frame: "h c = Inr (c', r) \<Longrightarrow> cl_valid c' = cl_valid c \<and> eTransport c' = eTransport c
      \<and> (play_query c \<noteq> 0 \<longrightarrow> play_query c' \<noteq> 0)"
begin

text \<open>No handler brings a connection back from \<open>ERROR\<close>.\<close>

lemma error_absorbing:
  assumes "h c = Inr (c', r)" "cl_state c = ENX_RTSP_STATE_ERROR"
  shows "cl_state c' \<in> {ENX_RTSP_STATE_ERROR, ENX_RTSP_STATE_NONE}"
  using moves [OF assms(1)] assms(2) by (cases "cl_state c'") auto

text \<open>Playing starts from SETUP, PLAY or PAUSE only.\<close>

lemma play_after_setup:
  assumes "h c = Inr (c', r)" "cl_state c' = ENX_RTSP_STATE_PLAY" "conn_ok c"
  shows "cl_state c \<in> {ENX_RTSP_STATE_SETUP, ENX_RTSP_STATE_PLAY, ENX_RTSP_STATE_PAUSE}"
  using moves [OF assms(1)] assms(2,3) by (cases "cl_state c") (auto simp: conn_ok_def)

text \<open>What the task of the connection gets from a request.\<close>

lemma handled:
  assumes "conn_ok c"
  shows "case h c of Inl f \<Rightarrow> f \<noteq> Null_session
    | Inr (c', r) \<Rightarrow> conn_ok c' \<and> (rp_text r = [] \<or> answers (nCSeq c) (rp_text r))
        \<and> (play_query c' \<noteq> play_query c \<longrightarrow> players < RTSP_play_MAX)"
proof (cases "h c")
  case (Inl f)
  with no_hang [OF assms] show ?thesis by auto
next
  case (Inr a)
  then show ?thesis
    using keeps [OF assms] echoes admits by (cases a) auto
qed

end

section \<open>Interpretations\<close>

lemma state_result:
  "rtspd_client_rtsp_state c st = (c', res) \<Longrightarrow>
     (res = 0 \<and> state_allowed st (cl_state c) \<and>
      c' = (if st \<in> {ENX_RTSP_STATE_GET_PARAMETER, ENX_RTSP_STATE_SET_PARAMETER} then c else c\<lparr>cl_state := st\<rparr>))
     \<or> (res = - 1 \<and> \<not> state_allowed st (cl_state c) \<and> c' = c)"
  by (auto simp: rtspd_client_rtsp_state_def split: if_splits rtsp_client_state.splits)

lemma to_error: "fst (rtspd_client_rtsp_state c ENX_RTSP_STATE_ERROR) = c\<lparr>cl_state := ENX_RTSP_STATE_ERROR\<rparr>"
  by (simp add: rtspd_client_rtsp_state_def)

text \<open>The laws for one outcome, so that a handler is checked branch by branch.\<close>

definition handles :: "nat \<Rightarrow> rtsp_conn \<Rightarrow> rtsp_conn \<times> rtsp_reply \<Rightarrow> bool" where
  "handles players c o' = (case o' of (c', r) \<Rightarrow>
     (conn_ok c \<longrightarrow> conn_ok c') \<and> (rp_text r = [] \<or> answers (nCSeq c) (rp_text r))
     \<and> (cl_state c' = cl_state c \<or> state_allowed (cl_state c') (cl_state c))
     \<and> (play_query c' \<noteq> play_query c \<longrightarrow> players < RTSP_play_MAX)
     \<and> cl_valid c' = cl_valid c \<and> eTransport c' = eTransport c
     \<and> (play_query c \<noteq> 0 \<longrightarrow> play_query c' \<noteq> 0))"

lemma rtsp_handlerI:
  assumes "\<And>c c' r. h c = Inr (c', r) \<Longrightarrow> handles players c (c', r)"
    and "\<And>c. conn_ok c \<Longrightarrow> h c \<noteq> Inl Null_session"
  shows "rtsp_handler h players"
proof (unfold_locales, goal_cases)
  case (1 c c' r)
  then show ?case using assms(1) [of c c' r] by (simp add: handles_def)
next
  case (2 c c' r)
  then show ?case using assms(1) [of c c' r] by (simp add: handles_def)
next
  case (3 c)
  then show ?case by (rule assms(2))
next
  case (4 c c' r)
  then show ?case using assms(1) [of c c' r] by (simp add: handles_def)
next
  case (5 c c' r)
  then show ?case using assms(1) [of c c' r] by (simp add: handles_def)
next
  case (6 c c' r)
  then show ?case using assms(1) [of c c' r] by (simp add: handles_def)
qed

lemma conn_ok_error: "conn_ok c \<Longrightarrow> conn_ok (c\<lparr>cl_state := ENX_RTSP_STATE_ERROR\<rparr>)"
  by (simp add: conn_ok_def needs_session_def)

text \<open>A handler that moves to \<open>c1\<close> and then sends a text or an error.\<close>

definition handles_to :: "nat \<Rightarrow> rtsp_conn \<Rightarrow> rtsp_conn \<Rightarrow> bool" where
  "handles_to players c c1 \<longleftrightarrow> (conn_ok c \<longrightarrow> conn_ok c1) \<and> nCSeq c1 = nCSeq c
     \<and> (cl_state c1 = cl_state c \<or> state_allowed (cl_state c1) (cl_state c))
     \<and> (play_query c1 \<noteq> play_query c \<longrightarrow> players < RTSP_play_MAX)
     \<and> cl_valid c1 = cl_valid c \<and> eTransport c1 = eTransport c
     \<and> (play_query c \<noteq> 0 \<longrightarrow> play_query c1 \<noteq> 0)"

lemma handles_text:
  "handles_to players c c1 \<Longrightarrow> rp_text r = [] \<or> answers (nCSeq c1) (rp_text r) \<Longrightarrow> handles players c (c1, r)"
  by (simp add: handles_def handles_to_def)

lemma handles_error:
  assumes "handles_to players c c1" and "code \<in> set rtsp_codes"
  shows "handles players c (rtspd_client_rtsp_process_error e code c1)"
  using assms(1) conn_ok_error [of c1] answersI(1) [OF assms(2), of c1 "nCSeq c"]
  by (simp add: handles_def handles_to_def rtspd_client_rtsp_process_error_def Let_def to_error reply_def)

lemma handles_to_refl: "handles_to players c c"
  by (simp add: handles_to_def)

lemma handles_to_state:
  "state_allowed st (cl_state c) \<Longrightarrow>
     (conn_ok c \<Longrightarrow> conn_ok (c\<lparr>cl_state := st\<rparr>)) \<Longrightarrow> handles_to players c (c\<lparr>cl_state := st\<rparr>)"
  by (simp add: handles_to_def)

lemma handles_to_trans:
  assumes "handles_to players c c1" and "handles_to players c1 c2" and "cl_state c2 = cl_state c1"
  shows "handles_to players c c2"
  using assms unfolding handles_to_def by metis

lemmas handles_intros = handles_text handles_error handles_to_refl handles_to_state

lemma handles_reply_ok:
  "handles_to players c c1 \<Longrightarrow> handles players c (reply_ok e c1)"
  by (simp add: reply_ok_def reply_def handles_text answersI)

lemma allowed_moves:
  "state_allowed ENX_RTSP_STATE_OPTIONS st \<Longrightarrow> st \<notin> {ENX_RTSP_STATE_TEARDOWN, ENX_RTSP_STATE_ERROR}"
  "state_allowed ENX_RTSP_STATE_DESCRIBE st \<Longrightarrow> st \<notin> {ENX_RTSP_STATE_TEARDOWN, ENX_RTSP_STATE_ERROR}"
  "state_allowed ENX_RTSP_STATE_SETUP st \<Longrightarrow>
     st \<notin> {ENX_RTSP_STATE_TEARDOWN, ENX_RTSP_STATE_ERROR, ENX_RTSP_STATE_PLAY, ENX_RTSP_STATE_PAUSE}"
  "state_allowed ENX_RTSP_STATE_PLAY st \<Longrightarrow> st \<notin> {ENX_RTSP_STATE_TEARDOWN, ENX_RTSP_STATE_ERROR}"
  "state_allowed ENX_RTSP_STATE_PAUSE st \<Longrightarrow>
     st \<in> {ENX_RTSP_STATE_PLAY, ENX_RTSP_STATE_PAUSE, ENX_RTSP_STATE_GET_PARAMETER, ENX_RTSP_STATE_SET_PARAMETER}"
  by (cases st; simp)+

lemma conn_ok_moves:
  "conn_ok c \<Longrightarrow> state_allowed ENX_RTSP_STATE_OPTIONS (cl_state c) \<Longrightarrow> conn_ok (c\<lparr>cl_state := ENX_RTSP_STATE_OPTIONS\<rparr>)"
  "conn_ok c \<Longrightarrow> state_allowed ENX_RTSP_STATE_DESCRIBE (cl_state c) \<Longrightarrow> conn_ok (c\<lparr>cl_state := ENX_RTSP_STATE_DESCRIBE\<rparr>)"
  "conn_ok c \<Longrightarrow> state_allowed ENX_RTSP_STATE_SETUP (cl_state c) \<Longrightarrow> conn_ok (c\<lparr>cl_state := ENX_RTSP_STATE_SETUP\<rparr>)"
  "conn_ok c \<Longrightarrow> state_allowed ENX_RTSP_STATE_PLAY (cl_state c) \<Longrightarrow> play_query c \<noteq> 0 \<Longrightarrow>
     conn_ok (c\<lparr>cl_state := ENX_RTSP_STATE_PLAY\<rparr>)"
  "conn_ok c \<Longrightarrow> state_allowed ENX_RTSP_STATE_PAUSE (cl_state c) \<Longrightarrow> conn_ok (c\<lparr>cl_state := ENX_RTSP_STATE_PAUSE\<rparr>)"
  "conn_ok c \<Longrightarrow> conn_ok (c\<lparr>cl_state := ENX_RTSP_STATE_TEARDOWN\<rparr>)"
  using allowed_moves [of "cl_state c"]
  by (auto simp: conn_ok_def needs_session_def)

lemma state_cases:
  obtains (ok) "rtspd_client_rtsp_state c st = (if st \<in> {ENX_RTSP_STATE_GET_PARAMETER, ENX_RTSP_STATE_SET_PARAMETER}
        then (c, 0) else (c\<lparr>cl_state := st\<rparr>, 0))" and "state_allowed st (cl_state c)"
    | (no) "rtspd_client_rtsp_state c st = (c, - 1)" and "\<not> state_allowed st (cl_state c)"
  by (cases "state_allowed st (cl_state c)")
     (auto simp: rtspd_client_rtsp_state_def split: rtsp_client_state.splits)

lemma options_handles: "handles players c (rtspd_client_rtsp_process_options e c)"
  by (rule state_cases [of c ENX_RTSP_STATE_OPTIONS])
     (simp_all add: rtspd_client_rtsp_process_options_def reply_def handles_intros answersI conn_ok_moves)

lemma pause_handles: "handles players c (rtspd_client_rtsp_process_pause e c)"
  by (rule state_cases [of c ENX_RTSP_STATE_PAUSE])
     (simp_all add: rtspd_client_rtsp_process_pause_def handles_reply_ok handles_intros conn_ok_moves)

lemma get_parameter_handles: "handles players c (rtspd_client_rtsp_process_get_parameter e c)"
  by (rule state_cases [of c ENX_RTSP_STATE_GET_PARAMETER])
     (simp_all add: rtspd_client_rtsp_process_get_parameter_def handles_reply_ok handles_intros)

lemma set_parameter_handles: "handles players c (rtspd_client_rtsp_process_set_parameter e c)"
  by (rule state_cases [of c ENX_RTSP_STATE_SET_PARAMETER])
     (simp_all add: rtspd_client_rtsp_process_set_parameter_def handles_intros)

lemma teardown_handles: "handles players c (rtspd_client_rtsp_process_teardown e c)"
proof (rule state_cases [of c ENX_RTSP_STATE_TEARDOWN])
  let ?c = "c\<lparr>cl_state := ENX_RTSP_STATE_TEARDOWN\<rparr>"
  assume r: "rtspd_client_rtsp_state c ENX_RTSP_STATE_TEARDOWN =
      (if ENX_RTSP_STATE_TEARDOWN \<in> {ENX_RTSP_STATE_GET_PARAMETER, ENX_RTSP_STATE_SET_PARAMETER}
       then (c, 0) else (?c, 0))"
    and a: "state_allowed ENX_RTSP_STATE_TEARDOWN (cl_state c)"
  have "handles_to players c (?c\<lparr>ss_alloc := False\<rparr>)"
    using a by (auto simp: handles_to_def conn_ok_def needs_session_def)
  then show ?thesis
    using r by (simp add: rtspd_client_rtsp_process_teardown_def reply_ok_def reply_def handles_text answersI)
qed (simp add: rtspd_client_rtsp_process_teardown_def handles_intros)

lemma describe_handles:
  "rtspd_client_rtsp_process_describe e c = Inr o' \<Longrightarrow> handles players c o'"
  by (rule state_cases [of c ENX_RTSP_STATE_DESCRIBE])
     (auto simp: rtspd_client_rtsp_process_describe_def Let_def reply_def conn_ok_moves
       intro!: handles_intros answersI split: if_splits)

lemma describe_no_hang: "rtspd_client_rtsp_process_describe e c \<noteq> Inl Null_session"
  by (simp add: rtspd_client_rtsp_process_describe_def Let_def split: prod.split)

lemma play_handles:
  "rtspd_client_rtsp_process_play e c = Inr o' \<Longrightarrow> handles players c o'"
  by (rule state_cases [of c ENX_RTSP_STATE_PLAY])
     (auto simp: rtspd_client_rtsp_process_play_def Let_def reply_def ENX_RTSP_STRTYPE_NONE_def conn_ok_moves
       intro!: handles_intros answersI split: if_splits)

lemma play_no_hang:
  assumes "conn_ok c"
  shows "rtspd_client_rtsp_process_play e c \<noteq> Inl Null_session"
proof (rule state_cases [of c ENX_RTSP_STATE_PLAY])
  let ?c = "c\<lparr>cl_state := ENX_RTSP_STATE_PLAY\<rparr>"
  assume "rtspd_client_rtsp_state c ENX_RTSP_STATE_PLAY =
      (if ENX_RTSP_STATE_PLAY \<in> {ENX_RTSP_STATE_GET_PARAMETER, ENX_RTSP_STATE_SET_PARAMETER}
       then (c, 0) else (?c, 0))"
    and a: "state_allowed ENX_RTSP_STATE_PLAY (cl_state c)"
  moreover have "ss_alloc c" if "play_query c \<noteq> 0"
    using assms that allowed_moves(4) [OF a] by (auto simp: conn_ok_def needs_session_def)
  ultimately show ?thesis
    by (auto simp: rtspd_client_rtsp_process_play_def ENX_RTSP_STRTYPE_NONE_def)
qed (simp add: rtspd_client_rtsp_process_play_def)

subsection \<open>SETUP\<close>

lemma zero_session_ok: "session_ok zero_session"
  by (simp add: session_ok_def zero_session_def)

lemma setup_session_ok [simp]: "session_ok (setup_session e pt s) = session_ok s"
  by (simp add: setup_session_def session_ok_def other_def split: prod.split)

lemma setup_alloc_conn:
  "conn_ok c \<Longrightarrow> conn_ok (setup_alloc c)" "ss_alloc (setup_alloc c)"
  "cl_state (setup_alloc c) = cl_state c" "play_query (setup_alloc c) = play_query c"
  "cl_valid (setup_alloc c) = cl_valid c" "eTransport (setup_alloc c) = eTransport c"
  "nCSeq (setup_alloc c) = nCSeq c" "isTransport (setup_alloc c) = isTransport c"
  "setup_query (setup_alloc c) = setup_query c" "isLive (setup_alloc c) = isLive c"
  "strUrl (setup_alloc c) = strUrl c"
  by (auto simp: setup_alloc_def conn_ok_def needs_session_def zero_session_ok)

lemma or_nonzero: "(a :: u32) \<noteq> 0 \<Longrightarrow> a OR b \<noteq> 0"
  by (metis or_eq_0_iff)

lemma setup_payload_query: "setup_payload c = Some pt \<Longrightarrow> setup_query c \<noteq> 0"
  by (auto simp: setup_payload_def ENX_RTSP_STRTYPE_VIDEO_def ENX_RTSP_STRTYPE_AUDIO_def split: if_splits)

lemma setup_done_conn:
  assumes "ss_alloc c"
  shows "conn_ok c \<Longrightarrow> conn_ok (setup_done e pt c)"
    and "cl_state (setup_done e pt c) = cl_state c" "cl_valid (setup_done e pt c) = cl_valid c"
    and "eTransport (setup_done e pt c) = eTransport c" "nCSeq (setup_done e pt c) = nCSeq c"
    and "play_query (setup_done e pt c) = play_query c OR setup_query c"
    and "setup_query (setup_done e pt c) = setup_query c" "ss_alloc (setup_done e pt c)"
  using assms by (auto simp: setup_done_def Let_def conn_ok_def needs_session_def)

lemma setup_done_handles:
  assumes "ss_alloc c" "players < RTSP_play_MAX"
  shows "handles_to players c (setup_done e pt c)"
  using setup_done_conn [OF assms(1)] assms(2) or_nonzero [of "play_query c" "setup_query c"]
  by (auto simp: handles_to_def)

lemma setup_body_handles:
  assumes "handles_to players c c1" and "handles_to players c c2"
    and "\<And>pt. players < RTSP_play_MAX \<Longrightarrow> handles_to players c (d pt)"
  shows "handles players c
     (if RTSP_play_MAX \<le> players then rtspd_client_rtsp_process_error e ENX_RTSP_RESPONSE_453 c1
      else if a1 then rtspd_client_rtsp_process_error e ENX_RTSP_RESPONSE_500 c1
      else if a2 then rtspd_client_rtsp_process_error e ENX_RTSP_RESPONSE_400 c2
      else if a3 then rtspd_client_rtsp_process_error e ENX_RTSP_RESPONSE_461 c2
      else (case pl of None \<Rightarrow> rtspd_client_rtsp_process_error e ENX_RTSP_RESPONSE_404 c2
        | Some pt \<Rightarrow> (d pt, \<lparr>rp_text = RESPONSE_HEAD_S ENX_RTSP_RESPONSE_200 (d pt) @ x pt, rp_spawn = sp pt\<rparr>)))"
  using assms by (simp add: handles_error handles_text answersI split: option.split)

lemma setup_handles: "handles players c (rtspd_client_rtsp_process_setup e players c)"
proof (rule state_cases [of c ENX_RTSP_STATE_SETUP])
  let ?c = "c\<lparr>cl_state := ENX_RTSP_STATE_SETUP\<rparr>"
  let ?c2 = "setup_alloc ?c"
  assume r: "rtspd_client_rtsp_state c ENX_RTSP_STATE_SETUP =
      (if ENX_RTSP_STATE_SETUP \<in> {ENX_RTSP_STATE_GET_PARAMETER, ENX_RTSP_STATE_SET_PARAMETER}
       then (c, 0) else (?c, 0))"
    and a: "state_allowed ENX_RTSP_STATE_SETUP (cl_state c)"
  have 1: "handles_to players c ?c" using a by (intro handles_to_state conn_ok_moves)
  have 2: "handles_to players c ?c2"
    using 1 setup_alloc_conn [of ?c] by (simp add: handles_to_def)
  have 3: "handles_to players c (setup_done e pt ?c2)" if "players < RTSP_play_MAX" for pt
    using setup_done_handles [OF setup_alloc_conn(2) that]
    by (intro handles_to_trans [OF 2]) (simp_all add: setup_done_conn setup_alloc_conn)
  have "rtspd_client_rtsp_state c ENX_RTSP_STATE_SETUP = (?c, 0)" using r by simp
  then show ?thesis
    unfolding rtspd_client_rtsp_process_setup_def Let_def
    by (simp only: prod.case if_True simp_thms) (rule setup_body_handles [OF 1 2 3])
next
  assume "rtspd_client_rtsp_state c ENX_RTSP_STATE_SETUP = (c, - 1)"
  then show ?thesis
    unfolding rtspd_client_rtsp_process_setup_def Let_def
    by (auto simp: reply_def intro!: handles_text handles_error handles_to_refl)
qed

section \<open>The handlers meet the contract\<close>

text \<open>A handler that cannot fail.\<close>

lemma total_handlerI:
  assumes "\<And>c. handles players c (f c)"
  shows "rtsp_handler (\<lambda>c. Inr (f c)) players"
  using assms by (intro rtsp_handlerI) (metis sum.inject(2), simp)

interpretation on_options: rtsp_handler "\<lambda>c. Inr (rtspd_client_rtsp_process_options e c)" players for e players
  by (intro total_handlerI options_handles)

interpretation on_describe: rtsp_handler "rtspd_client_rtsp_process_describe e" players for e players
  by (intro rtsp_handlerI describe_handles describe_no_hang)

interpretation on_setup: rtsp_handler "\<lambda>c. Inr (rtspd_client_rtsp_process_setup e players c)" players for e players
  by (intro total_handlerI setup_handles)

interpretation on_play: rtsp_handler "rtspd_client_rtsp_process_play e" players for e players
  by (intro rtsp_handlerI play_handles play_no_hang)

interpretation on_pause: rtsp_handler "\<lambda>c. Inr (rtspd_client_rtsp_process_pause e c)" players for e players
  by (intro total_handlerI pause_handles)

interpretation on_teardown: rtsp_handler "\<lambda>c. Inr (rtspd_client_rtsp_process_teardown e c)" players for e players
  by (intro total_handlerI teardown_handles)

interpretation on_get_parameter:
  rtsp_handler "\<lambda>c. Inr (rtspd_client_rtsp_process_get_parameter e c)" players for e players
  by (intro total_handlerI get_parameter_handles)

interpretation on_set_parameter:
  rtsp_handler "\<lambda>c. Inr (rtspd_client_rtsp_process_set_parameter e c)" players for e players
  by (intro total_handlerI set_parameter_handles)

lemma dispatch_handles: "rtsp_dispatch e players c = Inr o' \<Longrightarrow> handles players c o'"
  by (auto simp: rtsp_dispatch_def split: rtsp_method_type.splits
      intro: options_handles describe_handles setup_handles play_handles pause_handles
        teardown_handles get_parameter_handles set_parameter_handles)

lemma dispatch_no_hang: "conn_ok c \<Longrightarrow> rtsp_dispatch e players c \<noteq> Inl Null_session"
  using describe_no_hang [of e c] play_no_hang [of c e]
  by (auto simp: rtsp_dispatch_def split: rtsp_method_type.splits)

text \<open>The choice of the stream touches only its own fields.\<close>

lemma check_url_frame:
  assumes "rtspd_client_rtsp_check_url vs url c = (c', res)"
  shows "cl_state c' = cl_state c" "play_query c' = play_query c" "ss_alloc c' = ss_alloc c"
    "rtp_ss c' = rtp_ss c" "strUrl c' = strUrl c" "nCSeq c' = nCSeq c" "nSession c' = nSession c"
    "cl_valid c' = cl_valid c" "eTransport c' = eTransport c" "rtsp_method c' = rtsp_method c"
  using assms
  by (auto simp: rtspd_client_rtsp_check_url_def Let_def split: if_splits option.splits)

lemma check_url_handles_to:
  assumes "rtspd_client_rtsp_check_url vs url c = (c', res)"
  shows "handles_to players c c'" and "conn_ok c \<Longrightarrow> conn_ok c'"
  using check_url_frame [OF assms] by (simp_all add: handles_to_def conn_ok_def needs_session_def)

lemma response_handles:
  assumes "rtspd_client_rtsp_response e players c = Inr o'"
  shows "handles players c o'"
proof -
  obtain c1 res where u: "rtspd_client_rtsp_check_url (env_channels e) (strUrl c) c = (c1, res)"
    by fastforce
  note to = check_url_handles_to(1) [OF u, of players] check_url_handles_to(2) [OF u]
  note fr = check_url_frame [OF u]
  have "handles players c o'" if "handles players c1 o'" for o'
    using that to fr by (auto simp: handles_def split: prod.splits)
  with assms u to show ?thesis
    by (auto simp: rtspd_client_rtsp_response_def handles_error handles_to_refl dispatch_handles
        split: if_splits)
qed

lemma response_no_hang:
  assumes "conn_ok c"
  shows "rtspd_client_rtsp_response e players c \<noteq> Inl Null_session"
proof -
  obtain c1 res where u: "rtspd_client_rtsp_check_url (env_channels e) (strUrl c) c = (c1, res)"
    by fastforce
  show ?thesis
    using dispatch_no_hang [OF check_url_handles_to(2) [OF u assms]] u
    by (auto simp: rtspd_client_rtsp_response_def)
qed

interpretation on_response: rtsp_handler "rtspd_client_rtsp_response e players" players for e players
  by (intro rtsp_handlerI response_handles response_no_hang)

end
