(* ===== verification/RtspInv.thy ===== *)
theory RtspInv
  imports RtspHandlers
begin

text \<open>
  What one round of a task does to one connection: which fields the packetisers, the sending tasks,
  the parser and a whole request leave alone, that \<open>conn_ok\<close> is kept, and that no round waits for a
  session that is not there.
\<close>

section \<open>What the packetisers leave alone\<close>

definition keeps :: "nat \<Rightarrow> rtsp_client \<Rightarrow> rtsp_client \<Rightarrow> bool" where
  "keeps k c c' \<longleftrightarrow> cl_valid c' = cl_valid c \<and> cl_state c' = cl_state c
     \<and> play_query c' = play_query c \<and> eTransport c' = eTransport c
     \<and> (\<forall>j. j \<noteq> k \<longrightarrow> rtp_ss c' j = rtp_ss c j)"

lemma keeps_refl [simp]: "keeps k c c"
  by (simp add: keeps_def)

lemma keeps_trans: "keeps k c c1 \<Longrightarrow> keeps k c1 c2 \<Longrightarrow> keeps k c c2"
  by (simp add: keeps_def)

lemma keeps_set_ss [simp]: "keeps k c (set_ss c k s)"
  by (simp add: keeps_def)

lemma keeps_emit [simp]: "keeps k c (rtp_emit c k pk body dn)"
  by (simp add: keeps_def rtp_emit_def Let_def)

lemma keeps_queue [simp]:
  "keeps k c (c\<lparr>rtp_queue_video := q\<rparr>)" "keeps k c (c\<lparr>rtp_queue_audio := q\<rparr>)"
  by (simp_all add: keeps_def)

lemma keeps_queue_ss [simp]:
  "keeps k c (set_ss (c\<lparr>rtp_queue_video := q\<rparr>) k s)" "keeps k c (set_ss (c\<lparr>rtp_queue_audio := q\<rparr>) k s)"
  by (simp_all add: keeps_def)

lemma doing_keeps:
  "keeps 0 c (h264_doing m c)" "keeps 0 c (h265_doing m c)" "keeps 0 c (jpeg_doing m c)"
  "keeps 1 c (g711_doing m c)" "keeps 1 c (g711_toggle c)"
  by (simp_all add: h264_doing_def h265_doing_def jpeg_doing_def g711_doing_def g711_toggle_def
      Let_def split: prod.split)

lemma ready_keeps: "h26x_ready c = (go, c') \<Longrightarrow> keeps 0 c c'" "jpeg_ready m c = (go, c') \<Longrightarrow> keeps 0 c c'"
  by (auto simp: h26x_ready_def jpeg_ready_def Let_def split: option.splits prod.splits if_splits)

lemma main_keeps:
  "keeps 0 c (fst (rtspd_client_rtp_h264_main m c))" "keeps 0 c (fst (rtspd_client_rtp_h265_main m c))"
  "keeps 0 c (fst (rtspd_client_rtp_jpeg_main m c))"
  by (auto simp: rtspd_client_rtp_h264_main_def rtspd_client_rtp_h265_main_def
      rtspd_client_rtp_jpeg_main_def Let_def split: rtp_txstate_type.split prod.split
      dest: ready_keeps intro: doing_keeps keeps_trans [OF ready_keeps(1) doing_keeps(1)]
        keeps_trans [OF ready_keeps(1) doing_keeps(2)] keeps_trans [OF ready_keeps(2) doing_keeps(3)])

lemma g711_keeps: "keeps 1 c (fst (rtspd_client_rtp_g711_main m c))"
proof -
  have "keeps 1 c (g711_doing m c1)" if "keeps 1 c c1" for c1
    using keeps_trans [OF that doing_keeps(4)] .
  then show ?thesis
    using doing_keeps(4,5) keeps_trans [OF doing_keeps(5) keeps_set_ss, of c]
    by (auto simp: rtspd_client_rtp_g711_main_def Let_def split: rtp_txstate_type.split option.split)
qed

lemma play_keeps:
  "keeps 0 c (fst (rtspd_client_rtp_video_play m c))" "keeps 1 c (fst (rtspd_client_rtp_audio_play m c))"
  using keeps_trans [OF keeps_set_ss main_keeps(1)] keeps_trans [OF keeps_set_ss main_keeps(2)]
    keeps_trans [OF keeps_set_ss main_keeps(3)] keeps_trans [OF keeps_set_ss g711_keeps]
  by (auto simp: rtspd_client_rtp_video_play_def rtspd_client_rtp_audio_play_def Let_def
      split: rtsp_stream_type.split)

section \<open>Rounds of the sending tasks\<close>

text \<open>What a round leaves of a connection: all but session \<open>k\<close>, which stays in order.\<close>

definition conn_keeps :: "nat \<Rightarrow> rtsp_conn \<Rightarrow> rtsp_conn \<Rightarrow> bool" where
  "conn_keeps k c c' \<longleftrightarrow> cl_valid c' = cl_valid c \<and> cl_state c' = cl_state c
     \<and> play_query c' = play_query c \<and> eTransport c' = eTransport c
     \<and> ss_alloc c' = ss_alloc c \<and> strUrl c' = strUrl c
     \<and> (\<forall>j. j \<noteq> k \<longrightarrow> rtp_ss c' j = rtp_ss c j)
     \<and> (session_ok (rtp_ss c k) \<longrightarrow> session_ok (rtp_ss c' k))"

lemma extend_more [simp]:
  fixes c :: rtsp_conn
  shows "ss_alloc (rtsp_client.extend cl (rtsp_client.more c)) = ss_alloc c"
    and "strUrl (rtsp_client.extend cl (rtsp_client.more c)) = strUrl c"
    and "cl_valid (rtsp_client.extend cl (rtsp_client.more c)) = cl_valid cl"
    and "cl_state (rtsp_client.extend cl (rtsp_client.more c)) = cl_state cl"
    and "play_query (rtsp_client.extend cl (rtsp_client.more c)) = play_query cl"
    and "eTransport (rtsp_client.extend cl (rtsp_client.more c)) = eTransport cl"
    and "rtp_ss (rtsp_client.extend cl (rtsp_client.more c)) = rtp_ss cl"
  by (cases c; simp add: rtsp_client.defs)+

lemma truncate_sel [simp]:
  fixes c :: "'a rtsp_client_scheme"
  shows "cl_valid (rtsp_client.truncate c) = cl_valid c" "cl_state (rtsp_client.truncate c) = cl_state c"
    and "play_query (rtsp_client.truncate c) = play_query c" "eTransport (rtsp_client.truncate c) = eTransport c"
    and "rtp_ss (rtsp_client.truncate c) = rtp_ss c"
  by (simp_all add: rtsp_client.defs)

lemma play_on_keeps:
  assumes "play_on f c = (c', res)" and "keeps k (rtsp_client.truncate c) (fst (f (rtsp_client.truncate c)))"
    and "session_ok (rtp_ss c k) \<Longrightarrow> session_ok (rtp_ss (fst (f (rtsp_client.truncate c))) k)"
  shows "conn_keeps k c c'"
proof -
  obtain cl r where f: "f (rtsp_client.truncate c) = (cl, r)" by fastforce
  with assms(1) have "c' = rtsp_client.extend cl (rtsp_client.more c)" by (simp add: play_on_def)
  with assms(2,3) f show ?thesis by (simp add: conn_keeps_def keeps_def)
qed

lemma ss_ok_session: "ss_ok k (rtsp_client.truncate c) = session_ok (rtp_ss c k)"
  by (simp add: ss_ok_def session_ok_def)

lemma round_session: "round_ok k c c' \<Longrightarrow> session_ok (rtp_ss c' k)"
  by (simp add: round_ok_def ss_ok_def session_ok_def)

lemma round_length:
  assumes "round_ok k c c'" "eTransport c = ENX_RTSP_TRANSPORT_TCP"
  shows "buf_len (rtp_ss c' k) (cur (rtp_ss c' k)) \<le> 1460"
proof -
  have "length (rtp_pkt (rtp_ss c' k)) = unat (buf_len (rtp_ss c' k) (cur (rtp_ss c' k)))"
    by (simp add: rtp_pkt_def)
  with assms have "unat (buf_len (rtp_ss c' k) (cur (rtp_ss c' k))) \<le> 1460"
    by (auto simp: round_ok_def rtp_mtu_def TCP_MSS_def split: if_splits)
  then show ?thesis by (simp add: word_le_nat_alt)
qed

text \<open>A track that can be played, with both of its packetisers.\<close>

definition track :: "nat \<Rightarrow> (rtsp_client \<Rightarrow> rtsp_client \<times> int) \<Rightarrow> bool" where
  "track k f \<longleftrightarrow> (\<forall>c. keeps k c (fst (f c)) \<and> (ss_ok k c \<longrightarrow> round_ok k c (fst (f c))))"

lemma tracks: "track 0 (rtspd_client_rtp_video_play m)" "track 1 (rtspd_client_rtp_audio_play m)"
  using play_keeps video_round audio_round by (simp_all add: track_def)

lemma track_keeps:
  assumes "track k f" and "play_on f c = (c', res)"
  shows "conn_keeps k c c'"
proof (rule play_on_keeps [OF assms(2)])
  show "keeps k (rtsp_client.truncate c) (fst (f (rtsp_client.truncate c)))"
    using assms(1) by (simp add: track_def)
  show "session_ok (rtp_ss (fst (f (rtsp_client.truncate c))) k)" if "session_ok (rtp_ss c k)"
    using assms(1) that by (intro round_session [where c = "rtsp_client.truncate c"])
      (simp add: track_def ss_ok_session)
qed

lemma track_length:
  assumes "track k f" and "play_on f c = (c', res)" and "session_ok (rtp_ss c k)"
    and "eTransport c = ENX_RTSP_TRANSPORT_TCP"
  shows "buf_len (rtp_ss c' k) (cur (rtp_ss c' k)) \<le> 1460"
proof -
  have "round_ok k (rtsp_client.truncate c) (fst (f (rtsp_client.truncate c)))"
    using assms(1,3) by (simp add: track_def ss_ok_session)
  moreover have "eTransport (rtsp_client.truncate c) = ENX_RTSP_TRANSPORT_TCP"
    using assms(4) by simp
  ultimately have "buf_len (rtp_ss (fst (f (rtsp_client.truncate c))) k)
      (cur (rtp_ss (fst (f (rtsp_client.truncate c))) k)) \<le> 1460" by (rule round_length)
  with assms(2) show ?thesis by (auto simp: play_on_def split: prod.splits)
qed

lemma count_sent_keeps: "conn_keeps k c (count_sent k n c)"
  by (simp add: conn_keeps_def count_sent_def session_ok_def other_def)

lemma conn_keeps_trans: "conn_keeps k c c1 \<Longrightarrow> conn_keeps k c1 c2 \<Longrightarrow> conn_keeps k c c2"
  by (simp add: conn_keeps_def)

lemma tcp_track_keeps:
  assumes "track k f" and "tcp_track f sel k c = Inr (c', res, broken)"
  shows "conn_keeps k c c'"
proof -
  obtain c1 r where p: "play_on f c = (c1, r)" by fastforce
  note 1 = track_keeps [OF assms(1) p]
  from assms(2) p show ?thesis
    using 1 conn_keeps_trans [OF 1 count_sent_keeps]
    by (auto simp: tcp_track_def Let_def split: if_splits sum.splits)
qed

text \<open>An interleaved sender never stops on a packet.\<close>

lemma tcp_track_no_fault:
  assumes t: "track k f" and k: "k < 2" and s: "session_ok (rtp_ss c k)" "ss_alloc c"
    and e: "eTransport c = ENX_RTSP_TRANSPORT_TCP"
  shows "tcp_track f sel k c \<noteq> Inl f'"
proof -
  obtain c1 r where p: "play_on f c = (c1, r)" by fastforce
  have "conn_keeps k c c1" by (rule track_keeps [OF t p])
  then have "session_ok (rtp_ss c1 k)" "ss_alloc c1" using s by (simp_all add: conn_keeps_def)
  then have "rtspd_client_rtp_tcp_send sel k c1 \<noteq> Inl f'" for f'
    using track_length [OF t p s(1) e] k idx_cases [of "buf_idx (rtp_ss c1 k)"]
    by (auto simp: rtspd_client_rtp_tcp_send_def ENX_RTSP_STRTYPE_numNONE_def session_ok_def
        split: select_result.split)
  then show ?thesis
    using p by (auto simp: tcp_track_def Let_def split: sum.split)
qed

section \<open>Steps of a connection\<close>

text \<open>What the sending tasks may do to a connection.\<close>

definition conn_step :: "rtsp_conn \<Rightarrow> rtsp_conn \<Rightarrow> bool" where
  "conn_step c c' \<longleftrightarrow> (conn_ok c \<longrightarrow> conn_ok c') \<and> cl_valid c' = cl_valid c \<and> eTransport c' = eTransport c
     \<and> (play_query c' = play_query c \<or> play_query c' = 0)
     \<and> (cl_state c' = cl_state c \<or> cl_state c = ENX_RTSP_STATE_PLAY \<and> cl_state c' = ENX_RTSP_STATE_ERROR)"

lemma conn_step_refl [simp]: "conn_step c c"
  by (simp add: conn_step_def)

lemma conn_step_trans: "conn_step c c1 \<Longrightarrow> conn_step c1 c2 \<Longrightarrow> conn_step c c2"
  by (auto simp: conn_step_def)

lemma conn_keeps_ok: "conn_keeps k c c' \<Longrightarrow> conn_ok c \<Longrightarrow> conn_ok c'"
  unfolding conn_keeps_def conn_ok_def needs_session_def by metis

lemma conn_keeps_step: "conn_keeps k c c' \<Longrightarrow> conn_step c c'"
  using conn_keeps_ok [of k c c'] by (auto simp: conn_keeps_def conn_step_def)

lemma conn_step_stop: "conn_step c (c\<lparr>play_query := 0\<rparr>)"
  by (simp add: conn_step_def conn_ok_def needs_session_def)

lemma conn_step_time: "conn_step c (c\<lparr>lastTime := t\<rparr>)"
  by (simp add: conn_step_def conn_ok_def needs_session_def)

lemma tcp_step:
  "tcp_track (rtspd_client_rtp_video_play m) sel 0 c = Inr (c', res, broken) \<Longrightarrow> conn_step c c'"
  "tcp_track (rtspd_client_rtp_audio_play m) sel (Suc 0) c = Inr (c', res, broken) \<Longrightarrow> conn_step c c'"
  using conn_keeps_step [OF tcp_track_keeps [OF tracks(1)]] conn_keeps_step [OF tcp_track_keeps [OF tracks(2)]]
  by auto

lemma rtp_main_step:
  assumes "rtspd_client_rtp_main m sv sa c = Inr (c', ended)"
  shows "conn_step c c'"
proof (cases "cl_state c = ENX_RTSP_STATE_PLAY \<and> ss_alloc c")
  case False
  with assms show ?thesis
    by (auto simp: rtspd_client_rtp_main_def Let_def conn_step_stop
        split: rtsp_client_state.splits if_splits)
next
  case True
  with assms obtain c1 r b where v: "tcp_track (rtspd_client_rtp_video_play m) sv 0 c = Inr (c1, r, b)"
    and rest: "if b then c' = c1\<lparr>play_query := 0\<rparr>
      else \<exists>c2 r b. tcp_track (rtspd_client_rtp_audio_play m) sa (Suc 0) c1 = Inr (c2, r, b)
        \<and> (c' = c2 \<or> c' = c2\<lparr>play_query := 0\<rparr>)"
    by (auto simp: rtspd_client_rtp_main_def Let_def split: sum.splits if_splits)
  note 1 = tcp_step(1) [OF v]
  show ?thesis
  proof (cases b)
    case True
    with rest conn_step_trans [OF 1 conn_step_stop] show ?thesis by simp
  next
    case False
    with rest obtain c2 r b where
      a: "tcp_track (rtspd_client_rtp_audio_play m) sa (Suc 0) c1 = Inr (c2, r, b)"
      and c': "c' = c2 \<or> c' = c2\<lparr>play_query := 0\<rparr>" by auto
    note 3 = conn_step_trans [OF 1 tcp_step(2) [OF a]]
    with c' conn_step_trans [OF 3 conn_step_stop] show ?thesis by auto
  qed
qed

text \<open>The datagram sender counts its failures and may give a playing client up.\<close>

lemma udp_send_step:
  assumes "rtspd_client_rtp_udp_send now sel k c = Inr (c', n)"
    and "cl_state c \<in> {ENX_RTSP_STATE_PLAY, ENX_RTSP_STATE_ERROR}"
  shows "conn_step c c'"
  using assms
  by (auto simp: rtspd_client_rtp_udp_send_def Let_def conn_step_def conn_ok_def needs_session_def
      split: select_result.splits if_splits)

lemma count_sent_step: "conn_step c (count_sent k n c)"
  by (rule conn_keeps_step [OF count_sent_keeps])

lemma udp_track_step:
  assumes "track k f" and "udp_track f now sel k c = Inr (c', broken)"
    and st: "cl_state c \<in> {ENX_RTSP_STATE_PLAY, ENX_RTSP_STATE_ERROR}"
  shows "conn_step c c'"
proof -
  obtain c1 r where p: "play_on f c = (c1, r)" by fastforce
  have 1: "conn_step c c1" by (rule conn_keeps_step [OF track_keeps [OF assms(1) p]])
  have st1: "cl_state c1 \<in> {ENX_RTSP_STATE_PLAY, ENX_RTSP_STATE_ERROR}"
    using track_keeps [OF assms(1) p] st by (simp add: conn_keeps_def)
  have "conn_step c c2" "conn_step c (count_sent k n c2)"
    if "rtspd_client_rtp_udp_send now sel k c1 = Inr (c2, n)" for c2 n
    using conn_step_trans [OF 1 udp_send_step [OF that st1]] conn_step_trans [OF _ count_sent_step] by auto
  with assms(2) p 1 show ?thesis
    by (auto simp: udp_track_def Let_def split: if_splits sum.splits)
qed

lemma udp_main_step:
  assumes "rtspd_client_udp_rtp_main m now sv sa c = Inr c'"
  shows "conn_step c c'"
proof (cases "cl_state c = ENX_RTSP_STATE_PLAY \<and> eTransport c = ENX_RTSP_TRANSPORT_UDP \<and> ss_alloc c")
  case False
  with assms show ?thesis
    by (auto simp: rtspd_client_udp_rtp_main_def conn_step_stop split: rtsp_client_state.splits if_splits)
next
  case True
  with assms obtain c1 broken where
    v: "udp_track (rtspd_client_rtp_video_play m) now sv 0 c = Inr (c1, broken)"
    and r: "if broken then c' = c1
      else \<exists>b. udp_track (rtspd_client_rtp_audio_play m) now sa 1 c1 = Inr (c', b)"
    by (auto simp: rtspd_client_udp_rtp_main_def map_sum_def split: sum.splits if_splits)
  have 1: "conn_step c c1" by (rule udp_track_step [OF tracks(1) v]) (simp add: True)
  then have "cl_state c1 \<in> {ENX_RTSP_STATE_PLAY, ENX_RTSP_STATE_ERROR}"
    using True by (auto simp: conn_step_def)
  with r 1 show ?thesis
    using conn_step_trans [OF 1 udp_track_step [OF tracks(2)]] by (auto split: if_splits)
qed

lemma put1_conn_step:
  assumes "f = stream_video_put1 vt d \<or> f = stream_audio_put1 d"
  shows "conn_step c (fst (play_on (\<lambda>c. (f c, 0)) c))"
proof -
  have "keeps k cl (f cl)" and "rtp_ss (f cl) = rtp_ss cl" for k cl
    using assms by (auto simp: keeps_def stream_video_put1_def stream_audio_put1_def split: if_splits)
  then have "conn_keeps 0 c (fst (play_on (\<lambda>c. (f c, 0)) c))"
    by (intro play_on_keeps [where res = 0 and f = "\<lambda>c. (f c, 0)"]) (simp_all add: play_on_def)
  then show ?thesis by (rule conn_keeps_step)
qed

section \<open>Requests\<close>

text \<open>Parsing a request touches the fields of the request and the transport.\<close>

definition parse_keeps :: "rtsp_conn \<Rightarrow> rtsp_conn \<Rightarrow> bool" where
  "parse_keeps c c' \<longleftrightarrow> cl_valid c' = cl_valid c \<and> cl_state c' = cl_state c
     \<and> play_query c' = play_query c \<and> ss_alloc c' = ss_alloc c \<and> rtp_ss c' = rtp_ss c
     \<and> login c' = login c"

lemma header_setup_keeps:
  "header_setup h a c = Inr c' \<Longrightarrow> parse_keeps c c' \<and> strUrl c' = strUrl c"
  by (auto simp: header_setup_def set_ports_def parse_keeps_def Let_def split: if_splits option.splits)

lemma header_common_keeps:
  "parse_keeps c (header_common h a c) \<and> strUrl (header_common h a c) = strUrl c"
  by (simp add: header_common_def parse_keeps_def)

lemma parse_keeps_trans: "parse_keeps c c1 \<Longrightarrow> parse_keeps c1 c2 \<Longrightarrow> parse_keeps c c2"
  by (simp add: parse_keeps_def)

lemma header_parse_keeps:
  assumes "rtspd_client_rtsp_header_parse h a c = Inr c'"
  shows "parse_keeps c c' \<and> strUrl c' = strUrl c"
proof -
  obtain c1 where c1: "header_common h a c = c1" "parse_keeps c c1" "strUrl c1 = strUrl c"
    using header_common_keeps [of c h a] by simp
  have "parse_keeps c1 c' \<and> strUrl c' = strUrl c1"
    using assms header_setup_keeps [of h a c1 c'] unfolding rtspd_client_rtsp_header_parse_def Let_def c1(1)
    by (cases "rtsp_method c1") (auto simp: parse_keeps_def split: if_splits)
  with c1 parse_keeps_trans show ?thesis by auto
qed

lemma header_loop_keeps:
  "header_loop s c = Inr c' \<Longrightarrow> parse_keeps c c' \<and> strUrl c' = strUrl c"
proof (induction s c rule: header_loop.induct)
  case (1 s c)
  show ?case
  proof (cases "strstr s CRLF")
    case None
    with "1.prems" show ?thesis by (simp add: header_loop.simps [of s] parse_keeps_def)
  next
    case (Some k)
    with "1.prems" obtain c1 where
      h: "rtspd_client_rtsp_header_parse (take k s) (drop (k + 1) s) c = Inr c1"
      and l: "header_loop (drop (k + 2) s) c1 = Inr c'"
      by (auto simp: header_loop.simps [of s] split: sum.splits)
    from "1.IH" [OF Some h l] header_parse_keeps [OF h] show ?thesis
      by (simp add: parse_keeps_def)
  qed
qed

lemma method_parse_keeps:
  assumes "rtspd_client_rtsp_method_parse s c = Inr (c', res)"
  shows "parse_keeps c c'" and "length (strUrl c) \<le> 127 \<Longrightarrow> length (strUrl c') \<le> 127"
  using assms
  by (auto simp: rtspd_client_rtsp_method_parse_def Let_def parse_keeps_def strlcpy_def
      dest!: header_loop_keeps split: option.splits sum.splits)

lemma method_parse_conn_ok:
  assumes "rtspd_client_rtsp_method_parse s c = Inr (c', res)" and "conn_ok c"
  shows "conn_ok c'"
  using method_parse_keeps [OF assms(1)] assms(2)
  by (simp add: parse_keeps_def conn_ok_def needs_session_def)

lemma set_ports_no_hang: "set_ports p c \<noteq> Inl Null_session"
  by (simp add: set_ports_def)

lemma header_parse_no_hang: "rtspd_client_rtsp_header_parse h a c \<noteq> Inl Null_session"
  unfolding rtspd_client_rtsp_header_parse_def Let_def
  by (cases "rtsp_method (header_common h a c)") (simp_all add: header_setup_def Let_def set_ports_no_hang)

lemma header_loop_no_hang: "header_loop s c \<noteq> Inl Null_session"
proof (induction s c rule: header_loop.induct)
  case (1 s c)
  then show ?case
    using header_parse_no_hang by (auto simp: header_loop.simps [of s] split: option.split sum.split)
qed

lemma method_parse_no_hang: "rtspd_client_rtsp_method_parse s c \<noteq> Inl Null_session"
  using header_loop_no_hang
  by (auto simp: rtspd_client_rtsp_method_parse_def Let_def split: option.split sum.split)

text \<open>What the task gets from a piece of input.\<close>

definition round_good :: "nat \<Rightarrow> rtsp_conn \<Rightarrow> rtsp_task \<Rightarrow> rtsp_round \<Rightarrow> bool" where
  "round_good players c t r \<longleftrightarrow> conn_ok (ro_conn r) \<and> cl_valid (ro_conn r) = cl_valid c
     \<and> rt_phase (ro_task r) = rt_phase t
     \<and> (play_query (ro_conn r) \<noteq> play_query c \<longrightarrow> players < RTSP_play_MAX)"

lemma request_good:
  assumes "conn_ok c" and "rtsp_request e players b c t = Inr r"
  shows "round_good players c t r"
proof -
  from assms(2) obtain c1 res where p: "rtspd_client_rtsp_method_parse (takeWhile (\<lambda>x. x \<noteq> CHR 0x00) b) c
      = Inr (c1, res)"
    by (auto simp: rtsp_request_def split: sum.splits)
  note ok = method_parse_conn_ok [OF p assms(1)]
  note fr = method_parse_keeps(1) [OF p]
  consider "ro_conn r = c1" "rt_phase (ro_task r) = rt_phase t"
    | x where "rtspd_client_rtsp_response e players c1 = Inr x" "ro_conn r = fst x"
        "rt_phase (ro_task r) = rt_phase t"
    | "ro_conn r = fst (rtspd_client_rtsp_process_error e ENX_RTSP_RESPONSE_401 c1)"
        "rt_phase (ro_task r) = rt_phase t"
    using assms(2) p by (auto simp: rtsp_request_def Let_def split: if_splits sum.splits option.splits prod.splits)
  then show ?thesis
  proof cases
    case 1
    with ok fr show ?thesis by (simp add: round_good_def parse_keeps_def)
  next
    case (2 x)
    obtain c2 rr where x: "x = (c2, rr)" by fastforce
    note h = 2(1) [unfolded x]
    from on_response.keeps [OF ok h] on_response.frame [OF h] on_response.admits [OF h] fr 2 x
    show ?thesis by (auto simp: round_good_def parse_keeps_def)
  next
    case 3
    with ok fr show ?thesis
      by (simp add: round_good_def parse_keeps_def rtspd_client_rtsp_process_error_def reply_def)
  qed
qed

lemma receive_good:
  assumes "conn_ok c" and "rtsp_receive e players d c t = Inr r"
  shows "round_good players c t r"
  using assms request_good
  by (auto simp: rtsp_receive_def Let_def round_good_def split: if_splits)

lemma receive_no_hang:
  assumes "conn_ok c"
  shows "rtsp_receive e players d c t \<noteq> Inl Null_session"
proof -
  have "rtsp_request e players b c t \<noteq> Inl Null_session" for b
    using method_parse_no_hang response_no_hang [OF method_parse_conn_ok [OF _ assms]]
    by (auto simp: rtsp_request_def Let_def split: sum.split option.split prod.split)
  then show ?thesis by (auto simp: rtsp_receive_def Let_def)
qed

end
