(* ===== verification/RtspSafe.thy ===== *)
theory RtspSafe
  imports RtspInv
begin

text \<open>
  The invariant of the whole RTSP server, kept by every step and so in every state it reaches: two
  players at most, and the counter of clients is that of the tasks which have not begun to close.
\<close>

section \<open>Counting slots\<close>

lemma count_mono:
  "(\<And>j. j < n \<Longrightarrow> Q j \<Longrightarrow> P j) \<Longrightarrow> length (filter Q [0..<n]) \<le> length (filter P [0..<n])"
  by (induction n) (auto intro: le_SucI)

lemma count_cong:
  "(\<And>j. j < n \<Longrightarrow> Q j = P j) \<Longrightarrow> length (filter Q [0..<n]) = length (filter P [0..<n])"
  by (induction n) auto

lemma count_add:
  "i < n \<Longrightarrow> \<not> P i \<Longrightarrow> Q i \<Longrightarrow> (\<And>j. j \<noteq> i \<Longrightarrow> Q j = P j) \<Longrightarrow>
     length (filter Q [0..<n]) = Suc (length (filter P [0..<n]))"
proof (induction n)
  case (Suc n)
  show ?case
  proof (cases "i = n")
    case True
    have "length (filter Q [0..<n]) = length (filter P [0..<n])"
      using Suc.prems(4) True by (intro count_cong) auto
    with True Suc.prems show ?thesis by simp
  next
    case False
    with Suc show ?thesis by simp
  qed
qed simp

lemma count_le_Suc:
  assumes "i < n" and "\<And>j. j \<noteq> i \<Longrightarrow> Q j = P j"
  shows "length (filter Q [0..<n]) \<le> Suc (length (filter P [0..<n]))"
proof (cases "\<not> P i \<and> Q i")
  case True
  then show ?thesis using count_add [of i n P Q] assms by simp
next
  case False
  have "length (filter Q [0..<n]) \<le> length (filter P [0..<n])"
  proof (rule count_mono)
    fix j assume "Q j"
    then show "P j" using False assms(2) [of j] by (cases "j = i") auto
  qed
  then show ?thesis by simp
qed

section \<open>The invariant\<close>

text \<open>A task that has not begun to close its connection.\<close>

definition counted :: "rtsp_server \<Rightarrow> nat \<Rightarrow> bool" where
  "counted s i = (case main_task s i of None \<Rightarrow> False | Some t \<Rightarrow> rt_phase t \<noteq> Main_close)"

definition slot_good :: "rtsp_conn \<Rightarrow> rtsp_task option \<Rightarrow> bool" where
  "slot_good c t \<longleftrightarrow> conn_ok c \<and> (case t of None \<Rightarrow> \<not> cl_valid c
     | Some t \<Rightarrow> cl_valid c \<and> (rt_phase t \<noteq> Main_loop \<longrightarrow> cl_state c = ENX_RTSP_STATE_TEARDOWN))"

definition slot_ok :: "rtsp_server \<Rightarrow> nat \<Rightarrow> bool" where
  "slot_ok s i \<longleftrightarrow> slot_good (rclist s i) (main_task s i)"

lemma slot_good_simps [simp]:
  "slot_good c None \<longleftrightarrow> conn_ok c \<and> \<not> cl_valid c"
  "slot_good c (Some t) \<longleftrightarrow> conn_ok c \<and> cl_valid c
     \<and> (rt_phase t \<noteq> Main_loop \<longrightarrow> cl_state c = ENX_RTSP_STATE_TEARDOWN)"
  by (simp_all add: slot_good_def)

definition server_ok :: "rtsp_server \<Rightarrow> bool" where
  "server_ok s \<longleftrightarrow> (\<forall>i. slot_ok s i) \<and> rtspd_player_count s \<le> RTSP_play_MAX
     \<and> client_count s = int (length (filter (counted s) [0..<RTSP_info_MAX]))"

lemma server_okD:
  assumes "server_ok s"
  shows "conn_ok (rclist s i)" "slot_ok s i" "rtspd_player_count s \<le> RTSP_play_MAX"
    "0 \<le> client_count s" "client_count s \<le> 20"
proof -
  have "length (filter (counted s) [0..<RTSP_info_MAX]) \<le> 20"
    by (rule order_trans [OF length_filter_le]) (simp add: RTSP_info_MAX_def)
  with assms show "conn_ok (rclist s i)" "slot_ok s i" "rtspd_player_count s \<le> RTSP_play_MAX"
    "0 \<le> client_count s" "client_count s \<le> 20"
    by (auto simp: server_ok_def slot_ok_def slot_good_def)
qed

lemma set_sel [simp]:
  "rclist (set_conn i c s) j = (if j = i then c else rclist s j)" "main_task (set_conn i c s) = main_task s"
  "client_count (set_conn i c s) = client_count s" "rclist (set_task i t s) = rclist s"
  "main_task (set_task i t s) j = (if j = i then t else main_task s j)"
  "client_count (set_task i t s) = client_count s" "rtp_tasks (set_conn i c s) = rtp_tasks s"
  "rtp_tasks (set_task i t s) = rtp_tasks s"
  by (simp_all add: set_conn_def set_task_def)

lemma player_count_mono:
  "(\<And>j. play_query (rclist s' j) \<noteq> 0 \<Longrightarrow> play_query (rclist s j) \<noteq> 0) \<Longrightarrow>
     rtspd_player_count s' \<le> rtspd_player_count s"
  unfolding rtspd_player_count_def by (rule count_mono) auto

lemma player_count_set:
  assumes "i < RTSP_info_MAX" and "\<And>j. j \<noteq> i \<Longrightarrow> play_query (rclist s' j) = play_query (rclist s j)"
    and "play_query (rclist s' i) \<noteq> play_query (rclist s i) \<longrightarrow> rtspd_player_count s < RTSP_play_MAX"
    and "rtspd_player_count s \<le> RTSP_play_MAX"
  shows "rtspd_player_count s' \<le> RTSP_play_MAX"
proof (cases "play_query (rclist s' i) = play_query (rclist s i)")
  case True
  then have "rtspd_player_count s' \<le> rtspd_player_count s"
    using assms(2) by (intro player_count_mono) metis
  with assms(4) show ?thesis by simp
next
  case False
  have "rtspd_player_count s' \<le> Suc (rtspd_player_count s)"
    unfolding rtspd_player_count_def using assms(1,2) by (intro count_le_Suc) auto
  with False assms(3) show ?thesis by simp
qed

lemma counted_cong: "main_task s' = main_task s \<Longrightarrow> counted s' = counted s"
  by (rule ext) (simp add: counted_def)

text \<open>A step that leaves the tasks of the connections where they are.\<close>

lemma server_ok_conns:
  assumes "server_ok s" and "\<And>i. conn_step (rclist s i) (rclist s' i)"
    and "main_task s' = main_task s" "client_count s' = client_count s"
  shows "server_ok s'"
proof -
  have "slot_ok s' i" for i
    using assms(2) [of i] server_okD(2) [OF assms(1), of i] assms(3)
    by (cases "main_task s i") (auto simp: slot_ok_def conn_step_def)
  moreover have "rtspd_player_count s' \<le> rtspd_player_count s"
  proof (rule player_count_mono)
    fix j assume "play_query (rclist s' j) \<noteq> 0"
    then show "play_query (rclist s j) \<noteq> 0" using assms(2) [of j] by (auto simp: conn_step_def)
  qed
  ultimately show ?thesis
    using assms(1,4) counted_cong [OF assms(3)] by (simp add: server_ok_def)
qed

lemma server_ok_set_conn:
  "server_ok s \<Longrightarrow> conn_step (rclist s i) c \<Longrightarrow> server_ok (set_conn i c s)"
  by (rule server_ok_conns) simp_all

lemma server_ok_rtp_tasks: "server_ok (s\<lparr>rtp_tasks := f\<rparr>) = server_ok s"
  using counted_cong [of "s\<lparr>rtp_tasks := f\<rparr>" s]
  by (simp add: server_ok_def slot_ok_def rtspd_player_count_def)

subsection \<open>Accepting\<close>

lemma conn_ok_fresh: "conn_ok (client_main_init t (c\<lparr>index := i, clientid := n\<rparr>))"
  if "strUrl c = []" for c
  using that by (simp add: conn_ok_def client_main_init_def needs_session_def ENX_RTSP_STRTYPE_NONE_def)

lemma conn_ok_zero: "conn_ok zero_conn"
  by (simp add: conn_ok_def zero_conn_def needs_session_def)

lemma accept_ok:
  assumes "server_ok s"
  shows "server_ok (fst (rtspd_socket_server p s))"
proof (cases "int RTSP_info_MAX \<le> client_count s
    \<or> List.find (\<lambda>i. \<not> cl_valid (rclist s i)) [0..<RTSP_info_MAX] = None")
  case True
  with assms show ?thesis
    by (auto simp: rtspd_socket_server_def rtspd_socket_client_new_def)
next
  case False
  then obtain i where f: "List.find (\<lambda>i. \<not> cl_valid (rclist s i)) [0..<RTSP_info_MAX] = Some i"
    and n: "\<not> int RTSP_info_MAX \<le> client_count s" by auto
  then have i: "i < RTSP_info_MAX" "\<not> cl_valid (rclist s i)" by (auto simp: find_Some_iff)
  let ?s = "fst (rtspd_socket_server p s)"
  obtain c0 where c0: "rtspd_socket_client_new p s
      = (set_conn i c0 (s\<lparr>client_count := client_count s + 1\<rparr>), Some i)" "strUrl c0 = []" "cl_valid c0"
  proof
    let ?c0 = "zero_conn\<lparr>cl_valid := True, sockfd := peer_fd p, server_addr := fst (peer_server p),
      server_port := snd (peer_server p), client_addr := fst (peer_client p),
      client_port := snd (peer_client p), connect_time := peer_time p\<rparr>"
    show "rtspd_socket_client_new p s = (set_conn i ?c0 (s\<lparr>client_count := client_count s + 1\<rparr>), Some i)"
      using f by (simp add: rtspd_socket_client_new_def)
    show "strUrl ?c0 = []" "cl_valid ?c0" by (simp_all add: zero_conn_def)
  qed
  let ?c = "client_main_init (peer_uptime p) (c0\<lparr>index := i, clientid := client_last_id s\<rparr>)"
  have c: "rclist ?s j = (if j = i then ?c else rclist s j)"
    and t: "main_task ?s j = (if j = i then Some \<lparr>rt_phase = Main_loop, rt_buf = [], rt_wsize = None\<rparr>
      else main_task s j)" for j
    using n c0(1) by (auto simp: rtspd_socket_server_def set_conn_def set_task_def)
  have cc: "client_count ?s = client_count s + 1"
    using n c0(1) by (simp add: rtspd_socket_server_def)
  have ok: "conn_ok ?c" "cl_valid ?c" "play_query ?c = 0"
    using conn_ok_fresh [OF c0(2)] c0(3) by (simp_all add: client_main_init_def ENX_RTSP_STRTYPE_NONE_def)
  have "slot_ok ?s j" for j
    using server_okD(2) [OF assms, of j] c [of j] t [of j] ok by (simp add: slot_ok_def split: if_splits)
  moreover have "rtspd_player_count ?s \<le> rtspd_player_count s"
    using c ok by (intro player_count_mono) (auto split: if_splits)
  moreover have "main_task s i = None"
    using server_okD(2) [OF assms, of i] i by (cases "main_task s i") (simp_all add: slot_ok_def)
  then have "length (filter (counted ?s) [0..<RTSP_info_MAX]) = Suc (length (filter (counted s) [0..<RTSP_info_MAX]))"
    using t i by (intro count_add [where i = i]) (auto simp: counted_def)
  ultimately show ?thesis using assms cc by (simp add: server_ok_def)
qed

subsection \<open>The task of a connection\<close>

text \<open>A step of one task: its slot stays in order, and players are admitted below the limit.\<close>

lemma server_ok_slot:
  assumes ok: "server_ok s" and i: "i < RTSP_info_MAX"
    and others: "\<And>j. j \<noteq> i \<Longrightarrow> rclist s' j = rclist s j \<and> main_task s' j = main_task s j"
    and slot: "slot_ok s' i"
    and play: "play_query (rclist s' i) \<noteq> play_query (rclist s i) \<longrightarrow>
      rtspd_player_count s < RTSP_play_MAX \<or> play_query (rclist s' i) = 0"
    and cnt: "client_count s' + of_bool (counted s i) = client_count s + of_bool (counted s' i)"
  shows "server_ok s'"
proof -
  have "slot_ok s' j" for j
    using slot others [of j] server_okD(2) [OF ok, of j] by (cases "j = i") (simp_all add: slot_ok_def)
  moreover have "rtspd_player_count s' \<le> RTSP_play_MAX"
  proof (cases "play_query (rclist s' i) = 0")
    case True
    then have "rtspd_player_count s' \<le> rtspd_player_count s"
      using others by (intro player_count_mono) metis
    with server_okD(3) [OF ok] show ?thesis by simp
  next
    case False
    have "play_query (rclist s' j) = play_query (rclist s j)" if "j \<noteq> i" for j
      using others [OF that] by simp
    moreover have "play_query (rclist s' i) \<noteq> play_query (rclist s i) \<longrightarrow> rtspd_player_count s < RTSP_play_MAX"
      using play False by blast
    ultimately show ?thesis
      using server_okD(3) [OF ok] by (rule player_count_set [OF i])
  qed
  moreover have "client_count s' = int (length (filter (counted s') [0..<RTSP_info_MAX]))"
  proof -
    have oth: "j \<noteq> i \<Longrightarrow> counted s' j = counted s j" for j using others by (simp add: counted_def)
    consider "counted s i = counted s' i" | "counted s i" "\<not> counted s' i" | "\<not> counted s i" "counted s' i"
      by blast
    then show ?thesis
    proof cases
      case 1
      then have "counted s' = counted s" by (intro ext) (metis oth)
      with ok cnt show ?thesis by (simp add: server_ok_def)
    next
      case 2
      with count_add [of i RTSP_info_MAX "counted s'" "counted s"] i oth ok cnt
      show ?thesis by (simp add: server_ok_def)
    next
      case 3
      with count_add [of i RTSP_info_MAX "counted s" "counted s'"] i oth ok cnt
      show ?thesis by (simp add: server_ok_def)
    qed
  qed
  ultimately show ?thesis by (simp add: server_ok_def)
qed

lemma server_ok_upd:
  assumes ok: "server_ok s" and i: "i < RTSP_info_MAX"
    and same: "rclist s1 = rclist s" "main_task s1 = main_task s"
    and slot: "slot_good c t"
    and play: "play_query c \<noteq> play_query (rclist s i) \<Longrightarrow>
      rtspd_player_count s < RTSP_play_MAX \<or> play_query c = 0"
    and cnt: "client_count s1 + of_bool (counted s i)
      = client_count s + of_bool (case t of None \<Rightarrow> False | Some t \<Rightarrow> rt_phase t \<noteq> Main_close)"
  shows "server_ok (set_task i t (set_conn i c s1))"
  using play cnt slot
  by (intro server_ok_slot [OF ok i]) (simp_all add: same slot_ok_def counted_def)

lemma conn_ok_teardown: "conn_ok c \<Longrightarrow> conn_ok (c\<lparr>cl_state := ENX_RTSP_STATE_TEARDOWN\<rparr>)"
  by (rule conn_ok_moves)

lemma set_same [simp]: "set_task i (main_task s i) (set_conn i c s) = set_conn i c s"
  "set_conn i (rclist s i) s = s"
  by (simp_all add: set_conn_def set_task_def)

lemma kick_ok:
  assumes "server_ok s" "i < RTSP_info_MAX"
  shows "server_ok (fst (rtspd_connect_kick i s))"
proof -
  let ?c = "(rclist s i)\<lparr>cl_state := ENX_RTSP_STATE_TEARDOWN\<rparr>"
  have "slot_good ?c (main_task s i)"
    using server_okD(2) [OF assms(1), of i] conn_ok_teardown
    by (cases "main_task s i") (auto simp: slot_ok_def)
  then have "server_ok (set_task i (main_task s i) (set_conn i ?c s))"
    using assms by (intro server_ok_upd) (simp_all add: counted_def)
  then show ?thesis
    using assms(1) by (simp add: rtspd_connect_kick_def rtspd_client_rtsp_state_def)
qed

text \<open>The cases of a round of \<open>rtspd_client_main\<close>.\<close>

lemma main_cases:
  assumes "rtspd_client_main e now rd i s = Inr (s', out)" and "main_task s i = Some t"
  obtains (stay) "s' = s"
    | (leave) "rt_phase t = Main_loop" "s' = set_task i (Some (t\<lparr>rt_phase := Main_wait\<rparr>))
        (set_conn i ((rclist s i)\<lparr>cl_state := ENX_RTSP_STATE_TEARDOWN\<rparr>) s)"
    | (idle) "rt_phase t = Main_loop" "s' = set_task i (Some (t\<lparr>rt_buf := []\<rparr>)) s"
    | (data) d r where "rt_phase t = Main_loop"
        "rtsp_receive e (rtspd_player_count s) d ((rclist s i)\<lparr>lastTime := now\<rparr>) t = Inr r"
        "s' = set_task i (Some (ro_task r)) (set_conn i (ro_conn r)
           (s\<lparr>rtp_tasks := (rtp_tasks s)(i := rtp_tasks s i + of_bool (ro_spawn r))\<rparr>))"
    | (close) "rt_phase t = Main_wait" "play_query (rclist s i) = 0"
        "s' = set_task i (Some (t\<lparr>rt_phase := Main_close\<rparr>)) (s\<lparr>client_count := client_count s - 1\<rparr>)"
    | (free) "rt_phase t = Main_close" "s' = set_task i None (set_conn i zero_conn s)"
  using assms
  by (cases "rt_phase t")
    (auto simp: rtspd_client_main_def Let_def split: if_splits read_result.splits sum.splits)

lemma set_task_conn: "set_task i t s = set_task i t (set_conn i (rclist s i) s)"
  by simp

lemma main_ok:
  assumes ok: "server_ok s" and i: "i < RTSP_info_MAX"
    and m: "rtspd_client_main e now rd i s = Inr (s', out)"
  shows "server_ok s'"
proof (cases "main_task s i")
  case None
  with m ok show ?thesis by (simp add: rtspd_client_main_def)
next
  case (Some t)
  let ?c = "rclist s i"
  note slot = server_okD(2) [OF ok, of i, unfolded slot_ok_def Some slot_good_simps]
  from m Some show ?thesis
  proof (cases rule: main_cases)
    case stay
    with ok show ?thesis by simp
  next
    case leave
    show ?thesis
      unfolding leave(2) using slot conn_ok_teardown leave(1)
      by (intro server_ok_upd [OF ok i]) (simp_all add: counted_def Some)
  next
    case idle
    show ?thesis
      unfolding idle(2) set_task_conn [of i _ s] using slot idle(1)
      by (intro server_ok_upd [OF ok i]) (simp_all add: counted_def Some)
  next
    case (data d r)
    have "conn_ok (?c\<lparr>lastTime := now\<rparr>)"
      using slot conn_step_time [of ?c now] by (simp add: conn_step_def)
    note good = receive_good [OF this data(2), unfolded round_good_def]
    show ?thesis
      unfolding data(3) using slot good data(1)
      by (intro server_ok_upd [OF ok i]) (simp_all add: counted_def Some)
  next
    case close
    have "slot_good ?c (Some (t\<lparr>rt_phase := Main_close\<rparr>))" using slot close(1) by simp
    then have "server_ok (set_task i (Some (t\<lparr>rt_phase := Main_close\<rparr>))
        (set_conn i ?c (s\<lparr>client_count := client_count s - 1\<rparr>)))"
      using close(1) by (intro server_ok_upd [OF ok i]) (simp_all add: counted_def Some)
    with close(3) show ?thesis by (simp add: set_conn_def)
  next
    case free
    show ?thesis
      unfolding free(2) using free(1) conn_ok_zero
      by (intro server_ok_upd [OF ok i]) (simp_all add: counted_def Some zero_conn_def)
  qed
qed

subsection \<open>All interleavings\<close>

lemma feed_all_ok:
  "server_ok s \<Longrightarrow> f = stream_video_put1 vt d \<or> f = stream_audio_put1 d \<Longrightarrow> server_ok (feed_all f s)"
  by (rule server_ok_conns) (auto simp: feed_all_def intro: put1_conn_step)

lemma step_ok: "rtsp_step s s' \<Longrightarrow> server_ok s \<Longrightarrow> server_ok s'"
proof (induction rule: rtsp_step.induct)
  case (step_rtp i s m sv sa c ended)
  have "server_ok (s\<lparr>rtp_tasks := (rtp_tasks s)(i := rtp_tasks s i - of_bool ended)\<rparr>)"
    using step_rtp.prems by (simp only: server_ok_rtp_tasks)
  moreover have "conn_step (rclist s i) c" by (rule rtp_main_step [OF step_rtp.hyps(3)])
  ultimately show ?case by (intro server_ok_set_conn) simp_all
next
  case (step_video vt d s)
  then show ?case using feed_all_ok by blast
next
  case (step_audio d s)
  then show ?case using feed_all_ok by blast
qed (auto intro: accept_ok kick_ok main_ok server_ok_set_conn udp_main_step conn_step_time)

lemma init_ok: "server_ok (rtsp_init id0)"
  using conn_ok_zero
  by (simp add: server_ok_def rtsp_init_def slot_ok_def counted_def rtspd_player_count_def)
    (simp add: zero_conn_def)

lemma steps_ok: "rtsp_steps s s' \<Longrightarrow> server_ok s \<Longrightarrow> server_ok s'"
  by (induction rule: rtsp_steps.induct) (auto intro: step_ok)

end
