(* ===== verification/RtspLive.thy ===== *)
theory RtspLive
  imports RtspSafe
begin

text \<open>
  Consequences of the invariant over all interleavings of the rounds of the RTSP server: the players are
  bounded, no round waits for a session that is not there, a closed connection never plays again, and the end of
  a connection, when its slot becomes free and when it never does.
\<close>

section \<open>Safety\<close>

lemma reachable_ok: "rtsp_steps (rtsp_init id0) s \<Longrightarrow> server_ok s"
  by (rule steps_ok [OF _ init_ok])

text \<open>C18: In every state the server can reach, under every interleaving of its tasks and whatever
  the clients send, at most \<open>RTSP_play_MAX\<close> clients are players, the counter of the clients is the
  number of connection tasks that have not begun to close, and it stays between 0 and 20.\<close>

theorem rtsp_players_bounded:
  assumes "rtsp_steps (rtsp_init id0) s"
  shows "rtspd_player_count s \<le> RTSP_play_MAX
    \<and> client_count s = int (length (filter (counted s) [0..<RTSP_info_MAX]))
    \<and> 0 \<le> client_count s \<and> client_count s \<le> 20"
  using reachable_ok [OF assms] server_okD(4,5) [OF reachable_ok [OF assms]]
  by (simp add: server_ok_def)

text \<open>The sending tasks.\<close>

lemma track_alloc:
  assumes "track k f" "play_on f c = (c1, r)" "ss_alloc c"
  shows "ss_alloc c1"
  using track_keeps [OF assms(1,2)] assms(3) by (simp add: conn_keeps_def)

lemma tcp_track_no_hang: "track k f \<Longrightarrow> ss_alloc c \<Longrightarrow> tcp_track f sel k c \<noteq> Inl Null_session"
  using track_alloc [of k f c]
  by (auto simp: tcp_track_def rtspd_client_rtp_tcp_send_def Let_def
      split: prod.split sum.split select_result.split)

lemma udp_track_no_fault: "track k f \<Longrightarrow> ss_alloc c \<Longrightarrow> udp_track f now sel k c \<noteq> Inl e"
  using track_alloc [of k f c]
  by (auto simp: udp_track_def rtspd_client_rtp_udp_send_def Let_def
      split: prod.split sum.split select_result.split)

lemma play_allocated: "conn_ok c \<Longrightarrow> cl_state c = ENX_RTSP_STATE_PLAY \<Longrightarrow> ss_alloc c"
  by (simp add: conn_ok_def needs_session_def)

lemma udp_send_alloc:
  "rtspd_client_rtp_udp_send now sel k c = Inr (c', n) \<Longrightarrow> ss_alloc c' = ss_alloc c"
  by (auto simp: rtspd_client_rtp_udp_send_def Let_def split: select_result.splits if_splits)

lemma count_sent_alloc [simp]: "ss_alloc (count_sent k n c) = ss_alloc c"
  by (simp add: count_sent_def)

lemma udp_track_alloc:
  assumes "track k f" "udp_track f now sel k c = Inr (c', b)" "ss_alloc c"
  shows "ss_alloc c'"
proof -
  obtain c1 r where p: "play_on f c = (c1, r)" by fastforce
  with assms(2) track_alloc [OF assms(1) p assms(3)] udp_send_alloc [of now sel k c1] show ?thesis
    by (auto simp: udp_track_def Let_def split: if_splits sum.splits)
qed

lemma udp_main_no_fault:
  assumes ok: "conn_ok c"
  shows "rtspd_client_udp_rtp_main m now sv sa c \<noteq> Inl e"
proof (cases "cl_state c = ENX_RTSP_STATE_PLAY")
  case True
  note al = play_allocated [OF ok True]
  show ?thesis
  proof (cases "udp_track (rtspd_client_rtp_video_play m) now sv 0 c")
    case (Inl f)
    with udp_track_no_fault [OF tracks(1) al] show ?thesis by blast
  next
    case (Inr x)
    then obtain c1 b where v: "udp_track (rtspd_client_rtp_video_play m) now sv 0 c = Inr (c1, b)"
      by (cases x) auto
    note al1 = udp_track_alloc [OF tracks(1) v al]
    have "udp_track (rtspd_client_rtp_audio_play m) now sa (Suc 0) c1 \<noteq> Inl f" for f
      using udp_track_no_fault [OF tracks(2) al1] by simp
    with v al True show ?thesis
      by (auto simp: rtspd_client_udp_rtp_main_def map_sum_def split: sum.split)
  qed
next
  case False
  then show ?thesis
    by (auto simp: rtspd_client_udp_rtp_main_def split: rtsp_client_state.split)
qed

lemma rtp_main_faults:
  assumes ok: "conn_ok c"
  shows "rtspd_client_rtp_main m sv sa c \<noteq> Inl Null_session"
    and "eTransport c = ENX_RTSP_TRANSPORT_TCP \<Longrightarrow> rtspd_client_rtp_main m sv sa c \<noteq> Inl e"
proof -
  have other: "rtspd_client_rtp_main m sv sa c \<noteq> Inl e" if "cl_state c \<noteq> ENX_RTSP_STATE_PLAY" for e
    using that by (auto simp: rtspd_client_rtp_main_def Let_def split: rtsp_client_state.split)
  have play: "rtspd_client_rtp_main m sv sa c \<noteq> Inl e"
    if st: "cl_state c = ENX_RTSP_STATE_PLAY"
      and e: "e = Null_session \<or> eTransport c = ENX_RTSP_TRANSPORT_TCP" for e
  proof -
    note al = play_allocated [OF ok st]
    have ss: "session_ok (rtp_ss c 0)" "session_ok (rtp_ss c 1)" using ok al by (simp_all add: conn_ok_def)
    have v: "tcp_track (rtspd_client_rtp_video_play m) sv 0 c \<noteq> Inl e"
      using e tcp_track_no_hang [OF tracks(1) al] tcp_track_no_fault [OF tracks(1) _ ss(1) al] by auto
    have a: "tcp_track (rtspd_client_rtp_audio_play m) sa (Suc 0) c1 \<noteq> Inl e"
      if t: "tcp_track (rtspd_client_rtp_video_play m) sv 0 c = Inr (c1, r, b)" for c1 r b
    proof -
      note k = tcp_track_keeps [OF tracks(1) t]
      have "ss_alloc c1" "session_ok (rtp_ss c1 1)" "eTransport c1 = eTransport c"
        using k al ss(2) by (simp_all add: conn_keeps_def)
      then show ?thesis
        using e tcp_track_no_hang [OF tracks(2), of c1] tcp_track_no_fault [OF tracks(2), of c1] by auto
    qed
    show ?thesis
      using v a st al by (auto simp: rtspd_client_rtp_main_def Let_def split: sum.split)
  qed
  show "rtspd_client_rtp_main m sv sa c \<noteq> Inl Null_session"
    "eTransport c = ENX_RTSP_TRANSPORT_TCP \<Longrightarrow> rtspd_client_rtp_main m sv sa c \<noteq> Inl e"
    using other play by blast+
qed

lemma main_no_hang:
  assumes "server_ok s"
  shows "rtspd_client_main e now rd i s \<noteq> Inl Null_session"
proof -
  have "conn_ok ((rclist s i)\<lparr>lastTime := now\<rparr>)"
    using server_okD(1) [OF assms, of i] conn_step_time [of "rclist s i" now] by (simp add: conn_step_def)
  from receive_no_hang [OF this] show ?thesis
    by (auto simp: rtspd_client_main_def Let_def
        split: option.split main_phase.split read_result.split sum.split)
qed

text \<open>In every reachable state no round that runs without interruption enters one of the loops that
  wait for a session which has not been allocated, and neither sender stops at a check of its packet,
  the interleaved one as long as the connection has kept its transport. What happens when a sender is
  interrupted in its wait for the socket is in \<open>RtspBlock\<close>.\<close>

lemma rtsp_no_round_hangs:
  assumes "rtsp_steps (rtsp_init id0) s"
  shows "rtspd_client_main e now rd i s \<noteq> Inl Null_session
    \<and> rtspd_client_rtp_main m sv sa (rclist s i) \<noteq> Inl Null_session
    \<and> (eTransport (rclist s i) = ENX_RTSP_TRANSPORT_TCP \<longrightarrow>
         rtspd_client_rtp_main m sv sa (rclist s i) \<noteq> Inl f)
    \<and> rtspd_client_udp_rtp_main m now sv sa (rclist s i) \<noteq> Inl f"
  using main_no_hang [OF reachable_ok [OF assms]] rtp_main_faults [of "rclist s i"] udp_main_no_fault [of "rclist s i"]
    server_okD(1) [OF reachable_ok [OF assms]]
  by blast

section \<open>A closed connection\<close>

definition closed_state :: "rtsp_client_state \<Rightarrow> bool" where
  "closed_state st \<longleftrightarrow> st = ENX_RTSP_STATE_TEARDOWN \<or> st = ENX_RTSP_STATE_ERROR"

lemma conn_step_closed: "conn_step c c' \<Longrightarrow> closed_state (cl_state c) \<Longrightarrow> cl_state c' = cl_state c"
  by (auto simp: conn_step_def closed_state_def)

lemma accept_valid:
  assumes "cl_valid (rclist s i)"
  shows "rclist (fst (rtspd_socket_server p s)) i = rclist s i
    \<and> main_task (fst (rtspd_socket_server p s)) i = main_task s i
    \<and> rtp_tasks (fst (rtspd_socket_server p s)) i = rtp_tasks s i"
proof (cases "List.find (\<lambda>i. \<not> cl_valid (rclist s i)) [0..<RTSP_info_MAX]")
  case None
  then show ?thesis by (simp add: rtspd_socket_server_def rtspd_socket_client_new_def)
next
  case (Some j)
  then have "\<not> cl_valid (rclist s j)" by (auto simp: find_Some_iff)
  with assms have "j \<noteq> i" by auto
  with Some show ?thesis
    by (simp add: rtspd_socket_server_def rtspd_socket_client_new_def set_conn_def set_task_def)
qed

lemma accept_other:
  assumes "server_ok s" "main_task s i = Some t"
  shows "rclist (fst (rtspd_socket_server p s)) i = rclist s i
    \<and> main_task (fst (rtspd_socket_server p s)) i = main_task s i
    \<and> rtp_tasks (fst (rtspd_socket_server p s)) i = rtp_tasks s i"
  using server_okD(2) [OF assms(1), of i] assms(2) by (intro accept_valid) (simp add: slot_ok_def)

text \<open>A round of another task leaves a slot alone.\<close>

lemma main_other:
  assumes "rtspd_client_main e now rd j s = Inr (s', out)" and "i \<noteq> j"
  shows "rclist s' i = rclist s i \<and> main_task s' i = main_task s i \<and> rtp_tasks s' i = rtp_tasks s i"
proof (cases "main_task s j")
  case None
  with assms show ?thesis by (simp add: rtspd_client_main_def)
next
  case (Some t)
  from assms(1) Some show ?thesis
    by (cases rule: main_cases) (use assms(2) in auto)
qed

lemma main_closed:
  assumes "rtspd_client_main e now rd i s = Inr (s', out)" and "main_task s i = Some t"
    and "closed_state (cl_state (rclist s i))"
  shows "main_task s' i = None \<or> closed_state (cl_state (rclist s' i)) \<and> rtp_tasks s' i = rtp_tasks s i
    \<and> play_query (rclist s' i) = play_query (rclist s i)"
  using assms
  by (auto simp: rtspd_client_main_def closed_state_def Let_def split: main_phase.splits if_splits)

lemma put1_closed:
  "conn_step (rclist s i) (rclist (feed_all (stream_video_put1 vt d) s) i)"
  "conn_step (rclist s i) (rclist (feed_all (stream_audio_put1 d) s) i)"
  by (auto simp: feed_all_def intro: put1_conn_step)

lemma kick_state:
  "rclist (fst (rtspd_connect_kick j s)) i = (if i = j \<and> state_allowed ENX_RTSP_STATE_TEARDOWN (cl_state (rclist s i))
     then (rclist s i)\<lparr>cl_state := ENX_RTSP_STATE_TEARDOWN\<rparr> else rclist s i)"
  by (auto simp: rtspd_connect_kick_def rtspd_client_rtsp_state_def)

lemma kick_tasks [simp]:
  "main_task (fst (rtspd_connect_kick j s)) = main_task s" "rtp_tasks (fst (rtspd_connect_kick j s)) = rtp_tasks s"
  by (simp_all add: rtspd_connect_kick_def split: prod.split)

text \<open>Once a connection is torn down or in error it stays so until its slot is free: no step of
  any task brings it back to a state in which it is served.\<close>

theorem rtsp_closed_stays_closed:
  assumes "rtsp_steps (rtsp_init id0) s" and "rtsp_step s s'"
    and "main_task s i = Some t" and "closed_state (cl_state (rclist s i))"
  shows "main_task s' i = None \<or> closed_state (cl_state (rclist s' i))"
  using assms(2)
proof cases
  case (step_accept p)
  with accept_other [OF reachable_ok [OF assms(1)] assms(3)] assms(4) show ?thesis by simp
next
  case (step_kick j)
  with assms(4) show ?thesis by (simp add: kick_state closed_state_def)
next
  case (step_main j e now rd out)
  with main_other [of e now rd j s s' out i] main_closed [of e now rd i s s' out] assms(3,4) show ?thesis
    by (cases "i = j") auto
next
  case (step_rtp j m sv sa c ended)
  with conn_step_closed [OF rtp_main_step [OF step_rtp(4)]] assms(4) show ?thesis by auto
next
  case (step_udp j m now sv sa c)
  with conn_step_closed [OF udp_main_step [OF step_udp(3)]] assms(4) show ?thesis by auto
next
  case (step_rtcp j now)
  with assms(4) show ?thesis by auto
next
  case (step_video vt d)
  with conn_step_closed [OF put1_closed(1)] assms(4) show ?thesis by simp
next
  case (step_audio d)
  with conn_step_closed [OF put1_closed(2)] assms(4) show ?thesis by simp
qed

section \<open>The end of a connection\<close>

text \<open>
  The task of the connection waits until \<open>play_query\<close> is zero. Who resets it is the sender: the task
  for all UDP clients when the connection is on UDP, and its own sending task otherwise.
\<close>

definition sender_round ::
  "mem \<Rightarrow> u32 \<Rightarrow> select_result \<Rightarrow> select_result \<Rightarrow> nat \<Rightarrow> rtsp_server \<Rightarrow> rtsp_fault + rtsp_server" where
  "sender_round m now sv sa i s =
     (if eTransport (rclist s i) = ENX_RTSP_TRANSPORT_UDP
      then map_sum id (\<lambda>c. set_conn i c s) (rtspd_client_udp_rtp_main m now sv sa (rclist s i))
      else map_sum id (\<lambda>(c, ended). set_conn i c (s\<lparr>rtp_tasks := (rtp_tasks s)(i := rtp_tasks s i - of_bool ended)\<rparr>))
        (rtspd_client_rtp_main m sv sa (rclist s i)))"

lemma steps_trans: "rtsp_steps s1 s2 \<Longrightarrow> rtsp_step s2 s3 \<Longrightarrow> rtsp_steps s1 s3"
  by (rule steps_step)

lemma sender_round_step:
  assumes "i < RTSP_info_MAX" and "sender_round m now sv sa i s = Inr s'"
    and "eTransport (rclist s i) = ENX_RTSP_TRANSPORT_UDP \<or> 0 < rtp_tasks s i"
  shows "rtsp_step s s'"
  using assms step_udp [OF assms(1)] step_rtp [OF assms(1)]
  by (cases "rtspd_client_udp_rtp_main m now sv sa (rclist s i)"; cases "rtspd_client_rtp_main m sv sa (rclist s i)")
    (auto simp: sender_round_def split: if_splits)

definition same_elsewhere :: "nat \<Rightarrow> rtsp_server \<Rightarrow> rtsp_server \<Rightarrow> bool" where
  "same_elsewhere i s s' \<longleftrightarrow> (\<forall>j. j \<noteq> i \<longrightarrow>
     rclist s' j = rclist s j \<and> main_task s' j = main_task s j \<and> rtp_tasks s' j = rtp_tasks s j)"

text \<open>C20: A torn down connection that has a sender is freed as soon as the sender has noticed. Until then the rounds of
  its task change nothing. One round of the sender, whatever its sockets say, takes it off the list of
  players; the next round of its task lowers the counter, and the one after that frees the slot, with
  nothing else of the server changed.\<close>

theorem rtsp_slot_freed:
  assumes "i < RTSP_info_MAX" and "main_task s i = Some t" and "rt_phase t = Main_wait"
    and "cl_state (rclist s i) = ENX_RTSP_STATE_TEARDOWN" and "play_query (rclist s i) \<noteq> 0"
    and "eTransport (rclist s i) = ENX_RTSP_TRANSPORT_UDP \<or> 0 < rtp_tasks s i"
  shows "rtspd_client_main e now rd i s = Inr (s, None)
    \<and> (\<exists>s1 s2 s3. sender_round m now1 sv sa i s = Inr s1 \<and> rtsp_step s s1
      \<and> play_query (rclist s1 i) = 0 \<and> main_task s1 i = Some t \<and> client_count s1 = client_count s
      \<and> rtspd_client_main e2 now2 rd2 i s1 = Inr (s2, None)
      \<and> main_task s2 i = Some (t\<lparr>rt_phase := Main_close\<rparr>) \<and> client_count s2 = client_count s - 1
      \<and> rtspd_client_main e3 now3 rd3 i s2 = Inr (s3, None)
      \<and> main_task s3 i = None \<and> rclist s3 i = zero_conn \<and> client_count s3 = client_count s - 1
      \<and> same_elsewhere i s s3)"
proof -
  let ?c = "(rclist s i)\<lparr>play_query := 0\<rparr>"
  obtain s1 where s1: "sender_round m now1 sv sa i s = Inr s1" "rclist s1 = (rclist s)(i := ?c)"
    "main_task s1 = main_task s" "client_count s1 = client_count s" "\<And>j. j \<noteq> i \<Longrightarrow> rtp_tasks s1 j = rtp_tasks s j"
  proof
    let ?s1 = "set_conn i ?c (s\<lparr>rtp_tasks := (rtp_tasks s)(i := rtp_tasks s i
       - of_bool (eTransport (rclist s i) \<noteq> ENX_RTSP_TRANSPORT_UDP))\<rparr>)"
    show "sender_round m now1 sv sa i s = Inr ?s1"
      using assms(4) by (simp add: sender_round_def rtspd_client_udp_rtp_main_def rtspd_client_rtp_main_def)
  qed (simp_all add: set_conn_def)
  let ?s2 = "set_task i (Some (t\<lparr>rt_phase := Main_close\<rparr>)) (s1\<lparr>client_count := client_count s1 - 1\<rparr>)"
  have "rtspd_client_main e2 now2 rd2 i s1 = Inr (?s2, None)"
    using s1 assms(2,3) by (simp add: rtspd_client_main_def)
  moreover have "rtspd_client_main e3 now3 rd3 i ?s2 = Inr (set_task i None (set_conn i zero_conn ?s2), None)"
    by (simp add: rtspd_client_main_def)
  moreover have "rtspd_client_main e now rd i s = Inr (s, None)"
    using assms by (simp add: rtspd_client_main_def)
  ultimately show ?thesis
    using s1 assms(2) sender_round_step [OF assms(1) s1(1) assms(6)]
    by (intro conjI exI [of _ s1] exI [of _ ?s2] exI) (auto simp: same_elsewhere_def)
qed

section \<open>A connection that never ends\<close>

text \<open>
  The first SETUP by UDP and a later one, accepted or not, that names the interleaved transport:
  the UDP task no longer sees the client, and no task of its own has been started.
\<close>

definition stuck :: "rtsp_server \<Rightarrow> nat \<Rightarrow> bool" where
  "stuck s i \<longleftrightarrow> i < RTSP_info_MAX \<and> (\<exists>t. main_task s i = Some t \<and> rt_phase t = Main_wait)
     \<and> cl_state (rclist s i) = ENX_RTSP_STATE_TEARDOWN \<and> play_query (rclist s i) \<noteq> 0
     \<and> eTransport (rclist s i) = ENX_RTSP_TRANSPORT_TCP \<and> rtp_tasks s i = 0"

lemma udp_main_tcp:
  "eTransport c = ENX_RTSP_TRANSPORT_TCP \<Longrightarrow> rtspd_client_udp_rtp_main m now sv sa c = Inr c' \<Longrightarrow> c' = c"
  by (simp add: rtspd_client_udp_rtp_main_def)

lemma put1_same:
  assumes "f = stream_video_put1 vt d \<or> f = stream_audio_put1 d"
  shows "cl_state (rclist (feed_all f s) i) = cl_state (rclist s i)"
    "play_query (rclist (feed_all f s) i) = play_query (rclist s i)"
    "eTransport (rclist (feed_all f s) i) = eTransport (rclist s i)"
  using assms
  by (auto simp: feed_all_def play_on_def stream_video_put1_def stream_audio_put1_def)

lemmas put1_same_video = put1_same [OF disjI1 [OF refl]]
lemmas put1_same_audio = put1_same [OF disjI2 [OF refl]]

lemma feed_all_tasks [simp]: "main_task (feed_all f s) = main_task s" "rtp_tasks (feed_all f s) = rtp_tasks s"
  by (simp_all add: feed_all_def)

lemma stuck_cong:
  assumes "stuck s i" "main_task s' i = main_task s i" "rtp_tasks s' i = rtp_tasks s i"
    "cl_state (rclist s' i) = cl_state (rclist s i)" "play_query (rclist s' i) = play_query (rclist s i)"
    "eTransport (rclist s' i) = eTransport (rclist s i)"
  shows "stuck s' i"
  using assms by (simp add: stuck_def)

lemma stuck_step:
  assumes "server_ok s" "stuck s i" "rtsp_step s s'"
  shows "stuck s' i"
  using assms(3)
proof cases
  case (step_accept p)
  from assms(2) obtain t where "main_task s i = Some t" by (auto simp: stuck_def)
  with accept_other [OF assms(1) this] step_accept show ?thesis by (auto intro: stuck_cong [OF assms(2)])
next
  case (step_kick j)
  with assms(2) show ?thesis by (intro stuck_cong [OF assms(2)]) (auto simp: kick_state stuck_def)
next
  case (step_main j e now rd out)
  show ?thesis
  proof (cases "i = j")
    case True
    with step_main assms(2) show ?thesis by (auto simp: stuck_def rtspd_client_main_def)
  next
    case False
    with main_other [OF step_main(2)] show ?thesis by (auto intro: stuck_cong [OF assms(2)])
  qed
next
  case (step_rtp j m sv sa c ended)
  with assms(2) have "i \<noteq> j" by (auto simp: stuck_def)
  with step_rtp show ?thesis by (auto intro: stuck_cong [OF assms(2)])
next
  case (step_udp j m now sv sa c)
  with assms(2) udp_main_tcp [of "rclist s i" m now sv sa c] show ?thesis
    by (auto simp: stuck_def)
next
  case (step_rtcp j now)
  with assms(2) show ?thesis by (auto simp: stuck_def)
next
  case (step_video vt d)
  then show ?thesis by (intro stuck_cong [OF assms(2)]) (simp_all add: put1_same_video)
next
  case (step_audio d)
  then show ?thesis by (intro stuck_cong [OF assms(2)]) (simp_all add: put1_same_audio)
qed

lemma stuck_steps:
  assumes "rtsp_steps s s'" "server_ok s" "stuck s i"
  shows "stuck s' i"
  using assms
proof (induction rule: rtsp_steps.induct)
  case (steps_step s s' s'')
  with stuck_step [OF steps_ok [OF steps_step.hyps(1)]] show ?case by blast
qed

lemma two_players:
  assumes "i \<noteq> j" "i < RTSP_info_MAX" "j < RTSP_info_MAX"
    and "play_query (rclist s i) \<noteq> 0" "play_query (rclist s j) \<noteq> 0"
  shows "2 \<le> rtspd_player_count s"
proof -
  have "1 \<le> length (filter (\<lambda>k. k = i) [0..<RTSP_info_MAX])"
    using count_add [of i RTSP_info_MAX "\<lambda>k. False" "\<lambda>k. k = i"] assms(2) by simp
  then have "2 \<le> length (filter (\<lambda>k. k = i \<or> k = j) [0..<RTSP_info_MAX])"
    using count_add [of j RTSP_info_MAX "\<lambda>k. k = i" "\<lambda>k. k = i \<or> k = j"] assms(1,3) by auto
  also have "\<dots> \<le> rtspd_player_count s"
    unfolding rtspd_player_count_def using assms(4,5) by (intro count_mono) auto
  finally show ?thesis .
qed

text \<open>C21: Two connections that have mixed the transports, or one client twice, end the service: they
  stay in their slots whatever happens, and every SETUP from then on is answered with 453.\<close>

theorem rtsp_mixed_transport_lockout:
  assumes "rtsp_steps (rtsp_init id0) s" and "stuck s i" "stuck s j" "i \<noteq> j" and "rtsp_steps s s'"
    and "state_allowed ENX_RTSP_STATE_SETUP (cl_state c)"
  shows "stuck s' i \<and> stuck s' j \<and> main_task s' i \<noteq> None \<and>
    rp_text (snd (rtspd_client_rtsp_process_setup e (rtspd_player_count s') c)) =
      reply_head ENX_RTSP_RESPONSE_453 c @ rtspd_client_rtsp_make_datetime (env_now e) @ CRLF"
proof -
  note ok = reachable_ok [OF assms(1)]
  have s: "stuck s' i" "stuck s' j" using stuck_steps [OF assms(5) ok] assms(2,3) by auto
  then have "RTSP_play_MAX \<le> rtspd_player_count s'"
    using two_players [OF assms(4), of s'] by (auto simp: stuck_def RTSP_play_MAX_def)
  then have "rp_text (snd (rtspd_client_rtsp_process_setup e (rtspd_player_count s') c)) =
      reply_head ENX_RTSP_RESPONSE_453 c @ rtspd_client_rtsp_make_datetime (env_now e) @ CRLF"
    using assms(6)
    by (simp add: rtspd_client_rtsp_process_setup_def rtspd_client_rtsp_state_def Let_def
        rtspd_client_rtsp_process_error_def reply_def)
  with s show ?thesis by (auto simp: stuck_def)
qed

section \<open>A connection without a slot\<close>

text \<open>The counter of the clients is lowered half a second before the slot is free: a connection
  accepted in between, with every other slot taken, gets no slot, and its socket is neither served
  nor closed.\<close>

lemma rtsp_accept_leaks:
  assumes "rtsp_steps (rtsp_init id0) s" and "i < RTSP_info_MAX"
    and "main_task s i = Some t" "rt_phase t = Main_close"
    and "\<forall>j < RTSP_info_MAX. cl_valid (rclist s j)"
  shows "rtspd_socket_server p s = (s, Leaked)"
proof -
  note ok = reachable_ok [OF assms(1)]
  have "length (filter (counted s) [0..<RTSP_info_MAX]) < length (filter (\<lambda>_. True) [0..<RTSP_info_MAX])"
  proof -
    have "length (filter (counted s) [0..<RTSP_info_MAX]) \<le> length (filter (\<lambda>j. j \<noteq> i) [0..<RTSP_info_MAX])"
      using assms(3,4) by (intro count_mono) (auto simp: counted_def)
    also have "\<dots> < length (filter (\<lambda>_. True) [0..<RTSP_info_MAX])"
      using count_add [of i RTSP_info_MAX "\<lambda>j. j \<noteq> i" "\<lambda>_. True"] assms(2) by simp
    finally show ?thesis .
  qed
  then have "client_count s < int RTSP_info_MAX"
    using ok by (simp add: server_ok_def)
  moreover have "List.find (\<lambda>i. \<not> cl_valid (rclist s i)) [0..<RTSP_info_MAX] = None"
    using assms(5) by (auto simp: find_None_iff)
  ultimately show ?thesis
    by (simp add: rtspd_socket_server_def rtspd_socket_client_new_def)
qed

end
