(* ===== verification/RtspReq.thy ===== *)
theory RtspReq
  imports RtspInv
begin

text \<open>
  Requests as a client writes them: how they are read, how they are answered, what happens when
  they arrive in pieces, and the sizes of what is sent back.
\<close>

section \<open>Reading a request\<close>

lemma take_line: "take (length s) (s @ t) = s" "drop (length s + 1) (s @ x # t) = t"
  by simp_all

text \<open>The request line.\<close>

lemma method_parse_line:
  assumes "CHR '' '' \<notin> set m" "method_of m = Some mt" "CHR '' '' \<notin> set url" "CHR 0x0D \<notin> set ver"
  shows "rtspd_client_rtsp_method_parse (m @ CHR '' '' # url @ CHR '' '' # ver @ CRLF @ rest) c =
     (case header_loop rest (c\<lparr>rtsp_method := mt, strUrl := strlcpy 128 url, strVersion := strlcpy 12 ver,
         isAccept := False, isTransport := False, setup_query := ENX_RTSP_STRTYPE_NONE,
         nQuery := ENX_RTSP_STRTYPE_numNONE\<rparr>) of Inl e \<Rightarrow> Inl e | Inr c \<Rightarrow> Inr (c, 0))"
proof -
  have "strstr (ver @ CRLF @ rest) CRLF = Some (length ver)" using assms(4) by (rule strstr_line)
  moreover have "drop (length ver + 2) (ver @ CRLF @ rest) = rest" by (simp add: CRLF_def)
  ultimately show ?thesis
    using assms(1-3) by (simp add: rtspd_client_rtsp_method_parse_def Let_def)
qed

text \<open>A header line, and the end of the headers.\<close>

lemma header_loop_line:
  assumes "CHR 0x0D \<notin> set h"
  shows "header_loop (h @ CRLF @ rest) c =
     (case rtspd_client_rtsp_header_parse h (CHR 0x0A # rest) c of
        Inl e \<Rightarrow> Inl e | Inr c \<Rightarrow> header_loop rest c)"
proof -
  have "strstr (h @ CRLF @ rest) CRLF = Some (length h)" using assms by (rule strstr_line)
  moreover have "drop (length h + 1) (h @ CRLF @ rest) = CHR 0x0A # rest"
    "drop (length h + 2) (h @ CRLF @ rest) = rest" "take (length h) (h @ CRLF @ rest) = h"
    by (simp_all add: CRLF_def)
  ultimately show ?thesis
    by (subst header_loop.simps) (simp only: option.case)
qed

lemma header_loop_Nil [simp]: "header_loop [] c = Inr c"
  by (simp add: header_loop.simps [of "[]"] CRLF_def)

lemma starts_with_append [simp]: "starts_with (n @ s) n"
  by (simp add: starts_with_def)

lemma hdr_value_append: "length x = 1 \<Longrightarrow> hdr_value n (n @ x @ v) a = v"
  by (simp add: hdr_value_def)

lemma digit_no_CR: "list_all is_digit s \<Longrightarrow> x \<in> {CHR 0x0D, CHR 0x00, CHR '' '', CHR ''R'', CHR ''/'', CHR ''-'', CHR ''c''} \<Longrightarrow> x \<notin> set s"
  by (auto simp: list_all_iff is_digit_def)

lemma fmt_u_no [simp]:
  "CHR 0x0D \<notin> set (fmt_u n)" "CHR 0x00 \<notin> set (fmt_u n)" "CHR ''R'' \<notin> set (fmt_u n)" "CHR ''c'' \<notin> set (fmt_u n)"
  using digit_no_CR [OF fmt_u_digits] by simp_all

definition hdr_line :: "string \<Rightarrow> nat \<Rightarrow> string" where
  "hdr_line name n = name @ '': '' @ fmt_u n"

lemma atoi_hdr: "atoi (CHR '' '' # fmt_u n) = int n"
  using atoi_fmt [of "'' ''" "[]" n] by (simp add: is_space_def)

lemma header_common_lines:
  "header_common (hdr_line ''CSeq'' n) a c = c\<lparr>nCSeq := of_nat n\<rparr>"
  "header_common (hdr_line ''Session'' n) a c = c\<lparr>nSession := of_nat n\<rparr>"
  by (simp_all add: header_common_def hdr_line_def starts_with_def hdr_value_def atoi_hdr)

lemma header_common_Nil [simp]: "header_common [] a c = c"
  by (simp add: header_common_def starts_with_def)

definition rtsp_text :: "string \<Rightarrow> string \<Rightarrow> string list \<Rightarrow> string" where
  "rtsp_text m url hs = m @ '' '' @ url @ '' RTSP/1.0'' @ CRLF @ concat (map (\<lambda>h. h @ CRLF) hs) @ CRLF"

lemma header_parse_plain:
  assumes "rtsp_method c \<noteq> ENX_RTSP_METHOD_SETUP" "\<not> starts_with h ''Accept''"
  shows "rtspd_client_rtsp_header_parse h a c = Inr (header_common h a c)"
proof -
  have "rtsp_method (header_common h a c) = rtsp_method c" by (simp add: header_common_def)
  with assms show ?thesis
    by (simp add: rtspd_client_rtsp_header_parse_def Let_def split: rtsp_method_type.split)
qed

lemma hdr_line_no_CR: "CHR 0x0D \<notin> set name \<Longrightarrow> CHR 0x0D \<notin> set (hdr_line name n)"
  by (simp add: hdr_line_def)

lemma not_Accept:
  "\<not> starts_with (hdr_line ''CSeq'' n) ''Accept''" "\<not> starts_with (hdr_line ''Session'' n) ''Accept''"
  "\<not> starts_with [] ''Accept''"
  by (simp_all add: hdr_line_def starts_with_def)

text \<open>A request is read back: the method, the URL, the number and the session that a client
  prints are what the connection holds afterwards, for every method but SETUP.\<close>

lemma parse_plain:
  assumes "method_of m = Some mt" "mt \<noteq> ENX_RTSP_METHOD_SETUP" "CHR '' '' \<notin> set url" "length url < 128"
  shows "rtspd_client_rtsp_method_parse
      (rtsp_text m url [hdr_line ''CSeq'' n, hdr_line ''Session'' k]) c =
    Inr (c\<lparr>rtsp_method := mt, strUrl := url, strVersion := ''RTSP/1.0'', isAccept := False,
           isTransport := False, setup_query := ENX_RTSP_STRTYPE_NONE,
           nQuery := ENX_RTSP_STRTYPE_numNONE, nCSeq := of_nat n, nSession := of_nat k\<rparr>, 0)"
proof -
  let ?c = "c\<lparr>rtsp_method := mt, strUrl := url, strVersion := ''RTSP/1.0'', isAccept := False,
     isTransport := False, setup_query := ENX_RTSP_STRTYPE_NONE, nQuery := ENX_RTSP_STRTYPE_numNONE\<rparr>"
  have m: "CHR '' '' \<notin> set m" using assms(1) by (auto simp: method_of_def split: if_splits)
  have tx: "rtsp_text m url [h1, h2] = m @ CHR '' '' # url @ CHR '' '' # ''RTSP/1.0'' @ CRLF @
      h1 @ CRLF @ h2 @ CRLF @ [] @ CRLF @ []" for h1 h2
    by (simp add: rtsp_text_def)
  have u: "strlcpy 128 url = url" "strlcpy 12 ''RTSP/1.0'' = ''RTSP/1.0''"
    using assms(4) by (simp_all add: strlcpy_def)
  have cr: "CHR 0x0D \<notin> set (hdr_line ''CSeq'' n)" "CHR 0x0D \<notin> set (hdr_line ''Session'' k)"
    by (simp_all add: hdr_line_no_CR)
  have "header_loop (hdr_line ''CSeq'' n @ CRLF @ hdr_line ''Session'' k @ CRLF @ [] @ CRLF @ []) ?c
      = Inr (?c\<lparr>nCSeq := of_nat n, nSession := of_nat k\<rparr>)"
    unfolding header_loop_line [OF cr(1)] header_loop_line [OF cr(2)]
    using assms(2) header_loop_line [of "[]" "[]"]
    by (simp add: header_parse_plain not_Accept header_common_lines header_loop_line [OF cr(2)])
  then show ?thesis
    unfolding tx using method_parse_line [OF m assms(1,3), of "''RTSP/1.0''"] u by simp
qed

section \<open>Reading a SETUP\<close>

lemma strstr_absent: "n \<noteq> [] \<Longrightarrow> hd n \<notin> set s \<Longrightarrow> strstr s n = None"
proof (induction s)
  case (Cons x xs)
  then have "\<not> starts_with (x # xs) n" by (cases n) (auto simp: starts_with_def)
  with Cons show ?case by (simp add: strstr_Cons)
qed simp

text \<open>The URL of a track.\<close>

definition track_url :: "string \<Rightarrow> string \<Rightarrow> string \<Rightarrow> string" where
  "track_url host stream tr = ''rtsp://'' @ host @ CHR ''/'' # stream @ CHR ''/'' # tr"

lemma setup_track_url:
  assumes "CHR ''/'' \<notin> set host" "CHR ''/'' \<notin> set stream"
  shows "setup_track (track_url host stream tr) = Some tr"
proof -
  have "strstr (track_url host stream tr) ''//'' = Some 5"
    by (simp add: track_url_def strstr_Cons starts_with_def)
  moreover have "drop 7 (track_url host stream tr) = host @ CHR ''/'' # stream @ CHR ''/'' # tr"
    by (simp add: track_url_def)
  ultimately show ?thesis using assms by (simp add: setup_track_def)
qed

definition transport_line :: "string \<Rightarrow> nat \<Rightarrow> nat \<Rightarrow> string" where
  "transport_line proto a b = ''Transport: '' @ proto @ fmt_u a @ CHR ''-'' # fmt_u b"

lemma scan_pair_fmt: "scan_pair (fmt_u a @ CHR ''-'' # fmt_u b) = (int a, int b)"
  using scan_int_fmt [of "[]" "CHR ''-'' # fmt_u b" a] scan_int_fmt [of "[]" "[]" b]
  by (simp add: scan_pair_def is_digit_def)

definition udp_proto :: string where "udp_proto = ''RTP/AVP;unicast;client_port=''"
definition tcp_proto :: string where "tcp_proto = ''RTP/AVP/TCP;unicast;interleaved=''"

lemma tail_absent:
  "strstr (fmt_u a @ CHR ''-'' # fmt_u b) ''RTP/AVP/TCP'' = None"
  by (rule strstr_absent) simp_all

lemma udp_value:
  fixes a b :: nat
  defines "v \<equiv> CHR '' '' # udp_proto @ fmt_u a @ CHR ''-'' # fmt_u b"
  shows "strstr v ''RTP/AVP/TCP'' = None" "strstr v ''RTP/AVP'' = Some 1"
    "transport_ports ''client_port='' v = (int a, int b)"
  by (simp_all add: v_def udp_proto_def strstr_Cons starts_with_def tail_absent transport_ports_def
      scan_pair_fmt)

lemma tcp_value:
  fixes a b :: nat
  defines "v \<equiv> CHR '' '' # tcp_proto @ fmt_u a @ CHR ''-'' # fmt_u b"
  shows "strstr v ''RTP/AVP/TCP'' = Some 1" "transport_ports ''interleaved='' v = (int a, int b)"
  by (simp_all add: v_def tcp_proto_def strstr_Cons starts_with_def transport_ports_def scan_pair_fmt)

text \<open>The known tracks.\<close>

definition track_query :: "string \<Rightarrow> (u32 \<times> nat) option" where
  "track_query tr = (if starts_with tr ''video'' then Some (ENX_RTSP_STRTYPE_VIDEO, ENX_RTSP_STRTYPE_numVIDEO)
     else if starts_with tr ''audio'' then Some (ENX_RTSP_STRTYPE_AUDIO, ENX_RTSP_STRTYPE_numAUDIO) else None)"

lemma track_query_bounds:
  "track_query tr = Some (q, k) \<Longrightarrow> q \<noteq> ENX_RTSP_STRTYPE_NONE \<and> k < ENX_RTSP_STRTYPE_numNONE"
  by (auto simp: track_query_def ENX_RTSP_STRTYPE_NONE_def ENX_RTSP_STRTYPE_numNONE_def
      ENX_RTSP_STRTYPE_VIDEO_def ENX_RTSP_STRTYPE_AUDIO_def split: if_splits)

text \<open>A header of a SETUP that is not the transport: the first one settles the track.\<close>

lemma header_setup_track:
  assumes "setup_track (strUrl c) = Some tr" "track_query tr = Some (q, k)"
    and "\<not> starts_with h ''Transport''"
    and "setup_query c = ENX_RTSP_STRTYPE_NONE \<or> setup_query c = q \<and> nQuery c = k"
  shows "header_setup h a c = Inr (c\<lparr>setup_query := q, nQuery := k\<rparr>)"
proof -
  have q: "q \<noteq> ENX_RTSP_STRTYPE_NONE" using track_query_bounds [OF assms(2)] by simp
  from assms(4) show ?thesis
  proof
    assume n: "setup_query c = ENX_RTSP_STRTYPE_NONE"
    from assms(2) consider "starts_with tr ''video''" | "\<not> starts_with tr ''video''" "starts_with tr ''audio''"
      by (auto simp: track_query_def split: if_splits)
    then show ?thesis
      by cases (use assms(1-3) q n in \<open>unfold header_setup_def Let_def track_query_def,
        simp only: if_True if_False option.case option.distinct simp_thms, simp\<close>)+
  next
    assume "setup_query c = q \<and> nQuery c = k"
    with assms(3) q show ?thesis
      unfolding header_setup_def Let_def by (simp only: if_True if_False simp_thms) simp
  qed
qed

lemma header_setup_transport:
  assumes q: "setup_query c \<noteq> ENX_RTSP_STRTYPE_NONE" and k: "nQuery c < ENX_RTSP_STRTYPE_numNONE"
  shows "header_setup (transport_line udp_proto a b) x c = Inr (c\<lparr>isTransport := True,
      eTransport := ENX_RTSP_TRANSPORT_UDP,
      rtp_port := (rtp_port c)(nQuery c := of_nat a), rtcp_port := (rtcp_port c)(nQuery c := of_nat b)\<rparr>)"
    and "header_setup (transport_line tcp_proto a b) x c = Inr (c\<lparr>isTransport := True,
      eTransport := ENX_RTSP_TRANSPORT_TCP,
      rtp_port := (rtp_port c)(nQuery c := of_nat a), rtcp_port := (rtcp_port c)(nQuery c := of_nat b)\<rparr>)"
proof -
  have t: "starts_with (transport_line p a b) ''Transport''"
    "hdr_value ''Transport'' (transport_line p a b) x = CHR '' '' # p @ fmt_u a @ CHR ''-'' # fmt_u b" for p
    by (simp_all add: transport_line_def starts_with_def hdr_value_def)
  show "header_setup (transport_line udp_proto a b) x c = Inr (c\<lparr>isTransport := True,
      eTransport := ENX_RTSP_TRANSPORT_UDP,
      rtp_port := (rtp_port c)(nQuery c := of_nat a), rtcp_port := (rtcp_port c)(nQuery c := of_nat b)\<rparr>)"
    using q k by (simp add: header_setup_def Let_def t udp_value set_ports_def)
  show "header_setup (transport_line tcp_proto a b) x c = Inr (c\<lparr>isTransport := True,
      eTransport := ENX_RTSP_TRANSPORT_TCP,
      rtp_port := (rtp_port c)(nQuery c := of_nat a), rtcp_port := (rtcp_port c)(nQuery c := of_nat b)\<rparr>)"
    using q k by (simp add: header_setup_def Let_def t tcp_value set_ports_def)
qed

lemma header_parse_setup:
  "rtsp_method c = ENX_RTSP_METHOD_SETUP \<Longrightarrow>
     rtspd_client_rtsp_header_parse h a c = header_setup h a (header_common h a c)"
  by (simp add: rtspd_client_rtsp_header_parse_def header_common_def)

lemma header_common_transport: "header_common (transport_line p a b) x c = c"
  by (simp add: header_common_def transport_line_def starts_with_def)

lemma not_Transport: "\<not> starts_with (hdr_line ''CSeq'' n) ''Transport''" "\<not> starts_with [] ''Transport''"
  by (simp_all add: hdr_line_def starts_with_def)

definition proto_of :: "rtsp_transport_type \<Rightarrow> string" where
  "proto_of tp = (if tp = ENX_RTSP_TRANSPORT_UDP then udp_proto else tcp_proto)"

lemma header_setup_proto:
  assumes "tp = ENX_RTSP_TRANSPORT_UDP \<or> tp = ENX_RTSP_TRANSPORT_TCP"
    and "setup_query c \<noteq> ENX_RTSP_STRTYPE_NONE" "nQuery c < ENX_RTSP_STRTYPE_numNONE"
  shows "header_setup (transport_line (proto_of tp) a b) x c = Inr (c\<lparr>isTransport := True, eTransport := tp,
      rtp_port := (rtp_port c)(nQuery c := of_nat a), rtcp_port := (rtcp_port c)(nQuery c := of_nat b)\<rparr>)"
  using assms header_setup_transport [OF assms(2,3)] by (auto simp: proto_of_def)

definition setup_text :: "string \<Rightarrow> nat \<Rightarrow> rtsp_transport_type \<Rightarrow> nat \<Rightarrow> nat \<Rightarrow> string" where
  "setup_text url n tp a b = rtsp_text ''SETUP'' url [hdr_line ''CSeq'' n, transport_line (proto_of tp) a b]"

lemma parse_setup:
  assumes "CHR ''/'' \<notin> set host" "CHR ''/'' \<notin> set stream"
    and url: "url = track_url host stream tr" "CHR '' '' \<notin> set url" "length url < 128"
    and q: "track_query tr = Some (q, k)"
    and tp: "tp = ENX_RTSP_TRANSPORT_UDP \<or> tp = ENX_RTSP_TRANSPORT_TCP"
  shows "rtspd_client_rtsp_method_parse (setup_text url n tp a b) c =
    Inr (c\<lparr>rtsp_method := ENX_RTSP_METHOD_SETUP, strUrl := url, strVersion := ''RTSP/1.0'',
           isAccept := False, isTransport := True, setup_query := q, nQuery := k, nCSeq := of_nat n,
           eTransport := tp, rtp_port := (rtp_port c)(k := of_nat a),
           rtcp_port := (rtcp_port c)(k := of_nat b)\<rparr>, 0)"
proof -
  let ?c = "c\<lparr>rtsp_method := ENX_RTSP_METHOD_SETUP, strUrl := url, strVersion := ''RTSP/1.0'',
    isAccept := False, isTransport := False, setup_query := ENX_RTSP_STRTYPE_NONE,
    nQuery := ENX_RTSP_STRTYPE_numNONE\<rparr>"
  let ?h = "transport_line (proto_of tp) a b"
  have tx: "setup_text url n tp a b = ''SETUP'' @ CHR '' '' # url @ CHR '' '' # ''RTSP/1.0'' @ CRLF @
      hdr_line ''CSeq'' n @ CRLF @ ?h @ CRLF @ [] @ CRLF @ []"
    by (simp add: setup_text_def rtsp_text_def)
  have u: "strlcpy 128 url = url" "strlcpy 12 ''RTSP/1.0'' = ''RTSP/1.0''"
    using url(3) by (simp_all add: strlcpy_def)
  have cr: "CHR 0x0D \<notin> set (hdr_line ''CSeq'' n)" "CHR 0x0D \<notin> set ?h"
    by (simp_all add: hdr_line_no_CR transport_line_def proto_of_def udp_proto_def tcp_proto_def)
  have st: "setup_track url = Some tr" unfolding url(1) by (rule setup_track_url [OF assms(1,2)])
  note qb = track_query_bounds [OF q]
  let ?c1 = "?c\<lparr>nCSeq := of_nat n, setup_query := q, nQuery := k\<rparr>"
  let ?c2 = "?c1\<lparr>isTransport := True, eTransport := tp, rtp_port := (rtp_port c)(k := of_nat a),
     rtcp_port := (rtcp_port c)(k := of_nat b)\<rparr>"
  have 1: "rtspd_client_rtsp_header_parse (hdr_line ''CSeq'' n) x ?c = Inr ?c1" for x
    using header_setup_track [where c = "?c\<lparr>nCSeq := of_nat n\<rparr>", OF _ q not_Transport(1)] st
    by (simp add: header_parse_setup header_common_lines)
  have 2: "rtspd_client_rtsp_header_parse ?h x ?c1 = Inr ?c2" for x
    using header_setup_proto [OF tp, where c = ?c1] qb
    by (simp add: header_parse_setup header_common_transport)
  have 3: "rtspd_client_rtsp_header_parse [] x ?c2 = Inr ?c2" for x
    using header_setup_track [where c = ?c2, OF _ q not_Transport(2)] st
    by (simp add: header_parse_setup)
  have "header_loop (hdr_line ''CSeq'' n @ CRLF @ ?h @ CRLF @ [] @ CRLF @ []) ?c = Inr ?c2"
    unfolding header_loop_line [OF cr(1)] 1 sum.case header_loop_line [OF cr(2)] 2
    using header_loop_line [of "[]" "[]" ?c2] 3 by simp
  then show ?thesis
    unfolding tx using method_parse_line [of "''SETUP''" ENX_RTSP_METHOD_SETUP url "''RTSP/1.0''"] url(2) u
    by (simp add: method_of_def)
qed

text \<open>C22: A SETUP is read back: the track of the URL, the transport and the two ports or channels that
  the client prints are what the connection holds, in the entry of that track.\<close>

theorem rtsp_setup_roundtrip:
  assumes "CHR ''/'' \<notin> set host" "CHR ''/'' \<notin> set stream"
    and url: "url = track_url host stream tr" "CHR '' '' \<notin> set url" "length url < 128"
    and q: "track_query tr = Some (q, k)"
    and tp: "tp = ENX_RTSP_TRANSPORT_UDP \<or> tp = ENX_RTSP_TRANSPORT_TCP"
  shows "rtspd_client_rtsp_method_parse (setup_text url n tp a b) c =
    Inr (c\<lparr>rtsp_method := ENX_RTSP_METHOD_SETUP, strUrl := url, strVersion := ''RTSP/1.0'',
           isAccept := False, isTransport := True, setup_query := q, nQuery := k, nCSeq := of_nat n,
           eTransport := tp, rtp_port := (rtp_port c)(k := of_nat a),
           rtcp_port := (rtcp_port c)(k := of_nat b)\<rparr>, 0)"
  using assms by (rule parse_setup)

section \<open>A SETUP that writes outside the arrays\<close>

text \<open>C23: With the fields of a fresh request, the transport header of a SETUP is stored outside the
  port arrays exactly when the URL names a track that is neither video nor audio and the header
  names RTP: the index is then the length of the arrays, and the second port lands in the queue
  pointer of the client.\<close>

theorem rtsp_setup_out_of_bounds:
  assumes "rtsp_method c = ENX_RTSP_METHOD_SETUP" "setup_query c = ENX_RTSP_STRTYPE_NONE"
    and "nQuery c = ENX_RTSP_STRTYPE_numNONE"
  shows "rtspd_client_rtsp_header_parse h after c = Inl e \<longleftrightarrow>
    e = Out_of_bounds \<and> starts_with h ''Transport'' \<and>
    (strstr (hdr_value ''Transport'' h after) ''RTP/AVP/TCP'' \<noteq> None \<or>
     strstr (hdr_value ''Transport'' h after) ''RTP/AVP'' \<noteq> None) \<and>
    (\<exists>tr. setup_track (strUrl c) = Some tr \<and> track_query tr = None)"
proof -
  let ?c = "header_common h after c"
  have c: "setup_query ?c = ENX_RTSP_STRTYPE_NONE" "nQuery ?c = ENX_RTSP_STRTYPE_numNONE"
    "strUrl ?c = strUrl c"
    using assms by (simp_all add: header_common_def)
  have "header_setup h after ?c = Inl e \<longleftrightarrow>
    e = Out_of_bounds \<and> starts_with h ''Transport'' \<and>
    (strstr (hdr_value ''Transport'' h after) ''RTP/AVP/TCP'' \<noteq> None \<or>
     strstr (hdr_value ''Transport'' h after) ''RTP/AVP'' \<noteq> None) \<and>
    (\<exists>tr. setup_track (strUrl c) = Some tr \<and> track_query tr = None)"
    using c
    by (cases "setup_track (strUrl c)")
      (auto simp: header_setup_def set_ports_def track_query_def Let_def ENX_RTSP_STRTYPE_NONE_def
        ENX_RTSP_STRTYPE_VIDEO_def ENX_RTSP_STRTYPE_AUDIO_def ENX_RTSP_STRTYPE_numNONE_def)
  then show ?thesis by (simp add: header_parse_setup [OF assms(1)])
qed

section \<open>The size of a description\<close>

lemma fmt_u_small: "n < 10 \<Longrightarrow> length (fmt_u n) = 1" "10 \<le> n \<Longrightarrow> n < 100 \<Longrightarrow> length (fmt_u n) = 2"
proof -
  show "n < 10 \<Longrightarrow> length (fmt_u n) = 1" by (simp add: fmt_u_unfold [of n])
  have "n < 100 \<Longrightarrow> n div 10 < 10" by simp
  then show "10 \<le> n \<Longrightarrow> n < 100 \<Longrightarrow> length (fmt_u n) = 2"
    by (simp add: fmt_u_unfold [of n] fmt_u_unfold [of "n div 10"])
qed

lemma sdp_lengths:
  "length (sdpSession ip name url) = 245 + length ip + 2 * length name + length url"
  "length (sdpH264Line url) = 114 + length url" "length (sdpH265Line url) = 308 + length url"
  "length (sdpJPEGLine url) = 83 + length url" "length (sdpAudLine url) = 80 + length url"
  by (simp_all add: sdpSession_def sdpH264Line_def sdpH265Line_def sdpJPEGLine_def sdpAudLine_def LF_def
      RTSPD_SERVER_AGENT_def RTP_numPayload_H264_def RTP_numPayload_H265_def RTP_numPayload_JPEG_def
      RTP_numPayload_L16S_def fmt_u_small)

lemma length_sdp_ip: "length (env_ip e) \<le> 15 \<Longrightarrow> length (sdp_ip e url) \<le> 15"
  by (auto simp: sdp_ip_def strlcpy_def Let_def split: option.split)

text \<open>C24: The session description fits its array of 1024 characters for every URL the server can
  hold when the stream is H.264 or JPEG; for H.265 it fits exactly when three times the URL and the
  address together stay below 371 characters, so that a URL of 119 characters overruns the array.\<close>

theorem rtsp_describe_size:
  assumes "length (strUrl c) \<le> 127" "length (env_ip e) \<le> 15"
    and "state_allowed ENX_RTSP_STATE_DESCRIBE (cl_state c)" "isAccept c"
  shows "rtspd_client_rtsp_process_describe e c = Inl Out_of_bounds \<longleftrightarrow>
    isLive c \<in> {ENX_RTSP_STREAM_LIVE_H265_1, ENX_RTSP_STREAM_LIVE_H265_2} \<and>
    371 \<le> 3 * length (strUrl c) + length (sdp_ip e (strUrl c))"
proof -
  let ?c = "c\<lparr>cl_state := ENX_RTSP_STATE_DESCRIBE\<rparr>"
  have "rtspd_client_rtsp_process_describe e c = Inl Out_of_bounds \<longleftrightarrow> strSdp_size \<le> length (describe_sdp e ?c)"
    using assms(3,4) by (simp add: rtspd_client_rtsp_process_describe_def rtspd_client_rtsp_state_def Let_def)
  moreover have "strSdp_size \<le> length (describe_sdp e ?c) \<longleftrightarrow>
      isLive c \<in> {ENX_RTSP_STREAM_LIVE_H265_1, ENX_RTSP_STREAM_LIVE_H265_2} \<and>
      371 \<le> 3 * length (strUrl c) + length (sdp_ip e (strUrl c))"
    using assms(1) length_sdp_ip [OF assms(2), of "strUrl c"]
    by (cases "isLive c") (auto simp: describe_sdp_def Let_def sdp_lengths strSdp_size_def)
  ultimately show ?thesis by simp
qed

section \<open>Every request is answered\<close>

lemma head_nonempty [simp]: "reply_head code c \<noteq> []" "RESPONSE_HEAD_S code c \<noteq> []"
  by (simp_all add: reply_head_def RESPONSE_HEAD_def RESPONSE_HEAD_S_def)

lemma error_nonempty [simp]: "rp_text (snd (rtspd_client_rtsp_process_error e code c)) \<noteq> []"
  by (simp add: rtspd_client_rtsp_process_error_def reply_def Let_def)

lemma error_nonemptyD: "rtspd_client_rtsp_process_error e code c = (c', r) \<Longrightarrow> rp_text r \<noteq> []"
  using error_nonempty [of e code c] by simp

lemma reply_ok_nonempty [simp]: "rp_text (snd (reply_ok e c)) \<noteq> []"
  by (simp add: reply_ok_def reply_def)

lemma setup_rejected: "\<not> state_allowed ENX_RTSP_STATE_SETUP st \<Longrightarrow>
    st \<in> {ENX_RTSP_STATE_PLAY, ENX_RTSP_STATE_PAUSE, ENX_RTSP_STATE_NONE, ENX_RTSP_STATE_TEARDOWN, ENX_RTSP_STATE_ERROR}"
  by (cases st) simp_all

lemma setup_nonempty: "rp_text (snd (rtspd_client_rtsp_process_setup e players c)) \<noteq> []"
proof (rule state_cases [of c ENX_RTSP_STATE_SETUP])
  assume "rtspd_client_rtsp_state c ENX_RTSP_STATE_SETUP = (c, - 1)"
    and "\<not> state_allowed ENX_RTSP_STATE_SETUP (cl_state c)"
  with setup_rejected [of "cl_state c"] show ?thesis
    by (auto simp: rtspd_client_rtsp_process_setup_def Let_def)
qed (simp add: rtspd_client_rtsp_process_setup_def Let_def split: option.split)

lemma dispatch_nonempty:
  assumes "rtsp_dispatch e players c = Inr (c', r)" and "rp_text r = []"
  shows "rtsp_method c = ENX_RTSP_METHOD_PLAY \<and> nSession c = 0"
proof (cases "rtsp_method c")
  case ENX_RTSP_METHOD_PLAY
  then have "rtspd_client_rtsp_process_play e c = Inr (c', r)" using assms(1) by (simp add: rtsp_dispatch_def)
  then show ?thesis
    using assms(2) ENX_RTSP_METHOD_PLAY
    by (rule_tac state_cases [of c ENX_RTSP_STATE_PLAY])
      (auto simp: rtspd_client_rtsp_process_play_def reply_def dest: error_nonemptyD split: if_splits)
next
  case ENX_RTSP_METHOD_OPTIONS
  then have "snd (rtspd_client_rtsp_process_options e c) = r" using assms(1) by (simp add: rtsp_dispatch_def)
  then show ?thesis
    using assms(2) by (auto simp: rtspd_client_rtsp_process_options_def reply_def split: prod.splits if_splits)
next
  case ENX_RTSP_METHOD_DESCRIBE
  then have "rtspd_client_rtsp_process_describe e c = Inr (c', r)" using assms(1) by (simp add: rtsp_dispatch_def)
  then show ?thesis
    using assms(2)
    by (auto simp: rtspd_client_rtsp_process_describe_def reply_def Let_def dest: error_nonemptyD
        split: prod.splits if_splits)
next
  case ENX_RTSP_METHOD_SETUP
  then have "snd (rtspd_client_rtsp_process_setup e players c) = r" using assms(1) by (simp add: rtsp_dispatch_def)
  with setup_nonempty assms(2) show ?thesis by metis
next
  case ENX_RTSP_METHOD_PAUSE
  then have "snd (rtspd_client_rtsp_process_pause e c) = r" using assms(1) by (simp add: rtsp_dispatch_def)
  then show ?thesis
    using assms(2) by (auto simp: rtspd_client_rtsp_process_pause_def split: prod.splits if_splits)
next
  case ENX_RTSP_METHOD_TEARDOWN
  then have "snd (rtspd_client_rtsp_process_teardown e c) = r" using assms(1) by (simp add: rtsp_dispatch_def)
  then show ?thesis
    using assms(2) by (auto simp: rtspd_client_rtsp_process_teardown_def Let_def reply_ok_def reply_def split: prod.splits if_splits)
next
  case ENX_RTSP_METHOD_GET_PARAMETER
  then have "snd (rtspd_client_rtsp_process_get_parameter e c) = r" using assms(1) by (simp add: rtsp_dispatch_def)
  then show ?thesis
    using assms(2) by (auto simp: rtspd_client_rtsp_process_get_parameter_def split: prod.splits if_splits)
next
  case ENX_RTSP_METHOD_SET_PARAMETER
  then have "snd (rtspd_client_rtsp_process_set_parameter e c) = r" using assms(1) by (simp add: rtsp_dispatch_def)
  then show ?thesis
    using assms(2) by (auto simp: rtspd_client_rtsp_process_set_parameter_def split: prod.splits if_splits)
qed

lemma check_url_request:
  assumes "rtspd_client_rtsp_check_url vs url c = (c', res)"
  shows "rtsp_method c' = rtsp_method c" "nSession c' = nSession c" "nCSeq c' = nCSeq c"
  using check_url_frame [OF assms] by simp_all

lemma response_nonempty:
  assumes "rtspd_client_rtsp_response e players c = Inr (c', r)" and "rp_text r = []"
  shows "rtsp_method c = ENX_RTSP_METHOD_PLAY \<and> nSession c = 0"
proof -
  obtain c1 res where u: "rtspd_client_rtsp_check_url (env_channels e) (strUrl c) c = (c1, res)"
    by fastforce
  have "rtsp_dispatch e players c1 = Inr (c', r)"
    using assms u by (auto simp: rtspd_client_rtsp_response_def dest: error_nonemptyD split: if_splits)
  from dispatch_nonempty [OF this assms(2)] check_url_request [OF u] show ?thesis by simp
qed

text \<open>The number a client writes into a header: the last line of that name counts, and without one
  the connection keeps what it has.\<close>

fun header_number :: "string \<Rightarrow> string list \<Rightarrow> u32 \<Rightarrow> u32" where
  "header_number name [] x = x"
| "header_number name (h # hs) x =
     header_number name hs (if starts_with h name then word_of_int (atoi (drop (length name + 1) h)) else x)"

lemma header_number_append [simp]:
  "header_number name (hs @ ks) x = header_number name ks (header_number name hs x)"
  by (induction hs arbitrary: x) auto

lemma header_number_other: "\<forall>h \<in> set hs. \<not> starts_with h name \<Longrightarrow> header_number name hs x = x"
  by (induction hs arbitrary: x) auto

lemma header_number_printed:
  "\<forall>h \<in> set post. \<not> starts_with h name \<Longrightarrow> header_number name (pre @ hdr_line name n # post) x = of_nat n"
  by (simp add: header_number_other hdr_line_def atoi_hdr)

text \<open>A header line a client may write: one line, and not just one of the two names, behind which the
  value would be read past the end of the line.\<close>

definition header_text :: "string \<Rightarrow> bool" where
  "header_text h \<longleftrightarrow> CHR 0x0D \<notin> set h \<and> CHR 0x00 \<notin> set h \<and> h \<noteq> ''CSeq'' \<and> h \<noteq> ''Session''"

definition request_numbers :: "rtsp_conn \<Rightarrow> rtsp_conn \<Rightarrow> string list \<Rightarrow> bool" where
  "request_numbers c c' hs \<longleftrightarrow> nCSeq c' = header_number ''CSeq'' hs (nCSeq c)
     \<and> nSession c' = header_number ''Session'' hs (nSession c)
     \<and> rtsp_method c' = rtsp_method c \<and> login c' = login c"

lemma starts_long: "starts_with h n \<Longrightarrow> h \<noteq> n \<Longrightarrow> length n + 1 \<le> length h"
  unfolding starts_with_def by (metis Suc_eq_plus1 nat_less_le not_less_eq_eq take_all_iff)

lemma starts_apart: "starts_with h ''CSeq'' \<Longrightarrow> \<not> starts_with h ''Session''"
  by (cases h) (auto simp: starts_with_def)

lemma header_common_numbers: "header_text h \<Longrightarrow> request_numbers c (header_common h a c) [h]"
  using starts_long [of h "''CSeq''"] starts_long [of h "''Session''"] starts_apart [of h]
  by (auto simp: request_numbers_def header_common_def header_text_def hdr_value_def)

lemma header_parse_numbers:
  assumes "rtspd_client_rtsp_header_parse h a c = Inr c'" and "header_text h"
  shows "request_numbers c c' [h]"
proof -
  obtain c1 where c1: "header_common h a c = c1" "request_numbers c c1 [h]"
    using header_common_numbers [OF assms(2)] by blast
  have "nCSeq c' = nCSeq c1 \<and> nSession c' = nSession c1 \<and> rtsp_method c' = rtsp_method c1 \<and> login c' = login c1"
    using assms(1) unfolding rtspd_client_rtsp_header_parse_def Let_def c1(1)
    by (cases "rtsp_method c1")
      (auto simp: header_setup_def set_ports_def Let_def split: if_splits option.splits)
  with c1(2) show ?thesis by (simp add: request_numbers_def)
qed

lemma header_loop_numbers:
  assumes "header_loop (concat (map (\<lambda>h. h @ CRLF) hs) @ CRLF) c = Inr c'" and "\<forall>h \<in> set hs. header_text h"
  shows "request_numbers c c' hs"
  using assms
proof (induction hs arbitrary: c)
  case Nil
  have "header_loop ([] @ CRLF @ []) c = Inr c'" using Nil(1) by simp
  then obtain c1 where "rtspd_client_rtsp_header_parse [] (CHR 0x0A # []) c = Inr c1" "c' = c1"
    by (subst (asm) header_loop_line) (auto split: sum.splits)
  with header_parse_numbers [of "[]" _ c c1] show ?case
    by (simp add: header_text_def request_numbers_def starts_with_def)
next
  case (Cons h hs)
  let ?rest = "concat (map (\<lambda>h. h @ CRLF) hs) @ CRLF"
  have h: "header_text h" "CHR 0x0D \<notin> set h" using Cons.prems(2) by (simp_all add: header_text_def)
  have "header_loop (h @ CRLF @ ?rest) c = Inr c'" using Cons.prems(1) by simp
  then obtain c1 where c1: "rtspd_client_rtsp_header_parse h (CHR 0x0A # ?rest) c = Inr c1"
    "header_loop ?rest c1 = Inr c'"
    by (subst (asm) header_loop_line [OF h(2)]) (auto split: sum.splits)
  from header_parse_numbers [OF c1(1) h(1)] Cons.IH [OF c1(2)] Cons.prems(2) show ?case
    by (simp add: request_numbers_def)
qed

lemma request_nul: "method_of m = Some mt \<Longrightarrow> CHR 0x00 \<notin> set url \<Longrightarrow> \<forall>h \<in> set hs. header_text h \<Longrightarrow>
    CHR 0x00 \<notin> set (rtsp_text m url hs)"
  by (auto simp: rtsp_text_def CRLF_def header_text_def method_of_def split: if_splits)

text \<open>What a request of any method with any headers leaves of them, if the parser survives it.\<close>

lemma parse_numbers:
  assumes "method_of m = Some mt" "CHR '' '' \<notin> set url" "\<forall>h \<in> set hs. header_text h"
    and "rtspd_client_rtsp_method_parse (rtsp_text m url hs) c = Inr (c', res)"
  shows "res = 0" "rtsp_method c' = mt" "login c' = login c"
    "nCSeq c' = header_number ''CSeq'' hs (nCSeq c)" "nSession c' = header_number ''Session'' hs (nSession c)"
proof -
  have m: "CHR '' '' \<notin> set m" using assms(1) by (auto simp: method_of_def split: if_splits)
  have tx: "rtsp_text m url hs = m @ CHR '' '' # url @ CHR '' '' # ''RTSP/1.0'' @ CRLF @
      concat (map (\<lambda>h. h @ CRLF) hs) @ CRLF"
    by (simp add: rtsp_text_def)
  have v: "CHR 0x0D \<notin> set ''RTSP/1.0''" by simp
  let ?c0 = "c\<lparr>rtsp_method := mt, strUrl := strlcpy 128 url, strVersion := strlcpy 12 ''RTSP/1.0'',
    isAccept := False, isTransport := False, setup_query := ENX_RTSP_STRTYPE_NONE, nQuery := ENX_RTSP_STRTYPE_numNONE\<rparr>"
  obtain c0 where c0: "c0 = ?c0" by blast
  have l: "header_loop (concat (map (\<lambda>h. h @ CRLF) hs) @ CRLF) c0 = Inr c'" and r: "res = 0"
    using assms(4) unfolding tx method_parse_line [OF m assms(1,2) v] c0 [symmetric]
    by (auto split: sum.splits)
  have "rtsp_method c0 = mt" "login c0 = login c" "nCSeq c0 = nCSeq c" "nSession c0 = nSession c"
    by (simp_all add: c0)
  note c0 = this
  from header_loop_numbers [OF l assms(3)] c0 r show "res = 0" "rtsp_method c' = mt" "login c' = login c"
    "nCSeq c' = header_number ''CSeq'' hs (nCSeq c)" "nSession c' = header_number ''Session'' hs (nSession c)"
    by (simp_all add: request_numbers_def)
qed

lemma request_answered:
  assumes "login c" and "method_of m = Some mt" and "CHR '' '' \<notin> set url" "CHR 0x00 \<notin> set url"
    and "\<forall>h \<in> set hs. header_text h"
    and "mt = ENX_RTSP_METHOD_PLAY \<longrightarrow> header_number ''Session'' hs (nSession c) \<noteq> 0"
    and r: "rtsp_request e players (rtsp_text m url hs) c t = Inr r"
  shows "\<exists>s. ro_out r = Some (Sent s) \<and> answers (header_number ''CSeq'' hs (nCSeq c)) s
    \<and> rt_buf (ro_task r) = [] \<and> rt_wsize (ro_task r) = Some (length s)"
proof -
  let ?b = "rtsp_text m url hs"
  have tk: "takeWhile (\<lambda>x. x \<noteq> CHR 0x00) ?b = ?b"
    using request_nul [OF assms(2,4,5)] by (auto simp: takeWhile_eq_all_conv)
  obtain c1 res where p: "rtspd_client_rtsp_method_parse ?b c = Inr (c1, res)"
    using r by (auto simp: rtsp_request_def tk split: sum.splits)
  note n = parse_numbers [OF assms(2,3,5) p]
  obtain c2 rr where h: "rtspd_client_rtsp_response e players c1 = Inr (c2, rr)"
    and ro: "r = \<lparr>ro_conn = c2, ro_task = t\<lparr>rt_buf := [], rt_wsize := Some (length (rp_text rr))\<rparr>,
         ro_out = (if rp_text rr = [] then None else Some (Sent (rp_text rr))), ro_spawn = rp_spawn rr\<rparr>"
    using r p n(1,3) assms(1) by (auto simp: rtsp_request_def tk split: sum.splits)
  have "rp_text rr \<noteq> []" using response_nonempty [OF h] n(2,5) assms(6) by auto
  with on_response.echoes [OF h] n(4) ro show ?thesis by auto
qed

text \<open>C25: A complete request, of any method and with any header lines, is answered at once: if the task
  survives it, exactly one reply with a status line and the number of the request is sent, except to a
  PLAY in a connection that has no session number. Every reply of the handlers thus reaches the client
  that asked.\<close>

theorem rtsp_request_answered:
  assumes "login c" and "method_of m = Some mt" and "CHR '' '' \<notin> set url" "CHR 0x00 \<notin> set url"
    and "\<forall>h \<in> set hs. header_text h"
    and "mt = ENX_RTSP_METHOD_PLAY \<longrightarrow> header_number ''Session'' hs (nSession c) \<noteq> 0"
    and "rtsp_request e players (rtsp_text m url hs) c t = Inr r"
  shows "\<exists>s. ro_out r = Some (Sent s) \<and> answers (header_number ''CSeq'' hs (nCSeq c)) s
    \<and> rt_buf (ro_task r) = [] \<and> rt_wsize (ro_task r) = Some (length s)"
  using assms by (rule request_answered)

text \<open>A request other than SETUP is always parsed, and leaves the stream and the transport alone.\<close>

lemma header_parse_total:
  assumes "rtsp_method c \<noteq> ENX_RTSP_METHOD_SETUP"
  shows "\<exists>c'. rtspd_client_rtsp_header_parse h a c = Inr c' \<and> rtsp_method c' = rtsp_method c
    \<and> eTransport c' = eTransport c \<and> isLive c' = isLive c"
proof -
  obtain c1 where c1: "header_common h a c = c1" "rtsp_method c1 = rtsp_method c"
    "eTransport c1 = eTransport c" "isLive c1 = isLive c"
    by (simp add: header_common_def)
  with assms show ?thesis
    unfolding rtspd_client_rtsp_header_parse_def Let_def c1(1) by (cases "rtsp_method c1") auto
qed

lemma header_loop_total:
  "rtsp_method c \<noteq> ENX_RTSP_METHOD_SETUP \<Longrightarrow>
     \<exists>c'. header_loop s c = Inr c' \<and> eTransport c' = eTransport c \<and> isLive c' = isLive c"
proof (induction s c rule: header_loop.induct)
  case (1 s c)
  show ?case
  proof (cases "strstr s CRLF")
    case None
    then show ?thesis by (simp add: header_loop.simps [of s])
  next
    case (Some k)
    from header_parse_total [OF "1.prems", of "take k s" "drop (k + 1) s"] obtain c1 where
      c1: "rtspd_client_rtsp_header_parse (take k s) (drop (k + 1) s) c = Inr c1"
      and f: "rtsp_method c1 = rtsp_method c" "eTransport c1 = eTransport c" "isLive c1 = isLive c" by blast
    have "header_loop s c = header_loop (drop (k + 2) s) c1"
      by (subst header_loop.simps) (simp only: Some c1 option.case sum.case)
    with "1.IH" [OF Some c1] "1.prems" f show ?thesis by auto
  qed
qed

lemma parse_total:
  assumes "method_of m = Some mt" "mt \<noteq> ENX_RTSP_METHOD_SETUP" "CHR '' '' \<notin> set url"
  shows "\<exists>c'. rtspd_client_rtsp_method_parse (rtsp_text m url hs) c = Inr (c', 0)
    \<and> eTransport c' = eTransport c \<and> isLive c' = isLive c"
proof -
  have m: "CHR '' '' \<notin> set m" using assms(1) by (auto simp: method_of_def split: if_splits)
  have v: "CHR 0x0D \<notin> set ''RTSP/1.0''" by simp
  have tx: "rtsp_text m url hs = m @ CHR '' '' # url @ CHR '' '' # ''RTSP/1.0'' @ CRLF @
      concat (map (\<lambda>h. h @ CRLF) hs) @ CRLF"
    by (simp add: rtsp_text_def)
  let ?c0 = "c\<lparr>rtsp_method := mt, strUrl := strlcpy 128 url, strVersion := strlcpy 12 ''RTSP/1.0'',
    isAccept := False, isTransport := False, setup_query := ENX_RTSP_STRTYPE_NONE, nQuery := ENX_RTSP_STRTYPE_numNONE\<rparr>"
  have "rtsp_method ?c0 \<noteq> ENX_RTSP_METHOD_SETUP" using assms(2) by simp
  from header_loop_total [OF this, of "concat (map (\<lambda>h. h @ CRLF) hs) @ CRLF"] show ?thesis
    unfolding tx method_parse_line [OF m assms(1,3) v] by auto
qed

section \<open>Requests in pieces\<close>

text \<open>The loop of the task over several reads, with what it sends on the way.\<close>

fun receive_all :: "rtsp_env \<Rightarrow> nat \<Rightarrow> string list \<Rightarrow> rtsp_conn \<Rightarrow> rtsp_task \<Rightarrow>
    rtsp_output list \<Rightarrow> rtsp_fault + rtsp_conn \<times> rtsp_task \<times> rtsp_output list" where
  "receive_all e players [] c t out = Inr (c, t, out)"
| "receive_all e players (d # ds) c t out =
     (case rtsp_receive e players d c t of
        Inl f \<Rightarrow> Inl f
      | Inr r \<Rightarrow> receive_all e players ds (ro_conn r) (ro_task r)
          (out @ (case ro_out r of None \<Rightarrow> [] | Some x \<Rightarrow> [x])))"

definition ends_request :: "string \<Rightarrow> bool" where
  "ends_request b \<longleftrightarrow> 4 \<le> length b \<and> drop (length b - 4) b = CRLF @ CRLF"

lemma receive_idle:
  assumes "b = rt_buf t @ d" "4 \<le> length b" "length b \<le> buffer_size" "take 1 b \<noteq> ''$''" "\<not> ends_request b"
  shows "rtsp_receive e players d c t =
    Inr \<lparr>ro_conn = c, ro_task = t\<lparr>rt_buf := b\<rparr>, ro_out = None, ro_spawn = False\<rparr>"
  using assms by (simp add: rtsp_receive_def ends_request_def)

lemma receive_buffered:
  assumes "rt_buf t @ d = rt_buf t' @ d'" "rt_phase t = rt_phase t'" "rt_wsize t = rt_wsize t'"
  shows "rtsp_receive e players d c t = rtsp_receive e players d' c t'"
proof -
  obtain bf bf' ph w where t: "t = \<lparr>rt_phase = ph, rt_buf = bf, rt_wsize = w\<rparr>"
    and t': "t' = \<lparr>rt_phase = ph, rt_buf = bf', rt_wsize = w\<rparr>"
    using assms(2,3) by (cases t; cases t') simp
  have b: "bf @ d = bf' @ d'" using assms(1) t t' by simp
  have req: "rtsp_request e players x c \<lparr>rt_phase = ph, rt_buf = bf, rt_wsize = w\<rparr> =
      rtsp_request e players x c \<lparr>rt_phase = ph, rt_buf = bf', rt_wsize = w\<rparr>" for x
    unfolding rtsp_request_def rtsp_task.select_convs rtsp_task.update_convs by (rule refl)
  show ?thesis
    unfolding t t' rtsp_receive_def rtsp_task.select_convs rtsp_task.update_convs b req by (rule refl)
qed

lemma take_append_first: "b \<noteq> [] \<Longrightarrow> take 1 (b @ d) = take 1 b"
  by (cases b) simp_all

text \<open>C26: A request that arrives in pieces has the effect of the same request in one piece, replies
  included, as long as it fits the buffer, no piece but the last completes a request, and the first
  piece has the four characters the loop looks at.\<close>

theorem rtsp_request_in_pieces:
  assumes "ds \<noteq> []" "4 \<le> length (hd ds)" "take 1 (concat ds) \<noteq> ''$''"
    and "\<And>k. 0 < k \<Longrightarrow> k < length ds \<Longrightarrow> \<not> ends_request (rt_buf t @ concat (take k ds))"
    and "length (rt_buf t @ concat ds) \<le> buffer_size" "rt_buf t = []"
  shows "receive_all e players ds c t out = receive_all e players [concat ds] c t out"
proof -
  have "receive_all e players ds c (t\<lparr>rt_buf := b\<rparr>) out = receive_all e players [concat ds] c (t\<lparr>rt_buf := b\<rparr>) out"
    if "ds \<noteq> []" "4 \<le> length (b @ hd ds)" "take 1 (b @ concat ds) \<noteq> ''$''"
      "\<And>k. 0 < k \<Longrightarrow> k < length ds \<Longrightarrow> \<not> ends_request (b @ concat (take k ds))"
      "length (b @ concat ds) \<le> buffer_size" for b
    using that
  proof (induction ds arbitrary: b)
    case Nil
    then show ?case by simp
  next
    case (Cons d ds)
    show ?case
    proof (cases "ds = []")
      case True
      then show ?thesis by simp
    next
      case False
      have ne: "b @ d \<noteq> []" using Cons.prems(2) by auto
      have first: "take 1 (b @ d) \<noteq> ''$''"
        using Cons.prems(3) take_append_first [OF ne, of "concat ds"] by (simp del: take_append)
      have "\<not> ends_request (b @ d)" using Cons.prems(4) [of 1] False by (cases ds) auto
      with Cons.prems(2,5) first have idle: "rtsp_receive e players d c (t\<lparr>rt_buf := b\<rparr>) =
          Inr \<lparr>ro_conn = c, ro_task = t\<lparr>rt_buf := b @ d\<rparr>, ro_out = None, ro_spawn = False\<rparr>"
        by (subst receive_idle) simp_all
      have "receive_all e players ds c (t\<lparr>rt_buf := b @ d\<rparr>) out =
          receive_all e players [concat ds] c (t\<lparr>rt_buf := b @ d\<rparr>) out"
      proof (rule Cons.IH [OF False])
        show "4 \<le> length ((b @ d) @ hd ds)" using Cons.prems(2) by simp
        show "take 1 ((b @ d) @ concat ds) \<noteq> ''$''" using Cons.prems(3) by simp
        show "\<not> ends_request ((b @ d) @ concat (take k ds))" if "0 < k" "k < length ds" for k
          using Cons.prems(4) [of "Suc k"] that by simp
        show "length ((b @ d) @ concat ds) \<le> buffer_size" using Cons.prems(5) by simp
      qed
      also have "\<dots> = receive_all e players [concat (d # ds)] c (t\<lparr>rt_buf := b\<rparr>) out"
        using receive_buffered [of "t\<lparr>rt_buf := b @ d\<rparr>" "concat ds" "t\<lparr>rt_buf := b\<rparr>" "concat (d # ds)"]
        by simp
      finally show ?thesis by (simp add: idle)
    qed
  qed
  from this [of "[]"] assms show ?thesis by (cases t) simp
qed

end
