(* ===== verification/RtspEx.thy ===== *)
theory RtspEx
  imports RtspLive RtspReq
begin

text \<open>
  A server with two clients that set up their streams, and the states that follow: the theorems
  about the RTSP server are applied there.
\<close>

section \<open>The requests\<close>

definition ex_env :: rtsp_env where
  "ex_env = \<lparr>env_now = \<lparr>tm_sec = 5, tm_min = 4, tm_hour = 3, tm_mday = 2, tm_mon = 0, tm_year = 124, tm_wday = 2\<rparr>,
     env_channels = [(''stream1'', e_vcodecH264), (''stream2'', e_vcodecH265), (''stream3'', e_vcodecJPEG)],
     env_ip = ''10.0.0.1'', env_calloc = True, env_rand = (3, 5, 7), env_mtime = 1000\<rparr>"

definition ex_host :: string where "ex_host = ''10.0.0.1:554''"
definition ex_url :: string where "ex_url = ''rtsp://'' @ ex_host @ ''/stream1''"
definition ex_video :: string where "ex_video = track_url ex_host ''stream1'' ''video''"
definition ex_audio :: string where "ex_audio = track_url ex_host ''stream1'' ''audio''"

definition ex_options :: string where
  "ex_options = rtsp_text ''OPTIONS'' ex_url [hdr_line ''CSeq'' 2, hdr_line ''Session'' 7]"

definition ex_setup_udp :: string where "ex_setup_udp = setup_text ex_video 3 ENX_RTSP_TRANSPORT_UDP 5000 5001"
definition ex_setup_tcp :: string where "ex_setup_tcp = setup_text ex_audio 4 ENX_RTSP_TRANSPORT_TCP 2 3"

text \<open>A text that is taken as one request.\<close>

definition whole :: "string \<Rightarrow> bool" where
  "whole b \<longleftrightarrow> take 1 b \<noteq> ''$'' \<and> ends_request b \<and> length b < buffer_size
     \<and> takeWhile (\<lambda>x. x \<noteq> CHR 0x00) b = b"

lemma ends_append: "ends_request (x @ CRLF @ CRLF)"
  by (simp add: ends_request_def CRLF_def)

lemma whole_text:
  assumes "m = a # m'" "a \<noteq> CHR ''$''" "CHR 0x00 \<notin> set m" "CHR 0x00 \<notin> set url" "CHR 0x00 \<notin> set h1"
    "CHR 0x00 \<notin> set h2" "length m + length url + length h1 + length h2 < 4000"
  shows "whole (rtsp_text m url [h1, h2])"
proof -
  have "rtsp_text m url [h1, h2] = (m @ '' '' @ url @ '' RTSP/1.0'' @ CRLF @ h1 @ CRLF @ h2) @ CRLF @ CRLF"
    by (simp add: rtsp_text_def)
  then have "ends_request (rtsp_text m url [h1, h2])" by (simp only: ends_append)
  moreover have "length (rtsp_text m url [h1, h2]) < buffer_size"
    using assms(7) by (simp add: rtsp_text_def buffer_size_def CRLF_def)
  moreover have "takeWhile (\<lambda>x. x \<noteq> CHR 0x00) (rtsp_text m url [h1, h2]) = rtsp_text m url [h1, h2]"
    using assms(3-6) by (auto simp: takeWhile_eq_all_conv rtsp_text_def CRLF_def)
  moreover have "take 1 (rtsp_text m url [h1, h2]) \<noteq> ''$''"
    using assms(1,2) by (simp add: rtsp_text_def)
  ultimately show ?thesis by (simp add: whole_def)
qed

lemma ex_urls:
  "CHR 0x00 \<notin> set ex_url" "CHR 0x00 \<notin> set ex_video" "CHR 0x00 \<notin> set ex_audio"
  "CHR '' '' \<notin> set ex_url" "CHR '' '' \<notin> set ex_video" "CHR '' '' \<notin> set ex_audio"
  "length ex_url < 128" "length ex_video < 128" "length ex_audio < 128"
  by (simp_all add: ex_url_def ex_video_def ex_audio_def track_url_def ex_host_def)

lemma small_u: "n < 10000 \<Longrightarrow> length (fmt_u n) \<le> 4"
  by (rule length_fmt_u) simp_all

lemma ex_whole: "whole ex_options" "whole ex_setup_udp" "whole ex_setup_tcp"
proof -
  note [simp] = small_u
  have "length (hdr_line ''CSeq'' n) \<le> 10" "length (hdr_line ''Session'' n) \<le> 13" if "n < 10000" for n
    using that by (simp_all add: hdr_line_def)
  note hl = this
  have tl: "length (transport_line (proto_of tp) a b) \<le> 60" if "a < 10000" "b < 10000" for tp a b
    using small_u [OF that(1)] small_u [OF that(2)]
    by (simp add: transport_line_def proto_of_def udp_proto_def tcp_proto_def)
  have nul: "CHR 0x00 \<notin> set (hdr_line ''CSeq'' n)" "CHR 0x00 \<notin> set (hdr_line ''Session'' n)"
    "CHR 0x00 \<notin> set (transport_line (proto_of tp) a b)" for n tp a b
    by (simp_all add: hdr_line_def transport_line_def proto_of_def udp_proto_def tcp_proto_def)
  show "whole ex_options"
    unfolding ex_options_def
    by (rule whole_text [OF refl]) (use ex_urls nul hl [of 2] hl [of 7] in simp_all)
  show "whole ex_setup_udp"
    unfolding ex_setup_udp_def setup_text_def
    by (rule whole_text [OF refl]) (use ex_urls nul hl [of 3] tl [of 5000 5001 ENX_RTSP_TRANSPORT_UDP] in simp_all)
  show "whole ex_setup_tcp"
    unfolding ex_setup_tcp_def setup_text_def
    by (rule whole_text [OF refl]) (use ex_urls nul hl [of 4] tl [of 2 3 ENX_RTSP_TRANSPORT_TCP] in simp_all)
qed

lemma receive_request:
  assumes "whole b" "rt_buf t = []"
  shows "rtsp_receive e players b c t = rtsp_request e players b c t"
proof -
  have b: "rt_buf t @ b = b" using assms(2) by simp
  have w: "(take 1 b = ''$'') = False" "(buffer_size < length b) = False" "(length b = buffer_size) = False"
    "(length b < 4) = False" "(drop (length b - 4) b = CRLF @ CRLF) = True"
    using assms(1) unfolding whole_def ends_request_def by (simp_all del: take_append)
  show ?thesis unfolding rtsp_receive_def Let_def b w if_False if_True by (rule refl)
qed

lemma receive_whole:
  assumes "whole b" "rt_buf t = []" and p: "rtspd_client_rtsp_method_parse b c = Inr (c1, 0)" "login c1"
    and h: "rtspd_client_rtsp_response e players c1 = Inr (c2, r)"
  shows "\<exists>x. rtsp_receive e players b c t = Inr x \<and> ro_conn x = c2 \<and> ro_spawn x = rp_spawn r
    \<and> rt_buf (ro_task x) = [] \<and> rt_phase (ro_task x) = rt_phase t"
proof -
  have tk: "takeWhile (\<lambda>x. x \<noteq> CHR 0x00) b = b" using assms(1) by (simp only: whole_def)
  have "rtsp_request e players b c t = Inr \<lparr>ro_conn = c2,
      ro_task = t\<lparr>rt_buf := [], rt_wsize := Some (length (rp_text r))\<rparr>,
      ro_out = (if rp_text r = [] then None else Some (Sent (rp_text r))), ro_spawn = rp_spawn r\<rparr>"
    using p h by (simp add: rtsp_request_def tk)
  then show ?thesis by (simp add: receive_request [OF assms(1,2)])
qed

section \<open>One connection\<close>

definition ex_conn :: "rtsp_conn \<Rightarrow> rtsp_client_state \<Rightarrow> u32 \<Rightarrow> rtsp_transport_type \<Rightarrow> rtsp_stream_type \<Rightarrow> bool" where
  "ex_conn c st pq tp live \<longleftrightarrow> cl_valid c \<and> login c \<and> cl_state c = st \<and> play_query c = pq \<and> eTransport c = tp
     \<and> isLive c = live"

lemma check_first:
  "isLive c = ENX_RTSP_STREAM_NONE \<Longrightarrow> rtspd_client_rtsp_check_url (env_channels ex_env) ex_url c =
     (c\<lparr>isLive := ENX_RTSP_STREAM_LIVE_H264_1, nVEncoderIdx := 0\<rparr>, 0)"
proof -
  have "strstr ex_url ''//'' = Some 5" "strchr (drop 7 ex_url) (CHR ''/'') = Some 12"
    "drop 19 ex_url = ''/stream1''" by code_simp+
  then show "isLive c = ENX_RTSP_STREAM_NONE \<Longrightarrow> ?thesis"
    by (simp add: rtspd_client_rtsp_check_url_def ex_env_def starts_with_def live_stream_def)
qed

lemma check_later:
  "isLive c = ENX_RTSP_STREAM_LIVE_H264_1 \<Longrightarrow> rtspd_client_rtsp_check_url vs url c =
     (c\<lparr>nVEncoderIdx := - 1, video_type := ENX_RTSP_STREAM_LIVE_H264_1\<rparr>, 0)"
  by (simp add: rtspd_client_rtsp_check_url_def)

lemma ex_options_received:
  assumes "ex_conn c ENX_RTSP_STATE_NONE 0 tp ENX_RTSP_STREAM_NONE" "rt_buf t = []"
  shows "\<exists>x. rtsp_receive ex_env players ex_options c t = Inr x \<and> \<not> ro_spawn x
    \<and> ex_conn (ro_conn x) ENX_RTSP_STATE_OPTIONS 0 tp ENX_RTSP_STREAM_LIVE_H264_1
    \<and> rt_buf (ro_task x) = [] \<and> rt_phase (ro_task x) = rt_phase t"
proof -
  have m: "method_of ''OPTIONS'' = Some ENX_RTSP_METHOD_OPTIONS" by (simp add: method_of_def)
  obtain c1 where p: "rtspd_client_rtsp_method_parse ex_options c = Inr (c1, 0)"
    and c1: "ex_conn c1 ENX_RTSP_STATE_NONE 0 tp ENX_RTSP_STREAM_NONE"
      "rtsp_method c1 = ENX_RTSP_METHOD_OPTIONS" "strUrl c1 = ex_url"
    using parse_plain [OF m _ ex_urls(4,7), of 2 7 c] assms(1) by (simp add: ex_options_def ex_conn_def)
  obtain c2 r where h: "rtspd_client_rtsp_response ex_env players c1 = Inr (c2, r)"
    and c2: "ex_conn c2 ENX_RTSP_STATE_OPTIONS 0 tp ENX_RTSP_STREAM_LIVE_H264_1" "\<not> rp_spawn r"
    using c1 check_first [of c1]
    by (simp add: rtspd_client_rtsp_response_def ex_conn_def rtsp_dispatch_def
        rtspd_client_rtsp_process_options_def rtspd_client_rtsp_state_def reply_def)
  from receive_whole [OF ex_whole(1) assms(2) p _ h] c1 c2 show ?thesis by (auto simp: ex_conn_def)
qed

text \<open>The fields of a parsed SETUP.\<close>

lemma login_setup [simp]: "login (setup_alloc c) = login c" "isLive (setup_done e pt c) = isLive c"
    "login (setup_done e pt c) = login c"
  by (simp_all add: setup_alloc_def setup_done_def Let_def)

lemma ex_conn_done:
  assumes "ex_conn c st pq tp live" "ss_alloc c"
  shows "ex_conn (setup_done e pt c) st (pq OR setup_query c) tp live"
  using assms setup_done_conn [OF assms(2), of e pt] by (simp add: ex_conn_def)

lemma ex_conn_alloc: "ex_conn c st pq tp live \<Longrightarrow> ex_conn (setup_alloc c) st pq tp live"
  by (simp add: ex_conn_def setup_alloc_conn)

lemma setup_response:
  assumes "ex_conn c st pq tp ENX_RTSP_STREAM_LIVE_H264_1" "rtsp_method c = ENX_RTSP_METHOD_SETUP"
    and "st = ENX_RTSP_STATE_OPTIONS \<or> st = ENX_RTSP_STATE_SETUP"
    and "setup_query c = q" "q = ENX_RTSP_STRTYPE_VIDEO \<or> q = ENX_RTSP_STRTYPE_AUDIO" "isTransport c"
    and "tp = ENX_RTSP_TRANSPORT_UDP \<or> tp = ENX_RTSP_TRANSPORT_TCP"
  shows "\<exists>c2 r. rtspd_client_rtsp_response ex_env players c = Inr (c2, r)
    \<and> ex_conn c2 ENX_RTSP_STATE_SETUP (if players < 2 then pq OR q else pq) tp ENX_RTSP_STREAM_LIVE_H264_1
    \<and> (rp_spawn r \<longrightarrow> tp = ENX_RTSP_TRANSPORT_TCP \<and> pq = 0)"
proof -
  let ?c = "c\<lparr>nVEncoderIdx := - 1, video_type := ENX_RTSP_STREAM_LIVE_H264_1\<rparr>"
  let ?c1 = "?c\<lparr>cl_state := ENX_RTSP_STATE_SETUP\<rparr>"
  obtain c2 r where s: "rtspd_client_rtsp_process_setup ex_env players ?c = (c2, r)" by fastforce
  have h: "rtspd_client_rtsp_response ex_env players c = Inr (c2, r)"
    using assms(1-3) check_later [of c] s
    by (auto simp: rtspd_client_rtsp_response_def ex_conn_def rtsp_dispatch_def)
  have st: "rtspd_client_rtsp_state ?c ENX_RTSP_STATE_SETUP = (?c1, 0)"
    using assms(1,3) by (auto simp: rtspd_client_rtsp_state_def ex_conn_def)
  have "setup_query (setup_alloc ?c1) = q" "isLive (setup_alloc ?c1) = ENX_RTSP_STREAM_LIVE_H264_1"
    using assms(1,4) by (simp_all add: setup_alloc_conn ex_conn_def)
  then obtain pt where pl: "setup_payload (setup_alloc ?c1) = Some pt"
    using assms(5) by (auto simp: setup_payload_def ENX_RTSP_STRTYPE_VIDEO_def ENX_RTSP_STRTYPE_AUDIO_def)
  note al = setup_alloc_conn [of ?c1]
  have "ex_conn c2 ENX_RTSP_STATE_SETUP (if players < 2 then pq OR q else pq) tp ENX_RTSP_STREAM_LIVE_H264_1
    \<and> (rp_spawn r \<longrightarrow> tp = ENX_RTSP_TRANSPORT_TCP \<and> pq = 0)"
  proof (cases "players < 2")
    case True
    obtain cc where cc: "setup_alloc ?c1 = cc" by blast
    have f: "eTransport cc = tp" "isTransport cc" "setup_payload cc = Some pt" "ss_alloc cc"
      using assms(1,6) al pl by (simp_all add: ex_conn_def cc)
    have "c2 = setup_done ex_env pt cc \<and>
        (rp_spawn r \<longleftrightarrow> tp = ENX_RTSP_TRANSPORT_TCP \<and> play_query cc = ENX_RTSP_STRTYPE_NONE)"
      using assms(7)
    proof
      assume "tp = ENX_RTSP_TRANSPORT_UDP"
      with s True st f show ?thesis
        by (simp add: rtspd_client_rtsp_process_setup_def RTSP_play_MAX_def ex_env_def cc) (erule conjE, clarsimp)
    next
      assume "tp = ENX_RTSP_TRANSPORT_TCP"
      with s True st f show ?thesis
        by (simp add: rtspd_client_rtsp_process_setup_def RTSP_play_MAX_def ex_env_def cc) (erule conjE, clarsimp)
    qed
    then have "c2 = setup_done ex_env pt (setup_alloc ?c1)"
      "rp_spawn r \<Longrightarrow> tp = ENX_RTSP_TRANSPORT_TCP \<and> play_query (setup_alloc ?c1) = ENX_RTSP_STRTYPE_NONE"
      by (simp_all add: cc)
    then show ?thesis
      using True assms(1,4) al ex_conn_done [OF ex_conn_alloc [of ?c1 ENX_RTSP_STATE_SETUP pq tp] al(2)]
      by (simp add: ex_conn_def ENX_RTSP_STRTYPE_NONE_def)
  next
    case False
    then have "r = snd (reply ?c1 (reply_head ENX_RTSP_RESPONSE_453 ?c1 @
        rtspd_client_rtsp_make_datetime (env_now ex_env) @ CRLF))" "c2 = ?c1"
      using s st by (auto simp: rtspd_client_rtsp_process_setup_def RTSP_play_MAX_def
          rtspd_client_rtsp_process_error_def reply_def)
    with False assms(1) show ?thesis by (auto simp: ex_conn_def reply_def)
  qed
  with h show ?thesis by blast
qed

section \<open>The server\<close>

definition slot :: "rtsp_server \<Rightarrow> nat \<Rightarrow> rtsp_client_state \<Rightarrow> u32 \<Rightarrow> rtsp_transport_type \<Rightarrow> rtsp_stream_type \<Rightarrow> bool" where
  "slot s i st pq tp live \<longleftrightarrow> i < RTSP_info_MAX
     \<and> (\<exists>t. main_task s i = Some t \<and> rt_phase t = Main_loop \<and> rt_buf t = [])
     \<and> ex_conn (rclist s i) st pq tp live \<and> rtp_tasks s i = 0"

definition apart :: "nat \<Rightarrow> rtsp_server \<Rightarrow> rtsp_server \<Rightarrow> bool" where
  "apart i s s' \<longleftrightarrow> (\<forall>j. j \<noteq> i \<longrightarrow>
     rclist s' j = rclist s j \<and> main_task s' j = main_task s j \<and> rtp_tasks s' j = rtp_tasks s j)"

lemma apart_trans: "apart i s s1 \<Longrightarrow> apart i s1 s2 \<Longrightarrow> apart i s s2"
  by (simp add: apart_def)

lemma slot_apart: "apart i s s' \<Longrightarrow> j \<noteq> i \<Longrightarrow> slot s j st pq tp live \<Longrightarrow> slot s' j st pq tp live"
  by (simp add: apart_def slot_def)

text \<open>A request that is answered, and the end of a connection.\<close>

lemma slot_request:
  assumes "slot s i st pq tp live" "\<not> closed_state st"
    and r: "\<And>c t. ex_conn c st pq tp live \<Longrightarrow> rt_buf t = [] \<Longrightarrow>
      \<exists>x. rtsp_receive ex_env (rtspd_player_count s) d c t = Inr x \<and> \<not> ro_spawn x
        \<and> ex_conn (ro_conn x) st' pq' tp' live' \<and> rt_buf (ro_task x) = [] \<and> rt_phase (ro_task x) = rt_phase t"
  shows "\<exists>s'. rtsp_step s s' \<and> slot s' i st' pq' tp' live' \<and> apart i s s'"
proof -
  from assms(1) obtain t where t: "main_task s i = Some t" "rt_phase t = Main_loop" "rt_buf t = []"
    and c: "ex_conn (rclist s i) st pq tp live" and i: "i < RTSP_info_MAX" and n: "rtp_tasks s i = 0"
    by (auto simp: slot_def)
  have "ex_conn ((rclist s i)\<lparr>lastTime := 0\<rparr>) st pq tp live" using c by (simp add: ex_conn_def)
  from r [OF this t(3)] obtain x
    where x: "rtsp_receive ex_env (rtspd_player_count s) d ((rclist s i)\<lparr>lastTime := 0\<rparr>) t = Inr x"
      "\<not> ro_spawn x" "ex_conn (ro_conn x) st' pq' tp' live'" "rt_buf (ro_task x) = []"
      "rt_phase (ro_task x) = rt_phase t"
    by blast
  have st: "cl_state (rclist s i) = st" using c by (simp add: ex_conn_def)
  obtain s' where s': "s' = set_task i (Some (ro_task x)) (set_conn i (ro_conn x)
      (s\<lparr>rtp_tasks := (rtp_tasks s)(i := rtp_tasks s i + of_bool (ro_spawn x))\<rparr>))"
    by blast
  have "rtspd_client_main ex_env 0 (Read_data d) i s = Inr (s', ro_out x)"
    using assms(2) st t(1,2) x(1) by (simp add: rtspd_client_main_def closed_state_def s')
  from step_main [OF i this] have "rtsp_step s s'" .
  moreover have "slot s' i st' pq' tp' live'"
    using i x n t(2) by (simp add: slot_def s' set_task_def set_conn_def)
  moreover have "apart i s s'" by (simp add: apart_def s' set_task_def set_conn_def)
  ultimately show ?thesis by blast
qed

lemma slot_leave:
  assumes "slot s i st pq tp live" "\<not> closed_state st"
  shows "\<exists>s' t. rtsp_step s s' \<and> main_task s' i = Some t \<and> rt_phase t = Main_wait
    \<and> ex_conn (rclist s' i) ENX_RTSP_STATE_TEARDOWN pq tp live \<and> rtp_tasks s' i = 0 \<and> apart i s s'"
proof -
  from assms(1) obtain t where t: "main_task s i = Some t" "rt_phase t = Main_loop"
    and c: "ex_conn (rclist s i) st pq tp live" and i: "i < RTSP_info_MAX" and n: "rtp_tasks s i = 0"
    by (auto simp: slot_def)
  have st: "cl_state (rclist s i) = st" using c by (simp add: ex_conn_def)
  obtain s' where s': "s' = set_task i (Some (t\<lparr>rt_phase := Main_wait\<rparr>))
      (set_conn i ((rclist s i)\<lparr>cl_state := ENX_RTSP_STATE_TEARDOWN\<rparr>) s)"
    by blast
  have "rtspd_client_main ex_env 0 Read_fail i s = Inr (s', None)"
    using assms(2) st t by (simp add: rtspd_client_main_def closed_state_def s')
  from step_main [OF i this] have "rtsp_step s s'" .
  moreover have "ex_conn (rclist s' i) ENX_RTSP_STATE_TEARDOWN pq tp live"
    "main_task s' i = Some (t\<lparr>rt_phase := Main_wait\<rparr>)" "rtp_tasks s' i = 0" "apart i s s'"
    using c n by (simp_all add: s' ex_conn_def apart_def set_task_def set_conn_def)
  ultimately show ?thesis by auto
qed

lemma slot_options:
  assumes "slot s i ENX_RTSP_STATE_NONE 0 tp ENX_RTSP_STREAM_NONE"
  shows "\<exists>s'. rtsp_step s s' \<and> slot s' i ENX_RTSP_STATE_OPTIONS 0 tp ENX_RTSP_STREAM_LIVE_H264_1 \<and> apart i s s'"
  by (rule slot_request [OF assms, where d = ex_options])
    (use ex_options_received in \<open>auto simp: closed_state_def\<close>)

lemma ex_setup_received:
  assumes "ex_conn c st pq tp0 ENX_RTSP_STREAM_LIVE_H264_1" "rt_buf t = []"
    and "st = ENX_RTSP_STATE_OPTIONS \<or> st = ENX_RTSP_STATE_SETUP"
    and b: "b = ex_setup_udp \<and> tp = ENX_RTSP_TRANSPORT_UDP \<and> q = ENX_RTSP_STRTYPE_VIDEO
      \<or> b = ex_setup_tcp \<and> tp = ENX_RTSP_TRANSPORT_TCP \<and> q = ENX_RTSP_STRTYPE_AUDIO \<and> pq \<noteq> 0"
  shows "\<exists>x. rtsp_receive ex_env players b c t = Inr x \<and> \<not> ro_spawn x
    \<and> ex_conn (ro_conn x) ENX_RTSP_STATE_SETUP (if players < 2 then pq OR q else pq) tp ENX_RTSP_STREAM_LIVE_H264_1
    \<and> rt_buf (ro_task x) = [] \<and> rt_phase (ro_task x) = rt_phase t"
proof -
  have host: "CHR ''/'' \<notin> set ex_host" "CHR ''/'' \<notin> set ''stream1''" by (simp_all add: ex_host_def)
  have tq: "track_query ''video'' = Some (ENX_RTSP_STRTYPE_VIDEO, ENX_RTSP_STRTYPE_numVIDEO)"
    "track_query ''audio'' = Some (ENX_RTSP_STRTYPE_AUDIO, ENX_RTSP_STRTYPE_numAUDIO)"
    by (simp_all add: track_query_def starts_with_def)
  note ps = parse_setup [OF host]
  have w: "whole b" using b ex_whole by auto
  obtain c1 where p: "rtspd_client_rtsp_method_parse b c = Inr (c1, 0)"
    and c1: "ex_conn c1 st pq tp ENX_RTSP_STREAM_LIVE_H264_1" "rtsp_method c1 = ENX_RTSP_METHOD_SETUP"
      "setup_query c1 = q" "isTransport c1"
    using b
  proof
    assume b: "b = ex_setup_udp \<and> tp = ENX_RTSP_TRANSPORT_UDP \<and> q = ENX_RTSP_STRTYPE_VIDEO"
    show thesis
      by (rule that, unfold conjunct1 [OF b] ex_setup_udp_def,
          rule ps [OF ex_video_def ex_urls(5,8) tq(1) disjI1 [OF refl]])
        (use b assms(1) in \<open>simp_all add: ex_conn_def\<close>)
  next
    assume b: "b = ex_setup_tcp \<and> tp = ENX_RTSP_TRANSPORT_TCP \<and> q = ENX_RTSP_STRTYPE_AUDIO \<and> pq \<noteq> 0"
    show thesis
      by (rule that, unfold conjunct1 [OF b] ex_setup_tcp_def,
          rule ps [OF ex_audio_def ex_urls(6,9) tq(2) disjI2 [OF refl]])
        (use b assms(1) in \<open>simp_all add: ex_conn_def\<close>)
  qed
  have q: "q = ENX_RTSP_STRTYPE_VIDEO \<or> q = ENX_RTSP_STRTYPE_AUDIO"
    "tp = ENX_RTSP_TRANSPORT_UDP \<or> tp = ENX_RTSP_TRANSPORT_TCP" using b by auto
  from setup_response [OF c1(1,2) assms(3) c1(3) q(1) c1(4) q(2), of players]
  obtain c2 r where h: "rtspd_client_rtsp_response ex_env players c1 = Inr (c2, r)"
    and c2: "ex_conn c2 ENX_RTSP_STATE_SETUP (if players < 2 then pq OR q else pq) tp ENX_RTSP_STREAM_LIVE_H264_1"
      "rp_spawn r \<Longrightarrow> tp = ENX_RTSP_TRANSPORT_TCP \<and> pq = 0"
    by blast
  have "login c1" using c1(1) by (simp add: ex_conn_def)
  from receive_whole [OF w assms(2) p this h] c2 b show ?thesis by fastforce
qed

lemma slot_setup:
  assumes "slot s i st pq tp0 ENX_RTSP_STREAM_LIVE_H264_1"
    and "st = ENX_RTSP_STATE_OPTIONS \<or> st = ENX_RTSP_STATE_SETUP"
    and "b = ex_setup_udp \<and> tp = ENX_RTSP_TRANSPORT_UDP \<and> q = ENX_RTSP_STRTYPE_VIDEO
      \<or> b = ex_setup_tcp \<and> tp = ENX_RTSP_TRANSPORT_TCP \<and> q = ENX_RTSP_STRTYPE_AUDIO \<and> pq \<noteq> 0"
  shows "\<exists>s'. rtsp_step s s' \<and> slot s' i ENX_RTSP_STATE_SETUP (if rtspd_player_count s < 2 then pq OR q else pq)
    tp ENX_RTSP_STREAM_LIVE_H264_1 \<and> apart i s s'"
  by (rule slot_request [OF assms(1), where d = b])
    (use assms(2) ex_setup_received [OF _ _ assms(2,3)] in \<open>auto simp: closed_state_def\<close>)

text \<open>One client up to the moment its task waits: by UDP only, or with the interleaved transport in
  its second SETUP.\<close>

lemma ex_client:
  assumes "slot s i ENX_RTSP_STATE_NONE 0 tp0 ENX_RTSP_STREAM_NONE"
    and few: "\<And>s1. apart i s s1 \<Longrightarrow> play_query (rclist s1 i) = 0 \<Longrightarrow> rtspd_player_count s1 < 2"
    and tp: "tp = ENX_RTSP_TRANSPORT_UDP \<or> tp = ENX_RTSP_TRANSPORT_TCP"
  shows "\<exists>s' t pq. rtsp_steps s s' \<and> main_task s' i = Some t \<and> rt_phase t = Main_wait
    \<and> ex_conn (rclist s' i) ENX_RTSP_STATE_TEARDOWN pq tp ENX_RTSP_STREAM_LIVE_H264_1
    \<and> pq \<noteq> 0 \<and> rtp_tasks s' i = 0 \<and> apart i s s'"
proof -
  from slot_options [OF assms(1)] obtain s1 where s1: "rtsp_step s s1" "apart i s s1"
    "slot s1 i ENX_RTSP_STATE_OPTIONS 0 tp0 ENX_RTSP_STREAM_LIVE_H264_1" by blast
  have "rtspd_player_count s1 < 2" using few [OF s1(2)] s1(3) by (simp add: slot_def ex_conn_def)
  with slot_setup [OF s1(3), of ex_setup_udp ENX_RTSP_TRANSPORT_UDP ENX_RTSP_STRTYPE_VIDEO]
  obtain s2 where s2: "rtsp_step s1 s2" "apart i s1 s2"
    "slot s2 i ENX_RTSP_STATE_SETUP ENX_RTSP_STRTYPE_VIDEO ENX_RTSP_TRANSPORT_UDP ENX_RTSP_STREAM_LIVE_H264_1"
    by auto
  have st: "rtsp_steps s s2" and ap: "apart i s s2"
    using steps_step [OF steps_step [OF steps_refl s1(1)] s2(1)] apart_trans [OF s1(2) s2(2)] by auto
  obtain s3 pq where s3: "rtsp_steps s s3" "apart i s s3" "pq \<noteq> 0"
    "slot s3 i ENX_RTSP_STATE_SETUP pq tp ENX_RTSP_STREAM_LIVE_H264_1"
    using tp
  proof
    assume "tp = ENX_RTSP_TRANSPORT_UDP"
    with st ap s2(3) show thesis
      by (intro that [of s2 ENX_RTSP_STRTYPE_VIDEO]) (simp_all add: ENX_RTSP_STRTYPE_VIDEO_def)
  next
    assume "tp = ENX_RTSP_TRANSPORT_TCP"
    moreover obtain s3 where "rtsp_step s2 s3" "apart i s2 s3"
      "slot s3 i ENX_RTSP_STATE_SETUP (if rtspd_player_count s2 < 2
         then ENX_RTSP_STRTYPE_VIDEO OR ENX_RTSP_STRTYPE_AUDIO else ENX_RTSP_STRTYPE_VIDEO)
         ENX_RTSP_TRANSPORT_TCP ENX_RTSP_STREAM_LIVE_H264_1"
      using slot_setup [OF s2(3), of ex_setup_tcp ENX_RTSP_TRANSPORT_TCP ENX_RTSP_STRTYPE_AUDIO]
      by (auto simp: ENX_RTSP_STRTYPE_VIDEO_def)
    moreover have "ENX_RTSP_STRTYPE_VIDEO \<noteq> 0" "ENX_RTSP_STRTYPE_VIDEO OR ENX_RTSP_STRTYPE_AUDIO \<noteq> 0"
      by (simp_all add: ENX_RTSP_STRTYPE_VIDEO_def ENX_RTSP_STRTYPE_AUDIO_def)
    ultimately show thesis
      using that [of s3] steps_step [OF st] apart_trans [OF ap] by (auto split: if_splits)
  qed
  from slot_leave [OF s3(4)] obtain s4 t where "rtsp_step s3 s4" "main_task s4 i = Some t"
    "rt_phase t = Main_wait" "ex_conn (rclist s4 i) ENX_RTSP_STATE_TEARDOWN pq tp ENX_RTSP_STREAM_LIVE_H264_1"
    "rtp_tasks s4 i = 0" "apart i s3 s4"
    by (auto simp: closed_state_def)
  with s3(1-3) steps_trans apart_trans show ?thesis by blast
qed

section \<open>Two clients\<close>

definition ex_peer :: rtsp_peer where
  "ex_peer = \<lparr>peer_fd = 7, peer_server = (1, 554), peer_client = (2, 4000), peer_time = 9, peer_uptime = 11\<rparr>"

lemma accept_slot:
  assumes "i < RTSP_info_MAX" "client_count s < 20" "\<not> cl_valid (rclist s i)"
    and "\<And>j. j < i \<Longrightarrow> cl_valid (rclist s j)" and "rtp_tasks s i = 0"
  shows "\<exists>s'. rtsp_step s s' \<and> slot s' i ENX_RTSP_STATE_NONE 0 ENX_RTSP_TRANSPORT_NONE ENX_RTSP_STREAM_NONE
    \<and> apart i s s' \<and> client_count s' = client_count s + 1"
proof -
  have "List.find (\<lambda>i. \<not> cl_valid (rclist s i)) [0..<RTSP_info_MAX] = Some i"
    using assms by (auto simp: find_Some_iff)
  moreover have "\<not> int RTSP_info_MAX \<le> client_count s" using assms(2) by (simp add: RTSP_info_MAX_def)
  ultimately have "slot (fst (rtspd_socket_server ex_peer s)) i ENX_RTSP_STATE_NONE 0
      ENX_RTSP_TRANSPORT_NONE ENX_RTSP_STREAM_NONE \<and> apart i s (fst (rtspd_socket_server ex_peer s))
      \<and> client_count (fst (rtspd_socket_server ex_peer s)) = client_count s + 1"
    using assms(1,5)
    by (simp add: rtspd_socket_server_def rtspd_socket_client_new_def slot_def apart_def set_task_def
        set_conn_def ex_conn_def client_main_init_def ENX_RTSP_STRTYPE_NONE_def)
  with step_accept show ?thesis by blast
qed

lemma two_slots:
  "\<exists>s. rtsp_steps (rtsp_init 0) s
     \<and> slot s 0 ENX_RTSP_STATE_NONE 0 ENX_RTSP_TRANSPORT_NONE ENX_RTSP_STREAM_NONE
     \<and> slot s 1 ENX_RTSP_STATE_NONE 0 ENX_RTSP_TRANSPORT_NONE ENX_RTSP_STREAM_NONE
     \<and> (\<forall>j. play_query (rclist s j) = 0)"
proof -
  have z: "\<not> cl_valid (rclist (rtsp_init 0) j)" "play_query (rclist (rtsp_init 0) j) = 0"
    "rtp_tasks (rtsp_init 0) j = 0" "client_count (rtsp_init 0) = 0" for j
    by (simp_all add: rtsp_init_def zero_conn_def)
  from accept_slot [of 0 "rtsp_init 0"] z obtain s1 where s1: "rtsp_step (rtsp_init 0) s1"
    "slot s1 0 ENX_RTSP_STATE_NONE 0 ENX_RTSP_TRANSPORT_NONE ENX_RTSP_STREAM_NONE"
    "apart 0 (rtsp_init 0) s1" "client_count s1 = 1"
    by (auto simp: RTSP_info_MAX_def)
  have "cl_valid (rclist s1 0)" "\<not> cl_valid (rclist s1 1)" "rtp_tasks s1 1 = 0"
    using s1(2,3) z by (simp_all add: slot_def ex_conn_def apart_def)
  with accept_slot [of 1 s1] s1(4) obtain s2 where s2: "rtsp_step s1 s2"
    "slot s2 1 ENX_RTSP_STATE_NONE 0 ENX_RTSP_TRANSPORT_NONE ENX_RTSP_STREAM_NONE" "apart 1 s1 s2"
    by (auto simp: RTSP_info_MAX_def)
  note s0 = slot_apart [OF s2(3) _ s1(2)]
  have "play_query (rclist s2 j) = 0" for j
    using s1(2,3) s2(2,3) z(2) [of j]
    by (cases "j = 0"; cases "j = 1") (simp_all add: slot_def ex_conn_def apart_def)
  with s0 s2(2) steps_trans [OF steps_trans [OF steps_refl s1(1)] s2(1)] show ?thesis by auto
qed

lemma few_players:
  assumes "k < RTSP_info_MAX" "\<And>j. j \<noteq> k \<Longrightarrow> play_query (rclist s j) = 0"
  shows "rtspd_player_count s < 2"
proof -
  have "rtspd_player_count s \<le> length (filter (\<lambda>j. j = k) [0..<RTSP_info_MAX])"
    unfolding rtspd_player_count_def using assms by (intro count_mono) auto
  also have "\<dots> \<le> Suc (length (filter (\<lambda>j. False) [0..<RTSP_info_MAX]))"
    by (rule count_le_Suc [OF assms(1)]) auto
  finally show ?thesis by simp
qed

lemma steps_all: "rtsp_steps s1 s2 \<Longrightarrow> rtsp_steps s0 s1 \<Longrightarrow> rtsp_steps s0 s2"
  by (induction rule: rtsp_steps.induct) (auto intro: steps_step)

text \<open>A server in which both clients are stuck, and one with a client on UDP.\<close>

lemma ex_stuck: "\<exists>s. rtsp_steps (rtsp_init 0) s \<and> stuck s 0 \<and> stuck s 1"
proof -
  obtain s where s: "rtsp_steps (rtsp_init 0) s"
    "slot s 0 ENX_RTSP_STATE_NONE 0 ENX_RTSP_TRANSPORT_NONE ENX_RTSP_STREAM_NONE"
    "slot s 1 ENX_RTSP_STATE_NONE 0 ENX_RTSP_TRANSPORT_NONE ENX_RTSP_STREAM_NONE"
    "\<And>j. play_query (rclist s j) = 0"
    using two_slots by blast
  have "rtspd_player_count s1 < 2" if "apart 0 s s1" for s1
    by (rule few_players [of 0]) (use that s(4) in \<open>simp_all add: apart_def RTSP_info_MAX_def\<close>)
  with ex_client [OF s(2), of ENX_RTSP_TRANSPORT_TCP] obtain s1 t pq where s1: "rtsp_steps s s1"
    "main_task s1 0 = Some t" "rt_phase t = Main_wait"
    "ex_conn (rclist s1 0) ENX_RTSP_STATE_TEARDOWN pq ENX_RTSP_TRANSPORT_TCP ENX_RTSP_STREAM_LIVE_H264_1"
    "pq \<noteq> 0" "rtp_tasks s1 0 = 0" "apart 0 s s1"
    by metis
  have "rtspd_player_count s2 < 2" if a: "apart 1 s1 s2" and z: "play_query (rclist s2 1) = 0" for s2
  proof (rule few_players [of 0])
    show "play_query (rclist s2 j) = 0" if "j \<noteq> 0" for j
      using a z s(4) [of j] s1(7) that by (cases "j = 1") (simp_all add: apart_def)
  qed (simp add: RTSP_info_MAX_def)
  with ex_client [OF slot_apart [OF s1(7) _ s(3)], of ENX_RTSP_TRANSPORT_TCP]
  obtain s2 t' pq' where s2: "rtsp_steps s1 s2"
    "main_task s2 1 = Some t'" "rt_phase t' = Main_wait"
    "ex_conn (rclist s2 1) ENX_RTSP_STATE_TEARDOWN pq' ENX_RTSP_TRANSPORT_TCP ENX_RTSP_STREAM_LIVE_H264_1"
    "pq' \<noteq> 0" "rtp_tasks s2 1 = 0" "apart 1 s1 s2"
    by (metis zero_neq_one)
  have "stuck s1 0" "stuck s2 1"
    using s1 s2 by (auto simp: stuck_def ex_conn_def RTSP_info_MAX_def)
  moreover from this(1) s2(7) have "stuck s2 0" by (simp add: stuck_def apart_def)
  ultimately show ?thesis using steps_all [OF s2(1) steps_all [OF s1(1) s(1)]] by blast
qed

lemma ex_waiting:
  "\<exists>s t. rtsp_steps (rtsp_init 0) s \<and> main_task s 0 = Some t \<and> rt_phase t = Main_wait
     \<and> cl_state (rclist s 0) = ENX_RTSP_STATE_TEARDOWN \<and> play_query (rclist s 0) \<noteq> 0
     \<and> eTransport (rclist s 0) = ENX_RTSP_TRANSPORT_UDP"
proof -
  obtain s where s: "rtsp_steps (rtsp_init 0) s"
    "slot s 0 ENX_RTSP_STATE_NONE 0 ENX_RTSP_TRANSPORT_NONE ENX_RTSP_STREAM_NONE"
    "\<And>j. play_query (rclist s j) = 0"
    using two_slots by blast
  have "rtspd_player_count s1 < 2" if "apart 0 s s1" for s1
    by (rule few_players [of 0]) (use that s(3) in \<open>simp_all add: apart_def RTSP_info_MAX_def\<close>)
  with ex_client [OF s(2), of ENX_RTSP_TRANSPORT_UDP] obtain s1 t pq where "rtsp_steps s s1"
    "main_task s1 0 = Some t" "rt_phase t = Main_wait"
    "ex_conn (rclist s1 0) ENX_RTSP_STATE_TEARDOWN pq ENX_RTSP_TRANSPORT_UDP ENX_RTSP_STREAM_LIVE_H264_1"
    "pq \<noteq> 0"
    by metis
  with steps_all [OF _ s(1)] show ?thesis by (auto simp: ex_conn_def)
qed

section \<open>The theorems at work\<close>

theorem rtsp_players_bounded_witness:
  "\<exists>s. stuck s 0 \<and> stuck s 1 \<and> rtspd_player_count s \<le> RTSP_play_MAX"
  using ex_stuck rtsp_players_bounded by blast

theorem rtsp_closed_stays_closed_witness:
  "\<exists>s s'. stuck s 0 \<and> rtsp_step s s' \<and> (main_task s' 0 = None \<or> closed_state (cl_state (rclist s' 0)))"
proof -
  obtain s where s: "rtsp_steps (rtsp_init 0) s" "stuck s 0" using ex_stuck by blast
  then obtain t where t: "main_task s 0 = Some t" "closed_state (cl_state (rclist s 0))"
    by (auto simp: stuck_def closed_state_def)
  have "rtsp_step s (fst (rtspd_connect_kick 1 s))"
    by (rule step_kick) (simp add: RTSP_info_MAX_def)
  with rtsp_closed_stays_closed [OF s(1) this t] s(2) show ?thesis by blast
qed

theorem rtsp_slot_freed_witness:
  "\<exists>s s1 s2 s3. rtsp_steps (rtsp_init 0) s \<and> play_query (rclist s 0) \<noteq> 0
     \<and> rtspd_client_main ex_env 5 Read_fail 0 s = Inr (s, None)
     \<and> sender_round (\<lambda>_. 0) 5 (Sel_ready 100) Sel_timeout 0 s = Inr s1
     \<and> rtspd_client_main ex_env 6 Read_fail 0 s1 = Inr (s2, None)
     \<and> rtspd_client_main ex_env 7 Read_fail 0 s2 = Inr (s3, None)
     \<and> main_task s3 0 = None \<and> rclist s3 0 = zero_conn"
proof -
  obtain s t where s: "rtsp_steps (rtsp_init 0) s" "main_task s 0 = Some t" "rt_phase t = Main_wait"
    "cl_state (rclist s 0) = ENX_RTSP_STATE_TEARDOWN" "play_query (rclist s 0) \<noteq> 0"
    "eTransport (rclist s 0) = ENX_RTSP_TRANSPORT_UDP"
    using ex_waiting by blast
  have "0 < RTSP_info_MAX" by (simp add: RTSP_info_MAX_def)
  from rtsp_slot_freed [OF this s(2-5) disjI1 [OF s(6)], of ex_env 5 Read_fail "\<lambda>_. 0" 5 "Sel_ready 100" Sel_timeout
      ex_env 6 Read_fail ex_env 7 Read_fail] s(1,5) show ?thesis by blast
qed

theorem rtsp_mixed_transport_lockout_witness:
  "\<exists>s. rtsp_steps (rtsp_init 0) s \<and> stuck s 0 \<and> stuck s 1 \<and>
     rp_text (snd (rtspd_client_rtsp_process_setup ex_env (rtspd_player_count s)
       (zero_conn\<lparr>cl_state := ENX_RTSP_STATE_OPTIONS\<rparr>))) =
     reply_head ENX_RTSP_RESPONSE_453 (zero_conn\<lparr>cl_state := ENX_RTSP_STATE_OPTIONS\<rparr>) @
       rtspd_client_rtsp_make_datetime (env_now ex_env) @ CRLF"
proof -
  obtain s where s: "rtsp_steps (rtsp_init 0) s" "stuck s 0" "stuck s 1" using ex_stuck by blast
  have "state_allowed ENX_RTSP_STATE_SETUP (cl_state (zero_conn\<lparr>cl_state := ENX_RTSP_STATE_OPTIONS\<rparr>))"
    by simp
  from rtsp_mixed_transport_lockout [OF s _ steps_refl this] s show ?thesis by auto
qed

text \<open>Requests.\<close>

theorem rtsp_setup_roundtrip_witness:
  "rtspd_client_rtsp_method_parse (setup_text ex_video 3 ENX_RTSP_TRANSPORT_UDP 5000 5001) zero_conn =
    Inr (zero_conn\<lparr>rtsp_method := ENX_RTSP_METHOD_SETUP, strUrl := ex_video, strVersion := ''RTSP/1.0'',
           isAccept := False, isTransport := True, setup_query := ENX_RTSP_STRTYPE_VIDEO,
           nQuery := ENX_RTSP_STRTYPE_numVIDEO, nCSeq := of_nat 3,
           eTransport := ENX_RTSP_TRANSPORT_UDP, rtp_port := (rtp_port zero_conn)(ENX_RTSP_STRTYPE_numVIDEO := of_nat 5000),
           rtcp_port := (rtcp_port zero_conn)(ENX_RTSP_STRTYPE_numVIDEO := of_nat 5001)\<rparr>, 0)"
  by (rule rtsp_setup_roundtrip [OF _ _ ex_video_def ex_urls(5,8)])
    (simp_all add: ex_host_def track_query_def starts_with_def)

theorem rtsp_setup_out_of_bounds_witness:
  "rtspd_client_rtsp_header_parse (transport_line udp_proto 5000 5001) []
     (zero_conn\<lparr>rtsp_method := ENX_RTSP_METHOD_SETUP, nQuery := ENX_RTSP_STRTYPE_numNONE,
        strUrl := track_url ex_host ''stream1'' ''foo''\<rparr>) = Inl Out_of_bounds"
proof -
  let ?c = "zero_conn\<lparr>rtsp_method := ENX_RTSP_METHOD_SETUP, nQuery := ENX_RTSP_STRTYPE_numNONE,
    strUrl := track_url ex_host ''stream1'' ''foo''\<rparr>"
  have "setup_track (strUrl ?c) = Some ''foo''" "track_query ''foo'' = None"
    using setup_track_url [of ex_host "''stream1''" "''foo''"]
    by (simp_all add: ex_host_def track_query_def starts_with_def)
  moreover have "hdr_value ''Transport'' (transport_line udp_proto 5000 5001) [] =
      CHR '' '' # udp_proto @ fmt_u 5000 @ CHR ''-'' # fmt_u 5001"
    "starts_with (transport_line udp_proto 5000 5001) ''Transport''"
    by (simp_all add: transport_line_def hdr_value_def starts_with_def)
  moreover have "setup_query ?c = ENX_RTSP_STRTYPE_NONE"
    by (simp add: zero_conn_def ENX_RTSP_STRTYPE_NONE_def)
  ultimately show ?thesis
    using rtsp_setup_out_of_bounds [of ?c "transport_line udp_proto 5000 5001" "[]" Out_of_bounds]
      udp_value(2) [of 5000 5001]
    by simp
qed

theorem rtsp_describe_size_witness:
  "rtspd_client_rtsp_process_describe ex_env (zero_conn\<lparr>cl_state := ENX_RTSP_STATE_OPTIONS, isAccept := True,
     isLive := ENX_RTSP_STREAM_LIVE_H265_1, strUrl := replicate 124 (CHR ''a'')\<rparr>) = Inl Out_of_bounds"
proof -
  let ?c = "zero_conn\<lparr>cl_state := ENX_RTSP_STATE_OPTIONS, isAccept := True,
    isLive := ENX_RTSP_STREAM_LIVE_H265_1, strUrl := replicate 124 (CHR ''a'')\<rparr>"
  have "length (env_ip ex_env) \<le> 15" by (simp add: ex_env_def)
  with rtsp_describe_size [of ?c ex_env] show ?thesis by simp
qed

theorem rtsp_request_answered_witness:
  "\<exists>r s. rtsp_request ex_env 0 ex_setup_udp (client_main_init 11 (zero_conn\<lparr>cl_valid := True\<rparr>)
        \<lparr>cl_state := ENX_RTSP_STATE_OPTIONS, isLive := ENX_RTSP_STREAM_LIVE_H264_1\<rparr>)
      \<lparr>rt_phase = Main_loop, rt_buf = [], rt_wsize = None\<rparr> = Inr r
    \<and> ro_out r = Some (Sent s) \<and> answers 3 s"
proof -
  let ?c = "client_main_init 11 (zero_conn\<lparr>cl_valid := True\<rparr>)
    \<lparr>cl_state := ENX_RTSP_STATE_OPTIONS, isLive := ENX_RTSP_STREAM_LIVE_H264_1\<rparr>"
  let ?t = "\<lparr>rt_phase = Main_loop, rt_buf = [], rt_wsize = None\<rparr>"
  let ?hs = "[hdr_line ''CSeq'' 3, transport_line udp_proto 5000 5001]"
  have c: "ex_conn ?c ENX_RTSP_STATE_OPTIONS 0 ENX_RTSP_TRANSPORT_NONE ENX_RTSP_STREAM_LIVE_H264_1" "login ?c"
    by (simp_all add: ex_conn_def client_main_init_def ENX_RTSP_STRTYPE_NONE_def zero_conn_def)
  have m: "method_of ''SETUP'' = Some ENX_RTSP_METHOD_SETUP" by (simp add: method_of_def)
  obtain r where r: "rtsp_request ex_env 0 ex_setup_udp ?c ?t = Inr r"
    using ex_setup_received [OF c(1), of ?t ex_setup_udp ENX_RTSP_TRANSPORT_UDP ENX_RTSP_STRTYPE_VIDEO 0]
      receive_request [OF ex_whole(2), of ?t ex_env 0 ?c] by auto
  have b: "ex_setup_udp = rtsp_text ''SETUP'' ex_video ?hs" by (simp add: ex_setup_udp_def setup_text_def proto_of_def)
  have hs: "\<forall>h \<in> set ?hs. header_text h"
    by (simp add: header_text_def hdr_line_def transport_line_def udp_proto_def)
  have n: "header_number ''CSeq'' ?hs x = 3" for x
    using header_number_printed [of "[transport_line udp_proto 5000 5001]" "''CSeq''" "[]" 3 x]
    by (simp add: transport_line_def starts_with_def)
  from rtsp_request_answered [OF c(2) m ex_urls(5,2) hs, of ex_env 0 ?t r] r show ?thesis
    unfolding b n by auto
qed

theorem rtsp_request_in_pieces_witness:
  "receive_all ex_env 0 [''OPTIONS'', drop 7 ex_options] zero_conn
      \<lparr>rt_phase = Main_loop, rt_buf = [], rt_wsize = None\<rparr> [] =
   receive_all ex_env 0 [ex_options] zero_conn \<lparr>rt_phase = Main_loop, rt_buf = [], rt_wsize = None\<rparr> []"
proof -
  let ?ds = "[''OPTIONS'', drop 7 ex_options]"
  let ?t = "\<lparr>rt_phase = Main_loop, rt_buf = [], rt_wsize = None\<rparr>"
  have e: "concat ?ds = ex_options" by (simp add: ex_options_def rtsp_text_def)
  have w: "length ex_options < buffer_size" "take 1 ex_options \<noteq> ''$''"
    using ex_whole(1) by (simp_all add: whole_def del: take_append)
  have "receive_all ex_env 0 ?ds zero_conn ?t [] = receive_all ex_env 0 [concat ?ds] zero_conn ?t []"
  proof (rule rtsp_request_in_pieces)
    show "take 1 (concat ?ds) \<noteq> ''$''" unfolding e by (rule w(2))
    show "length (rt_buf ?t @ concat ?ds) \<le> buffer_size" unfolding e using w(1) by simp
    show "\<not> ends_request (rt_buf ?t @ concat (take k ?ds))" if "0 < k" "k < length ?ds" for k
    proof -
      have "k = 1" using that by simp
      then show ?thesis by (simp add: ends_request_def CRLF_def)
    qed
  qed simp_all
  then show ?thesis unfolding e .
qed

end
