(* ===== verification/RtspPrint.thy ===== *)
theory RtspPrint
  imports Printf RtspEx
begin

text \<open>
  The replies of the RTSP server as \<open>sprintf\<close> writes them. \<open>RtspReply\<close> gives each reply as a text; here
  the formats of \<open>task/rtspd/rtspd_define.h\<close> and of \<open>rtspd_process.c\<close> are put through the printer of
  \<open>dev/string/vsnprintf.c\<close>, with the arguments of the code, and give these texts: none is cut off at
  the 512 characters the printer writes at most.
\<close>

section \<open>Formats\<close>

definition ENX_RTSP_RESPONSE_HEAD :: string where
  "ENX_RTSP_RESPONSE_HEAD = ''RTSP/1.0 %s'' @ CRLF @ ''CSeq: %u'' @ CRLF"

definition ENX_RTSP_RESPONSE_HEAD_S :: string where
  "ENX_RTSP_RESPONSE_HEAD_S = ''RTSP/1.0 %s'' @ CRLF @ ''CSeq: %u'' @ CRLF @ ''Session: %u'' @ CRLF"

definition ENX_RTSP_RESPONSE_DESCRIBE :: string where
  "ENX_RTSP_RESPONSE_DESCRIBE = ''Content-Type: application/sdp'' @ CRLF @ ''Content-Length: %u'' @ CRLF"

definition ENX_RTSP_RESPONSE_DATE :: string where
  "ENX_RTSP_RESPONSE_DATE = ''Date: %s, %s %02u %04u %02u:%02u:%02u GMT'' @ CRLF"

definition ENX_RTSP_RESPONSE_RTPINFO_B :: string where
  "ENX_RTSP_RESPONSE_RTPINFO_B = '' url=%s/%s;seq=%u;rtptime=%u,''"

definition ENX_RTSP_RESPONSE_SETUP_UDP :: string where
  "ENX_RTSP_RESPONSE_SETUP_UDP =
     ''Transport: RTP/AVP;unicast;client_port=%d-%d;server_port=%u-%u;ssrc=%8x;mode=\"PLAY\"'' @ CRLF"

definition ENX_RTSP_RESPONSE_SETUP_TCP :: string where
  "ENX_RTSP_RESPONSE_SETUP_TCP =
     ''Transport: RTP/AVP/TCP;unicast;interleaved=%u-%u;ssrc=%8x;mode=\"PLAY\"'' @ CRLF"

text \<open>The status line, with a session number or without.\<close>

definition head_fmt :: "bool \<Rightarrow> string" where
  "head_fmt s = (if s then ENX_RTSP_RESPONSE_HEAD_S else ENX_RTSP_RESPONSE_HEAD)"

definition head_args :: "bool \<Rightarrow> string \<Rightarrow> rtsp_conn \<Rightarrow> parg list" where
  "head_args s code c = [Str (Some code), Num (scast (nCSeq c))] @ (if s then [Num (scast (nSession c))] else [])"

definition head_text :: "bool \<Rightarrow> string \<Rightarrow> rtsp_conn \<Rightarrow> string" where
  "head_text s code c = (if s then RESPONSE_HEAD_S code c else RESPONSE_HEAD code c)"

lemma head_text_reply: "head_text (nSession c \<noteq> 0) code c = reply_head code c"
  by (simp add: head_text_def reply_head_def)

definition head_pieces :: "bool \<Rightarrow> string \<Rightarrow> rtsp_conn \<Rightarrow> piece list" where
  "head_pieces s code c = [Lit ''RTSP/1.0 '', Text code, Lit (CRLF @ ''CSeq: ''), Uint (scast (nCSeq c)), Lit CRLF] @
     (if s then [Lit ''Session: '', Uint (scast (nSession c)), Lit CRLF] else [])"

lemma head_pieces:
  "concat (map piece_fmt (head_pieces s code c)) = head_fmt s"
  "concat (map piece_args (head_pieces s code c)) = head_args s code c"
  "concat (map piece_text (head_pieces s code c)) = head_text s code c"
  "list_all piece_ok (head_pieces s code c)"
  "sum_list (map piece_room (head_pieces s code c)) \<le> 30 + length code"
  by (simp_all add: head_pieces_def head_fmt_def head_args_def head_text_def RESPONSE_HEAD_def RESPONSE_HEAD_S_def
      ENX_RTSP_RESPONSE_HEAD_def ENX_RTSP_RESPONSE_HEAD_S_def CRLF_def)

text \<open>A reply made of a head and further pieces.\<close>

lemma printed_reply:
  assumes "list_all piece_ok ps" "length code + sum_list (map piece_room ps) < 480"
  shows "sprintf (head_fmt s @ concat (map piece_fmt ps)) (head_args s code c @ concat (map piece_args ps)) =
    Some (head_text s code c @ concat (map piece_text ps))"
proof -
  have "sum_list (map piece_room (head_pieces s code c @ ps)) < 511"
    using assms(2) head_pieces(5) [of s code c] by simp
  with sprintf_pieces [of "head_pieces s code c @ ps"] assms(1) show ?thesis by (simp add: head_pieces)
qed

section \<open>The parts of a reply\<close>

text \<open>The date: a time whose fields are those of a calendar.\<close>

definition tm_ok :: "tm \<Rightarrow> bool" where
  "tm_ok t \<longleftrightarrow> tm_wday t < 7 \<and> tm_mon t < 12 \<and> tm_mday t < 100 \<and> tm_year t < 8100
     \<and> tm_hour t < 100 \<and> tm_min t < 100 \<and> tm_sec t < 100"

definition date_args :: "tm \<Rightarrow> parg list" where
  "date_args t = [Str (Some (strWeek ! tm_wday t)), Str (Some (strMonth ! tm_mon t)), Num (of_nat (tm_mday t)),
     Num (of_nat (tm_year t + 1900)), Num (of_nat (tm_hour t)), Num (of_nat (tm_min t)), Num (of_nat (tm_sec t))]"

definition date_pieces :: "tm \<Rightarrow> piece list" where
  "date_pieces t = [Lit ''Date: '', Text (strWeek ! tm_wday t), Lit '', '', Text (strMonth ! tm_mon t), Lit '' '',
     U02 (of_nat (tm_mday t)), Lit '' '', U04 (of_nat (tm_year t + 1900)), Lit '' '', U02 (of_nat (tm_hour t)),
     Lit '':'', U02 (of_nat (tm_min t)), Lit '':'', U02 (of_nat (tm_sec t)), Lit ('' GMT'' @ CRLF)]"

lemma name_lengths: "w < 7 \<Longrightarrow> length (strWeek ! w) = 3" "m < 12 \<Longrightarrow> length (strMonth ! m) = 3"
proof -
  show "length (strWeek ! w) = 3" if "w < 7"
  proof -
    have "list_all (\<lambda>x. length x = 3) strWeek" "length strWeek = 7" by (simp_all add: strWeek_def)
    with that show ?thesis by (simp add: list_all_length)
  qed
  show "length (strMonth ! m) = 3" if "m < 12"
  proof -
    have "list_all (\<lambda>x. length x = 3) strMonth" "length strMonth = 12" by (simp_all add: strMonth_def)
    with that show ?thesis by (simp add: list_all_length)
  qed
qed

lemma fmt_02u_length: "n < 100 \<Longrightarrow> length (fmt_02u n) = 2" "n < 10000 \<Longrightarrow> length (fmt_04u n) = 4"
  using length_fmt_u [of 2 n] length_fmt_u [of 4 n]
  by (simp_all add: fmt_02u_def fmt_04u_def length_pad_left)

lemma date_length: "tm_ok t \<Longrightarrow> length (rtspd_client_rtsp_make_datetime t) = 37"
  by (simp add: tm_ok_def rtspd_client_rtsp_make_datetime_def name_lengths fmt_02u_length CRLF_def)

lemma date_printed:
  assumes "tm_ok t"
  shows "sprintf ENX_RTSP_RESPONSE_DATE (date_args t) = Some (rtspd_client_rtsp_make_datetime t)"
proof -
  have "concat (map piece_fmt (date_pieces t)) = ENX_RTSP_RESPONSE_DATE"
    "concat (map piece_args (date_pieces t)) = date_args t"
    "list_all piece_ok (date_pieces t)"
    by (simp_all add: date_pieces_def ENX_RTSP_RESPONSE_DATE_def date_args_def CRLF_def)
  moreover have "concat (map piece_text (date_pieces t)) = rtspd_client_rtsp_make_datetime t"
    using assms low_nat [of "tm_year t + 1900"]
    by (simp add: date_pieces_def rtspd_client_rtsp_make_datetime_def tm_ok_def low_nat)
  moreover have "sum_list (map piece_room (date_pieces t)) < 511"
    using assms by (simp add: date_pieces_def tm_ok_def name_lengths CRLF_def)
  ultimately show ?thesis using sprintf_pieces [of "date_pieces t"] by simp
qed

text \<open>The transport of a SETUP.\<close>

definition transport_fmt :: "rtsp_conn \<Rightarrow> string" where
  "transport_fmt c = (if eTransport c = ENX_RTSP_TRANSPORT_UDP then ENX_RTSP_RESPONSE_SETUP_UDP
     else ENX_RTSP_RESPONSE_SETUP_TCP)"

definition transport_args :: "rtsp_conn \<Rightarrow> parg list" where
  "transport_args c =
     (let k = nQuery c in [Num (ucast (rtp_port c k)), Num (ucast (rtcp_port c k))] @
        (if eTransport c = ENX_RTSP_TRANSPORT_UDP then [Num 554, Num 555] else []) @
        [Num (ucast (ssrc (rtp_ss c k)))])"

definition transport_pieces :: "rtsp_conn \<Rightarrow> piece list" where
  "transport_pieces c =
     (let k = nQuery c; a = ucast (rtp_port c k); b = ucast (rtcp_port c k) in
      (if eTransport c = ENX_RTSP_TRANSPORT_UDP
       then [Lit ''Transport: RTP/AVP;unicast;client_port='', Sint a, Lit ''-'', Sint b, Lit '';server_port='',
             Uint 554, Lit ''-'', Uint 555]
       else [Lit ''Transport: RTP/AVP/TCP;unicast;interleaved='', Uint a, Lit ''-'', Uint b]) @
      [Lit '';ssrc='', X8 (ucast (ssrc (rtp_ss c k))), Lit ('';mode=\"PLAY\"'' @ CRLF)])"

lemma transport_pieces:
  "concat (map piece_fmt (transport_pieces c)) = transport_fmt c"
  "concat (map piece_args (transport_pieces c)) = transport_args c"
  "concat (map piece_text (transport_pieces c)) = setup_transport c"
  "list_all piece_ok (transport_pieces c)"
  "sum_list (map piece_room (transport_pieces c)) < 90"
proof -
  have l: "low 554 = 554" "low 555 = 555" by (simp_all add: low_def)
  show "concat (map piece_text (transport_pieces c)) = setup_transport c"
    by (simp add: transport_pieces_def setup_transport_def Let_def as_int_16 l)
qed (simp_all add: transport_pieces_def transport_fmt_def transport_args_def Let_def CRLF_def
    ENX_RTSP_RESPONSE_SETUP_UDP_def ENX_RTSP_RESPONSE_SETUP_TCP_def)

section \<open>The replies\<close>

text \<open>The formats of the session description.\<close>

definition sdpSessionFmt :: string where
  "sdpSessionFmt =
     ''v=0'' @ LF @
     ''o=- 0 0 IN IP4 %s'' @ LF @
     ''s=Session streamed by \"'' @ RTSPD_SERVER_AGENT @ ''\"'' @ LF @
     ''i=%s'' @ LF @
     ''c=IN IP4 0.0.0.0'' @ LF @
     ''t=0 0'' @ LF @
     ''a=tool:'' @ RTSPD_SERVER_AGENT @ LF @
     ''a=control:%s'' @ LF @
     ''a=range:npt=0-'' @ LF @
     ''a=x-qt-text-nam:Session streamed by \"'' @ RTSPD_SERVER_AGENT @ ''\"'' @ LF @
     ''a=x-qt-text-inf:%s'' @ LF"

definition sdpH265LineFmt :: string where
  "sdpH265LineFmt =
     ''m=video 0 RTP/AVP %u'' @ LF @ ''b=AS:20480'' @ LF @ ''a=rtpmap:%u H265/90000'' @ LF @
     ''a=control:%s/%s'' @ LF @ ''a=recvonly'' @ LF @
     ''a=fmtp:%u sprop-sps=QgEBAWAAAAMAsAAAAwAAAwB7oAPAgBDlja5JMvwCAAADAAIAAAMAeUI=; sprop-pps=RAHA8vA8kAA='' @ LF @
     ''a=Media_header:MEDIAINFO=494D4B480102000004000500000000000000000000000000'' @
       ''00000000000000000000000000000000;'' @ LF @
     ''a=appversion:1.0'' @ LF"

definition sdpH264LineFmt :: string where
  "sdpH264LineFmt =
     ''m=video 0 RTP/AVP %u'' @ LF @ ''b=AS:20480'' @ LF @ ''a=rtpmap:%u H264/90000'' @ LF @
     ''a=control:%s/%s'' @ LF @ ''a=recvonly'' @ LF @ ''a=fmtp:%u packetization-mode=1'' @ LF"

definition sdpJPEGLineFmt :: string where
  "sdpJPEGLineFmt =
     ''m=video 0 RTP/AVP %u'' @ LF @ ''b=AS:20480'' @ LF @ ''a=rtpmap:%u JPEG/90000'' @ LF @
     ''a=control:%s/%s'' @ LF @ ''a=recvonly'' @ LF"

definition sdpAudLineFmt :: string where
  "sdpAudLineFmt =
     ''m=audio 0 RTP/AVP %u'' @ LF @ ''b=AS:705'' @ LF @ ''a=rtpmap:%u L16/44100'' @ LF @
     ''a=control:%s/%s'' @ LF @ ''a=recvonly'' @ LF"

lemma sdpSession_printed:
  assumes "length ip \<le> 15" "length name \<le> 10" "length url \<le> 127"
  shows "sprintf sdpSessionFmt [Str (Some ip), Str (Some name), Str (Some url), Str (Some name)] =
    Some (sdpSession ip name url)"
proof -
  let ?ps = "[Lit (''v=0'' @ LF @ ''o=- 0 0 IN IP4 ''), Text ip,
    Lit (LF @ ''s=Session streamed by \"'' @ RTSPD_SERVER_AGENT @ ''\"'' @ LF @ ''i=''), Text name,
    Lit (LF @ ''c=IN IP4 0.0.0.0'' @ LF @ ''t=0 0'' @ LF @ ''a=tool:'' @ RTSPD_SERVER_AGENT @ LF @ ''a=control:''),
    Text url, Lit (LF @ ''a=range:npt=0-'' @ LF @ ''a=x-qt-text-nam:Session streamed by \"'' @
      RTSPD_SERVER_AGENT @ ''\"'' @ LF @ ''a=x-qt-text-inf:''), Text name, Lit LF]"
  have "concat (map piece_fmt ?ps) = sdpSessionFmt" by (simp add: sdpSessionFmt_def)
  moreover have "concat (map piece_text ?ps) = sdpSession ip name url" by (simp add: sdpSession_def)
  moreover have "list_all piece_ok ?ps" by (simp add: LF_def RTSPD_SERVER_AGENT_def)
  moreover have "sum_list (map piece_room ?ps) < 511"
    using assms by (simp add: LF_def RTSPD_SERVER_AGENT_def)
  moreover have "concat (map piece_args ?ps) = [Str (Some ip), Str (Some name), Str (Some url), Str (Some name)]"
    by simp
  ultimately show ?thesis using sprintf_pieces [of ?ps] by simp
qed

text \<open>The lines of the tracks share a form.\<close>

lemma track_printed:
  assumes "list_all piece_ok ds" "list_all (\<lambda>x. CHR ''%'' \<notin> set x) [a, b, k]"
    and "length a + length b + length k + length url + length tr + sum_list (map piece_room ds) < 500"
  shows "sprintf (a @ ''%u'' @ b @ ''%u'' @ k @ ''%s/%s'' @ concat (map piece_fmt ds))
      ([Num (ucast (pt :: u32)), Num (ucast pt), Str (Some url), Str (Some tr)] @ concat (map piece_args ds)) =
    Some (a @ fmt_u (unat pt) @ b @ fmt_u (unat pt) @ k @ url @ ''/'' @ tr @ concat (map piece_text ds))"
  using sprintf_pieces [of "[Lit a, Uint (ucast pt), Lit b, Uint (ucast pt), Lit k, Text url, Lit ''/'', Text tr] @ ds"]
    assms
  by simp

definition video_args :: "u32 \<Rightarrow> string \<Rightarrow> string \<Rightarrow> parg list" where
  "video_args pt url tr = [Num (ucast pt), Num (ucast pt), Str (Some url), Str (Some tr)]"

lemma lines_printed:
  assumes "length url \<le> 127"
  shows "sprintf sdpH264LineFmt (video_args RTP_numPayload_H264 url ''video'' @ [Num (ucast RTP_numPayload_H264)]) =
      Some (sdpH264Line url)"
    and "sprintf sdpH265LineFmt (video_args RTP_numPayload_H265 url ''video'' @ [Num (ucast RTP_numPayload_H265)]) =
      Some (sdpH265Line url)"
    and "sprintf sdpJPEGLineFmt (video_args RTP_numPayload_JPEG url ''video'') = Some (sdpJPEGLine url)"
    and "sprintf sdpAudLineFmt (video_args RTP_numPayload_L16S url ''audio'') = Some (sdpAudLine url)"
proof -
  let ?k = "\<lambda>n. '' '' @ n @ ''/90000'' @ LF @ ''a=control:''"
  let ?b = "LF @ ''b=AS:20480'' @ LF @ ''a=rtpmap:''"
  let ?d = "LF @ ''a=recvonly'' @ LF"
  show "sprintf sdpH264LineFmt (video_args RTP_numPayload_H264 url ''video'' @ [Num (ucast RTP_numPayload_H264)]) =
      Some (sdpH264Line url)"
    using track_printed [of "[Lit (?d @ ''a=fmtp:''), Uint (ucast RTP_numPayload_H264), Lit ('' packetization-mode=1'' @ LF)]"
        "''m=video 0 RTP/AVP ''" ?b "?k ''H264''" url "''video''" RTP_numPayload_H264] assms
    by (simp add: sdpH264LineFmt_def sdpH264Line_def video_args_def LF_def)
  show "sprintf sdpH265LineFmt (video_args RTP_numPayload_H265 url ''video'' @ [Num (ucast RTP_numPayload_H265)]) =
      Some (sdpH265Line url)"
    using track_printed [of "[Lit (?d @ ''a=fmtp:''), Uint (ucast RTP_numPayload_H265),
          Lit ('' sprop-sps=QgEBAWAAAAMAsAAAAwAAAwB7oAPAgBDlja5JMvwCAAADAAIAAAMAeUI=; sprop-pps=RAHA8vA8kAA='' @ LF @
            ''a=Media_header:MEDIAINFO=494D4B480102000004000500000000000000000000000000'' @
            ''00000000000000000000000000000000;'' @ LF @ ''a=appversion:1.0'' @ LF)]"
        "''m=video 0 RTP/AVP ''" ?b "?k ''H265''" url "''video''" RTP_numPayload_H265] assms
    by (simp add: sdpH265LineFmt_def sdpH265Line_def video_args_def LF_def)
  show "sprintf sdpJPEGLineFmt (video_args RTP_numPayload_JPEG url ''video'') = Some (sdpJPEGLine url)"
    using track_printed [of "[Lit ?d]" "''m=video 0 RTP/AVP ''" ?b "?k ''JPEG''" url "''video''" RTP_numPayload_JPEG] assms
    by (simp add: sdpJPEGLineFmt_def sdpJPEGLine_def video_args_def LF_def)
  show "sprintf sdpAudLineFmt (video_args RTP_numPayload_L16S url ''audio'') = Some (sdpAudLine url)"
    using track_printed [of "[Lit ?d]" "''m=audio 0 RTP/AVP ''" "LF @ ''b=AS:705'' @ LF @ ''a=rtpmap:''"
        "'' L16/44100'' @ LF @ ''a=control:''" url "''audio''" RTP_numPayload_L16S] assms
    by (simp add: sdpAudLineFmt_def sdpAudLine_def video_args_def LF_def)
qed


section \<open>Printing a reply\<close>

text \<open>
  A reply is printed in two steps: the date into an array of its own, then the head and the date with
  what the method puts between them or behind.
\<close>

definition sprint_reply ::
  "rtsp_env \<Rightarrow> bool \<Rightarrow> string \<Rightarrow> rtsp_conn \<Rightarrow> string \<Rightarrow> parg list \<Rightarrow> string \<Rightarrow> parg list \<Rightarrow> string option" where
  "sprint_reply e s code c f1 as1 f2 as2 =
     (case sprintf ENX_RTSP_RESPONSE_DATE (date_args (env_now e)) of
        None \<Rightarrow> None
      | Some d \<Rightarrow> sprintf (head_fmt s @ f1 @ ''%s'' @ f2 @ CRLF) (head_args s code c @ as1 @ [Str (Some d)] @ as2))"

definition sprint_error :: "rtsp_env \<Rightarrow> string \<Rightarrow> rtsp_conn \<Rightarrow> string option" where
  "sprint_error e code c = sprint_reply e (nSession c \<noteq> 0) code c [] [] [] []"

definition sprint_options :: "rtsp_env \<Rightarrow> rtsp_conn \<Rightarrow> string option" where
  "sprint_options e c =
     sprint_reply e (nSession c \<noteq> 0) ENX_RTSP_RESPONSE_200 c ENX_RTSP_RESPONSE_OPTIONS [] [] []"

definition sprint_setup :: "rtsp_env \<Rightarrow> rtsp_conn \<Rightarrow> string option" where
  "sprint_setup e c = sprint_reply e True ENX_RTSP_RESPONSE_200 c (transport_fmt c) (transport_args c) [] []"

text \<open>The description: the session, the line of the video, the line of the sound.\<close>

definition sprint_description :: "rtsp_env \<Rightarrow> rtsp_conn \<Rightarrow> string option" where
  "sprint_description e c =
     (let ip = sdp_ip e (strUrl c); url = strUrl c;
          ses = (\<lambda>n. sprintf sdpSessionFmt [Str (Some ip), Str (Some n), Str (Some url), Str (Some n)]);
          h264 = sprintf sdpH264LineFmt (video_args RTP_numPayload_H264 url ''video'' @ [Num (ucast RTP_numPayload_H264)]);
          h265 = sprintf sdpH265LineFmt (video_args RTP_numPayload_H265 url ''video'' @ [Num (ucast RTP_numPayload_H265)]);
          jpeg = sprintf sdpJPEGLineFmt (video_args RTP_numPayload_JPEG url ''video'');
          aud = sprintf sdpAudLineFmt (video_args RTP_numPayload_L16S url ''audio'');
          join = (\<lambda>x y. Option.bind x (\<lambda>x. map_option ((@) x) y))
      in join (case isLive c of
          ENX_RTSP_STREAM_LIVE_H264_1 \<Rightarrow> join (ses ''H264Stream'') h264
        | ENX_RTSP_STREAM_LIVE_H264_2 \<Rightarrow> join (ses ''H264Stream'') h264
        | ENX_RTSP_STREAM_LIVE_H265_1 \<Rightarrow> join (ses ''H265Stream'') h265
        | ENX_RTSP_STREAM_LIVE_H265_2 \<Rightarrow> join (ses ''H265Stream'') h265
        | ENX_RTSP_STREAM_LIVE_JPEG \<Rightarrow> join (ses ''JPEGStream'') jpeg
        | _ \<Rightarrow> Some []) aud)"

text \<open>The reply of DESCRIBE: the printed head, and behind it, with \<open>enx_strcat\<close>, the description.\<close>

definition sprint_describe :: "rtsp_env \<Rightarrow> rtsp_conn \<Rightarrow> string option" where
  "sprint_describe e c = (case sprint_description e c of
       None \<Rightarrow> None
     | Some sdp \<Rightarrow> map_option (\<lambda>h. h @ sdp)
         (sprint_reply e (nSession c \<noteq> 0) ENX_RTSP_RESPONSE_200 c [] [] ENX_RTSP_RESPONSE_DESCRIBE
           [Num (of_nat (length sdp))]))"

text \<open>The track lists of PLAY, and the reply with them.\<close>

definition sprint_rtpinfo :: "string \<Rightarrow> string \<Rightarrow> rtp_session \<Rightarrow> string option" where
  "sprint_rtpinfo url tr s =
     sprintf ENX_RTSP_RESPONSE_RTPINFO_B
       [Str (Some url), Str (Some tr), Num (ucast (start_seq s)), Num (ucast (start_rtptime s))]"

definition sprint_play :: "rtsp_env \<Rightarrow> rtsp_conn \<Rightarrow> string option" where
  "sprint_play e c =
     (case (if play_query c AND ENX_RTSP_STRTYPE_VIDEO \<noteq> 0
            then sprint_rtpinfo (strUrl c) ''video'' (rtp_ss c ENX_RTSP_STRTYPE_numVIDEO) else Some []) of
        None \<Rightarrow> None
      | Some v \<Rightarrow>
        (case (if play_query c AND ENX_RTSP_STRTYPE_AUDIO \<noteq> 0
               then sprint_rtpinfo (strUrl c) ''audio'' (rtp_ss c ENX_RTSP_STRTYPE_numAUDIO) else Some []) of
           None \<Rightarrow> None
         | Some a \<Rightarrow> sprint_reply e True ENX_RTSP_RESPONSE_200 c ''%s''
             [Str (Some (butlast (''RTP-Info:'' @ v @ a) @ CRLF))] [] []))"

lemma sprint_reply_pieces:
  assumes "tm_ok (env_now e)" "list_all piece_ok ps" "list_all piece_ok qs"
    and "length code + sum_list (map piece_room ps) + sum_list (map piece_room qs) < 440"
  shows "sprint_reply e s code c (concat (map piece_fmt ps)) (concat (map piece_args ps))
      (concat (map piece_fmt qs)) (concat (map piece_args qs)) =
    Some (head_text s code c @ concat (map piece_text ps) @ rtspd_client_rtsp_make_datetime (env_now e) @
      concat (map piece_text qs) @ CRLF)"
  using printed_reply [of "ps @ [Text (rtspd_client_rtsp_make_datetime (env_now e))] @ qs @ [Lit CRLF]" code s c]
    assms date_printed [OF assms(1)] date_length [OF assms(1)]
  by (simp add: sprint_reply_def) (simp add: CRLF_def)

lemma sprint_error_text:
  assumes "tm_ok (env_now e)" "length code \<le> 40"
  shows "sprint_error e code c = Some (rp_text (snd (rtspd_client_rtsp_process_error e code c)))"
proof -
  have "rp_text (snd (rtspd_client_rtsp_process_error e code c)) =
      reply_head code c @ rtspd_client_rtsp_make_datetime (env_now e) @ CRLF"
    by (simp add: rtspd_client_rtsp_process_error_def reply_def rtspd_client_rtsp_state_def reply_head_def
        RESPONSE_HEAD_def RESPONSE_HEAD_S_def)
  with sprint_reply_pieces [OF assms(1), of "[]" "[]" code "nSession c \<noteq> 0" c] assms(2) show ?thesis
    by (simp add: sprint_error_def head_text_reply)
qed

lemma sprint_options_text:
  assumes "tm_ok (env_now e)" "state_allowed ENX_RTSP_STATE_OPTIONS (cl_state c)"
  shows "sprint_options e c = Some (rp_text (snd (rtspd_client_rtsp_process_options e c)))"
  using sprint_reply_pieces [OF assms(1), of "[Lit ENX_RTSP_RESPONSE_OPTIONS]" "[]" ENX_RTSP_RESPONSE_200
      "nSession c \<noteq> 0" c] assms(2)
  by (simp add: sprint_options_def head_text_reply rtspd_client_rtsp_process_options_def reply_def
      rtspd_client_rtsp_state_def ENX_RTSP_RESPONSE_OPTIONS_def ENX_RTSP_RESPONSE_200_def CRLF_def
      reply_head_def RESPONSE_HEAD_def RESPONSE_HEAD_S_def)

lemma sprint_setup_text:
  assumes "tm_ok (env_now e)"
  shows "sprint_setup e c = Some (RESPONSE_HEAD_S ENX_RTSP_RESPONSE_200 c @ setup_transport c @
    rtspd_client_rtsp_make_datetime (env_now e) @ CRLF)"
  using sprint_reply_pieces [OF assms(1), of "transport_pieces c" "[]" ENX_RTSP_RESPONSE_200 True c]
    transport_pieces [of c]
  by (simp add: sprint_setup_def head_text_def ENX_RTSP_RESPONSE_200_def)

lemma sprint_description_text:
  assumes "length (strUrl c) \<le> 127" "length (env_ip e) \<le> 15"
  shows "sprint_description e c = Some (describe_sdp e c)"
proof -
  have "length (sdp_ip e (strUrl c)) \<le> 15"
    using assms(2) by (auto simp: sdp_ip_def strlcpy_def Let_def split: option.splits)
  note ses = sdpSession_printed [OF this _ assms(1)]
  show ?thesis
    using lines_printed [OF assms(1)] by (cases "isLive c") (simp_all add: sprint_description_def describe_sdp_def ses Let_def)
qed

lemma sprint_describe_text:
  assumes "tm_ok (env_now e)" "length (strUrl c) \<le> 127" "length (env_ip e) \<le> 15"
    and "length (describe_sdp e c) < 1024" "isAccept c" "state_allowed ENX_RTSP_STATE_DESCRIBE (cl_state c)"
  shows "map_option (\<lambda>t. Inr t) (sprint_describe e c) =
    Some (map_sum id (\<lambda>(c, r). rp_text r) (rtspd_client_rtsp_process_describe e c))"
proof -
  let ?n = "of_nat (length (describe_sdp e c)) :: u64"
  let ?q = "[Lit (''Content-Type: application/sdp'' @ CRLF @ ''Content-Length: ''), Uint ?n, Lit CRLF]"
  have q: "concat (map piece_fmt ?q) = ENX_RTSP_RESPONSE_DESCRIBE" "concat (map piece_args ?q) = [Num ?n]"
    "list_all piece_ok ?q" "sum_list (map piece_room ?q) < 100"
    by (simp_all add: ENX_RTSP_RESPONSE_DESCRIBE_def CRLF_def)
  have r: "sprint_reply e (nSession c \<noteq> 0) ENX_RTSP_RESPONSE_200 c [] [] ENX_RTSP_RESPONSE_DESCRIBE [Num ?n] =
      Some (reply_head ENX_RTSP_RESPONSE_200 c @ rtspd_client_rtsp_make_datetime (env_now e) @
        concat (map piece_text ?q) @ CRLF)"
    using sprint_reply_pieces [OF assms(1), of "[]" ?q ENX_RTSP_RESPONSE_200 "nSession c \<noteq> 0" c] q(3,4)
    unfolding q(1,2) head_text_reply by (simp add: ENX_RTSP_RESPONSE_200_def)
  have l: "low ?n = length (describe_sdp e c)" using assms(4) by (simp add: low_nat)
  have "rtspd_client_rtsp_process_describe e c = Inr (reply (c\<lparr>cl_state := ENX_RTSP_STATE_DESCRIBE\<rparr>)
      (reply_head ENX_RTSP_RESPONSE_200 c @ rtspd_client_rtsp_make_datetime (env_now e) @
        ''Content-Type: application/sdp'' @ CRLF @
        ''Content-Length: '' @ fmt_u (length (describe_sdp e c)) @ CRLF @ CRLF @ describe_sdp e c))"
    using assms(4-6) by (simp add: rtspd_client_rtsp_process_describe_def rtspd_client_rtsp_state_def Let_def
        strSdp_size_def describe_sdp_def reply_head_def RESPONSE_HEAD_def RESPONSE_HEAD_S_def)
  then show ?thesis
    using sprint_description_text [OF assms(2,3)] by (simp add: sprint_describe_def r l reply_def)
qed

lemma rtpinfo_printed:
  assumes "length url \<le> 127" "length tr = 5"
  shows "sprint_rtpinfo url tr s = Some (RTPINFO_B url tr s)" "length (RTPINFO_B url tr s) \<le> 168"
proof -
  let ?q = "[Lit '' url='', Text url, Lit ''/'', Text tr, Lit '';seq='', Uint (ucast (start_seq s)),
    Lit '';rtptime='', Uint (ucast (start_rtptime s)), Lit '','']"
  show "sprint_rtpinfo url tr s = Some (RTPINFO_B url tr s)"
    using sprintf_pieces [of ?q] assms
    by (simp add: sprint_rtpinfo_def ENX_RTSP_RESPONSE_RTPINFO_B_def RTPINFO_B_def)
  show "length (RTPINFO_B url tr s) \<le> 168"
    using length_fmt_u16 [of "start_seq s"] length_fmt_u32 [of "start_rtptime s"] assms
    by (simp add: RTPINFO_B_def del: length_fmt_u16 length_fmt_u32)
qed

lemma sprint_play_text:
  assumes "tm_ok (env_now e)" "length (strUrl c) \<le> 127"
  shows "sprint_play e c = Some (RESPONSE_HEAD_S ENX_RTSP_RESPONSE_200 c @ play_rtpinfo c @
    rtspd_client_rtsp_make_datetime (env_now e) @ CRLF)"
proof -
  let ?v = "rtp_ss c ENX_RTSP_STRTYPE_numVIDEO" and ?a = "rtp_ss c ENX_RTSP_STRTYPE_numAUDIO"
  have l: "length ''video'' = 5" "length ''audio'' = 5" by simp_all
  let ?iv = "if play_query c AND ENX_RTSP_STRTYPE_VIDEO \<noteq> 0 then RTPINFO_B (strUrl c) ''video'' ?v else []"
  let ?ia = "if play_query c AND ENX_RTSP_STRTYPE_AUDIO \<noteq> 0 then RTPINFO_B (strUrl c) ''audio'' ?a else []"
  have i: "play_rtpinfo c = butlast (''RTP-Info:'' @ ?iv @ ?ia) @ CRLF" by (simp only: play_rtpinfo_def)
  have "length ?iv \<le> 168" "length ?ia \<le> 168"
    using rtpinfo_printed(2) [OF assms(2) l(1), of ?v] rtpinfo_printed(2) [OF assms(2) l(2), of ?a] by simp_all
  then have "length (play_rtpinfo c) \<le> 346" unfolding i by (simp add: CRLF_def)
  then have "sprint_reply e True ENX_RTSP_RESPONSE_200 c ''%s'' [Str (Some (play_rtpinfo c))] [] [] =
    Some (RESPONSE_HEAD_S ENX_RTSP_RESPONSE_200 c @ play_rtpinfo c @ rtspd_client_rtsp_make_datetime (env_now e) @ CRLF)"
    using sprint_reply_pieces [OF assms(1), of "[Text (play_rtpinfo c)]" "[]" ENX_RTSP_RESPONSE_200 True c]
    by (simp add: head_text_def ENX_RTSP_RESPONSE_200_def)
  moreover have "(if play_query c AND ENX_RTSP_STRTYPE_VIDEO \<noteq> 0 then sprint_rtpinfo (strUrl c) ''video'' ?v
      else Some []) = Some ?iv"
    "(if play_query c AND ENX_RTSP_STRTYPE_AUDIO \<noteq> 0 then sprint_rtpinfo (strUrl c) ''audio'' ?a
      else Some []) = Some ?ia"
    using rtpinfo_printed(1) [OF assms(2) l(1), of ?v] rtpinfo_printed(1) [OF assms(2) l(2), of ?a] by simp_all
  ultimately show ?thesis by (simp only: sprint_play_def option.case i [symmetric])
qed

text \<open>C28: What the handlers send is what the firmware's printer makes of their formats: for every URL the
  parser can store and a calendar date, every error reply, the replies to OPTIONS, SETUP and PLAY and the
  session description come out of \<open>sprintf\<close> complete, none cut off at its limit.\<close>

theorem rtsp_replies_printed:
  assumes "tm_ok (env_now e)" "length (strUrl c) \<le> 127" "length (env_ip e) \<le> 15" "length code \<le> 40"
    and "state_allowed ENX_RTSP_STATE_OPTIONS (cl_state c)"
  shows "sprint_error e code c = Some (rp_text (snd (rtspd_client_rtsp_process_error e code c)))
    \<and> sprint_options e c = Some (rp_text (snd (rtspd_client_rtsp_process_options e c)))
    \<and> sprint_setup e c = Some (RESPONSE_HEAD_S ENX_RTSP_RESPONSE_200 c @ setup_transport c @
        rtspd_client_rtsp_make_datetime (env_now e) @ CRLF)
    \<and> sprint_play e c = Some (RESPONSE_HEAD_S ENX_RTSP_RESPONSE_200 c @ play_rtpinfo c @
        rtspd_client_rtsp_make_datetime (env_now e) @ CRLF)
    \<and> sprint_description e c = Some (describe_sdp e c)"
  using sprint_error_text [OF assms(1,4)] sprint_options_text [OF assms(1,5)] sprint_setup_text [OF assms(1)]
    sprint_play_text [OF assms(1,2)] sprint_description_text [OF assms(2,3)]
  by blast

theorem rtsp_replies_printed_witness:
  "sprint_error ex_env ENX_RTSP_RESPONSE_453 zero_conn = Some (''RTSP/1.0 453 Not Enough Bandwidth'' @ CRLF @ ''CSeq: 0'' @
     CRLF @ ''Date: Tue, Jan 02 2024 03:04:05 GMT'' @ CRLF @ CRLF)"
proof -
  have z: "tm_ok (env_now ex_env)" "length (strUrl zero_conn) \<le> 127" "length (env_ip ex_env) \<le> 15"
    "length ENX_RTSP_RESPONSE_453 \<le> 40" "state_allowed ENX_RTSP_STATE_OPTIONS (cl_state zero_conn)"
    by (simp_all add: tm_ok_def ex_env_def zero_conn_def ENX_RTSP_RESPONSE_453_def)
  have n: "fmt_u 0 = ''0''" "fmt_02u 2 = ''02''" "fmt_04u 2024 = ''2024''" "fmt_02u 3 = ''03''" "fmt_02u 4 = ''04''"
    "fmt_02u 5 = ''05''"
    by code_simp+
  from rtsp_replies_printed [OF z] show ?thesis
    by (simp add: rtspd_client_rtsp_process_error_def reply_def reply_head_def RESPONSE_HEAD_def zero_conn_def
        rtspd_client_rtsp_make_datetime_def ex_env_def strWeek_def strMonth_def ENX_RTSP_RESPONSE_453_def n)
qed

end
