(* ===== verification/RtspUdp.thy ===== *)
theory RtspUdp
  imports RtspEx
begin

text \<open>
  The task that receives the RTCP packets of all UDP clients, \<open>rtspd_client_udp_rtcp_main\<close> of
  \<open>task/rtspd/rtspd.c\<close>. It looks up the client by address and port and resets its timeout. Proved
  here: its rounds are steps of the server, reports keep a session, and an empty packet ends the task.
\<close>

section \<open>The task\<close>

text \<open>What \<open>lwip_select\<close> and \<open>lwip_recvfrom\<close> give: an error, an interruption, nothing, or a result with
  the address and the port of the sender, in the byte order of the host.\<close>

datatype udp_result = Udp_fail | Udp_intr | Udp_timeout | Udp_recv int u32 u16

definition udp_client :: "rtsp_server \<Rightarrow> u32 \<Rightarrow> u16 \<Rightarrow> (nat \<times> nat) option" where
  "udp_client s a p = List.find (\<lambda>(i, j). client_addr (rclist s i) = a \<and> rtcp_port (rclist s i) j = p)
     (List.product [0..<RTSP_info_MAX] [0..<ENX_RTSP_STRTYPE_numNONE])"

definition rtspd_client_udp_read :: "rtsp_server \<Rightarrow> udp_result \<Rightarrow> int \<times> (nat \<times> nat) option" where
  "rtspd_client_udp_read s u = (case u of
       Udp_fail \<Rightarrow> (- 1, None) | Udp_intr \<Rightarrow> (0, None) | Udp_timeout \<Rightarrow> (0, None)
     | Udp_recv n a p \<Rightarrow> if n \<le> 0 then (- 1, None) else (n, udp_client s a p))"

text \<open>The loop, over the times and results; the task ends when a read fails.\<close>

fun rtspd_client_udp_rtcp_main :: "(u32 \<times> udp_result) list \<Rightarrow> rtsp_server \<Rightarrow> bool \<times> rtsp_server" where
  "rtspd_client_udp_rtcp_main [] s = (True, s)"
| "rtspd_client_udp_rtcp_main ((now, u) # us) s =
     (let (read_size, prcRef) = rtspd_client_udp_read s u in
      if read_size = - 1 then (False, s)
      else if read_size = 0 then rtspd_client_udp_rtcp_main us s
      else (case prcRef of
          Some (i, media_type) \<Rightarrow> rtspd_client_udp_rtcp_main us (set_conn i ((rclist s i)\<lparr>lastTime := now\<rparr>) s)
        | None \<Rightarrow> rtspd_client_udp_rtcp_main us s))"

section \<open>Steps\<close>

lemma udp_client_slot: "udp_client s a p = Some (i, j) \<Longrightarrow> i < RTSP_info_MAX \<and> j < ENX_RTSP_STRTYPE_numNONE"
proof -
  assume "udp_client s a p = Some (i, j)"
  then have "(i, j) \<in> set (List.product [0..<RTSP_info_MAX] [0..<ENX_RTSP_STRTYPE_numNONE])"
    unfolding udp_client_def find_Some_iff by (metis nth_mem)
  then show ?thesis by simp
qed

text \<open>Whatever the task does is a sequence of steps of the server, so the invariants of the server hold.\<close>

lemma rtcp_rounds_steps: "rtsp_steps s (snd (rtspd_client_udp_rtcp_main us s))"
proof (induction us s rule: rtspd_client_udp_rtcp_main.induct)
  case (1 s)
  show ?case by (simp add: steps_refl)
next
  case (2 now u us s)
  obtain n r where r: "rtspd_client_udp_read s u = (n, r)" by (metis surj_pair)
  show ?case
  proof (cases "n = - 1 \<or> n = 0 \<or> r = None")
    case True
    then show ?thesis using 2(1,2) r by (auto simp: steps_refl)
  next
    case False
    then obtain i j where ij: "r = Some (i, j)" by auto
    then have "i < RTSP_info_MAX" using r udp_client_slot
      by (auto simp: rtspd_client_udp_read_def split: udp_result.splits if_splits)
    then have "rtsp_steps s (set_conn i ((rclist s i)\<lparr>lastTime := now\<rparr>) s)"
      by (rule steps_step [OF steps_refl step_rtcp])
    then show ?thesis using 2(3) [OF r [symmetric] refl _ _ ij refl] False r ij by (auto intro: steps_all)
  qed
qed

section \<open>Timeouts\<close>

text \<open>A report from the address and the port of a client, the first slot with these, resets its
  timeout and touches no other slot: for the next sixty seconds the task of the client, hearing nothing
  on its own connection, goes on waiting.\<close>

lemma rtcp_keeps_session:
  assumes "udp_client s a p = Some (i, j)" and "0 < n"
    and "main_task s i = Some t" and "rt_phase t = Main_loop"
    and "cl_state (rclist s i) \<noteq> ENX_RTSP_STATE_TEARDOWN" and "cl_state (rclist s i) \<noteq> ENX_RTSP_STATE_ERROR"
    and "now \<le> seen + RTSP_TIMEOUT"
  shows "\<exists>s'. rtspd_client_udp_rtcp_main [(seen, Udp_recv n a p)] s = (True, s')
    \<and> rclist s' = (rclist s)(i := (rclist s i)\<lparr>lastTime := seen\<rparr>)
    \<and> rtspd_client_main e now Read_timeout i s' = Inr (set_task i (Some (t\<lparr>rt_buf := []\<rparr>)) s', None)"
  using assms
  by (intro exI [of _ "set_conn i ((rclist s i)\<lparr>lastTime := seen\<rparr>) s"])
    (simp add: rtspd_client_udp_read_def rtspd_client_main_def set_conn_def Let_def not_less)

text \<open>C27: A packet without content counts as an error of the socket and ends the task for good. No
  report that comes later is read, so a client that keeps its session by reports alone is torn down when
  the sixty seconds since the last one before that packet are over.\<close>

theorem rtcp_stopped:
  assumes "n \<le> 0" and "main_task s i = Some t" and "rt_phase t = Main_loop" and "lastTime (rclist s i) + RTSP_TIMEOUT < now"
  shows "rtspd_client_udp_rtcp_main ((seen, Udp_recv n a p) # us) s = (False, s)
    \<and> (\<exists>s'. rtspd_client_main e now rd i (snd (rtspd_client_udp_rtcp_main ((seen, Udp_recv n a p) # us) s)) = Inr (s', None)
      \<and> cl_state (rclist s' i) = ENX_RTSP_STATE_TEARDOWN)"
  using assms by (simp add: rtspd_client_udp_read_def rtspd_client_main_def set_conn_def set_task_def)

section \<open>Witnesses\<close>

definition ex_udp :: rtsp_server where
  "ex_udp = set_task 0 (Some \<lparr>rt_phase = Main_loop, rt_buf = [], rt_wsize = None\<rparr>)
     (set_conn 0 (zero_conn\<lparr>cl_valid := True, client_addr := 7, rtcp_port := (\<lambda>_. 5001), lastTime := 100,
        cl_state := ENX_RTSP_STATE_PLAY\<rparr>) (rtsp_init 0))"

lemma ex_udp_slot: "udp_client ex_udp 7 5001 = Some (0, 0)"
proof -
  have "[0..<20] = 0 # [1..<20::nat]" "[0..<2] = [0, 1::nat]" by (simp_all add: upt_rec)
  then show ?thesis
    by (simp add: udp_client_def RTSP_info_MAX_def ENX_RTSP_STRTYPE_numNONE_def ex_udp_def set_conn_def set_task_def)
qed

lemma rtcp_keeps_session_witness:
  "\<exists>s'. rtspd_client_udp_rtcp_main [(150, Udp_recv 28 7 5001)] ex_udp = (True, s')
    \<and> rtspd_client_main ex_env 200 Read_timeout 0 s' =
      Inr (set_task 0 (Some \<lparr>rt_phase = Main_loop, rt_buf = [], rt_wsize = None\<rparr>) s', None)"
  using rtcp_keeps_session [OF ex_udp_slot, where n = 28 and e = ex_env and now = 200 and seen = 150]
  by (fastforce simp: ex_udp_def set_conn_def set_task_def RTSP_TIMEOUT_def)

lemma rtcp_stopped_witness:
  "rtspd_client_udp_rtcp_main [(110, Udp_recv 0 9 9), (150, Udp_recv 28 7 5001)] ex_udp = (False, ex_udp)
    \<and> (\<exists>s'. rtspd_client_main ex_env 200 Read_timeout 0
         (snd (rtspd_client_udp_rtcp_main [(110, Udp_recv 0 9 9), (150, Udp_recv 28 7 5001)] ex_udp)) = Inr (s', None)
       \<and> cl_state (rclist s' 0) = ENX_RTSP_STATE_TEARDOWN)"
  by (rule rtcp_stopped [where t = "\<lparr>rt_phase = Main_loop, rt_buf = [], rt_wsize = None\<rparr>"])
    (simp_all add: ex_udp_def set_conn_def set_task_def RTSP_TIMEOUT_def)

end
