(* ===== verification/RtspBlock.thy ===== *)
theory RtspBlock
  imports RtspUdp
begin

text \<open>
  The sending tasks of \<open>task/rtspd/rtspd.c\<close>, cut at the place where they wait: between making a packet
  and sending it they are in \<open>lwip_select\<close>, and the other tasks run. A round that is not interrupted is
  the one of \<open>RtspServer\<close>. Proved here: a TEARDOWN that is handled while the sender waits takes the
  session away from it, and the sender then stays in its loop for good.
\<close>

section \<open>The halves of a round\<close>

text \<open>
  Where a sending task is: at the top of its loop; in \<open>lwip_select\<close> with a packet of a client and a
  track, and the result of making it; in the loop that waits for a session; gone; or writing through
  the null pointer, as the sound track does, which does not look for a session.
\<close>

datatype sender_pc = Between | Selecting nat nat int | Hung nat | Ended | Null_write nat

text \<open>Making a packet; the flag says that there is one.\<close>

definition packet_made ::
  "(rtsp_client \<Rightarrow> rtsp_client \<times> int) \<Rightarrow> nat \<Rightarrow> rtsp_conn \<Rightarrow> rtsp_conn \<times> int \<times> bool" where
  "packet_made play k c =
     (let (c, res) = play_on play c; ss = rtp_ss c k in (c, res, buf_len ss (cur ss) \<noteq> 0))"

text \<open>The UDP task: from the top of the switch, and back from \<open>lwip_select\<close>.\<close>

definition udp_audio :: "mem \<Rightarrow> nat \<Rightarrow> rtsp_conn \<Rightarrow> rtsp_conn \<times> sender_pc" where
  "udp_audio m i c =
     (if \<not> ss_alloc c then (c, Null_write i)
      else (case packet_made (rtspd_client_rtp_audio_play m) ENX_RTSP_STRTYPE_numAUDIO c of
          (c, res, there) \<Rightarrow> (c, if there then Selecting i ENX_RTSP_STRTYPE_numAUDIO res else Between)))"

definition udp_begin :: "mem \<Rightarrow> nat \<Rightarrow> rtsp_conn \<Rightarrow> rtsp_conn \<times> sender_pc" where
  "udp_begin m i c =
     (if eTransport c = ENX_RTSP_TRANSPORT_UDP then
        (case cl_state c of
          ENX_RTSP_STATE_PLAY \<Rightarrow>
            if \<not> ss_alloc c then (c, Hung i)
            else (case packet_made (rtspd_client_rtp_video_play m) ENX_RTSP_STRTYPE_numVIDEO c of
                (c, res, there) \<Rightarrow>
                  if there then (c, Selecting i ENX_RTSP_STRTYPE_numVIDEO res) else udp_audio m i c)
        | ENX_RTSP_STATE_TEARDOWN \<Rightarrow> (c\<lparr>play_query := 0\<rparr>, Between)
        | _ \<Rightarrow> (c, Between))
      else (c, Between))"

definition udp_resume ::
  "mem \<Rightarrow> u32 \<Rightarrow> select_result \<Rightarrow> nat \<Rightarrow> nat \<Rightarrow> rtsp_conn \<Rightarrow> rtsp_conn \<times> sender_pc" where
  "udp_resume m now sel i k c =
     (case rtspd_client_rtp_udp_send now sel k c of
        Inl f \<Rightarrow> (c, Hung i)
      | Inr (c, n) \<Rightarrow>
          if n = - 1 then (c, Between)
          else (let c = (if 0 < n then count_sent k n c else c)
                in if k = ENX_RTSP_STRTYPE_numVIDEO then udp_audio m i c else (c, Between)))"

text \<open>The same for the sending task of an interleaved connection.\<close>

definition tcp_stop :: "rtsp_conn \<Rightarrow> rtsp_conn \<times> sender_pc" where
  "tcp_stop c = (c\<lparr>play_query := 0\<rparr>, Ended)"

definition tcp_audio :: "mem \<Rightarrow> nat \<Rightarrow> rtsp_conn \<Rightarrow> rtsp_conn \<times> sender_pc" where
  "tcp_audio m i c =
     (if \<not> ss_alloc c then (c, Null_write i)
      else (case packet_made (rtspd_client_rtp_audio_play m) ENX_RTSP_STRTYPE_numAUDIO c of
          (c, res, there) \<Rightarrow>
            if there then (c, Selecting i ENX_RTSP_STRTYPE_numAUDIO res)
            else if res = - 1 then tcp_stop c else (c, Between)))"

definition tcp_begin :: "mem \<Rightarrow> nat \<Rightarrow> rtsp_conn \<Rightarrow> rtsp_conn \<times> sender_pc" where
  "tcp_begin m i c =
     (case cl_state c of
        ENX_RTSP_STATE_PLAY \<Rightarrow>
          if \<not> ss_alloc c then (c, Hung i)
          else (case packet_made (rtspd_client_rtp_video_play m) ENX_RTSP_STRTYPE_numVIDEO c of
              (c, res, there) \<Rightarrow>
                if there then (c, Selecting i ENX_RTSP_STRTYPE_numVIDEO res) else tcp_audio m i c)
      | ENX_RTSP_STATE_SETUP \<Rightarrow> (c, Between)
      | ENX_RTSP_STATE_PAUSE \<Rightarrow> (c, Between)
      | ENX_RTSP_STATE_GET_PARAMETER \<Rightarrow> (c, Between)
      | ENX_RTSP_STATE_SET_PARAMETER \<Rightarrow> (c, Between)
      | _ \<Rightarrow> tcp_stop c)"

definition tcp_resume ::
  "mem \<Rightarrow> select_result \<Rightarrow> nat \<Rightarrow> nat \<Rightarrow> int \<Rightarrow> rtsp_conn \<Rightarrow> rtsp_conn \<times> sender_pc" where
  "tcp_resume m sel i k res c =
     (case rtspd_client_rtp_tcp_send sel k c of
        Inl f \<Rightarrow> (c, Hung i)
      | Inr n \<Rightarrow>
          if n = - 1 then tcp_stop c
          else (let c = (if 0 < n then count_sent k n c else c)
                in if k = ENX_RTSP_STRTYPE_numVIDEO then tcp_audio m i c
                   else if res = - 1 then tcp_stop c else (c, Between)))"

subsection \<open>A round that is not interrupted\<close>

definition udp_run ::
  "mem \<Rightarrow> u32 \<Rightarrow> select_result \<Rightarrow> select_result \<Rightarrow> nat \<Rightarrow> rtsp_conn \<Rightarrow> rtsp_conn \<times> sender_pc" where
  "udp_run m now sv sa i c =
     (case udp_begin m i c of
        (c, Selecting _ k _) \<Rightarrow>
          if k = ENX_RTSP_STRTYPE_numAUDIO then udp_resume m now sa i k c
          else (case udp_resume m now sv i k c of
              (c, Selecting _ k _) \<Rightarrow> udp_resume m now sa i k c
            | r \<Rightarrow> r)
      | r \<Rightarrow> r)"

definition tcp_run ::
  "mem \<Rightarrow> select_result \<Rightarrow> select_result \<Rightarrow> nat \<Rightarrow> rtsp_conn \<Rightarrow> rtsp_conn \<times> sender_pc" where
  "tcp_run m sv sa i c =
     (case tcp_begin m i c of
        (c, Selecting _ k r) \<Rightarrow>
          if k = ENX_RTSP_STRTYPE_numAUDIO then tcp_resume m sa i k r c
          else (case tcp_resume m sv i k r c of
              (c, Selecting _ k r) \<Rightarrow> tcp_resume m sa i k r c
            | r \<Rightarrow> r)
      | r \<Rightarrow> r)"

lemma play_on_alloc [simp]: "play_on f c = (c', r) \<Longrightarrow> ss_alloc c' = ss_alloc c"
  by (cases c) (auto simp: play_on_def rtsp_client.defs split: prod.splits)

lemma udp_track_split:
  "udp_track play now sel k c = (case packet_made play k c of (c, res, there) \<Rightarrow>
     if there then (case rtspd_client_rtp_udp_send now sel k c of
         Inl f \<Rightarrow> Inl f
       | Inr (c, n) \<Rightarrow> Inr (if n = - 1 then (c, True) else (if 0 < n then count_sent k n c else c, False)))
     else Inr (c, False))"
  by (auto simp: udp_track_def packet_made_def Let_def split: prod.split sum.split)

lemma tcp_track_split:
  "tcp_track play sel k c = (case packet_made play k c of (c, res, there) \<Rightarrow>
     if there then (case rtspd_client_rtp_tcp_send sel k c of
         Inl f \<Rightarrow> Inl f
       | Inr n \<Rightarrow> Inr (if n = - 1 then (c, - 1, True) else (if 0 < n then count_sent k n c else c, res, False)))
     else Inr (c, res, False))"
  by (auto simp: tcp_track_def packet_made_def Let_def split: prod.split sum.split)

lemma packet_made_alloc: "packet_made play k c = (c', res, there) \<Longrightarrow> ss_alloc c' = ss_alloc c"
  by (auto simp: packet_made_def Let_def split: prod.splits)

lemma count_sent_allocs: "ss_alloc (if 0 < n then count_sent k n c else c) = ss_alloc c"
  by simp

text \<open>The round of \<open>RtspServer\<close> is the one in which nothing comes between.\<close>

lemma udp_run_whole:
  assumes "rtspd_client_udp_rtp_main m now sv sa c = Inr c'"
  shows "udp_run m now sv sa i c = (c', Between)"
proof (cases "eTransport c = ENX_RTSP_TRANSPORT_UDP \<and> cl_state c = ENX_RTSP_STATE_PLAY")
  case False
  with assms show ?thesis
    by (cases "cl_state c") (auto simp: rtspd_client_udp_rtp_main_def udp_run_def udp_begin_def split: if_splits)
next
  case True
  then have al: "ss_alloc c" using assms by (auto simp: rtspd_client_udp_rtp_main_def split: if_splits)
  have audio: "(case udp_audio m i c1 of (c, Selecting _ k _) \<Rightarrow> udp_resume m now sa i k c | r \<Rightarrow> r) = (c', Between)"
    and audio_pc: "\<And>c2 j k r. udp_audio m i c1 = (c2, Selecting j k r) \<Longrightarrow> k = ENX_RTSP_STRTYPE_numAUDIO"
    if "map_sum id fst (udp_track (rtspd_client_rtp_audio_play m) now sa ENX_RTSP_STRTYPE_numAUDIO c1) = Inr c'" "ss_alloc c1"
    for c1
    using that
    by (auto simp: udp_audio_def udp_track_split udp_resume_def map_sum_def split: prod.splits sum.splits if_splits)
  obtain c1 r there where p: "packet_made (rtspd_client_rtp_video_play m) ENX_RTSP_STRTYPE_numVIDEO c = (c1, r, there)"
    by (metis prod_cases3)
  have al1: "ss_alloc c1" using packet_made_alloc [OF p] al by simp
  show ?thesis
  proof (cases there)
    case False
    with True al p assms have "map_sum id fst (udp_track (rtspd_client_rtp_audio_play m) now sa ENX_RTSP_STRTYPE_numAUDIO c1) = Inr c'"
      by (auto simp: rtspd_client_udp_rtp_main_def udp_track_split [of "rtspd_client_rtp_video_play m"])
    from audio [OF this al1] audio_pc [OF this al1] True al p False show ?thesis
      by (auto simp: udp_run_def udp_begin_def split: prod.splits sender_pc.splits)
  next
    case there: True
    with True al p assms obtain c2 n where
      snd: "rtspd_client_rtp_udp_send now sv ENX_RTSP_STRTYPE_numVIDEO c1 = Inr (c2, n)"
      and rest: "if n = - 1 then c' = c2
        else map_sum id fst (udp_track (rtspd_client_rtp_audio_play m) now sa ENX_RTSP_STRTYPE_numAUDIO
          (if 0 < n then count_sent ENX_RTSP_STRTYPE_numVIDEO n c2 else c2)) = Inr c'"
      by (auto simp: rtspd_client_udp_rtp_main_def udp_track_split [of "rtspd_client_rtp_video_play m"] split: sum.splits if_splits)
    show ?thesis
    proof (cases "n = - 1")
      case stop: True
      with True al p there snd rest show ?thesis
        by (simp add: udp_run_def udp_begin_def udp_resume_def)
    next
      case False
      let ?c3 = "if 0 < n then count_sent ENX_RTSP_STRTYPE_numVIDEO n c2 else c2"
      have "ss_alloc ?c3" using udp_send_alloc [OF snd] al1 by simp
      moreover have "map_sum id fst (udp_track (rtspd_client_rtp_audio_play m) now sa ENX_RTSP_STRTYPE_numAUDIO ?c3) = Inr c'"
        using rest False by simp
      ultimately have "(case udp_audio m i ?c3 of (c, Selecting _ k _) \<Rightarrow> udp_resume m now sa i k c | r \<Rightarrow> r) = (c', Between)"
        using audio by blast
      with True al p there snd False show ?thesis
        by (cases "0 < n") (simp_all add: udp_run_def udp_begin_def udp_resume_def [of m now sv] Let_def)
    qed
  qed
qed

lemma tcp_run_whole:
  assumes "rtspd_client_rtp_main m sv sa c = Inr (c', ended)"
  shows "tcp_run m sv sa i c = (c', if ended then Ended else Between)"
proof (cases "cl_state c = ENX_RTSP_STATE_PLAY")
  case False
  with assms show ?thesis
    by (cases "cl_state c") (auto simp: rtspd_client_rtp_main_def tcp_run_def tcp_begin_def tcp_stop_def Let_def)
next
  case True
  then have al: "ss_alloc c" using assms by (auto simp: rtspd_client_rtp_main_def Let_def split: if_splits)
  let ?whole = "\<lambda>c1. case tcp_track (rtspd_client_rtp_audio_play m) sa ENX_RTSP_STRTYPE_numAUDIO c1 of
      Inl f \<Rightarrow> Inl f | Inr (c, res, _) \<Rightarrow> if res = - 1 then Inr (c\<lparr>play_query := 0\<rparr>, True) else Inr (c, False)"
  have audio: "(case tcp_audio m i c1 of (c, Selecting _ k r) \<Rightarrow> tcp_resume m sa i k r c | r \<Rightarrow> r)
      = (c', if ended then Ended else Between)"
    and audio_pc: "\<And>c2 j k r. tcp_audio m i c1 = (c2, Selecting j k r) \<Longrightarrow> k = ENX_RTSP_STRTYPE_numAUDIO"
    if "?whole c1 = Inr (c', ended)" "ss_alloc c1" for c1
    using that
    by (auto simp: tcp_audio_def tcp_track_split tcp_resume_def tcp_stop_def Let_def split: prod.splits sum.splits if_splits)
  obtain c1 r there where p: "packet_made (rtspd_client_rtp_video_play m) ENX_RTSP_STRTYPE_numVIDEO c = (c1, r, there)"
    by (metis prod_cases3)
  have al1: "ss_alloc c1" using packet_made_alloc [OF p] al by simp
  show ?thesis
  proof (cases there)
    case False
    with True al p assms have "?whole c1 = Inr (c', ended)"
      by (simp add: rtspd_client_rtp_main_def tcp_track_split [of "rtspd_client_rtp_video_play m"] Let_def)
    from audio [OF this al1] audio_pc [OF this al1] True al p False show ?thesis
      by (auto simp: tcp_run_def tcp_begin_def split: prod.splits sender_pc.splits if_splits)
  next
    case there: True
    with True al p assms obtain n where snd: "rtspd_client_rtp_tcp_send sv ENX_RTSP_STRTYPE_numVIDEO c1 = Inr n"
      and rest: "if n = - 1 then c' = c1\<lparr>play_query := 0\<rparr> \<and> ended
        else ?whole (if 0 < n then count_sent ENX_RTSP_STRTYPE_numVIDEO n c1 else c1) = Inr (c', ended)"
      by (auto simp: rtspd_client_rtp_main_def tcp_track_split [of "rtspd_client_rtp_video_play m"] Let_def
          split: sum.splits if_splits)
    show ?thesis
    proof (cases "n = - 1")
      case stop: True
      with True al p there snd rest show ?thesis
        by (simp add: tcp_run_def tcp_begin_def tcp_resume_def tcp_stop_def)
    next
      case False
      let ?c3 = "if 0 < n then count_sent ENX_RTSP_STRTYPE_numVIDEO n c1 else c1"
      have "?whole ?c3 = Inr (c', ended)" "ss_alloc ?c3" using rest False al1 by simp_all
      from audio [OF this] True al p there snd False show ?thesis
        by (cases "0 < n") (simp_all add: tcp_run_def tcp_begin_def tcp_resume_def [of m sv] Let_def)
    qed
  qed
qed

section \<open>Steps\<close>

text \<open>
  The steps of the tasks that are not cut; \<open>busy\<close> says that the UDP task is in the middle of a round,
  \<open>w i\<close> that one sending task of client \<open>i\<close> is.
\<close>

inductive rest_step :: "bool \<Rightarrow> (nat \<Rightarrow> bool) \<Rightarrow> rtsp_server \<Rightarrow> rtsp_server \<Rightarrow> bool" for busy w where
  rest_accept: "rest_step busy w s (fst (rtspd_socket_server p s))"
| rest_kick: "i < RTSP_info_MAX \<Longrightarrow> rest_step busy w s (fst (rtspd_connect_kick i s))"
| rest_main: "i < RTSP_info_MAX \<Longrightarrow> rtspd_client_main e now rd i s = Inr (s', out) \<Longrightarrow> rest_step busy w s s'"
| rest_rtp: "i < RTSP_info_MAX \<Longrightarrow> of_bool (w i) < rtp_tasks s i \<Longrightarrow>
    rtspd_client_rtp_main m sv sa (rclist s i) = Inr (c, ended) \<Longrightarrow>
    rest_step busy w s (set_conn i c (s\<lparr>rtp_tasks := (rtp_tasks s)(i := rtp_tasks s i - of_bool ended)\<rparr>))"
| rest_udp: "\<not> busy \<Longrightarrow> i < RTSP_info_MAX \<Longrightarrow> rtspd_client_udp_rtp_main m now sv sa (rclist s i) = Inr c \<Longrightarrow>
    rest_step busy w s (set_conn i c s)"
| rest_rtcp: "i < RTSP_info_MAX \<Longrightarrow> rest_step busy w s (set_conn i ((rclist s i)\<lparr>lastTime := now\<rparr>) s)"
| rest_video: "rest_step busy w s (feed_all (stream_video_put1 vt d) s)"
| rest_audio: "rest_step busy w s (feed_all (stream_audio_put1 d) s)"

lemma rest_step_step: "rest_step busy w s s' \<Longrightarrow> rtsp_step s s'"
proof (induction rule: rest_step.induct)
  case (rest_rtp i s m sv sa c ended)
  then show ?case by (intro step_rtp) (simp_all only: le_less_trans [OF zero_le])
qed (blast intro: rtsp_step.intros)+

lemma step_rest_step: "rtsp_step s s' \<Longrightarrow> rest_step False (\<lambda>_. False) s s'"
proof (induction rule: rtsp_step.induct)
  case (step_rtp i s m sv sa c ended)
  then show ?case by (intro rest_rtp) (simp_all only: of_bool_eq)
qed (blast intro: rest_step.intros)+

text \<open>The server, the UDP task, and for each client the sending task that is in the middle of a round.\<close>

type_synonym senders = "rtsp_server \<times> sender_pc \<times> (nat \<Rightarrow> sender_pc)"

definition tcp_put :: "nat \<Rightarrow> rtsp_conn \<times> sender_pc \<Rightarrow> senders \<Rightarrow> senders" where
  "tcp_put i r f = (case (r, f) of ((c, pc), s, u, tcp) \<Rightarrow>
     (set_conn i c (s\<lparr>rtp_tasks := (rtp_tasks s)(i := rtp_tasks s i - of_bool (pc = Ended))\<rparr>), u,
      tcp(i := if pc = Ended then Between else pc)))"

definition udp_put :: "nat \<Rightarrow> rtsp_conn \<times> sender_pc \<Rightarrow> senders \<Rightarrow> senders" where
  "udp_put i r f = (case (r, f) of ((c, pc), s, u, tcp) \<Rightarrow> (set_conn i c s, pc, tcp))"

inductive fine_step :: "senders \<Rightarrow> senders \<Rightarrow> bool" where
  fine_rest: "rest_step (u \<noteq> Between) (\<lambda>i. tcp i \<noteq> Between) s s' \<Longrightarrow> fine_step (s, u, tcp) (s', u, tcp)"
| fine_udp_begin: "i < RTSP_info_MAX \<Longrightarrow>
    fine_step (s, Between, tcp) (udp_put i (udp_begin m i (rclist s i)) (s, Between, tcp))"
| fine_udp_resume: "u = Selecting i k r \<Longrightarrow>
    fine_step (s, u, tcp) (udp_put i (udp_resume m now sel i k (rclist s i)) (s, u, tcp))"
| fine_tcp_begin: "i < RTSP_info_MAX \<Longrightarrow> tcp i = Between \<Longrightarrow> 0 < rtp_tasks s i \<Longrightarrow>
    fine_step (s, u, tcp) (tcp_put i (tcp_begin m i (rclist s i)) (s, u, tcp))"
| fine_tcp_resume: "tcp i = Selecting i k r \<Longrightarrow>
    fine_step (s, u, tcp) (tcp_put i (tcp_resume m sel i k r (rclist s i)) (s, u, tcp))"

text \<open>Every run of the server with whole rounds is a run with the cut ones.\<close>

lemma steps_fine:
  "rtsp_steps s s' \<Longrightarrow> fine_step\<^sup>*\<^sup>* (s, Between, \<lambda>_. Between) (s', Between, \<lambda>_. Between)"
proof (induction rule: rtsp_steps.induct)
  case (steps_step s s' s'')
  have "fine_step (s', Between, \<lambda>_. Between) (s'', Between, \<lambda>_. Between)"
    using step_rest_step [OF steps_step.hyps(2)] by (intro fine_rest) simp
  with steps_step.IH show ?case by simp
qed simp

section \<open>A sender that hangs\<close>

text \<open>The sender of a client: the UDP task, or the sending task of its connection.\<close>

definition sender_of :: "senders \<Rightarrow> nat \<Rightarrow> sender_pc" where
  "sender_of f i = (case f of (s, u, tcp) \<Rightarrow>
     if eTransport (rclist s i) = ENX_RTSP_TRANSPORT_UDP then u else tcp i)"

text \<open>It is the only one: no other sending task of the connection is there.\<close>

definition only_sender :: "senders \<Rightarrow> nat \<Rightarrow> bool" where
  "only_sender f i \<longleftrightarrow> (case f of (s, u, tcp) \<Rightarrow>
     if eTransport (rclist s i) = ENX_RTSP_TRANSPORT_UDP then rtp_tasks s i = 0 \<and> tcp i = Between
     else rtp_tasks s i = 1)"

text \<open>The client is torn down, still counts as a player, and its sender is in the loop.\<close>

definition hangs :: "senders \<Rightarrow> nat \<Rightarrow> bool" where
  "hangs f i \<longleftrightarrow> sender_of f i = Hung i \<and> only_sender f i \<and> (\<exists>t. main_task (fst f) i = Some t \<and> rt_phase t \<noteq> Main_close)
     \<and> (case rclist (fst f) i of c \<Rightarrow> cl_valid c \<and> cl_state c = ENX_RTSP_STATE_TEARDOWN \<and> play_query c \<noteq> 0 \<and> \<not> ss_alloc c)"

lemma hangs_same:
  assumes "hangs (s, u, tcp) i" and "rclist s' i = rclist s i" "main_task s' i = main_task s i"
    "rtp_tasks s' i = rtp_tasks s i" "tcp' i = tcp i" "u' = u \<or> eTransport (rclist s i) \<noteq> ENX_RTSP_TRANSPORT_UDP"
  shows "hangs (s', u', tcp') i"
  using assms by (auto simp: hangs_def sender_of_def only_sender_def)

text \<open>What a sender does to a client without a session.\<close>

lemma resume_freed:
  assumes "\<not> ss_alloc c"
  shows "fst (udp_resume m now sel i k c) = c"
  using assms
  by (auto simp: udp_resume_def rtspd_client_rtp_udp_send_def udp_audio_def split: select_result.split)

lemma begin_other: "eTransport c \<noteq> ENX_RTSP_TRANSPORT_UDP \<Longrightarrow> udp_begin m i c = (c, Between)"
  by (simp add: udp_begin_def)

lemma udp_main_other: "eTransport c \<noteq> ENX_RTSP_TRANSPORT_UDP \<Longrightarrow> rtspd_client_udp_rtp_main m now sv sa c = Inr c"
  by (simp add: rtspd_client_udp_rtp_main_def)

lemma main_hangs:
  assumes "rtspd_client_main e now rd i s = Inr (s', out)" and "hangs (s, u, tcp) i"
  shows "hangs (s', u, tcp) i"
proof -
  obtain t where t: "main_task s i = Some t" "rt_phase t = Main_loop \<or> rt_phase t = Main_wait"
    using assms(2) by (auto simp: hangs_def intro: main_phase.exhaust)
  with assms show ?thesis
    by (auto simp: hangs_def rtspd_client_main_def sender_of_def only_sender_def split: if_splits)
qed

lemma feed_keeps:
  assumes "f = stream_video_put1 vt d \<or> f = stream_audio_put1 d"
  shows "ss_alloc (rclist (feed_all f s) i) = ss_alloc (rclist s i)"
    and "cl_valid (rclist (feed_all f s) i) = cl_valid (rclist s i)"
proof -
  obtain c' r where p: "play_on (\<lambda>c. (f c, 0)) (rclist s i) = (c', r)" by (metis surj_pair)
  with play_on_alloc [OF p] put1_conn_step [OF assms, of "rclist s i"]
  show "ss_alloc (rclist (feed_all f s) i) = ss_alloc (rclist s i)"
    and "cl_valid (rclist (feed_all f s) i) = cl_valid (rclist s i)"
    by (simp_all add: feed_all_def conn_step_def)
qed

lemma rest_hangs:
  assumes "rest_step (u \<noteq> Between) (\<lambda>i. tcp i \<noteq> Between) s s'" and h: "hangs (s, u, tcp) i"
  shows "hangs (s', u, tcp) i"
  using assms(1)
proof cases
  case (rest_accept p)
  have "cl_valid (rclist s i)" using h by (simp add: hangs_def)
  from accept_valid [OF this] rest_accept show ?thesis by (auto intro: hangs_same [OF h])
next
  case (rest_kick j)
  with h show ?thesis by (intro hangs_same [OF h]) (auto simp: kick_state hangs_def)
next
  case (rest_main j e now rd out)
  show ?thesis
  proof (cases "i = j")
    case True
    with main_hangs rest_main h show ?thesis by blast
  next
    case False
    with main_other [OF rest_main(2)] show ?thesis by (auto intro: hangs_same [OF h])
  qed
next
  case (rest_rtp j m sv sa c ended)
  have "i \<noteq> j" using h rest_rtp(3) by (auto simp: hangs_def sender_of_def only_sender_def split: if_splits)
  with rest_rtp show ?thesis by (auto intro: hangs_same [OF h])
next
  case (rest_udp j m now sv sa c)
  then have "eTransport (rclist s i) \<noteq> ENX_RTSP_TRANSPORT_UDP" using h by (auto simp: hangs_def sender_of_def)
  with rest_udp udp_main_other [of "rclist s i" m now sv sa] h show ?thesis
    by (cases "i = j") (auto intro: hangs_same [OF h])
next
  case (rest_rtcp j now)
  with h show ?thesis by (auto simp: hangs_def sender_of_def only_sender_def)
next
  case (rest_video vt d)
  with h feed_keeps(1,2) [of _ vt d s i] show ?thesis
    by (simp add: hangs_def sender_of_def only_sender_def put1_same_video)
next
  case (rest_audio d)
  with h feed_keeps(1,2) [of _ _ d s i] show ?thesis
    by (simp add: hangs_def sender_of_def only_sender_def put1_same_audio)
qed

lemma put_apart:
  assumes "hangs (s, u, tcp) i" "j \<noteq> i"
  shows "eTransport (rclist s i) \<noteq> ENX_RTSP_TRANSPORT_UDP \<Longrightarrow> hangs (udp_put j r (s, u, tcp)) i"
    and "hangs (tcp_put j r (s, u, tcp)) i"
  using assms(2) by (auto simp: udp_put_def tcp_put_def split: prod.split intro: hangs_same [OF assms(1)])

lemma fine_hangs:
  assumes "fine_step f f'" and h: "hangs f i"
  shows "hangs f' i"
  using assms(1)
proof cases
  case (fine_rest u tcp s s')
  with rest_hangs h show ?thesis by simp
next
  case (fine_udp_begin j s tcp m)
  then have e: "eTransport (rclist s i) \<noteq> ENX_RTSP_TRANSPORT_UDP" using h by (auto simp: hangs_def sender_of_def)
  show ?thesis
  proof (cases "j = i")
    case True
    have "hangs (s, Between, tcp) i" using h fine_udp_begin(1) by simp
    with True e fine_udp_begin(2) show ?thesis by (simp add: begin_other udp_put_def)
  next
    case False
    with put_apart(1) [OF _ False e] h fine_udp_begin show ?thesis by simp
  qed
next
  case (fine_udp_resume u j k r s tcp m now sel)
  then have e: "eTransport (rclist s i) \<noteq> ENX_RTSP_TRANSPORT_UDP" using h by (auto simp: hangs_def sender_of_def)
  have h': "hangs (s, u, tcp) i" using h fine_udp_resume(1) by simp
  show ?thesis
  proof (cases "j = i")
    case True
    have "\<not> ss_alloc (rclist s i)" using h' by (simp add: hangs_def)
    from resume_freed [OF this] obtain pc where "udp_resume m now sel i k (rclist s i) = (rclist s i, pc)"
      by (metis surjective_pairing)
    with True fine_udp_resume(2) have "f' = (s, pc, tcp)" by (simp add: udp_put_def)
    then show ?thesis using e by (simp add: hangs_same [OF h'])
  next
    case False
    with put_apart(1) [OF h' False e] fine_udp_resume show ?thesis by simp
  qed
next
  case (fine_tcp_begin j tcp s u m)
  then have "j \<noteq> i" using h by (auto simp: hangs_def sender_of_def only_sender_def split: if_splits)
  with put_apart(2) h fine_tcp_begin show ?thesis by simp
next
  case (fine_tcp_resume tcp j k r s u m sel)
  then have "j \<noteq> i" using h by (auto simp: hangs_def sender_of_def only_sender_def split: if_splits)
  with put_apart(2) h fine_tcp_resume show ?thesis by simp
qed

lemma hangs_for_good: "fine_step\<^sup>*\<^sup>* f f' \<Longrightarrow> hangs f i \<Longrightarrow> hangs f' i"
  by (induction rule: rtranclp_induct) (auto intro: fine_hangs)

section \<open>A TEARDOWN while the sender waits\<close>

text \<open>The sender of the client is in \<open>lwip_select\<close>, with a packet of the client made.\<close>

definition waits :: "senders \<Rightarrow> nat \<Rightarrow> bool" where
  "waits f i \<longleftrightarrow> (case sender_of f i of Selecting j k r \<Rightarrow> j = i | _ \<Rightarrow> False) \<and> only_sender f i"

text \<open>\<open>lwip_select\<close> comes back to it.\<close>

definition resumed :: "mem \<Rightarrow> u32 \<Rightarrow> select_result \<Rightarrow> nat \<Rightarrow> senders \<Rightarrow> senders" where
  "resumed m now sel i f = (case (f, sender_of f i) of
       ((s, u, tcp), Selecting j k r) \<Rightarrow>
         if eTransport (rclist s i) = ENX_RTSP_TRANSPORT_UDP
         then udp_put i (udp_resume m now sel i k (rclist s i)) f
         else tcp_put i (tcp_resume m sel i k r (rclist s i)) f
     | _ \<Rightarrow> f)"

lemma resumed_step: "waits f i \<Longrightarrow> fine_step f (resumed m now sel i f)"
  by (cases f) (auto simp: waits_def resumed_def sender_of_def split: sender_pc.splits if_splits
      intro: fine_udp_resume fine_tcp_resume)

text \<open>A client in play.\<close>

definition in_play :: "rtsp_server \<Rightarrow> nat \<Rightarrow> bool" where
  "in_play s i \<longleftrightarrow> i < RTSP_info_MAX \<and> (\<exists>t. main_task s i = Some t \<and> rt_phase t = Main_loop \<and> rt_buf t = [])
     \<and> (case rclist s i of c \<Rightarrow> cl_valid c \<and> login c \<and> cl_state c = ENX_RTSP_STATE_PLAY \<and> play_query c \<noteq> 0
       \<and> isLive c \<in> {ENX_RTSP_STREAM_LIVE_H264_1, ENX_RTSP_STREAM_LIVE_H265_1, ENX_RTSP_STREAM_LIVE_JPEG})"

lemma teardown_response:
  assumes "cl_state c = ENX_RTSP_STATE_PLAY" "rtsp_method c = ENX_RTSP_METHOD_TEARDOWN"
    and "isLive c \<in> {ENX_RTSP_STREAM_LIVE_H264_1, ENX_RTSP_STREAM_LIVE_H265_1, ENX_RTSP_STREAM_LIVE_JPEG}"
  shows "\<exists>c' r. rtspd_client_rtsp_response e players c = Inr (c', r) \<and> \<not> rp_spawn r
    \<and> cl_state c' = ENX_RTSP_STATE_TEARDOWN \<and> \<not> ss_alloc c' \<and> cl_valid c' = cl_valid c
    \<and> play_query c' = play_query c \<and> eTransport c' = eTransport c"
proof -
  have "rtspd_client_rtsp_check_url (env_channels e) (strUrl c) c = (c\<lparr>nVEncoderIdx := - 1, video_type := isLive c\<rparr>, 0)"
    using assms(3) by (auto simp: rtspd_client_rtsp_check_url_def)
  with assms(1,2) show ?thesis
    by (simp add: rtspd_client_rtsp_response_def rtsp_dispatch_def rtspd_client_rtsp_process_teardown_def
        rtspd_client_rtsp_state_def reply_ok_def reply_def)
qed

lemma teardown_handled:
  assumes "in_play s i" and "lastTime (rclist s i) + RTSP_TIMEOUT \<ge> now"
    and w: "whole d" and d: "d = rtsp_text ''TEARDOWN'' url hs"
    and url: "CHR '' '' \<notin> set url" "CHR 0x00 \<notin> set url" and hs: "\<forall>h \<in> set hs. header_text h"
  shows "\<exists>s1 a t. rtspd_client_main e now (Read_data d) i s = Inr (s1, Some (Sent a))
    \<and> answers (header_number ''CSeq'' hs (nCSeq (rclist s i))) a
    \<and> main_task s1 i = Some t \<and> rt_phase t = Main_loop \<and> rtp_tasks s1 = rtp_tasks s
    \<and> (case rclist s1 i of c \<Rightarrow> cl_valid c \<and> cl_state c = ENX_RTSP_STATE_TEARDOWN \<and> \<not> ss_alloc c
      \<and> play_query c = play_query (rclist s i) \<and> eTransport c = eTransport (rclist s i))"
proof -
  let ?c = "(rclist s i)\<lparr>lastTime := now\<rparr>"
  obtain t where t: "main_task s i = Some t" "rt_phase t = Main_loop" "rt_buf t = []" using assms(1) by (auto simp: in_play_def)
  have c: "cl_valid ?c" "login ?c" "cl_state ?c = ENX_RTSP_STATE_PLAY" "play_query ?c = play_query (rclist s i)"
    "isLive ?c \<in> {ENX_RTSP_STREAM_LIVE_H264_1, ENX_RTSP_STREAM_LIVE_H265_1, ENX_RTSP_STREAM_LIVE_JPEG}"
    "eTransport ?c = eTransport (rclist s i)" "nCSeq ?c = nCSeq (rclist s i)"
    using assms(1) by (simp_all add: in_play_def)
  have m: "method_of ''TEARDOWN'' = Some ENX_RTSP_METHOD_TEARDOWN" by (simp add: method_of_def)
  obtain c1 where p: "rtspd_client_rtsp_method_parse d ?c = Inr (c1, 0)" "eTransport c1 = eTransport ?c" "isLive c1 = isLive ?c"
    using parse_total [OF m _ url(1)] d by blast
  note n = parse_numbers [OF m url(1) hs p(1) [unfolded d]] and k = method_parse_keeps(1) [OF p(1)]
  have st: "cl_state c1 = ENX_RTSP_STATE_PLAY" "isLive c1 \<in> {ENX_RTSP_STREAM_LIVE_H264_1, ENX_RTSP_STREAM_LIVE_H265_1, ENX_RTSP_STREAM_LIVE_JPEG}"
    using k c(3,5) p(3) by (simp_all add: parse_keeps_def)
  obtain c2 rr where h: "rtspd_client_rtsp_response e (rtspd_player_count s) c1 = Inr (c2, rr)" "\<not> rp_spawn rr"
    and c2: "cl_state c2 = ENX_RTSP_STATE_TEARDOWN" "\<not> ss_alloc c2" "cl_valid c2 = cl_valid c1"
      "play_query c2 = play_query c1" "eTransport c2 = eTransport c1"
    using teardown_response [OF st(1) n(2) st(2)] by blast
  have tk: "takeWhile (\<lambda>x. x \<noteq> CHR 0x00) d = d" using w by (simp only: whole_def)
  have ne: "rp_text rr \<noteq> []" using response_nonempty [OF h(1)] n(2) by auto
  let ?r = "\<lparr>ro_conn = c2, ro_task = t\<lparr>rt_buf := [], rt_wsize := Some (length (rp_text rr))\<rparr>,
    ro_out = Some (Sent (rp_text rr)), ro_spawn = False\<rparr>"
  have "rtsp_receive e (rtspd_player_count s) d ?c t = Inr ?r"
    unfolding receive_request [OF w t(3)] using p(1) n(3) c(2) h ne by (simp add: rtsp_request_def tk)
  moreover have "\<not> lastTime (rclist s i) + RTSP_TIMEOUT < now" "cl_state (rclist s i) = ENX_RTSP_STATE_PLAY"
    using assms(1,2) by (simp_all add: in_play_def not_less)
  ultimately have main: "rtspd_client_main e now (Read_data d) i s = Inr (set_task i (Some (ro_task ?r))
      (set_conn i c2 (s\<lparr>rtp_tasks := (rtp_tasks s)(i := rtp_tasks s i + of_bool (ro_spawn ?r))\<rparr>)), Some (Sent (rp_text rr)))"
    using t(1,2) by (simp add: rtspd_client_main_def Let_def)
  have "answers (header_number ''CSeq'' hs (nCSeq (rclist s i))) (rp_text rr)"
    using on_response.echoes [OF h(1)] ne n(4) by simp
  with main c2 k c t p(2) show ?thesis by (simp add: parse_keeps_def)
qed

text \<open>C19: A TEARDOWN that is handled while the sender of the client waits for its socket hangs the
  sender. The client gets its answer, and the session is freed. When \<open>lwip_select\<close> comes back with the
  socket ready, the sender finds no session and stays in the loop it enters then, whatever happens
  afterwards: the client keeps its slot, and counts as a player, for good. With a client on UDP the
  sender is the task that serves all of them, so that none is sent anything, or released, any more.\<close>

theorem teardown_hangs_sender:
  assumes "in_play s i" and "lastTime (rclist s i) + RTSP_TIMEOUT \<ge> now" and "waits (s, u, tcp) i"
    and "whole d" and "d = rtsp_text ''TEARDOWN'' url hs"
    and "CHR '' '' \<notin> set url" "CHR 0x00 \<notin> set url" and "\<forall>h \<in> set hs. header_text h"
  shows "\<exists>s1 a. rtspd_client_main e now (Read_data d) i s = Inr (s1, Some (Sent a))
    \<and> answers (header_number ''CSeq'' hs (nCSeq (rclist s i))) a \<and> fine_step (s, u, tcp) (s1, u, tcp)
    \<and> (\<forall>m now' n. fine_step (s1, u, tcp) (resumed m now' (Sel_ready n) i (s1, u, tcp))
      \<and> (\<forall>f. fine_step\<^sup>*\<^sup>* (resumed m now' (Sel_ready n) i (s1, u, tcp)) f \<longrightarrow>
        sender_of f i = Hung i \<and> main_task (fst f) i \<noteq> None \<and> play_query (rclist (fst f) i) \<noteq> 0))"
proof -
  from teardown_handled [OF assms(1,2,4-8), of e] obtain s1 a t where
    main: "rtspd_client_main e now (Read_data d) i s = Inr (s1, Some (Sent a))"
    and a: "answers (header_number ''CSeq'' hs (nCSeq (rclist s i))) a"
    and t: "main_task s1 i = Some t" "rt_phase t = Main_loop" "rtp_tasks s1 = rtp_tasks s"
    and c: "cl_valid (rclist s1 i)" "cl_state (rclist s1 i) = ENX_RTSP_STATE_TEARDOWN" "\<not> ss_alloc (rclist s1 i)"
      "play_query (rclist s1 i) = play_query (rclist s i)" "eTransport (rclist s1 i) = eTransport (rclist s i)"
    by auto
  have i: "i < RTSP_info_MAX" "play_query (rclist s i) \<noteq> 0" using assms(1) by (simp_all add: in_play_def)
  have w: "waits (s1, u, tcp) i" using assms(3) t(3) c(5) by (simp add: waits_def sender_of_def only_sender_def)
  have "hangs (resumed m now' (Sel_ready n) i (s1, u, tcp)) i" for m now' n
    using w c t i(2)
    by (auto simp: hangs_def waits_def resumed_def sender_of_def only_sender_def udp_put_def tcp_put_def
        udp_resume_def tcp_resume_def rtspd_client_rtp_udp_send_def rtspd_client_rtp_tcp_send_def
        split: sender_pc.splits if_splits)
  note good = hangs_for_good [OF _ this]
  have "fine_step (s, u, tcp) (s1, u, tcp)" by (rule fine_rest [OF rest_main [OF i(1) main]])
  then show ?thesis using main a resumed_step [OF w] good by (fastforce simp: hangs_def)
qed

text \<open>A live H.264 client on UDP, whose TEARDOWN comes while its sender waits.\<close>

definition ex_teardown :: string where
  "ex_teardown = rtsp_text ''TEARDOWN'' ex_url [hdr_line ''CSeq'' 5, hdr_line ''Session'' 7]"

definition ex_playing :: rtsp_server where
  "ex_playing = set_task 0 (Some \<lparr>rt_phase = Main_loop, rt_buf = [], rt_wsize = None\<rparr>)
     (set_conn 0 (zero_conn\<lparr>cl_valid := True, login := True, cl_state := ENX_RTSP_STATE_PLAY, play_query := 1,
        eTransport := ENX_RTSP_TRANSPORT_UDP, isLive := ENX_RTSP_STREAM_LIVE_H264_1, ss_alloc := True\<rparr>) (rtsp_init 0))"

lemma ex_teardown_whole: "whole ex_teardown"
  unfolding ex_teardown_def
  by (rule whole_text [OF refl]) (use ex_urls small_u [of 5] small_u [of 7] in \<open>simp_all add: hdr_line_def\<close>)

theorem teardown_hangs_sender_witness:
  "\<exists>s1 a. rtspd_client_main ex_env 0 (Read_data ex_teardown) 0 ex_playing = Inr (s1, Some (Sent a)) \<and> answers 5 a
    \<and> sender_of (resumed (\<lambda>_. 0) 0 (Sel_ready 1) 0 (s1, Selecting 0 0 0, \<lambda>_. Between)) 0 = Hung 0"
proof -
  have p: "in_play ex_playing 0"
    by (simp add: in_play_def ex_playing_def set_task_def set_conn_def RTSP_info_MAX_def)
  have w: "waits (ex_playing, Selecting 0 0 0, \<lambda>_. Between) 0"
    by (simp add: waits_def sender_of_def only_sender_def ex_playing_def set_task_def set_conn_def rtsp_init_def)
  have h: "\<forall>h \<in> set [hdr_line ''CSeq'' 5, hdr_line ''Session'' 7]. header_text h"
    by (simp add: header_text_def hdr_line_def)
  have n: "header_number ''CSeq'' [hdr_line ''CSeq'' 5, hdr_line ''Session'' 7] (nCSeq (rclist ex_playing 0)) = 5"
    using header_number_printed [of "[hdr_line ''Session'' 7]" "''CSeq''" "[]" 5] by (simp add: hdr_line_def starts_with_def)
  have t: "0 \<le> lastTime (rclist ex_playing 0) + RTSP_TIMEOUT" by simp
  from teardown_hangs_sender [OF p t w ex_teardown_whole ex_teardown_def ex_urls(4) ex_urls(1) h, of ex_env, unfolded n]
  obtain s1 a where s1: "rtspd_client_main ex_env 0 (Read_data ex_teardown) 0 ex_playing = Inr (s1, Some (Sent a))" "answers 5 a"
    and all: "\<And>m now' n f. fine_step\<^sup>*\<^sup>* (resumed m now' (Sel_ready n) 0 (s1, Selecting 0 0 0, \<lambda>_. Between)) f \<Longrightarrow>
      sender_of f 0 = Hung 0"
    by blast
  from all [OF rtranclp.rtrancl_refl, of "\<lambda>_. 0" 0 1] s1 show ?thesis by blast
qed

end
