(* ===== verification/VidencInfo.thy ===== *)
theory VidencInfo
  imports Mp4Enc StreamBuf VidencHeap "HOL-Library.Monad_Syntax"
begin

text \<open>
  The recorder's bookkeeping, \<open>task/videnc/videnc_info.c\<close>, with the structure \<open>t_videnc_t\<close> of
  \<open>muxer_videnc.h\<close>: file names and the removal of old recordings, the tables a recording needs,
  set-up and tear-down. FatFs, the allocator and the time zone are parameters. Proved here: names
  sort by time, and room is made by deleting the oldest recordings first.
\<close>

section \<open>Parameters\<close>

text \<open>
  What the recorder calls of FatFs, on the state \<open>'w\<close> of the card and the one open file. A result
  code is a number, \<open>FR_OK\<close> is 0; \<open>f_write\<close> also gives the number of bytes written;
  \<open>set_f_size\<close> is an assignment to the macro \<open>f_size\<close>; \<open>fat_get_freesize\<close> is in percent.
\<close>

type_synonym FRESULT = nat

definition FR_OK :: FRESULT where "FR_OK = 0"

record FILINFO =
  fname :: bytes
  fsize :: u32
  is_dir :: bool

record 'w fatfs =
  f_open :: "bytes \<Rightarrow> 'w \<Rightarrow> FRESULT \<times> 'w"
  f_expand :: "u32 \<Rightarrow> 'w \<Rightarrow> FRESULT \<times> 'w"
  f_write :: "bytes \<Rightarrow> 'w \<Rightarrow> FRESULT \<times> u32 \<times> 'w"
  f_tell :: "'w \<Rightarrow> u32"
  set_f_size :: "u32 \<Rightarrow> 'w \<Rightarrow> 'w"
  f_lseek :: "u32 \<Rightarrow> 'w \<Rightarrow> 'w"
  f_close :: "'w \<Rightarrow> FRESULT \<times> 'w"
  f_unlink :: "bytes \<Rightarrow> 'w \<Rightarrow> FRESULT \<times> 'w"
  f_opendir :: "bytes \<Rightarrow> 'w \<Rightarrow> 'w"
  f_readdir :: "'w \<Rightarrow> FRESULT \<times> FILINFO \<times> 'w"
  f_closedir :: "'w \<Rightarrow> 'w"
  fat_get_freesize :: "'w \<Rightarrow> u8"

text \<open>
  The allocator: whether a request of so many bytes succeeds, what fresh words hold, and the
  address a header buffer gets.
\<close>

record allocator =
  alloc_ok :: "u32 \<Rightarrow> bool"
  fresh_word :: u32
  fresh_addr :: nat

record tm =
  tm_year :: int
  tm_mon :: int
  tm_mday :: int
  tm_hour :: int
  tm_min :: int
  tm_sec :: int

section \<open>State\<close>

datatype VIDENC_STATE =
    VIDENC_IDLE | VIDENC_OPEN | VIDENC_FIRST | VIDENC_FIRST_NEXT | VIDENC_WRITE | VIDENC_CLOSE
  | VIDENC_EXIT

text \<open>
  \<open>t_videnc_t\<close> without its two function pointers, which never change once set, the start time,
  which is only printed, and the file object, which is part of the card.
\<close>

record t_videnc_t =
  rec_type :: u32
  recording :: u32
  vstate :: VIDENC_STATE
  dir_name :: bytes
  file_format :: bytes
  now_name :: bytes
  filesize :: u32
  sbuf :: sbuf_t
  filenamelist :: encHeap
  file_max_count :: nat
  vidinfo :: t_mp4_t
  datablock :: t_block_t

definition eRecNormal :: u32 where "eRecNormal = 0"
definition eRecSnapshot :: u32 where "eRecSnapshot = 1"
definition MAX_FILE_NUM :: nat where "MAX_FILE_NUM = 9999"
definition MIX_FREE_SD_4CENT :: int where "MIX_FREE_SD_4CENT = 5"
definition SAVE_FILENAME_LENS :: nat where "SAVE_FILENAME_LENS = 21"
definition SAVE_NOR_TIME_MAX :: u32 where "SAVE_NOR_TIME_MAX = 30"
definition VID_BUF_SIZE :: u32 where "VID_BUF_SIZE = 512 * 1024"
definition NUM_STREAM_TOTAL :: u32 where "NUM_STREAM_TOTAL = 5 * 30"
definition SAVE_NOR_NAME_FORMAT :: bytes where
  "SAVE_NOR_NAME_FORMAT = str ''NOR_%02d%02d%02d_%02d%02d%02d.mp4''"

section \<open>File names\<close>

text \<open>The decimal digits of a number, and \<open>sprintf\<close> for formats whose only directive is \<open>%02d\<close>.\<close>

function dec_digits :: "nat \<Rightarrow> bytes" where
  "dec_digits n = (if n < 10 then [] else dec_digits (n div 10)) @ [of_nat (48 + n mod 10)]"
  by pat_completeness auto
termination by (relation "measure id") auto

declare dec_digits.simps [simp del]

definition put_02d :: "int \<Rightarrow> bytes" where
  "put_02d v =
     (let d = dec_digits (nat \<bar>v\<bar>); d = (if v < 0 then 45 # d else d)
      in if length d < 2 then 48 # d else d)"

fun sprintf_02d :: "bytes \<Rightarrow> int list \<Rightarrow> bytes" where
  "sprintf_02d [] vs = []"
| "sprintf_02d (c # cs) vs =
     (if take 4 (c # cs) = str ''%02d'' \<and> vs \<noteq> []
      then put_02d (hd vs) @ sprintf_02d (drop 3 cs) (tl vs)
      else c # sprintf_02d cs vs)"

definition tm_args :: "tm \<Rightarrow> int list" where
  "tm_args t = [tm_year t + 1900 - 2000, tm_mon t + 1, tm_mday t, tm_hour t, tm_min t, tm_sec t]"

definition videnc_info_file_getname :: "tm \<Rightarrow> t_videnc_t \<Rightarrow> t_videnc_t" where
  "videnc_info_file_getname tmtime enc_t =
     enc_t\<lparr>now_name := sprintf_02d (file_format enc_t) (tm_args tmtime)\<rparr>"

text \<open>The path \<open>"%s/%s"\<close>.\<close>

definition file_path :: "t_videnc_t \<Rightarrow> bytes \<Rightarrow> bytes" where
  "file_path enc_t name = dir_name enc_t @ str ''/'' @ name"

section \<open>Making room\<close>

lemma usedsize_deleteQueue: "usedsize (snd (encHeap_deleteQueue h)) = usedsize h - 1"
  by (simp add: encHeap_deleteQueue_def encHeap_deQueue_def Let_def split_beta)

function delete_loop ::
  "'w fatfs \<Rightarrow> u32 \<Rightarrow> u32 \<Rightarrow> int \<Rightarrow> t_videnc_t \<Rightarrow> 'w \<Rightarrow> int \<times> t_videnc_t \<times> 'w" where
  "delete_loop fs nMaxDelete cnt nFreeSize enc_t w =
     (if nFreeSize < MIX_FREE_SD_4CENT then
        if encHeap_isEmpty (filenamelist enc_t) then (nFreeSize, enc_t, w)
        else (let (strBuf, h) = encHeap_deleteQueue (filenamelist enc_t);
                  enc_t' = enc_t\<lparr>filenamelist := h\<rparr>;
                  (fres, w) = f_unlink fs (file_path enc_t' strBuf) w;
                  cnt = cnt + 1
              in if cnt > nMaxDelete then (nFreeSize, enc_t', w)
                 else delete_loop fs nMaxDelete cnt (uint (fat_get_freesize fs w)) enc_t' w)
      else (nFreeSize, enc_t, w))"
  by pat_completeness auto
termination
proof (relation "measure (\<lambda>(fs, nMax, cnt, nFree, enc_t, w). usedsize (filenamelist enc_t))", goal_cases)
  case 1
  then show ?case by simp
next
  case (2 fs nMax cnt nFree enc_t w x strBuf h)
  from 2(3,4) usedsize_deleteQueue [of "filenamelist enc_t"]
  have "usedsize h = usedsize (filenamelist enc_t) - 1" by (metis snd_conv)
  with 2 show ?case by (simp add: encHeap_isEmpty_def)
qed

declare delete_loop.simps [simp del]

definition videnc_info_file_delete ::
  "'w fatfs \<Rightarrow> u32 \<Rightarrow> t_videnc_t \<Rightarrow> 'w \<Rightarrow> int \<times> t_videnc_t \<times> 'w" where
  "videnc_info_file_delete fs nMaxDelete enc_t w =
     delete_loop fs nMaxDelete 0 (uint (fat_get_freesize fs w)) enc_t w"

section \<open>Set-up and tear-down\<close>

definition videnc_info_sbuf_init :: "allocator \<Rightarrow> t_videnc_t \<Rightarrow> t_videnc_t" where
  "videnc_info_sbuf_init A enc_t =
     enc_t\<lparr>sbuf := snd (sbuf_init (alloc_ok A (24 * NUM_STREAM_TOTAL)) NUM_STREAM_TOTAL)\<rparr>"

definition videnc_info_sbuf_reset :: "t_videnc_t \<Rightarrow> t_videnc_t" where
  "videnc_info_sbuf_reset enc_t =
     (let s = (sbuf enc_t)\<lparr>head := 0, tail := 0\<rparr>
      in enc_t\<lparr>sbuf := (if data s \<noteq> [] then s\<lparr>data := replicate (unat (tot_num s)) sbuf_data_zero\<rparr>
                         else s)\<rparr>)"

definition videnc_info_default ::
  "t_videnc_t \<Rightarrow> t_videnc_totalbuf_t \<Rightarrow> t_videnc_t \<times> t_videnc_totalbuf_t" where
  "videnc_info_default enc_t b =
     (enc_t\<lparr>vstate := VIDENC_IDLE\<rparr>, b\<lparr>buf := base b, blength := 0\<rparr>)"

text \<open>An array of words is allocated or reallocated; the null pointer is the empty list.\<close>

definition videnc_info_init_item_malloc :: "allocator \<Rightarrow> u32 list \<Rightarrow> u32 \<Rightarrow> ENX_OKFAIL \<times> u32 list" where
  "videnc_info_init_item_malloc A ws bytes =
     (let n = unat bytes div 4
      in if alloc_ok A bytes
         then (ENX_OK, take n ws @ replicate (n - length ws) (fresh_word A))
         else (ENX_FAIL, []))"

definition grow_stbl :: "allocator \<Rightarrow> u32 \<Rightarrow> MP4HeaderSTBL \<Rightarrow> MP4HeaderSTBL" where
  "grow_stbl A n T =
     (let grow = (\<lambda>ws. snd (videnc_info_init_item_malloc A ws (n * 4)))
      in T\<lparr>stbl_size := n, stss := grow (stss T), stsz := grow (stsz T), stco := grow (stco T)\<rparr>)"

definition clear_stbl :: "MP4HeaderSTBL \<Rightarrow> MP4HeaderSTBL" where
  "clear_stbl T = T\<lparr>stss_len := 0, stsz_len := 0, stco_len := 0\<rparr>"

text \<open>\<open>aud\<close> is the build option \<open>FAT_SDSAVE_AUD\<close>.\<close>

definition savetime_limits :: "bool \<Rightarrow> u32 \<Rightarrow> u32 \<Rightarrow> u32 \<Rightarrow> t_mp4_t \<Rightarrow> t_mp4_t" where
  "savetime_limits aud savetime video_fps audio_fps v =
     (let v = v\<lparr>un32maxtime := savetime, un32vidsmax := savetime * video_fps\<rparr>;
          v = v\<lparr>un32totalmax := un32vidsmax v, mp4_option := VID_VIDEO\<rparr>;
          v = (if aud \<and> audio_fps \<noteq> 0
               then let v = v\<lparr>mp4_option := mp4_option v OR VID_AUDIO,
                              un32audsmax := savetime * audio_fps\<rparr>
                    in v\<lparr>un32totalmax := un32totalmax v + un32audsmax v\<rparr>
               else v)
      in v\<lparr>un32totalmax := un32totalmax v + un32totalmax v div 10\<rparr>)"

definition savetime_tables :: "allocator \<Rightarrow> t_mp4_t \<Rightarrow> t_videnc_totalbuf_t \<Rightarrow> t_videnc_totalbuf_t" where
  "savetime_tables A v b =
     (let b = b\<lparr>hdr_len := 0\<rparr>;
          b = (if hdr_info b = 0
               then b\<lparr>hdr_size := 64 * 1024,
                      hdr_info := (if alloc_ok A (64 * 1024) then fresh_addr A else 0)\<rparr>
               else b);
          T = clear_stbl (Vstbl b);
          b = b\<lparr>Vstbl := (if stbl_size T < un32vidsmax v then grow_stbl A (un32vidsmax v) T else T)\<rparr>;
          T = clear_stbl (Astbl b)
      in b\<lparr>Astbl := (if stbl_size T < un32audsmax v
                     then grow_stbl A (un32audsmax v + un32audsmax v div 2) T else T)\<rparr>)"

definition videnc_info_init_savetime ::
  "allocator \<Rightarrow> bool \<Rightarrow> u32 \<Rightarrow> u32 \<Rightarrow> u32 \<Rightarrow> t_videnc_t \<Rightarrow> t_videnc_totalbuf_t
     \<Rightarrow> t_videnc_t \<times> t_videnc_totalbuf_t" where
  "videnc_info_init_savetime A aud savetime video_fps audio_fps enc_t b =
     (let v = savetime_limits aud savetime video_fps audio_fps (vidinfo enc_t)
      in (enc_t\<lparr>vidinfo := v\<rparr>, savetime_tables A v b))"

definition free_stbl :: "MP4HeaderSTBL \<Rightarrow> MP4HeaderSTBL" where
  "free_stbl T = (clear_stbl T)\<lparr>stbl_size := 0, stss := [], stsz := [], stco := []\<rparr>"

definition videnc_info_deinit_savetime :: "t_videnc_totalbuf_t \<Rightarrow> t_videnc_totalbuf_t" where
  "videnc_info_deinit_savetime b =
     b\<lparr>hdr_len := 0, hdr_size := 0, hdr_info := 0,
       Vstbl := free_stbl (Vstbl b), Astbl := free_stbl (Astbl b)\<rparr>"

text \<open>The directory is read entry by entry; the loop ends when \<open>f_readdir\<close> fails or finds no name.\<close>

definition list_entry :: "'w fatfs \<Rightarrow> FILINFO \<Rightarrow> t_videnc_t \<Rightarrow> 'w \<Rightarrow> t_videnc_t \<times> 'w" where
  "list_entry fs finfo enc_t w =
     (if \<not> is_dir finfo then
        if length (fname finfo) = SAVE_FILENAME_LENS then
          if fsize finfo = 0 then (enc_t, snd (f_unlink fs (file_path enc_t (fname finfo)) w))
          else (let (r, h) = encHeap_addQueue (filenamelist enc_t) (fname finfo)
                in if r = 1
                   then (enc_t\<lparr>filenamelist := h\<lparr>delHData := zeroHData\<rparr>\<rparr>,
                         snd (f_unlink fs (file_path enc_t (filename (delHData h))) w))
                   else (enc_t\<lparr>filenamelist := h\<rparr>, w))
        else (enc_t, snd (f_unlink fs (file_path enc_t (fname finfo)) w))
      else (enc_t, w))"

partial_function (option) list_dir :: "'w fatfs \<Rightarrow> t_videnc_t \<Rightarrow> 'w \<Rightarrow> (t_videnc_t \<times> 'w) option" where
  "list_dir fs enc_t w =
     (let (fres, finfo, w) = f_readdir fs w
      in if fres \<noteq> FR_OK \<or> fname finfo = [] then Some (enc_t, w)
         else (let (enc_t, w) = list_entry fs finfo enc_t w in list_dir fs enc_t w))"

definition videnc_info_init_filenamelist ::
  "'w fatfs \<Rightarrow> t_videnc_t \<Rightarrow> 'w \<Rightarrow> (t_videnc_t \<times> 'w) option" where
  "videnc_info_init_filenamelist fs enc_t w =
     (let enc_t = enc_t\<lparr>filenamelist := encHeap_resetQueue (filenamelist enc_t)\<rparr>;
          w = f_opendir fs (dir_name enc_t) w
      in case list_dir fs enc_t w of None \<Rightarrow> None | Some (enc_t, w) \<Rightarrow> Some (enc_t, f_closedir fs w))"

definition videnc_info_deinit_filenamelist :: "t_videnc_t \<Rightarrow> t_videnc_t" where
  "videnc_info_deinit_filenamelist enc_t = enc_t\<lparr>filenamelist := encHeap_destroy (filenamelist enc_t)\<rparr>"

text \<open>All bits zero, as \<open>memset\<close> leaves a fresh structure.\<close>

definition zero_mp4 :: t_mp4_t where
  "zero_mp4 = \<lparr>mp4_option = 0, i_width = 0, i_height = 0, f_fps = 0, v_type = 0, un32vidicount = 0,
     un32vidscount = 0, un32audscount = 0, un32txtscount = 0, un32vidsmax = 0, un32audsmax = 0,
     un32txtsmax = 0, un32totalmax = 0, un32maxtime = 0, vps_size = 0, sps_size = 0, pps_size = 0,
     vps_data = replicate 32 0, sps_data = replicate 64 0, pps_data = replicate 8 0, mdat_size = 0\<rparr>"

definition zero_block :: t_block_t where
  "zero_block = \<lparr>b_flags = 0, b_size = 0, b_addr = 0, b_type = 0, b_state = 0\<rparr>"

text \<open>\<open>sprintf(dir_name, "%d:/%s", DEV_SD, dir)\<close>, with \<open>DEV_SD\<close> equal to 1.\<close>

definition videnc_info_init :: "allocator \<Rightarrow> u32 \<Rightarrow> bytes \<Rightarrow> bytes \<Rightarrow> nat \<Rightarrow> t_videnc_t" where
  "videnc_info_init A ty dir fmt maxfilecount =
     \<lparr>rec_type = ty, recording = 0, vstate = VIDENC_IDLE, dir_name = str ''1:/'' @ dir,
      file_format = fmt, now_name = [], filesize = 0,
      sbuf = \<lparr>head = 0, tail = 0, tot_num = 0, data = []\<rparr>,
      filenamelist = snd (encHeap_create (alloc_ok A (of_nat (24 * maxfilecount))) maxfilecount zeroHData),
      file_max_count = maxfilecount, vidinfo = zero_mp4, datablock = zero_block\<rparr>"

text \<open>The contents of the fresh write buffer are unspecified; they are never read before written.\<close>

definition videnc_info_init_buffer ::
  "allocator \<Rightarrow> t_videnc_totalbuf_t \<Rightarrow> ENX_OKFAIL \<times> t_videnc_totalbuf_t" where
  "videnc_info_init_buffer A b =
     (if alloc_ok A VID_BUF_SIZE
      then (ENX_OK, b\<lparr>wbuf := replicate (unat VID_BUF_SIZE) (ucast (fresh_word A)), base := 0, buf := 0,
                      blength := 0, total := VID_BUF_SIZE\<rparr>)
      else (ENX_FAIL, b\<lparr>wbuf := [], base := 0\<rparr>))"

definition videnc_info_deinit_buffer :: "t_videnc_totalbuf_t \<Rightarrow> t_videnc_totalbuf_t" where
  "videnc_info_deinit_buffer b = b\<lparr>buf := 0, blength := 0, total := 0, wbuf := [], base := 0\<rparr>"

definition videnc_info_put :: "t_videnc_t \<Rightarrow> u32 \<Rightarrow> u32 \<Rightarrow> u32 \<Rightarrow> u32 \<Rightarrow> t_videnc_t option" where
  "videnc_info_put enc_t a n idr ty =
     (case sbuf_put (sbuf enc_t) \<lparr>addr = ucast a, size = n, flags = idr, type = ty\<rparr> of
        None \<Rightarrow> None
      | Some s \<Rightarrow> Some (enc_t\<lparr>sbuf := s\<rparr>))"

section \<open>An example card\<close>

text \<open>A card that takes every write; deleting a file frees two percent of it.\<close>

record ramdisk =
  fdata :: bytes
  fpos :: nat
  freepc :: u8
  fopened :: bool

definition ram_fs :: "ramdisk fatfs" where
  "ram_fs =
     \<lparr>f_open = (\<lambda>_ w. (FR_OK, w\<lparr>fdata := [], fpos := 0, fopened := True\<rparr>)),
      f_expand = (\<lambda>n w. (FR_OK, w\<lparr>fdata := replicate (unat n) 0\<rparr>)),
      f_write = (\<lambda>xs w. (FR_OK, of_nat (length xs),
        w\<lparr>fdata := overwrite (fdata w) (fpos w) xs, fpos := fpos w + length xs\<rparr>)),
      f_tell = (\<lambda>w. of_nat (fpos w)),
      set_f_size = (\<lambda>n w. w\<lparr>fdata := take (unat n) (fdata w)\<rparr>),
      f_lseek = (\<lambda>n w. w\<lparr>fpos := unat n\<rparr>),
      f_close = (\<lambda>w. (FR_OK, w\<lparr>fopened := False\<rparr>)),
      f_unlink = (\<lambda>_ w. (FR_OK, w\<lparr>freepc := freepc w + 2\<rparr>)),
      f_opendir = (\<lambda>_ w. w),
      f_readdir = (\<lambda>w. (1, \<lparr>fname = [], fsize = 0, is_dir = False\<rparr>, w)),
      f_closedir = (\<lambda>w. w),
      fat_get_freesize = freepc\<rparr>"

definition ex_allocator :: allocator where
  "ex_allocator = \<lparr>alloc_ok = (\<lambda>_. True), fresh_word = 0, fresh_addr = 65536\<rparr>"

definition ex_vid :: t_videnc_t where
  "ex_vid = (videnc_info_init ex_allocator eRecNormal (str ''NORMAL'') SAVE_NOR_NAME_FORMAT 10)
     \<lparr>filenamelist := ex_heap\<rparr>"

section \<open>Names sort by time\<close>

lemma dec_digits_two:
  assumes "v < 100"
  shows "dec_digits v = (if v < 10 then [] else [of_nat (48 + v div 10)]) @ [of_nat (48 + v mod 10)]"
proof -
  have "dec_digits n = [of_nat (48 + n)]" if "n < 10" for n
    using that by (subst dec_digits.simps) simp
  from this [of "v div 10"] assms show ?thesis
    by (subst dec_digits.simps) auto
qed

lemma put_02d_two: "n < 100 \<Longrightarrow> put_02d (int n) = [of_nat (48 + n div 10), of_nat (48 + n mod 10)]"
  using dec_digits_two [of n] by (auto simp: put_02d_def Let_def)

lemma format_fields:
  "sprintf_02d SAVE_NOR_NAME_FORMAT [a, b, c, d, e, f] =
     str ''NOR_'' @ put_02d a @ put_02d b @ put_02d c @ str ''_'' @ put_02d d @ put_02d e @ put_02d f
       @ str ''.mp4''"
  by (simp add: SAVE_NOR_NAME_FORMAT_def str_def)

lemma digit_less:
  assumes "a < 10" and "b < 10"
  shows "(of_nat (48 + a) :: u8) < of_nat (48 + b) \<longleftrightarrow> a < b"
    and "(of_nat (48 + a) :: u8) = of_nat (48 + b) \<longleftrightarrow> a = b"
proof -
  have "unat (of_nat (48 + n) :: u8) = 48 + n" if "n < 10" for n
    using that by (simp only: unat_of_nat) simp
  with assms show "(of_nat (48 + a) :: u8) < of_nat (48 + b) \<longleftrightarrow> a < b"
    and "(of_nat (48 + a) :: u8) = of_nat (48 + b) \<longleftrightarrow> a = b"
    by (simp_all only: word_less_nat_alt word_unat_eq_iff) simp_all
qed

lemma two_digits:
  assumes "0 \<le> v" "v < 100"
  obtains a c where "a < 10" "c < 10" "v = int (10 * a + c)" "put_02d v = [of_nat (48 + a), of_nat (48 + c)]"
proof (rule that)
  show "nat v div 10 < 10" "nat v mod 10 < 10" "v = int (10 * (nat v div 10) + nat v mod 10)"
    using assms by simp_all
  show "put_02d v = [of_nat (48 + nat v div 10), of_nat (48 + nat v mod 10)]"
    using put_02d_two [of "nat v"] assms by simp
qed

lemma put_02d_less:
  assumes "0 \<le> v" "v < 100" "0 \<le> w" "w < 100"
  shows "put_02d v @ xs < put_02d w @ ys \<longleftrightarrow> v < w \<or> v = w \<and> xs < ys"
proof -
  obtain a c where v: "a < 10" "c < 10" "v = int (10 * a + c)" "put_02d v = [of_nat (48 + a), of_nat (48 + c)]"
    using two_digits [OF assms(1,2)] .
  obtain b d where w: "b < 10" "d < 10" "w = int (10 * b + d)" "put_02d w = [of_nat (48 + b), of_nat (48 + d)]"
    using two_digits [OF assms(3,4)] .
  have "10 * a + c < 10 * b + d \<longleftrightarrow> a < b \<or> a = b \<and> c < d" "10 * a + c = 10 * b + d \<longleftrightarrow> a = b \<and> c = d"
    using v(1,2) w(1,2) by (cases a b rule: linorder_cases; auto)+
  then have "v < w \<longleftrightarrow> a < b \<or> a = b \<and> c < d" "v = w \<longleftrightarrow> a = b \<and> c = d"
    by (simp_all only: v(3) w(3) of_nat_less_iff of_nat_eq_iff)
  then show ?thesis
    using v w by (auto simp: digit_less simp del: of_nat_add)
qed

lemma put_02d_length: "0 \<le> v \<Longrightarrow> v < 100 \<Longrightarrow> length (put_02d v) = 2"
  by (erule (1) two_digits) simp

definition tm_ok :: "tm \<Rightarrow> bool" where
  "tm_ok t \<longleftrightarrow> tm_year t \<in> {100..199} \<and> tm_mon t \<in> {0..11} \<and> tm_mday t \<in> {1..31} \<and>
     tm_hour t \<in> {0..23} \<and> tm_min t \<in> {0..59} \<and> tm_sec t \<in> {0..60}"

definition tm_fields :: "tm \<Rightarrow> int list" where
  "tm_fields t = [tm_year t, tm_mon t, tm_mday t, tm_hour t, tm_min t, tm_sec t]"

lemma append_less: "(zs :: 'a :: order list) @ xs < zs @ ys \<longleftrightarrow> xs < ys"
  by (induction zs) auto

lemma recording_name:
  "file_format e = SAVE_NOR_NAME_FORMAT \<Longrightarrow> now_name (videnc_info_file_getname t e) =
     str ''NOR_'' @ put_02d (tm_year t - 100) @ put_02d (tm_mon t + 1) @ put_02d (tm_mday t)
      @ str ''_'' @ put_02d (tm_hour t) @ put_02d (tm_min t) @ put_02d (tm_sec t) @ str ''.mp4''"
  by (simp add: videnc_info_file_getname_def tm_args_def format_fields)

text \<open>C3: The names the recorder gives to two recordings, made from the local time at which they are
  opened, are in the order in which the name heap keeps them exactly when the times are, and have the
  21 characters by which recordings are recognised.\<close>

theorem names_sort_by_time:
  assumes "tm_ok s" and "tm_ok t" and "file_format e = SAVE_NOR_NAME_FORMAT"
  shows "(encHData (now_name (videnc_info_file_getname s e)) < encHData (now_name (videnc_info_file_getname t e))
      \<longleftrightarrow> tm_fields s < tm_fields t)
    \<and> length (now_name (videnc_info_file_getname s e)) = SAVE_FILENAME_LENS"
proof
  show "encHData (now_name (videnc_info_file_getname s e)) < encHData (now_name (videnc_info_file_getname t e))
      \<longleftrightarrow> tm_fields s < tm_fields t"
    using assms(1,2)
    by (simp add: recording_name [OF assms(3)] less_encHData_def encHeap_filename_cmp_offset_def
        append_less put_02d_less tm_ok_def tm_fields_def add1_zle_eq)
  show "length (now_name (videnc_info_file_getname s e)) = SAVE_FILENAME_LENS"
    using assms(1) by (simp add: recording_name [OF assms(3)] put_02d_length tm_ok_def SAVE_FILENAME_LENS_def)
qed

definition ex_tm :: "int \<Rightarrow> int \<Rightarrow> int \<Rightarrow> tm" where
  "ex_tm y m d = \<lparr>tm_year = y, tm_mon = m, tm_mday = d, tm_hour = 23, tm_min = 5, tm_sec = 59\<rparr>"

lemma names_sort_by_time_witness:
  "encHData (now_name (videnc_info_file_getname (ex_tm 124 11 31) ex_vid))
     < encHData (now_name (videnc_info_file_getname (ex_tm 125 0 1) ex_vid))"
  using names_sort_by_time [of "ex_tm 124 11 31" "ex_tm 125 0 1" ex_vid]
  by (simp add: tm_ok_def ex_tm_def tm_fields_def ex_vid_def videnc_info_init_def)

section \<open>The oldest recordings go first\<close>

definition unlink_all :: "'w fatfs \<Rightarrow> t_videnc_t \<Rightarrow> encHData list \<Rightarrow> 'w \<Rightarrow> 'w" where
  "unlink_all fs e ds w = foldl (\<lambda>w d. snd (f_unlink fs (file_path e (filename d)) w)) w ds"

lemma file_path_heap [simp]: "file_path (e\<lparr>filenamelist := h\<rparr>) = file_path e"
  by (rule ext) (simp add: file_path_def)

lemma unlink_all_simps [simp]:
  "unlink_all fs e [] w = w"
  "unlink_all fs e (d # ds) w = unlink_all fs e ds (snd (f_unlink fs (file_path e (filename d)) w))"
  by (simp_all add: unlink_all_def)

lemma unlink_all_heap [simp]: "unlink_all fs (e\<lparr>filenamelist := h\<rparr>) = unlink_all fs e"
  by (intro ext) (simp add: unlink_all_def)

text \<open>What the loop has done after \<open>k\<close> rounds.\<close>

definition deleted ::
  "'w fatfs \<Rightarrow> nat \<Rightarrow> nat \<Rightarrow> t_videnc_t \<Rightarrow> 'w \<Rightarrow> int \<Rightarrow> nat \<Rightarrow> encHData list \<Rightarrow> t_videnc_t \<Rightarrow> 'w \<Rightarrow> bool" where
  "deleted fs limit cnt e w n k ds e' w' \<longleftrightarrow>
     (\<exists>h. drain encHeap_deQueue k (filenamelist e) = (ds, h) \<and> e' = e\<lparr>filenamelist := h\<rparr>
       \<and> (n \<ge> 5 \<or> usedsize h = 0 \<or> cnt + k = limit + 1))
     \<and> k \<le> usedsize (filenamelist e) \<and> w' = unlink_all fs e ds w \<and> cnt + k \<le> limit + 1
     \<and> n = uint (fat_get_freesize fs (unlink_all fs e (take (limit - cnt) ds) w))
     \<and> (\<forall>j < k. fat_get_freesize fs (unlink_all fs e (take j ds) w) < 5)"

lemma needed_Cons:
  "(\<forall>j < Suc k. P (unlink_all fs e (take j (d # ds)) w)) \<longleftrightarrow>
     P w \<and> (\<forall>j < k. P (unlink_all fs e (take j ds) (snd (f_unlink fs (file_path e (filename d)) w))))"
  by (simp add: All_less_Suc2)

lemma delete_loop_drain:
  assumes "heap_ok (filenamelist e)" and "unat nMax + 1 < 2 ^ 32"
    and "delete_loop fs nMax cnt nFree e w = (n, e', w')" and "cnt \<le> nMax"
    and "nFree = uint (fat_get_freesize fs w)"
  shows "\<exists>k ds. deleted fs (unat nMax) (unat cnt) e w n k ds e' w' \<and> (5 \<le> nFree \<longrightarrow> k = 0)"
  using assms
proof (induction fs nMax cnt nFree e w rule: delete_loop.induct)
  case (1 fs nMax cnt nFree e w)
  show ?case
  proof (cases "nFree < 5 \<and> usedsize (filenamelist e) \<noteq> 0")
    case False
    with 1(4) have "(n, e', w') = (nFree, e, w)" 
      by (subst (asm) delete_loop.simps) (auto simp: MIX_FREE_SD_4CENT_def encHeap_isEmpty_def split: if_splits)
    with False 1(5) have "deleted fs (unat nMax) (unat cnt) e w n 0 [] e' w'"
      using 1(6) by (auto simp: deleted_def word_le_nat_alt)
    then show ?thesis by blast
  next
    case True
    then have "names (filenamelist e) \<noteq> {#}" using 1(2) by (simp add: names_empty)
    from deQueue_correct [OF 1(2) this] obtain h where h:
      "encHeap_deQueue (filenamelist e) = (node (filenamelist e) ! 0, h)" "heap_ok h"
      "usedsize (filenamelist e) = Suc (usedsize h)" by blast
    let ?d = "node (filenamelist e) ! 0"
    let ?e = "e\<lparr>filenamelist := h\<rparr>"
    obtain r w1 where u: "f_unlink fs (file_path e (filename ?d)) w = (r, w1)" by (metis prod.collapse)
    have q: "encHeap_deleteQueue (filenamelist e) = (filename ?d, h)"
      using h by (simp add: encHeap_deleteQueue_def)
    have r: "(n, e', w') = (if cnt + 1 > nMax then (nFree, ?e, w1)
        else delete_loop fs nMax (cnt + 1) (uint (fat_get_freesize fs w1)) ?e w1)"
      using 1(4) [symmetric] True
      by (subst (asm) delete_loop.simps)
        (simp add: q u Let_def MIX_FREE_SD_4CENT_def encHeap_isEmpty_def)
    have c: "unat (cnt + 1) = unat cnt + 1"
      using 1(3,5) by (simp add: word_le_nat_alt unat_word_ariths)
    have w5: "fat_get_freesize fs w < 5" using True 1(6) by (simp add: word_less_def)
    have less: "take (unat nMax - unat cnt) (d # ds) = d # take (unat nMax - (unat cnt + 1)) ds"
      if "unat cnt < unat nMax" for d and ds :: "encHData list"
      using that by (simp add: take_Cons')
    have step: "deleted fs (unat nMax) (unat cnt) e w n (Suc k) (?d # ds) e' w'"
      if c': "unat cnt < unat nMax" and "deleted fs (unat nMax) (unat cnt + 1) ?e w1 n k ds e' w'" for k ds
      using that h u w5 unfolding deleted_def needed_Cons [where P = "\<lambda>w. fat_get_freesize fs w < 5"]
      by (auto simp: Let_def less [OF c'])
    show ?thesis
    proof (cases "cnt + 1 > nMax")
      case True
      then have "unat cnt = unat nMax" using 1(5) c by (simp add: word_less_nat_alt word_le_nat_alt)
      with r True h u have "deleted fs (unat nMax) (unat cnt) e w n 1 [?d] e' w'"
        using w5 1(6) by (auto simp: deleted_def Let_def)
      then show ?thesis using \<open>nFree < 5 \<and> _\<close> by fastforce
    next
      case False
      from r False have l: "delete_loop fs nMax (cnt + 1) (uint (fat_get_freesize fs w1)) ?e w1 = (n, e', w')"
        by simp
      have "\<exists>k ds. deleted fs (unat nMax) (unat (cnt + 1)) ?e w1 n k ds e' w'"
        using 1(1) [of "(filename ?d, h)" "filename ?d" h ?e "(r, w1)" r w1 "cnt + 1"] True False h q u l 1(3)
        by (simp add: MIX_FREE_SD_4CENT_def encHeap_isEmpty_def not_less) blast
      then show ?thesis using step c False \<open>nFree < 5 \<and> _\<close> by (fastforce simp: word_less_nat_alt not_less)
    qed
  qed
qed

text \<open>C4: Making room ends, and unlinks the oldest recordings from old to new, until five percent
  of the card are free, no recording is left, or \<open>nMaxDelete + 1\<close> files are gone. Before every file
  that goes, less than five percent were free, so none is deleted once there is room. The value
  returned is the free space of the card as it is left, except when \<open>nMaxDelete + 1\<close> files went: then
  it is the one read before the last of them.\<close>

theorem file_delete_oldest_first:
  assumes "heap_ok (filenamelist e)" and "unat nMax + 1 < 2 ^ 32"
    and "videnc_info_file_delete fs nMax e w = (n, e', w')"
  shows "\<exists>ds h. e' = e\<lparr>filenamelist := h\<rparr> \<and> w' = unlink_all fs e ds w \<and> heap_ok h
    \<and> names (filenamelist e) = mset ds + names h \<and> sorted_wrt (\<le>) ds
    \<and> (\<forall>d \<in> set ds. \<forall>y \<in># names h. d \<le> y) \<and> length ds \<le> unat nMax + 1
    \<and> (\<forall>k < length ds. fat_get_freesize fs (unlink_all fs e (take k ds) w) < 5)
    \<and> (5 \<le> fat_get_freesize fs w' \<or> names h = {#} \<or> length ds = unat nMax + 1)
    \<and> n = uint (fat_get_freesize fs (unlink_all fs e (take (unat nMax) ds) w))
    \<and> (5 \<le> n \<or> names h = {#} \<or> length ds = unat nMax + 1)
    \<and> (5 \<le> fat_get_freesize fs w \<longrightarrow> ds = [])"
proof -
  obtain k ds where "deleted fs (unat nMax) 0 e w n k ds e' w'"
      and k0: "5 \<le> uint (fat_get_freesize fs w) \<longrightarrow> k = 0"
    using delete_loop_drain [OF assms(1,2), of fs 0 "uint (fat_get_freesize fs w)" w n e' w'] assms(3)
    by (auto simp: videnc_info_file_delete_def)
  then obtain h where h: "drain encHeap_deQueue k (filenamelist e) = (ds, h)"
    "e' = e\<lparr>filenamelist := h\<rparr>" "5 \<le> n \<or> usedsize h = 0 \<or> k = unat nMax + 1"
    "w' = unlink_all fs e ds w" "k \<le> unat nMax + 1" "k \<le> usedsize (filenamelist e)"
    and n: "n = uint (fat_get_freesize fs (unlink_all fs e (take (unat nMax) ds) w))"
    and need: "\<forall>j < k. fat_get_freesize fs (unlink_all fs e (take j ds) w) < 5"
    by (auto simp: deleted_def)
  from names.drain_sorted [OF assms(1), of k] h(1,6) size_names [OF assms(1)]
  have d: "heap_ok h" "length ds = k" "names (filenamelist e) = mset ds + names h"
    "sorted_wrt (\<le>) ds" "\<forall>d \<in> set ds. \<forall>y \<in># names h. d \<le> y" by auto
  have "5 \<le> fat_get_freesize fs w \<longrightarrow> ds = []"
    using k0 d(2) by (auto simp: word_le_def)
  moreover have stop: "5 \<le> n \<or> names h = {#} \<or> length ds = unat nMax + 1"
    using h(3) d(2) names_empty [OF d(1)] by simp
  moreover have "5 \<le> fat_get_freesize fs w' \<or> names h = {#} \<or> length ds = unat nMax + 1"
    using stop n d(2) h(4,5) by (cases "length ds = unat nMax + 1") (auto simp: word_le_def)
  ultimately show ?thesis
    using h(2,4,5) d n need by (intro exI [of _ ds] exI [of _ h] conjI) simp_all
qed

definition ex_disk :: ramdisk where
  "ex_disk = \<lparr>fdata = [], fpos = 0, freepc = 3, fopened = False\<rparr>"

lemma file_delete_oldest_first_witness:
  "\<exists>n e' w' ds h. videnc_info_file_delete ram_fs 9999 ex_vid ex_disk = (n, e', w')
     \<and> e' = ex_vid\<lparr>filenamelist := h\<rparr> \<and> w' = unlink_all ram_fs ex_vid ds ex_disk
     \<and> names ex_heap = mset ds + names h"
proof -
  obtain n e' w' where d: "videnc_info_file_delete ram_fs 9999 ex_vid ex_disk = (n, e', w')"
    by (metis prod_cases3)
  have "heap_ok (filenamelist ex_vid)" by (simp add: ex_vid_def ex_heap_ok)
  from file_delete_oldest_first [OF this _ d] d show ?thesis by (simp add: ex_vid_def) blast
qed

end
