(* ===== verification/Muxer.thy ===== *)
theory Muxer
  imports VidencInfo EnxString
begin

text \<open>
  The recorder, \<open>task/videnc/muxer_videnc.c\<close>, in the configured build (\<open>VIDEO_SAVE_AVI\<close> 0,
  \<open>FAT_SDSAVE_EVENT\<close> 0, \<open>JPEG_SDSAVE\<close> 1, \<open>FAT_SDSAVE_FREE_ALLOC\<close> 1): the write buffer in front of
  the file, the MP4 samples made of encoder frames, and the state machine that opens, fills and closes
  recordings. There is one recorder, so the parameters \<open>pvid\<close> and \<open>buffer\<close> of the functions are
  fields of the state. An operation is \<open>None\<close> when the code does not come back from it: it
  loops forever, follows a null pointer, or accesses memory outside an array.
\<close>

section \<open>State\<close>

text \<open>
  \<open>menv\<close> holds the static parameters of the header builder and the clock, \<open>nFps\<close> and \<open>resolution\<close>
  the user's settings of the video channels in \<open>gtUser\<close>, \<open>snap_recording\<close> the \<open>recording\<close> flag of the
  second entry of \<open>gVidenc\<close>, of which nothing else is used.
\<close>

record 'w recorder =
  pvid :: t_videnc_t
  tbuf :: t_videnc_totalbuf_t
  ram :: mem
  disk :: 'w
  menv :: mp4_env
  nFps :: "nat \<Rightarrow> u32"
  resolution :: "nat \<Rightarrow> u32 \<times> u32"
  snap_recording :: u32
  bSdVidSave :: bool
  VIDEO_REC :: bool
  bSD_FAT_mounted :: bool
  nVidenc_Mode_now :: u32
  nVidenc_Mode_old :: u32
  nVidenc_Fps_old :: u32
  enc_ing :: bool

record 'w muxer_env =
  fs :: "'w fatfs"
  heap :: allocator
  localtime :: "u64 \<Rightarrow> tm"
  jpegstill :: "'w \<Rightarrow> 'w"

datatype VID_ERROR =
    VID_OK | VID_FULL | VID_OPENFAIL | VID_WRITEFAIL | VID_WRITEFAIL_DISKFULL | VID_IDXBUF_OVF
  | VID_CODE_ERROR

abbreviation set_vid :: "(t_videnc_t \<Rightarrow> t_videnc_t) \<Rightarrow> 'w recorder \<Rightarrow> 'w recorder" where
  "set_vid f st \<equiv> st\<lparr>pvid := f (pvid st)\<rparr>"

abbreviation set_buf :: "(t_videnc_totalbuf_t \<Rightarrow> t_videnc_totalbuf_t) \<Rightarrow> 'w recorder \<Rightarrow> 'w recorder" where
  "set_buf f st \<equiv> st\<lparr>tbuf := f (tbuf st)\<rparr>"

abbreviation set_state :: "VIDENC_STATE \<Rightarrow> 'w recorder \<Rightarrow> 'w recorder" where
  "set_state s st \<equiv> set_vid (\<lambda>v. v\<lparr>vstate := s\<rparr>) st"

abbreviation set_info :: "(t_mp4_t \<Rightarrow> t_mp4_t) \<Rightarrow> 'w recorder \<Rightarrow> 'w recorder" where
  "set_info f st \<equiv> set_vid (\<lambda>v. v\<lparr>vidinfo := f (vidinfo v)\<rparr>) st"

abbreviation info :: "'w recorder \<Rightarrow> t_mp4_t" where "info st \<equiv> vidinfo (pvid st)"

section \<open>Starting and stopping\<close>

definition muxer_videnc_go :: "u32 \<Rightarrow> 'w recorder \<Rightarrow> 'w recorder" where
  "muxer_videnc_go var st =
     (if var = eRecNormal then set_vid (\<lambda>v. v\<lparr>recording := 1\<rparr>) st else st\<lparr>snap_recording := 1\<rparr>)"

definition muxer_videnc_stop :: "u32 \<Rightarrow> 'w recorder \<Rightarrow> 'w recorder" where
  "muxer_videnc_stop var st =
     (if var = eRecNormal then set_vid (\<lambda>v. v\<lparr>recording := 0\<rparr>) st else st\<lparr>snap_recording := 0\<rparr>)"

definition muxer_videnc_state :: "u32 \<Rightarrow> 'w recorder \<Rightarrow> u32" where
  "muxer_videnc_state var st = (if var = eRecNormal then recording (pvid st) else snap_recording st)"

definition muxer_videnc_all_stop :: "'w recorder \<Rightarrow> 'w recorder" where
  "muxer_videnc_all_stop st =
     (muxer_videnc_stop eRecSnapshot (muxer_videnc_stop eRecNormal st))\<lparr>VIDEO_REC := False\<rparr>"

definition muxer_videnc_set_vcodec :: "nat \<Rightarrow> 'w recorder \<Rightarrow> 'w recorder" where
  "muxer_videnc_set_vcodec vs st = set_vid (\<lambda>v. v\<lparr>vidinfo := (vidinfo v)\<lparr>v_type := vs\<rparr>\<rparr>) st"

definition muxer_videnc_Buffering :: "u32 \<Rightarrow> u32 \<Rightarrow> u32 \<Rightarrow> u32 \<Rightarrow> 'w recorder \<Rightarrow> 'w recorder option" where
  "muxer_videnc_Buffering a n flag ty st =
     (if n \<noteq> 0
      then map_option (\<lambda>v. st\<lparr>pvid := v\<rparr>) (videnc_info_put (pvid st) a n flag ty)
      else Some st)"

text \<open>Every call passes a structure, except one whose null pointer is followed at once.\<close>

definition muxer_videnc_error :: "'w muxer_env \<Rightarrow> bool \<Rightarrow> VID_ERROR \<Rightarrow> 'w recorder \<Rightarrow> 'w recorder option" where
  "muxer_videnc_error E given state st =
     (if \<not> given then (if state = VID_CODE_ERROR then None else Some st)
      else if state = VID_IDXBUF_OVF then Some (set_state VIDENC_CLOSE st)
      else let st = st\<lparr>disk := snd (f_close (fs E) (disk st))\<rparr>
           in if state = VID_FULL then Some (set_state VIDENC_IDLE st)
              else Some ((muxer_videnc_all_stop (set_state VIDENC_EXIT st))\<lparr>bSdVidSave := False\<rparr>))"

section \<open>The write buffer\<close>

definition muxer_videnc_bufferflush :: "'w muxer_env \<Rightarrow> 'w recorder \<Rightarrow> (FRESULT \<times> 'w recorder) option" where
  "muxer_videnc_bufferflush E st =
     (let b = tbuf st;
          (fres, writesize, w) =
            f_write (fs E) (take (unat (blength b)) (drop (base b) (wbuf b))) (disk st);
          st = st\<lparr>disk := w\<rparr>
      in if fres \<noteq> FR_OK then do { st \<leftarrow> muxer_videnc_error E True VID_WRITEFAIL st; Some (fres, st) }
         else if (blength b \<noteq> writesize \<or> writesize = 0) \<and> fat_get_freesize (fs E) w = 0
         then do { st \<leftarrow> muxer_videnc_error E True VID_WRITEFAIL_DISKFULL st; Some (fres, st) }
         else let l = blength b - writesize
              in Some (fres, st\<lparr>tbuf := b\<lparr>buf := base b, blength := (if l \<noteq> 0 then 0 else l)\<rparr>\<rparr>))"

text \<open>
  A pointer to data is a function from offsets to the bytes behind it. One round of the copying
  loop gives the number of bytes copied, and whether the loop goes on.
\<close>

definition bufferadd_step ::
  "'w muxer_env \<Rightarrow> (nat \<Rightarrow> u8) \<Rightarrow> u32 \<Rightarrow> 'w recorder \<Rightarrow> (u32 \<times> bool \<times> 'w recorder) option" where
  "bufferadd_step E dat sz st =
     (let b = tbuf st;
          left = total b - blength b;
          wb = (if sz \<ge> left then left else sz);
          b = b\<lparr>wbuf := overwrite (wbuf b) (buf b) (map dat [0..<unat wb]),
                blength := blength b + wb, buf := buf b + unat wb\<rparr>;
          st = set_vid (\<lambda>v. v\<lparr>filesize := filesize v + wb\<rparr>) (st\<lparr>tbuf := b\<rparr>)
      in if blength b = total b
         then do { (fres, st) \<leftarrow> muxer_videnc_bufferflush E st; Some (wb, fres = FR_OK, st) }
         else Some (wb, True, st))"

partial_function (option) bufferadd_loop ::
  "'w muxer_env \<Rightarrow> (nat \<Rightarrow> u8) \<Rightarrow> u32 \<Rightarrow> 'w recorder \<Rightarrow> 'w recorder option" where
  "bufferadd_loop E dat sz st =
     (if 0 < sint sz
      then do { (wb, more, st) \<leftarrow> bufferadd_step E dat sz st;
                if more then bufferadd_loop E (\<lambda>i. dat (unat wb + i)) (sz - wb) st else Some st }
      else Some st)"

definition muxer_videnc_bufferadd ::
  "'w muxer_env \<Rightarrow> (nat \<Rightarrow> u8) option \<Rightarrow> u32 \<Rightarrow> 'w recorder \<Rightarrow> 'w recorder option" where
  "muxer_videnc_bufferadd E dat sz st =
     (case dat of
        None \<Rightarrow> map_option snd (muxer_videnc_bufferflush E st)
      | Some dat \<Rightarrow> bufferadd_loop E dat sz st)"

text \<open>Adding bytes of memory, and a 32-bit variable.\<close>

definition add_mem :: "'w muxer_env \<Rightarrow> nat option \<Rightarrow> u32 \<Rightarrow> 'w recorder \<Rightarrow> 'w recorder option" where
  "add_mem E p sz st = muxer_videnc_bufferadd E (map_option (\<lambda>p i. ram st (p + i)) p) sz st"

definition add_word :: "'w muxer_env \<Rightarrow> u32 \<Rightarrow> 'w recorder \<Rightarrow> 'w recorder option" where
  "add_word E size_info st = muxer_videnc_bufferadd E (Some (\<lambda>i. le32 size_info ! i)) 4 st"

section \<open>Save time and header\<close>

text \<open>
  \<open>muxer_videnc_change_savetime\<close> closes the running recording before it sets new limits, and
  closing builds a header. The header builder itself calls it only with \<open>pvid\<close> null and \<open>start\<close> 1,
  where nothing is closed; that instance comes first.
\<close>

definition set_savetime :: "'w muxer_env \<Rightarrow> u32 \<Rightarrow> 'w recorder \<Rightarrow> 'w recorder" where
  "set_savetime E fpsval st =
     (let audio_fps = (if FAT_SDSAVE_AUD (menv st) then PCM_RecordingHz else 0);
          (v, b) = videnc_info_init_savetime (heap E) (FAT_SDSAVE_AUD (menv st)) SAVE_NOR_TIME_MAX fpsval
                     audio_fps (pvid st) (tbuf st)
      in st\<lparr>pvid := v, tbuf := b\<rparr>)"

definition change_savetime_start :: "'w muxer_env \<Rightarrow> 'w recorder \<Rightarrow> u32 \<times> 'w recorder" where
  "change_savetime_start E st =
     (if 30 \<noteq> nVidenc_Fps_old st
      then (30, set_savetime E 30 (st\<lparr>nVidenc_Fps_old := 30\<rparr>)) else (30, st))"

definition counts_option :: "t_mp4_t \<Rightarrow> u32" where
  "counts_option v =
     (let opt = 0;
          opt = (if un32vidscount v \<noteq> 0 then opt OR VID_VIDEO else opt);
          opt = (if un32audscount v \<noteq> 0 then opt OR VID_AUDIO else opt)
      in if un32txtscount v \<noteq> 0 then opt OR VID_TXTS else opt)"

text \<open>Building the header in the buffer at \<open>hdr_info\<close>; the result is its address.\<close>

definition build_header :: "'w recorder \<Rightarrow> (nat \<times> 'w recorder) option" where
  "build_header st =
     (if hdr_info (tbuf st) = 0 then None
      else let (m, b, a) = mp4_write_header (menv st) (info st) (tbuf st) (ram st)
           in Some (a, st\<lparr>ram := m, tbuf := b\<rparr>))"

definition muxer_videnc_makevidheader :: "'w muxer_env \<Rightarrow> 'w recorder \<Rightarrow> (nat \<times> 'w recorder) option" where
  "muxer_videnc_makevidheader E st =
     (if vstate (pvid st) = VIDENC_OPEN then
        let (w, h) = resolution st (v_type (info st));
            (fps, st) = change_savetime_start E st;
            st = set_info (\<lambda>v. v\<lparr>f_fps := fps, i_width := w, i_height := h, un32vidicount := 0,
                   un32vidscount := 0, un32audscount := 0, un32txtscount := 0, mdat_size := 0\<rparr>) st;
            st = set_buf (\<lambda>b. b\<lparr>Vstbl := clear_stbl (Vstbl b), Astbl := clear_stbl (Astbl b)\<rparr>) st
        in if hdr_info (tbuf st) = 0 then None
           else build_header (st\<lparr>ram := store (ram st) (hdr_info (tbuf st))
                                          (replicate (unat (hdr_size (tbuf st))) 0)\<rparr>)
      else if vstate (pvid st) = VIDENC_CLOSE \<or> vstate (pvid st) = VIDENC_EXIT then
        build_header (set_info (\<lambda>v. v\<lparr>mp4_option := counts_option v\<rparr>) st)
      else Some (0, st))"

section \<open>Opening\<close>

definition muxer_videnc_fail :: "'w muxer_env \<Rightarrow> VID_ERROR \<Rightarrow> 'w recorder \<Rightarrow> (bool \<times> 'w recorder) option" where
  "muxer_videnc_fail E err st = map_option (Pair False) (muxer_videnc_error E True err st)"

text \<open>Behind a successful \<open>f_open\<close> and \<open>f_expand\<close>: the name is entered and the header written.\<close>

definition add_header :: "'w muxer_env \<Rightarrow> 'w recorder \<Rightarrow> 'w recorder option" where
  "add_header E st = do {
     (mp4header, st) \<leftarrow> muxer_videnc_makevidheader E st;
     add_mem E (if mp4header = 0 then None else Some mp4header) (hdr_size (tbuf st)) st }"

definition start_file :: "'w muxer_env \<Rightarrow> 'w recorder \<Rightarrow> (bool \<times> 'w recorder) option" where
  "start_file E st = do {
     let st = set_vid (\<lambda>v. v\<lparr>filesize := 0\<rparr>) st;
     let st = set_buf (\<lambda>b. b\<lparr>buf := base b, blength := 0\<rparr>) st;
     st \<leftarrow> add_header E st;
     let st = set_state VIDENC_FIRST st;
     let st = st\<lparr>nVidenc_Mode_old := nVidenc_Mode_now st\<rparr>;
     Some (True, st\<lparr>nVidenc_Mode_now := rec_type (pvid st)\<rparr>) }"

definition enter_name :: "'w muxer_env \<Rightarrow> 'w recorder \<Rightarrow> (bool \<times> 'w recorder) option" where
  "enter_name E st =
     (let now = now_name (pvid st);
          (r, h) = encHeap_addQueue (filenamelist (pvid st)) now;
          old = filename (delHData h)
      in if r = 1 then
           if now = old
           then muxer_videnc_fail E VID_OPENFAIL (set_vid (\<lambda>v. v\<lparr>filenamelist := h\<rparr>) st)
           else let w = snd (f_unlink (fs E) (file_path (pvid st) old) (disk st));
                    st = set_vid (\<lambda>v. v\<lparr>filenamelist := h\<lparr>delHData := zeroHData\<rparr>\<rparr>) st
                in start_file E (st\<lparr>disk := w\<rparr>)
         else start_file E (set_vid (\<lambda>v. v\<lparr>filenamelist := h\<rparr>) st))"

definition FAT_SDSAVE_FREE_ALLOC_SIZE :: u32 where
  "FAT_SDSAVE_FREE_ALLOC_SIZE = 48 * 1024 * 1024"

text \<open>\<open>pf_sd_free\<close> and \<open>pf_get_file_name\<close> are the functions \<open>videnc_info_init\<close> sets.\<close>

definition muxer_videnc_open :: "'w muxer_env \<Rightarrow> 'w recorder \<Rightarrow> (bool \<times> 'w recorder) option" where
  "muxer_videnc_open E st =
     (let (nFree, v, w) = videnc_info_file_delete (fs E) (of_nat MAX_FILE_NUM) (pvid st) (disk st);
          st = st\<lparr>pvid := v, disk := w\<rparr>
      in if nFree = 0 then muxer_videnc_fail E VID_FULL st
         else let v = videnc_info_file_getname (localtime E (TIME (menv st))) (pvid st);
                  (fres, w) = f_open (fs E) (file_path v (now_name v)) (disk st);
                  st = st\<lparr>pvid := v, disk := w\<rparr>
              in if fres \<noteq> FR_OK then muxer_videnc_fail E VID_OPENFAIL st
                 else let (fexp, w) = f_expand (fs E) FAT_SDSAVE_FREE_ALLOC_SIZE (disk st);
                          st = st\<lparr>disk := w\<rparr>
                      in if fexp \<noteq> FR_OK then muxer_videnc_fail E VID_OPENFAIL st
                         else enter_name E st)"

definition muxer_videnc_idle :: "'w muxer_env \<Rightarrow> 'w recorder \<Rightarrow> (bool \<times> 'w recorder) option" where
  "muxer_videnc_idle E st = muxer_videnc_open E (set_state VIDENC_OPEN st)"

section \<open>Samples\<close>

datatype stream = H264_STREAM | H265_STREAM | G711_STREAM | TXTS_STREAM

text \<open>The loop that drops the zeros between one NAL unit and the next start code.\<close>

partial_function (option) trim_zeros :: "mem \<Rightarrow> nat \<Rightarrow> u32 \<Rightarrow> u32 option" where
  "trim_zeros m p n = (if m (p + unat (n - 1)) = 0 then trim_zeros m p (n - 1) else Some n)"

text \<open>
  The NAL units of a frame of \<open>n\<close> bytes at \<open>k\<close>, as pairs of a start, perhaps null, and a size: one
  for each search limit, and the picture itself. The branches for the two codecs unroll this over the
  limits 16, 16 for the SPS and PPS of H.264, and 64, 128, 16 for VPS, SPS and PPS of H.265; a
  P frame has no limits. When a start code is missing, the starts behind it stay null and the last size
  is that of the whole frame.
\<close>

definition start_code :: bytes where "start_code = [0, 0, 1]"

fun split_nals :: "mem \<Rightarrow> nat \<Rightarrow> u32 \<Rightarrow> nat \<Rightarrow> int list \<Rightarrow> (nat option \<times> u32) list option" where
  "split_nals m k n p [] = Some [(Some p, n - of_nat (p - k))]"
| "split_nals m k n p (l # ls) =
     (case enx_memstr m p l start_code of
        None \<Rightarrow> Some ((Some p, 0) # map (\<lambda>_. (None, 0)) ls @ [(None, n)])
      | Some q \<Rightarrow> do { sz \<leftarrow> trim_zeros m p (of_nat (q - p - 3));
                     rest \<leftarrow> split_nals m k n q ls;
                     Some ((Some p, sz) # rest) })"

definition frame_nals :: "mem \<Rightarrow> nat \<Rightarrow> u32 \<Rightarrow> int list \<Rightarrow> (nat option \<times> u32) list option" where
  "frame_nals m k n ls =
     (case enx_memstr m k 32 start_code of
        None \<Rightarrow> Some (map (\<lambda>_. (None, 0)) ls @ [(None, n)])
      | Some p \<Rightarrow> split_nals m k n p ls)"

definition nal_limits :: "stream \<Rightarrow> u32 \<Rightarrow> int list" where
  "nal_limits s fl =
     (if fl = 0 then [] else if s = H264_STREAM then [16, 16] else [64, 128, 16])"

text \<open>Every unit goes out behind its size in network order.\<close>

fun add_nals :: "'w muxer_env \<Rightarrow> (nat option \<times> u32) list \<Rightarrow> 'w recorder \<Rightarrow> 'w recorder option" where
  "add_nals E [] st = Some st"
| "add_nals E ((p, n) # ns) st = do {
     st \<leftarrow> add_word E (vidswapSB32 n) st;
     st \<leftarrow> add_mem E p n st;
     add_nals E ns st }"

definition nals_size :: "(nat option \<times> u32) list \<Rightarrow> u32" where
  "nals_size ns = sum_list (map snd ns) + 4 * of_nat (length ns)"

text \<open>An assignment \<open>xs[n] = v\<close> to a heap array.\<close>

definition put_at :: "u32 list \<Rightarrow> u32 \<Rightarrow> u32 \<Rightarrow> u32 list option" where
  "put_at xs n v = (if unat n < length xs then Some (xs[unat n := v]) else None)"

definition put_stss :: "u32 \<Rightarrow> MP4HeaderSTBL \<Rightarrow> MP4HeaderSTBL option" where
  "put_stss x T = map_option (\<lambda>xs. T\<lparr>stss := xs, stss_len := stss_len T + 1\<rparr>)
     (put_at (stss T) (stss_len T) (vidswapSB32 x))"

definition put_stsz :: "u32 \<Rightarrow> MP4HeaderSTBL \<Rightarrow> MP4HeaderSTBL option" where
  "put_stsz x T = map_option (\<lambda>xs. T\<lparr>stsz := xs, stsz_len := stsz_len T + 1\<rparr>)
     (put_at (stsz T) (stsz_len T) (vidswapSB32 x))"

definition put_stco :: "u32 \<Rightarrow> MP4HeaderSTBL \<Rightarrow> MP4HeaderSTBL option" where
  "put_stco x T = map_option (\<lambda>xs. T\<lparr>stco := xs, stco_len := stco_len T + 1\<rparr>)
     (put_at (stco T) (stco_len T) (vidswapSB32 x))"

definition put_video_entry :: "bool \<Rightarrow> u32 \<Rightarrow> 'w recorder \<Rightarrow> 'w recorder option" where
  "put_video_entry key sz st = do {
     T \<leftarrow> (if key then put_stss (un32vidscount (info st)) (Vstbl (tbuf st)) else Some (Vstbl (tbuf st)));
     T \<leftarrow> put_stsz sz T;
     T \<leftarrow> put_stco (mdat_size (info st) + hdr_size (tbuf st)) T;
     Some (set_info (\<lambda>v. v\<lparr>mdat_size := mdat_size v + sz\<rparr>) (set_buf (\<lambda>b. b\<lparr>Vstbl := T\<rparr>) st)) }"

text \<open>
  The parameter sets of the first key frame are kept for the header: the size as a 16-bit word, the
  bytes by a loop over that size into an array of the structure.
\<close>

definition copy_nal :: "mem \<Rightarrow> nat option \<times> u32 \<Rightarrow> bytes \<Rightarrow> (u16 \<times> bytes) option" where
  "copy_nal m = (\<lambda>(p, n) old.
     let s = ucast n :: u16
     in if s = 0 then Some (s, old)
        else case p of None \<Rightarrow> None
                     | Some p \<Rightarrow> if unat s \<le> length old
                               then Some (s, overwrite old 0 (load m p (unat s))) else None)"

definition keep_sets :: "mem \<Rightarrow> stream \<Rightarrow> (nat option \<times> u32) list \<Rightarrow> t_mp4_t \<Rightarrow> t_mp4_t option" where
  "keep_sets m s ns v =
     (let sps = (\<lambda>n v. map_option (\<lambda>(z, d). v\<lparr>sps_size := z, sps_data := d\<rparr>) (copy_nal m n (sps_data v)));
          pps = (\<lambda>n v. map_option (\<lambda>(z, d). v\<lparr>pps_size := z, pps_data := d\<rparr>) (copy_nal m n (pps_data v)));
          vps = (\<lambda>n v. map_option (\<lambda>(z, d). v\<lparr>vps_size := z, vps_data := d\<rparr>) (copy_nal m n (vps_data v)))
      in if s = H264_STREAM then do { v \<leftarrow> sps (ns ! 0) v; pps (ns ! 1) v }
         else do { v \<leftarrow> vps (ns ! 0) v; v \<leftarrow> sps (ns ! 1) v; pps (ns ! 2) v })"

definition write_video :: "'w muxer_env \<Rightarrow> stream \<Rightarrow> 'w recorder \<Rightarrow> 'w recorder option" where
  "write_video E s st = do {
     let d = datablock (pvid st);
     let key = b_flags d \<noteq> 0;
     ns \<leftarrow> frame_nals (ram st) (unat (b_addr d)) (b_size d) (nal_limits s (b_flags d));
     st \<leftarrow> add_nals E ns st;
     st \<leftarrow> put_video_entry key (nals_size ns) st;
     if key \<and> vstate (pvid st) = VIDENC_FIRST_NEXT
     then do { v \<leftarrow> keep_sets (ram st) s ns (info st); Some (set_info (\<lambda>_. v) st) }
     else Some st }"

definition write_audio :: "'w muxer_env \<Rightarrow> 'w recorder \<Rightarrow> 'w recorder option" where
  "write_audio E st = do {
     let d = datablock (pvid st);
     st \<leftarrow> add_mem E (if b_addr d = 0 then None else Some (unat (b_addr d))) (b_size d) st;
     T \<leftarrow> put_stco (mdat_size (info st) + hdr_size (tbuf st)) (Astbl (tbuf st));
     let T = T\<lparr>stsz_len := stsz_len T + 1\<rparr>;
     Some (set_info (\<lambda>v. v\<lparr>mdat_size := mdat_size v + b_size d\<rparr>) (set_buf (\<lambda>b. b\<lparr>Astbl := T\<rparr>) st)) }"

definition muxer_videnc_write_process :: "'w muxer_env \<Rightarrow> stream \<Rightarrow> 'w recorder \<Rightarrow> 'w recorder option" where
  "muxer_videnc_write_process E s st = do {
     st \<leftarrow> (if s = H264_STREAM \<or> s = H265_STREAM then write_video E s st
           else if s = G711_STREAM then write_audio E st
           else Some st);
     Some (set_vid (\<lambda>v. v\<lparr>datablock := zero_block\<rparr>) st) }"

text \<open>The codes of \<open>AVType\<close>, and what a frame of each code adds to.\<close>

fun av_code :: "AVType \<Rightarrow> u32" where
  "av_code eSTREAMMSG_H265I = 1"
| "av_code eSTREAMMSG_H265P = 2"
| "av_code eSTREAMMSG_H264I = 3"
| "av_code eSTREAMMSG_H264P = 4"
| "av_code eSTREAMMSG_JPEG = 5"
| "av_code eSTREAMMSG_AUDIO = 6"
| "av_code eSTREAMMSG_TXTS = 7"

definition count_frame :: "u32 \<Rightarrow> t_mp4_t \<Rightarrow> stream option \<times> t_mp4_t" where
  "count_frame ty v =
     (let icount = (\<lambda>v. v\<lparr>un32vidicount := un32vidicount v + 1\<rparr>);
          scount = (\<lambda>v. v\<lparr>un32vidscount := un32vidscount v + 1\<rparr>)
      in if ty = av_code eSTREAMMSG_H264I then (Some H264_STREAM, scount (icount v))
         else if ty = av_code eSTREAMMSG_H264P then (Some H264_STREAM, scount v)
         else if ty = av_code eSTREAMMSG_H265I then (Some H265_STREAM, scount (icount v))
         else if ty = av_code eSTREAMMSG_H265P then (Some H265_STREAM, scount v)
         else if ty = av_code eSTREAMMSG_AUDIO
         then (Some G711_STREAM, v\<lparr>un32audscount := un32audscount v + 1\<rparr>)
         else if ty = av_code eSTREAMMSG_TXTS
         then (Some TXTS_STREAM, v\<lparr>un32txtscount := un32txtscount v + 1\<rparr>)
         else (None, v))"

definition muxer_videnc_write :: "'w muxer_env \<Rightarrow> 'w recorder \<Rightarrow> 'w recorder option" where
  "muxer_videnc_write E st =
     (if b_state (datablock (pvid st)) = 1 then do {
        let (s, v) = count_frame (b_type (datablock (pvid st))) (info st);
        let st = set_info (\<lambda>_. v) st;
        st \<leftarrow> (case s of None \<Rightarrow> Some st | Some s \<Rightarrow> muxer_videnc_write_process E s st);
        Some (set_vid (\<lambda>v. v\<lparr>datablock := (datablock v)\<lparr>b_state := 0\<rparr>\<rparr>) st) }
      else Some st)"

section \<open>Closing\<close>

definition muxer_videnc_close :: "'w muxer_env \<Rightarrow> 'w recorder \<Rightarrow> 'w recorder option" where
  "muxer_videnc_close E st = do {
     st \<leftarrow> muxer_videnc_bufferadd E None (- 1) st;
     let st = set_vid (\<lambda>v. v\<lparr>filesize := f_tell (fs E) (disk st)\<rparr>) st;
     let st = st\<lparr>disk := set_f_size (fs E) (hdr_size (tbuf st) + mdat_size (info st)) (disk st)\<rparr>;
     st \<leftarrow> add_header E st;
     let st = st\<lparr>disk := f_lseek (fs E) 0 (disk st)\<rparr>;
     st \<leftarrow> muxer_videnc_bufferadd E None (- 1) st;
     let st = st\<lparr>disk := snd (f_close (fs E) (disk st))\<rparr>;
     Some ((set_state VIDENC_IDLE st)\<lparr>enc_ing := False\<rparr>) }"

text \<open>\<open>given\<close> says that \<open>pvid\<close> is not null, \<open>start\<close> is the parameter of that name.\<close>

definition muxer_videnc_change_savetime ::
  "'w muxer_env \<Rightarrow> bool \<Rightarrow> bool \<Rightarrow> 'w recorder \<Rightarrow> (u32 \<times> 'w recorder) option" where
  "muxer_videnc_change_savetime E given start st =
     (let fpsval = (if given then nFps st (v_type (info st)) else 30)
      in if fpsval \<noteq> nVidenc_Fps_old st then do {
           let st = st\<lparr>nVidenc_Fps_old := fpsval\<rparr>;
           st \<leftarrow> (if start then Some st
                 else if \<not> given then muxer_videnc_error E False VID_CODE_ERROR st
                 else muxer_videnc_close E (set_state VIDENC_CLOSE st));
           Some (fpsval, set_savetime E fpsval st) }
         else Some (fpsval, st))"

lemma change_savetime_start:
  "muxer_videnc_change_savetime E False True st = Some (change_savetime_start E st)"
  by (simp add: muxer_videnc_change_savetime_def change_savetime_start_def Let_def)

section \<open>The state machine\<close>

text \<open>A frame descriptor is taken into \<open>datablock\<close>, whose \<open>state\<close> is set apart.\<close>

definition take_block :: "sbuf_data \<Rightarrow> 'w recorder \<Rightarrow> 'w recorder" where
  "take_block d = set_vid (\<lambda>v. v\<lparr>datablock := (datablock v)
     \<lparr>b_addr := addr d, b_size := size d, b_flags := flags d, b_type := type d\<rparr>\<rparr>)"

definition block_ready :: "'w recorder \<Rightarrow> 'w recorder" where
  "block_ready = set_vid (\<lambda>v. v\<lparr>datablock := (datablock v)\<lparr>b_state := 1\<rparr>\<rparr>)"

definition next_block :: "'w recorder \<Rightarrow> 'w recorder option" where
  "next_block st = map_option (\<lambda>(d, s). take_block d (set_vid (\<lambda>v. v\<lparr>sbuf := s\<rparr>) st))
     (sbuf_get (sbuf (pvid st)))"

definition muxer_videnc_frist_video :: "'w recorder \<Rightarrow> bool \<times> 'w recorder" where
  "muxer_videnc_frist_video st =
     (case next_block st of
        None \<Rightarrow> (False, st)
      | Some st \<Rightarrow> if b_flags (datablock (pvid st)) = 1
                   then (True, block_ready (set_state VIDENC_FIRST_NEXT st))
                   else (False, st))"

partial_function (option) muxer_videnc_nextI_video :: "'w muxer_env \<Rightarrow> 'w recorder \<Rightarrow> (bool \<times> 'w recorder) option" where
  "muxer_videnc_nextI_video E st =
     (case next_block st of
        None \<Rightarrow> Some (False, st)
      | Some st \<Rightarrow> if b_flags (datablock (pvid st)) = 1
                   then map_option (Pair True) (muxer_videnc_write E (block_ready (set_state VIDENC_WRITE st)))
                   else muxer_videnc_nextI_video E st)"

definition stopped :: "VIDENC_STATE \<Rightarrow> bool" where
  "stopped s \<longleftrightarrow> s = VIDENC_IDLE \<or> s = VIDENC_CLOSE \<or> s = VIDENC_EXIT"

text \<open>The test behind every frame: whether the loop goes on, and the state it leaves.\<close>

definition check_stop :: "'w recorder \<Rightarrow> bool \<times> 'w recorder" where
  "check_stop st =
     (if stopped (vstate (pvid st)) then (False, st)
      else if \<not> bSdVidSave st then (False, set_state VIDENC_EXIT st)
      else (True, st))"

definition key_type :: "u32 \<Rightarrow> bool" where
  "key_type ty \<longleftrightarrow> ty = av_code eSTREAMMSG_H264I \<or> ty = av_code eSTREAMMSG_H265I"

partial_function (option) write_loop :: "'w muxer_env \<Rightarrow> 'w recorder \<Rightarrow> 'w recorder option" where
  "write_loop E st =
     (case sbuf_peek (sbuf (pvid st)) of
        None \<Rightarrow> Some st
      | Some d \<Rightarrow> do {
          let st = take_block d st;
          r \<leftarrow> (if key_type (type d) \<and> un32vidscount (info st) \<ge> un32vidsmax (info st)
               then map_option Some (muxer_videnc_close E (set_state VIDENC_CLOSE st))
               else case next_block st of
                      Some st \<Rightarrow> map_option Some (muxer_videnc_write E (block_ready st))
                    | None \<Rightarrow> Some None);
          (case r of
             None \<Rightarrow> Some st
           | Some st \<Rightarrow> (case check_stop st of (go, st) \<Rightarrow> if go then write_loop E st else Some st)) })"

definition write_stage :: "'w muxer_env \<Rightarrow> 'w recorder \<Rightarrow> 'w recorder option" where
  "write_stage E st =
     (if bSdVidSave st then do {
        let st = st\<lparr>VIDEO_REC := True, enc_ing := True\<rparr>;
        (_, st) \<leftarrow> muxer_videnc_change_savetime E True False st;
        case check_stop st of (go, st) \<Rightarrow> if go then write_loop E st else Some st }
      else Some (set_state VIDENC_EXIT st))"

definition next_stage :: "'w muxer_env \<Rightarrow> 'w recorder \<Rightarrow> 'w recorder option" where
  "next_stage E st =
     (if nVidenc_Mode_now st \<noteq> nVidenc_Mode_old st
      then map_option snd (muxer_videnc_nextI_video E st)
      else do { st \<leftarrow> muxer_videnc_write E st; write_stage E (set_state VIDENC_WRITE st) })"

definition first_stage :: "'w muxer_env \<Rightarrow> 'w recorder \<Rightarrow> 'w recorder option" where
  "first_stage E st =
     (case muxer_videnc_frist_video st of (ok, st) \<Rightarrow> if ok then next_stage E st else Some st)"

definition muxer_videnc_process :: "'w muxer_env \<Rightarrow> 'w recorder \<Rightarrow> 'w recorder option" where
  "muxer_videnc_process E st =
     (case vstate (pvid st) of
        VIDENC_IDLE \<Rightarrow> do {
          (ok, st) \<leftarrow> muxer_videnc_idle E (st\<lparr>enc_ing := True\<rparr>);
          if ok then first_stage E st else Some st }
      | VIDENC_FIRST \<Rightarrow> first_stage E st
      | VIDENC_FIRST_NEXT \<Rightarrow> next_stage E st
      | VIDENC_WRITE \<Rightarrow> write_stage E st
      | VIDENC_CLOSE \<Rightarrow> Some st
      | VIDENC_EXIT \<Rightarrow> map_option muxer_videnc_all_stop (muxer_videnc_close E st)
      | VIDENC_OPEN \<Rightarrow> Some st)"

section \<open>The task\<close>

text \<open>The still picture writer is a parameter; the insertion of the card is \<open>present\<close>.\<close>

definition muxer_videnc :: "'w muxer_env \<Rightarrow> 'w recorder \<Rightarrow> 'w recorder option" where
  "muxer_videnc E st =
     (if bSD_FAT_mounted st then do {
        st \<leftarrow> (if muxer_videnc_state eRecNormal st \<noteq> 0 then muxer_videnc_process E st else Some st);
        Some (if muxer_videnc_state eRecSnapshot st = 1
              then muxer_videnc_stop eRecSnapshot (st\<lparr>disk := jpegstill E (disk st)\<rparr>) else st) }
      else Some st)"

definition muxer_videnc_init :: "'w muxer_env \<Rightarrow> bool \<Rightarrow> 'w recorder \<Rightarrow> 'w recorder option" where
  "muxer_videnc_init E present st =
     (if present then do {
        let (v, b) = videnc_info_default (pvid st) (tbuf st);
        (v, w) \<leftarrow> videnc_info_init_filenamelist (fs E) v (disk st);
        (_, st) \<leftarrow> muxer_videnc_change_savetime E False True (st\<lparr>pvid := v, tbuf := b, disk := w\<rparr>);
        Some (st\<lparr>bSD_FAT_mounted := True\<rparr>) }
      else Some st)"

definition muxer_videnc_sbuf_depth_sum :: "'w recorder \<Rightarrow> ENX_OKFAIL" where
  "muxer_videnc_sbuf_depth_sum st =
     (if cQueue_isempty (head (sbuf (pvid st))) (tail (sbuf (pvid st))) then ENX_FAIL else ENX_OK)"

text \<open>One round of the task's loop, and the set-up in front of it.\<close>

definition muxer_videnc_task :: "'w muxer_env \<Rightarrow> 'w recorder \<Rightarrow> 'w recorder option" where
  "muxer_videnc_task E st =
     (if muxer_videnc_sbuf_depth_sum st = ENX_OK then muxer_videnc E st else Some st)"

definition muxer_init_buffering :: "'w muxer_env \<Rightarrow> 'w recorder \<Rightarrow> 'w recorder" where
  "muxer_init_buffering E st =
     (let v = videnc_info_init (heap E) eRecNormal (str ''NORMAL'') SAVE_NOR_NAME_FORMAT (MAX_FILE_NUM + 1);
          v = videnc_info_sbuf_init (heap E) v;
          b = snd (videnc_info_init_buffer (heap E) (tbuf st))
      in st\<lparr>pvid := v, tbuf := b\<rparr>)"

text \<open>What the task does before its loop.\<close>

definition muxer_videnc_task_init :: "'w muxer_env \<Rightarrow> 'w recorder \<Rightarrow> 'w recorder" where
  "muxer_videnc_task_init E st =
     (muxer_init_buffering E st)\<lparr>nVidenc_Mode_now := 0, nVidenc_Mode_old := - 1\<rparr>"

end
