(* ===== verification/MuxerSpec.thy ===== *)
theory MuxerSpec
  imports Muxer Mp4Spec
begin

text \<open>
  What the recorder's operations do to the file: the buffered writer appends, a frame becomes one
  MP4 sample with its table entries, and closing puts the header in front. The laws the proofs use
  of FatFs are collected in \<open>card_ok\<close>.
\<close>

section \<open>The card\<close>

text \<open>
  \<open>D\<close> is the contents of the open file and \<open>P\<close> its write position. The documented behaviour of FatFs
  on a card that neither fails nor fills: a file is created empty, \<open>f_expand\<close> gives it some
  contents, \<open>f_write\<close> writes everything at the position and moves it, and assigning a size cuts the
  file off.
\<close>

definition card_ok :: "'w fatfs \<Rightarrow> ('w \<Rightarrow> bytes) \<Rightarrow> ('w \<Rightarrow> nat) \<Rightarrow> bool" where
  "card_ok F D P \<longleftrightarrow>
     (\<forall>xs w. P w \<le> length (D w) \<longrightarrow> (\<exists>w'. f_write F xs w = (FR_OK, of_nat (length xs), w')
        \<and> D w' = overwrite (D w) (P w) xs \<and> P w' = P w + length xs))
     \<and> (\<forall>w. fat_get_freesize F w \<noteq> 0)
     \<and> (\<forall>p w. P (snd (f_open F p w)) = 0)
     \<and> (\<forall>n w. P (snd (f_expand F n w)) = P w)
     \<and> (\<forall>p w. P (snd (f_unlink F p w)) = P w)
     \<and> (\<forall>n w. D (set_f_size F n w) = take (unat n) (D w) \<and> P (set_f_size F n w) = P w)
     \<and> (\<forall>w. P (f_lseek F 0 w) = 0 \<and> D (f_lseek F 0 w) = D w)
     \<and> (\<forall>w. D (snd (f_close F w)) = D w)"

section \<open>The write buffer appends\<close>

definition buf_ok :: "t_videnc_totalbuf_t \<Rightarrow> bool" where
  "buf_ok b \<longleftrightarrow> base b = 0 \<and> buf b = unat (blength b) \<and> length (wbuf b) = unat (total b)"

definition sink_ok :: "'w muxer_env \<Rightarrow> ('w \<Rightarrow> bytes) \<Rightarrow> ('w \<Rightarrow> nat) \<Rightarrow> 'w recorder \<Rightarrow> bool" where
  "sink_ok E D P st \<longleftrightarrow> card_ok (fs E) D P \<and> buf_ok (tbuf st) \<and> blength (tbuf st) < total (tbuf st)
     \<and> P (disk st) \<le> length (D (disk st))"

definition view :: "('w \<Rightarrow> bytes) \<Rightarrow> ('w \<Rightarrow> nat) \<Rightarrow> 'w recorder \<Rightarrow> bytes" where
  "view D P st = take (P (disk st)) (D (disk st)) @ take (unat (blength (tbuf st))) (wbuf (tbuf st))"

definition sink_only :: "'w recorder \<Rightarrow> 'w recorder \<Rightarrow> bool" where
  "sink_only st st' \<longleftrightarrow> (\<exists>w x y z f. st' = st\<lparr>disk := w,
     tbuf := (tbuf st)\<lparr>wbuf := x, buf := y, blength := z\<rparr>, pvid := (pvid st)\<lparr>filesize := f\<rparr>\<rparr>)"

lemma sink_only_refl [simp]: "sink_only st st"
  unfolding sink_only_def
  by (rule exI [of _ "disk st"], rule exI [of _ "wbuf (tbuf st)"], rule exI [of _ "buf (tbuf st)"],
      rule exI [of _ "blength (tbuf st)"], rule exI [of _ "filesize (pvid st)"]) simp

lemma sink_only_trans [trans]: "sink_only a b \<Longrightarrow> sink_only b c \<Longrightarrow> sink_only a c"
  unfolding sink_only_def by (elim exE, simp) blast

lemma sink_only_fields:
  assumes "sink_only a b"
  shows "ram b = ram a" "menv b = menv a" "nFps b = nFps a" "resolution b = resolution a"
    "snap_recording b = snap_recording a" "bSdVidSave b = bSdVidSave a" "VIDEO_REC b = VIDEO_REC a"
    "bSD_FAT_mounted b = bSD_FAT_mounted a" "nVidenc_Mode_now b = nVidenc_Mode_now a"
    "nVidenc_Mode_old b = nVidenc_Mode_old a" "nVidenc_Fps_old b = nVidenc_Fps_old a"
    "enc_ing b = enc_ing a" "vidinfo (pvid b) = vidinfo (pvid a)" "vstate (pvid b) = vstate (pvid a)"
    "sbuf (pvid b) = sbuf (pvid a)" "recording (pvid b) = recording (pvid a)"
    "rec_type (pvid b) = rec_type (pvid a)" "datablock (pvid b) = datablock (pvid a)"
    "total (tbuf b) = total (tbuf a)" "hdr_size (tbuf b) = hdr_size (tbuf a)"
    "hdr_info (tbuf b) = hdr_info (tbuf a)" "Vstbl (tbuf b) = Vstbl (tbuf a)"
    "Astbl (tbuf b) = Astbl (tbuf a)" "filenamelist (pvid b) = filenamelist (pvid a)"
  using assms by (auto simp: sink_only_def)

lemma flush_ok:
  assumes c: "card_ok (fs E) D P" and b: "buf_ok (tbuf st)" "blength (tbuf st) \<le> total (tbuf st)"
    "0 < total (tbuf st)" and p: "P (disk st) \<le> length (D (disk st))"
  shows "\<exists>st'. muxer_videnc_bufferflush E st = Some (FR_OK, st') \<and> view D P st' = view D P st
    \<and> sink_only st st' \<and> sink_ok E D P st' \<and> blength (tbuf st') = 0"
proof -
  let ?xs = "take (unat (blength (tbuf st))) (wbuf (tbuf st))"
  obtain w where w: "f_write (fs E) ?xs (disk st) = (FR_OK, of_nat (length ?xs), w)"
    "D w = overwrite (D (disk st)) (P (disk st)) ?xs" "P w = P (disk st) + length ?xs"
    using c p unfolding card_ok_def by blast
  have free: "fat_get_freesize (fs E) w \<noteq> 0" using c by (simp add: card_ok_def)
  have l: "length ?xs = unat (blength (tbuf st))" 
    using b by (simp add: buf_ok_def word_le_nat_alt)
  let ?st = "st\<lparr>disk := w, tbuf := (tbuf st)\<lparr>buf := 0, blength := 0\<rparr>\<rparr>"
  have "muxer_videnc_bufferflush E st = Some (FR_OK, ?st)"
    using w(1) free b l by (simp add: muxer_videnc_bufferflush_def buf_ok_def Let_def)
  moreover have "view D P ?st = view D P st"
    using p w l by (simp add: view_def take_overwrite)
  moreover have "sink_only st ?st"
    unfolding sink_only_def
    by (rule exI [of _ w], rule exI [of _ "wbuf (tbuf st)"], rule exI [of _ 0], rule exI [of _ 0],
      rule exI [of _ "filesize (pvid st)"]) simp
  moreover have "sink_ok E D P ?st"
    using c b p w l by (auto simp: sink_ok_def buf_ok_def overwrite_def)
  ultimately show ?thesis by (intro exI [of _ ?st]) simp
qed


lemma map_shift: "map (\<lambda>i. f (a + i)) [0..<n] = map f [a..<a + n]"
  by (rule nth_equalityI) auto

lemma sink_only_copy:
  "sink_only st (set_vid (\<lambda>v. v\<lparr>filesize := f\<rparr>) (st\<lparr>tbuf := (tbuf st)\<lparr>wbuf := x, blength := z, buf := y\<rparr>\<rparr>))"
  unfolding sink_only_def
  by (rule exI [of _ "disk st"], rule exI [of _ x], rule exI [of _ y], rule exI [of _ z],
      rule exI [of _ f]) simp

text \<open>One round copies at least one byte.\<close>

lemma bufferadd_step_ok:
  assumes ok: "sink_ok E D P st" and sz: "0 < sz"
  defines "left \<equiv> total (tbuf st) - blength (tbuf st)"
  defines "wb \<equiv> if sz \<ge> left then left else sz"
  shows "\<exists>st'. bufferadd_step E dat sz st = Some (wb, True, st') \<and> sink_ok E D P st'
    \<and> sink_only st st' \<and> view D P st' = view D P st @ map dat [0..<unat wb] \<and> 0 < wb \<and> wb \<le> sz"
proof -
  let ?b = "tbuf st"
  have b: "buf_ok ?b" "blength ?b < total ?b" using ok by (simp_all add: sink_ok_def)
  have left: "unat left = unat (total ?b) - unat (blength ?b)" "0 < left"
    using b(2) unat_sub [OF order.strict_implies_order [OF b(2)]]
    by (simp_all add: left_def word_less_nat_alt)
  have wb: "0 < wb" "wb \<le> sz" "wb \<le> left"
    using left sz by (auto simp: wb_def)
  have l: "unat (blength ?b + wb) = unat (blength ?b) + unat wb" "unat (blength ?b) + unat wb \<le> unat (total ?b)"
  proof -
    show "unat (blength ?b) + unat wb \<le> unat (total ?b)"
      using wb(3) left(1) b(2) by (simp add: word_le_nat_alt word_less_nat_alt)
    then show "unat (blength ?b + wb) = unat (blength ?b) + unat wb"
      using unat_u32_less [of "total ?b"] by (simp add: unat_word_ariths)
  qed
  let ?x = "overwrite (wbuf ?b) (buf ?b) (map dat [0..<unat wb])"
  let ?st = "set_vid (\<lambda>v. v\<lparr>filesize := filesize v + wb\<rparr>)
    (st\<lparr>tbuf := ?b\<lparr>wbuf := ?x, blength := blength ?b + wb, buf := buf ?b + unat wb\<rparr>\<rparr>)"
  have ok': "buf_ok (tbuf ?st)" and le: "blength (tbuf ?st) \<le> total (tbuf ?st)"
    using b l by (simp_all add: buf_ok_def word_le_nat_alt)
  have view: "view D P ?st = view D P st @ map dat [0..<unat wb]"
    using b l by (simp add: view_def buf_ok_def take_overwrite)
  have only: "sink_only st ?st" by (rule sink_only_copy)
  have card: "card_ok (fs E) D P" "P (disk ?st) \<le> length (D (disk ?st))"
    using ok by (simp_all add: sink_ok_def)
  have step: "bufferadd_step E dat sz st =
      (if blength (tbuf ?st) = total (tbuf ?st)
       then do { (fres, st) \<leftarrow> muxer_videnc_bufferflush E ?st; Some (wb, fres = FR_OK, st) }
       else Some (wb, True, ?st))"
    by (simp add: bufferadd_step_def Let_def wb_def left_def)
  show ?thesis
  proof (cases "blength (tbuf ?st) = total (tbuf ?st)")
    case True
    have "0 < total (tbuf ?st)" using b(2) by (auto simp: word_gt_0)
    from flush_ok [OF card(1) ok' le this card(2)] obtain st' where
      f: "muxer_videnc_bufferflush E ?st = Some (FR_OK, st')" "view D P st' = view D P ?st"
      "sink_only ?st st'" "sink_ok E D P st'" by blast
    have "sink_only st st'" using only f(3) by (rule sink_only_trans)
    with step True f view wb show ?thesis by (intro exI [of _ st']) simp
  next
    case False
    then have "sink_ok E D P ?st" using ok' le card by (simp add: sink_ok_def)
    with step False view wb only show ?thesis by (intro exI [of _ ?st]) simp
  qed
qed

lemma sint_pos:
  assumes "sz \<noteq> 0" and "unat sz < 2 ^ 31"
  shows "0 < sint (sz :: u32)"
proof -
  have "int (unat sz) < int (2 ^ 31)" using assms(2) by (simp only: of_nat_less_iff)
  then have "int (unat sz) < 2 ^ 31" by (simp only: of_nat_power of_nat_numeral)
  then have "uint sz < 2 ^ 31" by (simp only: uint_nat)
  moreover have "- (2 ^ 31) \<le> uint sz" by (rule order_trans [OF _ uint_ge_0]) simp
  ultimately have "sint sz = uint sz" by (simp add: sint_uint signed_take_bit_int_eq_self)
  then show ?thesis using assms(1) uint_0_iff [of sz] uint_ge_0 [of sz] by linarith
qed

lemma bufferadd_loop_ok:
  assumes "sink_ok E D P st" and "unat sz < 2 ^ 31"
  shows "\<exists>st'. bufferadd_loop E dat sz st = Some st' \<and> sink_ok E D P st' \<and> sink_only st st'
    \<and> view D P st' = view D P st @ map dat [0..<unat sz]"
  using assms
proof (induction "unat sz" arbitrary: sz st dat rule: less_induct)
  case less
  show ?case
  proof (cases "sz = 0")
    case True
    then show ?thesis using less(2) by (subst bufferadd_loop.simps) simp
  next
    case False
    then have pos: "0 < sz" by (simp add: word_gt_0)
    from bufferadd_step_ok [OF less(2) pos, of dat] obtain wb st1 where
      s: "bufferadd_step E dat sz st = Some (wb, True, st1)" "sink_ok E D P st1" "sink_only st st1"
      "view D P st1 = view D P st @ map dat [0..<unat wb]" "0 < wb" "wb \<le> sz" by blast
    have u: "unat (sz - wb) = unat sz - unat wb" "0 < unat wb" "unat wb \<le> unat sz"
      using s(5,6) by (simp_all add: unat_sub word_less_nat_alt word_le_nat_alt)
    have "unat (sz - wb) < unat sz" "unat (sz - wb) < 2 ^ 31" using u less(3) by linarith+
    from less(1) [OF this(1) s(2) this(2), of "\<lambda>i. dat (unat wb + i)"] obtain st' where
      st': "bufferadd_loop E (\<lambda>i. dat (unat wb + i)) (sz - wb) st1 = Some st'" "sink_ok E D P st'"
      "sink_only st1 st'" "view D P st' = view D P st1 @ map (\<lambda>i. dat (unat wb + i)) [0..<unat sz - unat wb]"
      unfolding u(1) by blast
    have "map dat [0..<unat wb] @ map (\<lambda>i. dat (unat wb + i)) [0..<unat sz - unat wb] = map dat [0..<unat sz]"
      using u upt_add_eq_append [of 0 "unat wb" "unat sz - unat wb"] by (simp add: map_shift)
    moreover have "bufferadd_loop E dat sz st = Some st'"
      using s(1) st'(1) sint_pos [OF False less(3)] by (subst bufferadd_loop.simps) simp
    ultimately show ?thesis
      using s st' sink_only_trans [OF s(3) st'(3)] by (intro exI [of _ st']) simp
  qed
qed
text \<open>The contract between the buffer and the writers of samples.\<close>

fun add_all :: "((nat \<Rightarrow> u8) \<Rightarrow> u32 \<Rightarrow> 's \<Rightarrow> 's option) \<Rightarrow> ((nat \<Rightarrow> u8) \<times> u32) list \<Rightarrow> 's \<Rightarrow> 's option" where
  "add_all add [] s = Some s"
| "add_all add ((f, n) # bs) s = (case add f n s of None \<Rightarrow> None | Some s \<Rightarrow> add_all add bs s)"

locale byte_sink =
  fixes ok :: "'s \<Rightarrow> bool"
    and same :: "'s \<Rightarrow> 's \<Rightarrow> bool"
    and contents :: "'s \<Rightarrow> bytes"
    and add :: "(nat \<Rightarrow> u8) \<Rightarrow> u32 \<Rightarrow> 's \<Rightarrow> 's option"
  assumes add: "ok s \<Longrightarrow> unat n < 2 ^ 31 \<Longrightarrow> \<exists>s'. add f n s = Some s' \<and> ok s' \<and> same s s'
      \<and> contents s' = contents s @ map f [0..<unat n]"
    and same_refl: "same s s"
    and same_trans: "same s t \<Longrightarrow> same t u \<Longrightarrow> same s u"
begin

lemma add_all_appends:
  assumes "ok s" and "list_all (\<lambda>(f, n). unat n < 2 ^ 31) bs"
  shows "\<exists>s'. add_all add bs s = Some s' \<and> ok s' \<and> same s s'
    \<and> contents s' = contents s @ concat (map (\<lambda>(f, n). map f [0..<unat n]) bs)"
  using assms
proof (induction bs arbitrary: s)
  case Nil
  then show ?case by (simp add: same_refl)
next
  case (Cons b bs)
  obtain f n where b: "b = (f, n)" by (cases b)
  from add [of s n f] Cons.prems b obtain s1 where
    s1: "add f n s = Some s1" "ok s1" "same s s1" "contents s1 = contents s @ map f [0..<unat n]" by auto
  from Cons.IH [OF s1(2)] Cons.prems(2) obtain s' where
    s': "add_all add bs s1 = Some s'" "ok s'" "same s1 s'"
    "contents s' = contents s1 @ concat (map (\<lambda>(f, n). map f [0..<unat n]) bs)" by auto
  from same_trans [OF s1(3) s'(3)] s1 s' b show ?case by (intro exI [of _ s']) simp
qed

end

interpretation sink: byte_sink "sink_ok E D P" sink_only "view D P" "bufferadd_loop E"
  for E :: "'w muxer_env" and D P
  by unfold_locales (auto intro: bufferadd_loop_ok sink_only_trans)

text \<open>Nothing a flush or an addition does reaches the memory.\<close>

lemma error_ram: "muxer_videnc_error E g x st = Some st' \<Longrightarrow> ram st' = ram st"
  by (auto simp: muxer_videnc_error_def muxer_videnc_all_stop_def muxer_videnc_stop_def Let_def
      split: if_splits)

lemma flush_ram: "muxer_videnc_bufferflush E st = Some (r, st') \<Longrightarrow> ram st' = ram st"
  by (auto simp: muxer_videnc_bufferflush_def Let_def Option.bind_eq_Some_conv
      dest!: error_ram split: prod.splits if_splits)

lemma step_ram: "bufferadd_step E f n st = Some (wb, go, st') \<Longrightarrow> ram st' = ram st"
  by (auto simp: bufferadd_step_def Let_def Option.bind_eq_Some_conv dest!: flush_ram split: if_splits)

lemma loop_ram:
  assumes "bufferadd_loop E f n st = Some st'"
  shows "ram st' = ram st"
proof (rule bufferadd_loop.raw_induct [of "\<lambda>E f n st st'. ram st' = ram st", OF _ assms], goal_cases)
  case (1 loop E f n st st')
  then show ?case
    by (auto simp: Option.bind_eq_Some_conv dest!: step_ram split: if_splits) 
qed

text \<open>The bytes of NAL units in memory, each behind its size.\<close>

definition nal_blocks :: "mem \<Rightarrow> (nat option \<times> u32) list \<Rightarrow> ((nat \<Rightarrow> u8) \<times> u32) list" where
  "nal_blocks m ns =
     concat (map (\<lambda>(p, n). [(\<lambda>i. be32 n ! i, 4), (\<lambda>i. m (the p + i), n)]) ns)"

lemma add_nals_add_all:
  "list_all (\<lambda>(p, n). p \<noteq> None) ns \<Longrightarrow> add_nals E ns st = add_all (bufferadd_loop E) (nal_blocks (ram st) ns) st"
proof (induction ns arbitrary: st)
  case Nil
  then show ?case by (simp add: nal_blocks_def)
next
  case (Cons b ns)
  obtain p n where b: "b = (Some p, n)" using Cons.prems by (cases b) auto
  have w: "add_word E (vidswapSB32 n) st = bufferadd_loop E (\<lambda>i. be32 n ! i) 4 st"
    and m: "add_mem E (Some p) n st' = bufferadd_loop E (\<lambda>i. ram st' (p + i)) n st'" for st'
    by (simp_all add: add_word_def add_mem_def muxer_videnc_bufferadd_def)
  show ?case
  proof (cases "bufferadd_loop E (\<lambda>i. be32 n ! i) 4 st")
    case None
    then show ?thesis by (simp add: b w nal_blocks_def)
  next
    case (Some st1)
    note r1 = loop_ram [OF Some]
    show ?thesis
    proof (cases "bufferadd_loop E (\<lambda>i. ram st (p + i)) n st1")
      case None
      with Some r1 show ?thesis by (simp add: b w m nal_blocks_def)
    next
      case s2: (Some st2)
      from Cons r1 loop_ram [OF s2] Some s2 show ?thesis by (simp add: b w m nal_blocks_def)
    qed
  qed
qed

section \<open>Frames in Annex B form\<close>

text \<open>
  A frame as the encoder makes it: NAL units, each behind some zeros and a start code. A unit in front
  of another does not end in a zero and holds no start code; \<open>ls\<close> are the distances within which
  the recorder looks for the next start code, counted from the end of the one before.
\<close>

fun annexb :: "(nat \<times> bytes) list \<Rightarrow> bytes" where
  "annexb [] = []"
| "annexb ((z, x) # us) = replicate z 0 @ start_code @ x @ annexb us"

definition unit_ok :: "bytes \<Rightarrow> bool" where
  "unit_ok x \<longleftrightarrow> x \<noteq> [] \<and> last x \<noteq> 0 \<and> list_all (\<lambda>i. take 3 (drop i x) \<noteq> start_code) [0..<length x]"

fun units_ok :: "nat \<Rightarrow> int list \<Rightarrow> (nat \<times> bytes) list \<Rightarrow> bool" where
  "units_ok a (l # ls) ((z, x) # us) \<longleftrightarrow>
     int (a + z + 3) \<le> l \<and> (us \<noteq> [] \<longrightarrow> unit_ok x) \<and> units_ok (length x) ls us"
| "units_ok a [] [] \<longleftrightarrow> True"
| "units_ok a ls us \<longleftrightarrow> False"

lemma load_append:
  assumes "load m p (length (xs @ ys)) = xs @ ys"
  shows "load m p (length xs) = xs" and "load m (p + length xs) (length ys) = ys"
proof -
  have "load m p (length xs) @ load m (p + length xs) (length ys) = xs @ ys"
    using assms by (simp add: load_add)
  then show "load m p (length xs) = xs" "load m (p + length xs) (length ys) = ys"
    by (simp_all add: append_eq_append_conv)
qed

lemma length_start_code [simp]: "length start_code = 3"
  by (simp add: start_code_def)

text \<open>The search stops at the first start code behind a unit and its trailing zeros.\<close>

lemma no_start_before:
  assumes l: "load m p (length x + z + 3) = x @ replicate z 0 @ start_code"
    and x: "x = [] \<or> unit_ok x" and r: "r < length x + z"
  shows "load m (p + r) 3 \<noteq> start_code"
proof
  let ?y = "x @ replicate z 0 @ start_code"
  assume "load m (p + r) 3 = start_code"
  moreover have "load m (p + r) 3 = take 3 (drop r ?y)"
  proof -
    have "load m (p + r) 3 = take 3 (drop r (load m p (length x + z + 3)))"
      by (rule nth_equalityI) (use r in \<open>simp_all add: nth_load add.assoc\<close>)
    then show ?thesis using l by simp
  qed
  ultimately have t: "take 3 (drop r ?y) = start_code" by simp
  have at: "?y ! (r + i) = start_code ! i" if "i < 3" for i
  proof -
    have "take 3 (drop r ?y) ! i = ?y ! (r + i)"
      using that r by (simp add: nth_take nth_drop del: take_append drop_append)
    with t show ?thesis by simp
  qed
  have e: "?y ! r = 0" "?y ! (r + 1) = 0" "?y ! (r + 2) = 1"
    using at [of 0] at [of 1] at [of 2] by (simp_all add: start_code_def)
  consider "r + 3 \<le> length x" | "r + 1 = length x" | "r + 2 = length x" | "length x \<le> r" by linarith
  then show False
  proof cases
    case 1
    then have "take 3 (drop r x) = start_code" using t by simp
    moreover have "unit_ok x" "r < length x" using x 1 by auto
    ultimately show False by (auto simp: unit_ok_def list_all_iff)
  next
    case 2
    then have "x \<noteq> []" "?y ! r = last x" by (cases x rule: rev_cases; force simp: nth_append)+
    with e x show False by (auto simp: unit_ok_def)
  next
    case 3
    then have "x \<noteq> []" "?y ! (r + 1) = last x" by (cases x rule: rev_cases; force simp: nth_append)+
    with e x show False by (auto simp: unit_ok_def)
  next
    case 4
    with r have "?y ! (r + 2) = 0"
      by (auto simp: nth_append start_code_def nth_Cons split: nat.splits)
    with e show False by simp
  qed
qed

lemma memstr_hit:
  assumes "src \<noteq> 0" and "load m (src + d) 3 = start_code" and "int (d + 3) \<le> lim"
    and "\<And>r. r < d \<Longrightarrow> load m (src + r) 3 \<noteq> start_code"
  shows "enx_memstr m src lim start_code = Some (src + d + 3)"
proof (cases "enx_memstr m src lim start_code")
  case None
  then have "memstr_from m src (int src + lim - int (length start_code)) start_code = None"
    using assms(1) by (simp add: enx_memstr_def)
  from memstr_from_None [OF this] assms(2,3) show ?thesis by auto
next
  case (Some q)
  then have "memstr_from m src (int src + lim - int (length start_code)) start_code = Some q"
    using assms(1) by (simp add: enx_memstr_def)
  from memstr_from_Some [OF this] obtain r where r: "q = r + 3" "src \<le> r" "load m r 3 = start_code"
    "\<forall>r'. src \<le> r' \<and> r' < r \<longrightarrow> load m r' 3 \<noteq> start_code" by auto
  have "\<not> r < src + d" using assms(4) [of "r - src"] r(2,3) by (cases "r - src < d") auto
  moreover have "\<not> src + d < r" using r(4) assms(2) by auto
  ultimately show ?thesis using Some r(1) by simp
qed

lemma next_unit:
  assumes "load m p (length x + z + 3) = x @ replicate z 0 @ start_code"
    and "x = [] \<or> unit_ok x" and "int (length x + z + 3) \<le> lim" and "p \<noteq> 0"
  shows "enx_memstr m p lim start_code = Some (p + (length x + z + 3))"
proof -
  have "load m (p + (length x + z)) 3 = start_code"
    using load_append(2) [of m p "x @ replicate z 0" start_code] assms(1) by (simp add: add.assoc)
  from memstr_hit [OF assms(4) this _ no_start_before [OF assms(1,2)]] assms(3) show ?thesis
    by (simp add: add.assoc)
qed

lemma trim_zeros_unit:
  assumes "load m p (length x + z) = x @ replicate z 0" and "x \<noteq> []" "last x \<noteq> 0"
    and "length x + z < 2 ^ 32"
  shows "trim_zeros m p (of_nat (length x + z)) = Some (of_nat (length x))"
  using assms
proof (induction z)
  case 0
  have "m (p + (length x - 1)) = x ! (length x - 1)"
    using 0(1,2) nth_load [of "length x - 1" "length x" m p] by simp
  then have "m (p + (length x - 1)) \<noteq> 0" using 0(2,3) by (simp add: last_conv_nth)
  moreover have "unat (of_nat (length x) - 1 :: u32) = length x - 1"
    using 0(2,4) by (cases "length x") auto
  ultimately show ?case by (subst trim_zeros.simps) simp
next
  case (Suc z)
  have "m (p + (length x + z)) = (x @ replicate (Suc z) 0) ! (length x + z)"
    using Suc(2) nth_load [of "length x + z" "length x + Suc z" m p] by simp
  then have "m (p + (length x + z)) = 0"
    using nth_replicate [of z "Suc z" "0 :: u8"] by (simp add: nth_append del: nth_replicate)
  moreover have "unat (of_nat (length x + Suc z) - 1 :: u32) = length x + z"
  proof -
    have "of_nat (length x + Suc z) - 1 = (of_nat (length x + z) :: u32)" by simp
    then show ?thesis using Suc(5) unat_of_nat32 [of "length x + z"] by (simp only:) simp
  qed
  moreover have "load m p (length x + z) = x @ replicate z 0"
    using load_append(1) [of m p "x @ replicate z 0" "[0]"] Suc(2) by (simp add: replicate_append_same)
  then have "trim_zeros m p (of_nat (length x + z)) = Some (of_nat (length x))"
    using Suc by simp
  ultimately show ?case by (subst trim_zeros.simps) (simp add: add.assoc)
qed

text \<open>\<open>ns\<close> points at the units \<open>xs\<close> in memory.\<close>

definition points_at :: "mem \<Rightarrow> (nat option \<times> u32) list \<Rightarrow> bytes list \<Rightarrow> bool" where
  "points_at m ns xs \<longleftrightarrow> length ns = length xs \<and>
     (\<forall>i < length xs. \<exists>p. fst (ns ! i) = Some p \<and> unat (snd (ns ! i)) = length (xs ! i)
        \<and> load m p (length (xs ! i)) = xs ! i)"

lemma points_at_Nil [simp]: "points_at m [] []"
  by (simp add: points_at_def)

lemma points_at_Cons:
  "points_at m (pn # ns) (x # xs) \<longleftrightarrow>
     (\<exists>p n. pn = (Some p, n) \<and> unat n = length x \<and> load m p (length x) = x) \<and> points_at m ns xs"
  by (cases pn) (auto simp: points_at_def All_less_Suc2)

lemma points_at_ConsE:
  assumes "points_at m ns (x # xs)"
  obtains p n ns' where "ns = (Some p, n) # ns'" "unat n = length x" "load m p (length x) = x"
    "points_at m ns' xs"
proof -
  from assms obtain pn ns' where "ns = pn # ns'" by (cases ns) (auto simp: points_at_def)
  with assms that show thesis by (auto simp: points_at_Cons)
qed

lemma split_nals_units:
  assumes "load m p (length (x @ annexb us)) = x @ annexb us" and "us \<noteq> [] \<Longrightarrow> unit_ok x"
    and "units_ok (length x) ls us" and "k \<le> p" and "p \<noteq> 0"
    and "p + length (x @ annexb us) = k + unat n"
  shows "\<exists>ns. split_nals m k n p ls = Some ns \<and> points_at m ns (x # map snd us)"
  using assms
proof (induction ls arbitrary: p x us)
  case Nil
  then have us: "us = []" by (cases us) auto
  have "unat (n - of_nat (p - k)) = length x"
  proof -
    have l: "p - k + length x = unat n" using Nil us by simp
    then have u: "unat (of_nat (p - k) :: u32) = p - k" using unat_u32_less [of n] by simp
    moreover have "of_nat (p - k) \<le> n" using u l by (simp add: word_le_nat_alt)
    ultimately show ?thesis using l by (simp add: unat_sub)
  qed
  then show ?case using Nil us by (simp add: points_at_Cons)
next
  case (Cons l ls)
  then obtain z y us' where us: "us = (z, y) # us'" by (cases us) auto
  let ?d = "length x + z + 3"
  have ok: "unit_ok x" "int ?d \<le> l" "us' \<noteq> [] \<Longrightarrow> unit_ok y" "units_ok (length y) ls us'"
    using Cons.prems(2,3) us by auto
  have a: "length x + z + 3 + length (y @ annexb us') = length (x @ annexb us)" using us by simp
  have l1: "load m p ?d = x @ replicate z 0 @ start_code"
    using load_append(1) [of m p "x @ replicate z 0 @ start_code" "y @ annexb us'"] Cons.prems(1) us
    by (simp add: add.assoc)
  have l2: "load m (p + ?d) (length (y @ annexb us')) = y @ annexb us'"
    using load_append(2) [of m p "x @ replicate z 0 @ start_code" "y @ annexb us'"] Cons.prems(1) us
    by (simp add: add.assoc)
  have q: "enx_memstr m p l start_code = Some (p + ?d)"
    using next_unit [OF l1 disjI2 [OF ok(1)] ok(2) Cons.prems(5)] .
  have x: "x \<noteq> []" "last x \<noteq> 0" using ok(1) by (simp_all add: unit_ok_def)
  have l3: "load m p (length x + z) = x @ replicate z 0"
    using load_append(1) [of m p "x @ replicate z 0" start_code] l1 by (simp add: add.assoc)
  have lt: "length x + z < 2 ^ 32"
    using Cons.prems(4,6) a unat_u32_less [of n] by simp
  have t: "trim_zeros m p (of_nat (p + ?d - p - 3)) = Some (of_nat (length x))"
    using trim_zeros_unit [OF l3 x lt] by simp
  have len: "p + ?d + length (y @ annexb us') = k + unat n" using Cons.prems(6) a by simp
  from Cons.IH [OF l2 ok(3,4) _ _ len] Cons.prems(4) obtain ns where
    ns: "split_nals m k n (p + ?d) ls = Some ns" "points_at m ns (y # map snd us')" by auto
  have "points_at m ((Some p, of_nat (length x)) # ns) (x # map snd us)"
    using ns(2) us lt load_append(1) [of m p x "replicate z 0"] l3 by (simp add: points_at_Cons)
  with q t ns(1) show ?case by (intro exI conjI) (simp_all del: of_nat_add)
qed

lemma frame_nals_units:
  assumes "load m k (unat n) = annexb us" and "units_ok 0 (32 # ls) us" and "k \<noteq> 0"
  shows "\<exists>ns. frame_nals m k n ls = Some ns \<and> points_at m ns (map snd us)"
proof -
  obtain z x us' where us: "us = (z, x) # us'" using assms(2) by (cases us) auto
  have len: "unat n = length (annexb us)" using assms(1) length_load by metis
  have l1: "load m k (z + 3) = replicate z 0 @ start_code"
    and l2: "load m (k + (z + 3)) (length (x @ annexb us')) = x @ annexb us'"
    using load_append [of m k "replicate z 0 @ start_code" "x @ annexb us'"] assms(1) len us
    by (simp_all add: add.assoc)
  have q: "enx_memstr m k 32 start_code = Some (k + (z + 3))"
    using next_unit [of m k "[]" z 32] l1 assms(2,3) us by simp
  have "\<exists>ns. split_nals m k n (k + (z + 3)) ls = Some ns \<and> points_at m ns (x # map snd us')"
    by (rule split_nals_units [OF l2]) (use assms(2,3) us len in auto)
  then show ?thesis using q us by (simp add: frame_nals_def)
qed

section \<open>Samples\<close>

text \<open>An MP4 sample: every NAL unit behind its length.\<close>

definition avcc :: "bytes list \<Rightarrow> bytes" where
  "avcc xs = concat (map (\<lambda>x. be32 (of_nat (length x)) @ x) xs)"

lemma map_nth_be32: "map ((!) (be32 n)) [0..<4] = be32 n"
  using map_nth [of "be32 n"] by simp

lemma nal_blocks_Cons:
  "nal_blocks m ((p, n) # ns) = (\<lambda>i. be32 n ! i, 4) # (\<lambda>i. m (the p + i), n) # nal_blocks m ns"
  by (simp add: nal_blocks_def)

lemma load_map: "map (\<lambda>i. m (p + i)) [0..<n] = load m p n"
  by (rule nth_equalityI) (simp_all add: nth_load)

lemma nal_blocks_avcc:
  assumes "points_at m ns xs"
  shows "concat (map (\<lambda>(f, n). map f [0..<unat n]) (nal_blocks m ns)) = avcc xs"
    and "nals_size ns = of_nat (length (avcc xs))"
    and "list_all (\<lambda>(p, n). p \<noteq> None) ns"
    and "list_all (\<lambda>x. length x < 2 ^ 31) xs \<Longrightarrow> list_all (\<lambda>(f, n). unat n < 2 ^ 31) (nal_blocks m ns)"
  using assms
proof (induction xs arbitrary: ns)
  case Nil
  { case 1 then show ?case by (simp add: nal_blocks_def avcc_def points_at_def) }
  { case 2 then show ?case by (simp add: nals_size_def avcc_def points_at_def) }
  { case 3 then show ?case by (simp add: points_at_def) }
  { case 4 then show ?case by (simp add: nal_blocks_def points_at_def) }
next
  case (Cons x xs)
  have ex: "\<exists>p n ns'. ns = (Some p, n) # ns' \<and> n = of_nat (length x) \<and> unat n = length x
      \<and> load m p (length x) = x \<and> points_at m ns' xs" if "points_at m ns (x # xs)" for ns
    using that by (elim points_at_ConsE) (metis of_nat_unat ucast_id)
  { case 1 from ex [OF 1] Cons.IH(1) show ?case
      by (auto simp: nal_blocks_Cons avcc_def map_nth_be32 load_map) }
  { case 2 from ex [OF 2] Cons.IH(2) show ?case
      by (auto simp: nals_size_def avcc_def) }
  { case 3 from ex [OF 3] Cons.IH(3) show ?case by auto }
  { case 4 from ex [OF 4(2)] Cons.IH(4) 4(1) show ?case by (auto simp: nal_blocks_Cons) }
qed

lemma add_nals_ok:
  assumes "sink_ok E D P st" and "points_at (ram st) ns xs" and "list_all (\<lambda>x. length x < 2 ^ 31) xs"
  shows "\<exists>st'. add_nals E ns st = Some st' \<and> sink_ok E D P st' \<and> sink_only st st'
    \<and> view D P st' = view D P st @ avcc xs"
  unfolding add_nals_add_all [OF nal_blocks_avcc(3) [OF assms(2)]]
  using sink.add_all_appends [OF assms(1) nal_blocks_avcc(4) [OF assms(2,3)]]
  unfolding nal_blocks_avcc(1) [OF assms(2)] .

section \<open>Tables\<close>

text \<open>The first \<open>n\<close> entries of a heap array are the values \<open>vs\<close> in network order.\<close>

definition tab :: "u32 list \<Rightarrow> u32 \<Rightarrow> nat list \<Rightarrow> bool" where
  "tab arr n vs \<longleftrightarrow> n = of_nat (length vs) \<and> length vs \<le> length arr \<and> length arr < 2 ^ 32
     \<and> take (length vs) arr = map (vidswapSB32 \<circ> of_nat) vs"

lemma tab_put:
  assumes "tab arr n vs" and "length vs < length arr"
  shows "put_at arr n (vidswapSB32 (of_nat v)) = Some (arr[length vs := vidswapSB32 (of_nat v)])"
    and "tab (arr[length vs := vidswapSB32 (of_nat v)]) (n + 1) (vs @ [v])"
proof -
  have "unat n = length vs" using assms by (simp add: tab_def)
  with assms(2) show "put_at arr n (vidswapSB32 (of_nat v)) = Some (arr[length vs := vidswapSB32 (of_nat v)])"
    by (simp add: put_at_def)
  show "tab (arr[length vs := vidswapSB32 (of_nat v)]) (n + 1) (vs @ [v])"
    using assms by (simp add: tab_def take_Suc_conv_app_nth)
qed

text \<open>The samples of a file, with the places where they lie behind a header of \<open>o\<close> bytes.\<close>

datatype sample = Video (is_key: bool) (sbytes: bytes) | Audio (sbytes: bytes)

fun is_video :: "sample \<Rightarrow> bool" where
  "is_video (Video k x) = True"
| "is_video (Audio x) = False"

fun placed :: "nat \<Rightarrow> sample list \<Rightarrow> (nat \<times> sample) list" where
  "placed p [] = []"
| "placed p (s # S) = (p, s) # placed (p + length (sbytes s)) S"

definition payload :: "sample list \<Rightarrow> bytes" where
  "payload S = concat (map sbytes S)"

definition videos :: "nat \<Rightarrow> sample list \<Rightarrow> (nat \<times> sample) list" where
  "videos h S = filter (\<lambda>(p, s). is_video s) (placed h S)"

definition audios :: "nat \<Rightarrow> sample list \<Rightarrow> (nat \<times> sample) list" where
  "audios h S = filter (\<lambda>(p, s). \<not> is_video s) (placed h S)"

definition key_numbers :: "(nat \<times> sample) list \<Rightarrow> nat list" where
  "key_numbers V = map Suc (filter (\<lambda>i. is_key (snd (V ! i))) [0..<length V])"

lemma placed_append: "placed p (S @ [s]) = placed p S @ [(p + length (payload S), s)]"
  by (induction S arbitrary: p) (auto simp: payload_def add.assoc)

lemma payload_append [simp]: "payload (S @ [s]) = payload S @ sbytes s"
  by (simp add: payload_def)

lemma videos_append:
  "videos h (S @ [Video k x]) = videos h S @ [(h + length (payload S), Video k x)]"
  "videos h (S @ [Audio x]) = videos h S"
  "audios h (S @ [Video k x]) = audios h S"
  "audios h (S @ [Audio x]) = audios h S @ [(h + length (payload S), Audio x)]"
  by (simp_all add: videos_def audios_def placed_append)

lemma key_numbers_append:
  "key_numbers (V @ [(p, s)]) = key_numbers V @ (if is_key s then [Suc (length V)] else [])"
proof -
  have "filter (\<lambda>i. is_key (snd ((V @ [(p, s)]) ! i))) [0..<length V]
      = filter (\<lambda>i. is_key (snd (V ! i))) [0..<length V]"
    by (rule filter_cong) (auto simp: nth_append)
  then show ?thesis by (simp add: key_numbers_def)
qed

text \<open>A placed sample is found in the file at its place.\<close>

lemma placed_slice:
  "(q, s) \<in> set (placed (length hdr) S) \<Longrightarrow>
   take (length (sbytes s)) (drop q (hdr @ payload S)) = sbytes s"
proof (induction S arbitrary: hdr)
  case Nil
  then show ?case by simp
next
  case (Cons t S)
  show ?case
  proof (cases "(q, s) = (length hdr, t)")
    case True
    then show ?thesis by (simp add: payload_def)
  next
    case False
    then have "(q, s) \<in> set (placed (length (hdr @ sbytes t)) S)" using Cons.prems by auto
    from Cons.IH [OF this] show ?thesis by (simp add: payload_def)
  qed
qed

section \<open>The layout of a file being written\<close>

text \<open>
  Behind a header \<open>hdr\<close> the file and the buffer hold the samples \<open>S\<close>; the counters and the tables
  say how many they are, how long, and where.
\<close>

definition tables :: "nat \<Rightarrow> sample list \<Rightarrow> t_videnc_totalbuf_t \<Rightarrow> bool" where
  "tables h S b \<longleftrightarrow>
     tab (stss (Vstbl b)) (stss_len (Vstbl b)) (key_numbers (videos h S))
     \<and> tab (stsz (Vstbl b)) (stsz_len (Vstbl b)) (map (\<lambda>(p, s). length (sbytes s)) (videos h S))
     \<and> tab (stco (Vstbl b)) (stco_len (Vstbl b)) (map fst (videos h S))
     \<and> tab (stco (Astbl b)) (stco_len (Astbl b)) (map fst (audios h S))
     \<and> stss_len (Astbl b) = 0 \<and> stsz_len (Astbl b) = of_nat (length (audios h S))"

definition counters :: "nat \<Rightarrow> sample list \<Rightarrow> t_mp4_t \<Rightarrow> bool" where
  "counters h S v \<longleftrightarrow> un32vidscount v = of_nat (length (videos h S))
     \<and> un32audscount v = of_nat (length (audios h S)) \<and> mdat_size v = of_nat (length (payload S))"

definition layout :: "('w \<Rightarrow> bytes) \<Rightarrow> ('w \<Rightarrow> nat) \<Rightarrow> bytes \<Rightarrow> sample list \<Rightarrow> 'w recorder \<Rightarrow> bool" where
  "layout D P hdr S st \<longleftrightarrow> view D P st = hdr @ payload S \<and> length hdr = unat (hdr_size (tbuf st))
     \<and> tables (length hdr) S (tbuf st) \<and> counters (length hdr) S (info st)"

text \<open>The room in the tables, which nothing but a change of the save time alters.\<close>

definition room :: "t_videnc_totalbuf_t \<Rightarrow> nat" where
  "room b = min (length (stss (Vstbl b))) (min (length (stsz (Vstbl b))) (length (stco (Vstbl b))))"

definition room_audio :: "t_videnc_totalbuf_t \<Rightarrow> nat" where
  "room_audio b = min (length (stsz (Astbl b))) (length (stco (Astbl b)))"

definition keep :: "'w recorder \<Rightarrow>
  (VIDENC_STATE \<times> sbuf_t \<times> nat \<times> u32 \<times> bool) \<times> (u32 \<times> u32 \<times> nat \<times> nat \<times> nat) \<times> mp4_env
    \<times> (nat \<Rightarrow> u32) \<times> u32" where
  "keep st = ((vstate (pvid st), sbuf (pvid st), v_type (info st), un32vidsmax (info st), bSdVidSave st),
     (total (tbuf st), hdr_size (tbuf st), hdr_info (tbuf st), room (tbuf st), room_audio (tbuf st)), menv st,
     nFps st, nVidenc_Fps_old st)"

lemma sink_only_keep: "sink_only st st' \<Longrightarrow> keep st' = keep st"
  by (simp add: keep_def room_def room_audio_def sink_only_fields)

lemma length_key_numbers: "length (key_numbers V) \<le> length V"
  using length_filter_le [of "\<lambda>i. is_key (snd (V ! i))" "[0..<length V]"] by (simp add: key_numbers_def)

lemma layout_sink_only:
  "sink_only st st' \<Longrightarrow> layout D P hdr S st' \<longleftrightarrow> view D P st' = hdr @ payload S
     \<and> length hdr = unat (hdr_size (tbuf st)) \<and> tables (length hdr) S (tbuf st) \<and> counters (length hdr) S (info st)"
  by (simp add: layout_def tables_def counters_def sink_only_fields)

text \<open>Entering a video sample of which the bytes are already written.\<close>

lemma put_video_entry_ok:
  assumes h: "length hdr = unat (hdr_size (tbuf st))"
    and t: "tables (length hdr) S (tbuf st)"
    and n: "un32vidscount (info st) = of_nat (Suc (length (videos (length hdr) S)))"
    and c0: "mdat_size (info st) = of_nat (length (payload S))"
    and r: "length (videos (length hdr) S) < room (tbuf st)"
  shows "\<exists>T. put_video_entry key (of_nat (length x)) st =
      Some (set_info (\<lambda>v. v\<lparr>mdat_size := mdat_size v + of_nat (length x)\<rparr>) (set_buf (\<lambda>b. b\<lparr>Vstbl := T\<rparr>) st))
    \<and> tables (length hdr) (S @ [Video key x]) ((tbuf st)\<lparr>Vstbl := T\<rparr>)
    \<and> room ((tbuf st)\<lparr>Vstbl := T\<rparr>) = room (tbuf st)"
proof -
  let ?V = "videos (length hdr) S"
  let ?T = "Vstbl (tbuf st)"
  define T1 where "T1 = (if key then ?T\<lparr>stss := (stss ?T)[length (key_numbers ?V) := vidswapSB32 (of_nat (Suc (length ?V)))],
    stss_len := stss_len ?T + 1\<rparr> else ?T)"
  define T where "T = T1\<lparr>stsz := (stsz ?T)[length ?V := vidswapSB32 (of_nat (length x))], stsz_len := stsz_len ?T + 1,
    stco := (stco ?T)[length ?V := vidswapSB32 (of_nat (length hdr + length (payload S)))], stco_len := stco_len ?T + 1\<rparr>"
  have tabs: "tab (stss ?T) (stss_len ?T) (key_numbers ?V)"
    "tab (stsz ?T) (stsz_len ?T) (map (\<lambda>(p, s). length (sbytes s)) ?V)"
    "tab (stco ?T) (stco_len ?T) (map fst ?V)"
    using t by (simp_all add: tables_def)
  have l: "length (key_numbers ?V) < length (stss ?T)" "length ?V < length (stsz ?T)" "length ?V < length (stco ?T)"
    using r length_key_numbers [of ?V] by (auto simp: room_def)
  have k: "(if key then put_stss (un32vidscount (info st)) ?T else Some ?T) = Some T1"
    using tab_put(1) [OF tabs(1) l(1), of "Suc (length ?V)"] n by (simp add: put_stss_def T1_def)
  have z: "put_stsz (of_nat (length x)) T1 = Some (T1\<lparr>stsz := (stsz ?T)[length ?V := vidswapSB32 (of_nat (length x))],
      stsz_len := stsz_len ?T + 1\<rparr>)"
    using tab_put(1) [OF tabs(2), of "length x"] l(2) by (simp add: put_stsz_def T1_def)
  have off: "mdat_size (info st) + hdr_size (tbuf st) = of_nat (length hdr + length (payload S))"
    using c0 h by (simp add: add.commute)
  have o: "put_stco (mdat_size (info st) + hdr_size (tbuf st)) (T1\<lparr>stsz := y, stsz_len := z\<rparr>) =
      Some (T1\<lparr>stsz := y, stsz_len := z,
        stco := (stco ?T)[length ?V := vidswapSB32 (of_nat (length hdr + length (payload S)))], stco_len := stco_len ?T + 1\<rparr>)"
    for y z
    unfolding off using tab_put(1) [OF tabs(3), of "length hdr + length (payload S)"] l(3)
    by (simp add: put_stco_def T1_def)
  have "put_video_entry key (of_nat (length x)) st =
      Some (set_info (\<lambda>v. v\<lparr>mdat_size := mdat_size v + of_nat (length x)\<rparr>) (set_buf (\<lambda>b. b\<lparr>Vstbl := T\<rparr>) st))"
    by (simp add: put_video_entry_def k z o T_def)
  moreover have "tables (length hdr) (S @ [Video key x]) ((tbuf st)\<lparr>Vstbl := T\<rparr>)"
    using t tab_put(2) [OF tabs(1) l(1), of "Suc (length ?V)"] tab_put(2) [OF tabs(2), of "length x"]
      tab_put(2) [OF tabs(3), of "length hdr + length (payload S)"] l(2,3)
    by (simp add: tables_def videos_append key_numbers_append T_def T1_def)
  moreover have "room ((tbuf st)\<lparr>Vstbl := T\<rparr>) = room (tbuf st)"
    by (simp add: room_def T_def T1_def)
  ultimately show ?thesis by blast
qed

section \<open>Parameter sets\<close>

text \<open>The parameter sets of a key frame fit the arrays of \<open>t_mp4_t\<close>.\<close>

fun sets_fit :: "stream \<Rightarrow> bytes list \<Rightarrow> bool" where
  "sets_fit H264_STREAM (sps # pps # xs) \<longleftrightarrow> length sps \<le> 64 \<and> length pps \<le> 8"
| "sets_fit H265_STREAM (vps # sps # pps # xs) \<longleftrightarrow> length vps \<le> 32 \<and> length sps \<le> 64 \<and> length pps \<le> 8"
| "sets_fit s xs \<longleftrightarrow> False"

text \<open>They are what the header then holds.\<close>

fun sets_kept :: "stream \<Rightarrow> bytes list \<Rightarrow> t_mp4_t \<Rightarrow> bool" where
  "sets_kept H264_STREAM (sps # pps # xs) v \<longleftrightarrow>
     take (unat (sps_size v)) (sps_data v) = sps \<and> take (unat (pps_size v)) (pps_data v) = pps"
| "sets_kept H265_STREAM (vps # sps # pps # xs) v \<longleftrightarrow> take (unat (vps_size v)) (vps_data v) = vps
     \<and> take (unat (sps_size v)) (sps_data v) = sps \<and> take (unat (pps_size v)) (pps_data v) = pps"
| "sets_kept s xs v \<longleftrightarrow> False"

lemma copy_nal_ok:
  assumes "unat n = length x" and "load m p (length x) = x" and "length x \<le> length old" and "length old \<le> 64"
  shows "copy_nal m (Some p, n) old = Some (of_nat (length x), overwrite old 0 x)"
    and "unat (of_nat (length x) :: u16) = length x"
    and "length (overwrite old 0 x) = length old"
    and "take (length x) (overwrite old 0 x) = x"
proof -
  show u: "unat (of_nat (length x) :: u16) = length x"
    using assms(3,4) by (simp add: unat_of_nat)
  have "ucast n = (of_nat (length x) :: u16)"
    by (simp only: assms(1) [symmetric] of_nat_unat)
  moreover have "(of_nat (length x) :: u16) = 0 \<longleftrightarrow> x = []"
    unfolding unat_0_iff [symmetric] u by simp
  ultimately show "copy_nal m (Some p, n) old = Some (of_nat (length x), overwrite old 0 x)"
    using assms u by (auto simp: copy_nal_def Let_def overwrite_def)
  show "length (overwrite old 0 x) = length old" "take (length x) (overwrite old 0 x) = x"
    using assms by (simp_all add: overwrite_def)
qed

definition no_sets :: "t_mp4_t \<Rightarrow> t_mp4_t" where
  "no_sets v = v\<lparr>vps_size := 0, sps_size := 0, pps_size := 0, vps_data := [], sps_data := [], pps_data := []\<rparr>"

lemma no_sets_fields:
  assumes "no_sets v = no_sets w"
  shows "mdat_size v = mdat_size w" "un32vidscount v = un32vidscount w" "un32audscount v = un32audscount w"
    "un32vidsmax v = un32vidsmax w" "v_type v = v_type w"
  using arg_cong [OF assms, of mdat_size] arg_cong [OF assms, of un32vidscount]
    arg_cong [OF assms, of un32audscount] arg_cong [OF assms, of un32vidsmax] arg_cong [OF assms, of v_type]
  by (simp_all add: no_sets_def)

lemma keep_sets_ok:
  assumes p: "points_at m ns xs" and f: "sets_fit s xs" and v: "vid_ok v"
  shows "\<exists>v'. keep_sets m s ns v = Some v' \<and> vid_ok v' \<and> sets_kept s xs v' \<and> no_sets v' = no_sets v"
proof -
  have L: "length (vps_data v) = 32" "length (sps_data v) = 64" "length (pps_data v) = 8"
    using v by (simp_all add: vid_ok_def)
  consider sps pps zs where "s = H264_STREAM" "xs = sps # pps # zs" "length sps \<le> 64" "length pps \<le> 8"
    | vps sps pps zs where "s = H265_STREAM" "xs = vps # sps # pps # zs"
        "length vps \<le> 32" "length sps \<le> 64" "length pps \<le> 8"
    using f by (cases "(s, xs)" rule: sets_fit.cases) auto
  then show ?thesis
  proof cases
    case 1
    then obtain a i b j ns' where ns: "ns = (Some a, i) # (Some b, j) # ns'"
      "unat i = length sps" "load m a (length sps) = sps" "unat j = length pps" "load m b (length pps) = pps"
      using p unfolding 1(2) by (elim points_at_ConsE) blast
    note c1 = copy_nal_ok [OF ns(2,3), of "sps_data v"]
    note c2 = copy_nal_ok [OF ns(4,5), of "pps_data v"]
    let ?v = "v\<lparr>sps_size := of_nat (length sps), sps_data := overwrite (sps_data v) 0 sps,
      pps_size := of_nat (length pps), pps_data := overwrite (pps_data v) 0 pps\<rparr>"
    have "keep_sets m s ns v = Some ?v"
      using 1 ns(1) c1(1) c2(1) L by (simp add: keep_sets_def)
    moreover have "vid_ok ?v" "sets_kept s xs ?v"
      using v 1 c1(2,3,4) c2(2,3,4) L by (simp_all add: vid_ok_def)
    moreover have "no_sets ?v = no_sets v" by (simp add: no_sets_def)
    ultimately show ?thesis by blast
  next
    case 2
    then obtain a i b j d l ns' where ns: "ns = (Some d, l) # (Some a, i) # (Some b, j) # ns'"
      "unat i = length sps" "load m a (length sps) = sps" "unat j = length pps" "load m b (length pps) = pps"
      "unat l = length vps" "load m d (length vps) = vps"
      using p unfolding 2(2) by (elim points_at_ConsE) blast
    note c1 = copy_nal_ok [OF ns(2,3), of "sps_data v"]
    note c2 = copy_nal_ok [OF ns(4,5), of "pps_data v"]
    note c3 = copy_nal_ok [OF ns(6,7), of "vps_data v"]
    let ?v = "v\<lparr>vps_size := of_nat (length vps), vps_data := overwrite (vps_data v) 0 vps,
      sps_size := of_nat (length sps), sps_data := overwrite (sps_data v) 0 sps,
      pps_size := of_nat (length pps), pps_data := overwrite (pps_data v) 0 pps\<rparr>"
    have "keep_sets m s ns v = Some ?v"
      using 2 ns(1) c1(1) c2(1) c3(1) L by (simp add: keep_sets_def)
    moreover have "vid_ok ?v" "sets_kept s xs ?v"
      using v 2 c1(2,3,4) c2(2,3,4) c3(2,3,4) L by (simp_all add: vid_ok_def)
    moreover have "no_sets ?v = no_sets v" by (simp add: no_sets_def)
    ultimately show ?thesis by blast
  qed
qed

section \<open>Writing a frame\<close>

definition video_type :: "stream \<Rightarrow> u32 \<Rightarrow> bool" where
  "video_type s ty \<longleftrightarrow>
     s = H264_STREAM \<and> (ty = av_code eSTREAMMSG_H264I \<or> ty = av_code eSTREAMMSG_H264P)
     \<or> s = H265_STREAM \<and> (ty = av_code eSTREAMMSG_H265I \<or> ty = av_code eSTREAMMSG_H265P)"

text \<open>The descriptor \<open>d\<close> is that of a frame of the NAL units \<open>us\<close>.\<close>

definition frame_in :: "mem \<Rightarrow> t_block_t \<Rightarrow> stream \<Rightarrow> (nat \<times> bytes) list \<Rightarrow> bool" where
  "frame_in m d s us \<longleftrightarrow> video_type s (b_type d) \<and> b_addr d \<noteq> 0 \<and> unat (b_size d) < 2 ^ 31
     \<and> load m (unat (b_addr d)) (unat (b_size d)) = annexb us
     \<and> units_ok 0 (32 # nal_limits s (b_flags d)) us"

definition frame_sample :: "t_block_t \<Rightarrow> (nat \<times> bytes) list \<Rightarrow> sample" where
  "frame_sample d us = Video (b_flags d \<noteq> 0) (avcc (map snd us))"

definition psets :: "t_mp4_t \<Rightarrow> (u16 \<times> u16 \<times> u16) \<times> bytes \<times> bytes \<times> bytes" where
  "psets v = ((vps_size v, sps_size v, pps_size v), vps_data v, sps_data v, pps_data v)"

lemma sets_kept_cong: "psets v = psets w \<Longrightarrow> sets_kept s xs v = sets_kept s xs w"
  by (cases "(s, xs, v)" rule: sets_kept.cases) (simp_all add: psets_def)

lemma vid_ok_cong: "psets v = psets w \<Longrightarrow> vid_ok v = vid_ok w"
  by (simp add: psets_def vid_ok_def)

lemma length_annexb: "u \<in> set us \<Longrightarrow> length (snd u) \<le> length (annexb us)"
  by (induction us rule: annexb.induct) auto

lemma count_frame_codes:
  "count_frame (av_code eSTREAMMSG_H264I) v = (Some H264_STREAM,
     v\<lparr>un32vidicount := un32vidicount v + 1, un32vidscount := un32vidscount v + 1\<rparr>)"
  "count_frame (av_code eSTREAMMSG_H264P) v = (Some H264_STREAM, v\<lparr>un32vidscount := un32vidscount v + 1\<rparr>)"
  "count_frame (av_code eSTREAMMSG_H265I) v = (Some H265_STREAM,
     v\<lparr>un32vidicount := un32vidicount v + 1, un32vidscount := un32vidscount v + 1\<rparr>)"
  "count_frame (av_code eSTREAMMSG_H265P) v = (Some H265_STREAM, v\<lparr>un32vidscount := un32vidscount v + 1\<rparr>)"
  by (simp_all add: count_frame_def)

lemma count_frame_video:
  assumes "video_type s ty"
  obtains w where "count_frame ty v = (Some s, w)" "un32vidscount w = un32vidscount v + 1"
    "un32audscount w = un32audscount v" "mdat_size w = mdat_size v" "un32vidsmax w = un32vidsmax v"
    "v_type w = v_type v" "psets w = psets v"
proof -
  from assms consider "s = H264_STREAM" "ty = av_code eSTREAMMSG_H264I" | "s = H264_STREAM" "ty = av_code eSTREAMMSG_H264P"
    | "s = H265_STREAM" "ty = av_code eSTREAMMSG_H265I" | "s = H265_STREAM" "ty = av_code eSTREAMMSG_H265P"
    unfolding video_type_def by blast
  then show thesis
    by cases (rule that [of "snd (count_frame ty v)"]; simp only: count_frame_codes psets_def; simp)+
qed

text \<open>The first key frame of a file, whose parameter sets are kept.\<close>

definition first_key :: "'w recorder \<Rightarrow> bool" where
  "first_key st \<longleftrightarrow> vstate (pvid st) = VIDENC_FIRST_NEXT \<and> b_flags (datablock (pvid st)) \<noteq> 0"

lemma write_video_ok:
  assumes ok: "sink_ok E D P st" and lay: "layout D P hdr S st" and v: "vid_ok (info st)"
    and d: "b_state (datablock (pvid st)) = 1" "frame_in (ram st) (datablock (pvid st)) s us"
    and r: "length (videos (length hdr) S) < room (tbuf st)"
    and f: "first_key st \<Longrightarrow> sets_fit s (map snd us)"
  shows "\<exists>st'. muxer_videnc_write E st = Some st' \<and> sink_ok E D P st'
    \<and> layout D P hdr (S @ [frame_sample (datablock (pvid st)) us]) st' \<and> vid_ok (info st')
    \<and> keep st' = keep st \<and> (if first_key st then sets_kept s (map snd us) (info st')
                             else psets (info st') = psets (info st))"
proof -
  let ?d = "datablock (pvid st)" and ?xs = "map snd us"
  let ?key = "b_flags ?d \<noteq> 0" and ?x = "avcc (map snd us)"
  have fr: "video_type s (b_type ?d)" "b_addr ?d \<noteq> 0" "unat (b_size ?d) < 2 ^ 31"
    "load (ram st) (unat (b_addr ?d)) (unat (b_size ?d)) = annexb us"
    "units_ok 0 (32 # nal_limits s (b_flags ?d)) us"
    using d(2) by (simp_all add: frame_in_def)
  obtain w where cf: "count_frame (b_type ?d) (info st) = (Some s, w)"
    "un32vidscount w = un32vidscount (info st) + 1" "un32audscount w = un32audscount (info st)"
    "mdat_size w = mdat_size (info st)" "un32vidsmax w = un32vidsmax (info st)"
    "v_type w = v_type (info st)" "psets w = psets (info st)"
    using count_frame_video [OF fr(1)] by blast
  let ?st1 = "set_info (\<lambda>_. w) st"
  have k: "unat (b_addr ?d) \<noteq> 0" using fr(2) by (simp add: unat_0_iff)
  obtain ns where ns: "frame_nals (ram st) (unat (b_addr ?d)) (b_size ?d) (nal_limits s (b_flags ?d)) = Some ns"
    "points_at (ram st) ns ?xs"
    using frame_nals_units [OF fr(4,5) k] by blast
  have "length (annexb us) = unat (b_size ?d)"
    using fr(4) length_load by metis
  then have small: "list_all (\<lambda>x. length x < 2 ^ 31) ?xs"
    using length_annexb [of _ us] fr(3) by (force simp: list_all_iff)
  have ok1: "sink_ok E D P ?st1" using ok by (simp add: sink_ok_def)
  obtain st2 where st2: "add_nals E ns ?st1 = Some st2" "sink_ok E D P st2" "sink_only ?st1 st2"
    "view D P st2 = view D P st @ ?x"
    using add_nals_ok [OF ok1 _ small, of ns] ns(2) by (auto simp: view_def)
  note F = sink_only_fields [OF st2(3)]
  have L: "length hdr = unat (hdr_size (tbuf st))" "tables (length hdr) S (tbuf st)"
    "counters (length hdr) S (info st)" "view D P st = hdr @ payload S"
    using lay unfolding layout_def by blast+
  have "length hdr = unat (hdr_size (tbuf st2))" using L(1) F by simp
  moreover have "tables (length hdr) S (tbuf st2)" using L(2) F by (simp add: tables_def)
  moreover have "un32vidscount (info st2) = of_nat (Suc (length (videos (length hdr) S)))"
    using L(3) F cf by (simp add: counters_def)
  moreover have "mdat_size (info st2) = of_nat (length (payload S))"
    using L(3) F cf by (simp add: counters_def)
  moreover have "length (videos (length hdr) S) < room (tbuf st2)"
    using r F by (simp add: room_def)
  ultimately obtain T where T: "put_video_entry ?key (of_nat (length ?x)) st2 =
      Some (set_info (\<lambda>v. v\<lparr>mdat_size := mdat_size v + of_nat (length ?x)\<rparr>) (set_buf (\<lambda>b. b\<lparr>Vstbl := T\<rparr>) st2))"
    "tables (length hdr) (S @ [Video ?key ?x]) ((tbuf st2)\<lparr>Vstbl := T\<rparr>)"
    "room ((tbuf st2)\<lparr>Vstbl := T\<rparr>) = room (tbuf st2)"
    using put_video_entry_ok by blast
  let ?st3 = "set_info (\<lambda>v. v\<lparr>mdat_size := mdat_size v + of_nat (length ?x)\<rparr>) (set_buf (\<lambda>b. b\<lparr>Vstbl := T\<rparr>) st2)"
  have p3: "psets (info ?st3) = psets (info st)" using F(13) cf(7) by (simp add: psets_def)
  then have v3: "vid_ok (info ?st3)" using v vid_ok_cong by blast
  have "\<exists>v'. (if first_key st then keep_sets (ram st) s ns (info ?st3) = Some v' else v' = info ?st3)
      \<and> vid_ok v' \<and> (if first_key st then sets_kept s ?xs v' else psets v' = psets (info st))
      \<and> no_sets v' = no_sets (info ?st3)"
  proof (cases "first_key st")
    case True
    with keep_sets_ok [OF ns(2) f v3] show ?thesis by simp
  next
    case False
    with v3 p3 show ?thesis by (intro exI [of _ "info ?st3"]) simp
  qed
  then obtain v' where v': "if first_key st then keep_sets (ram st) s ns (info ?st3) = Some v' else v' = info ?st3"
    "vid_ok v'" "if first_key st then sets_kept s ?xs v' else psets v' = psets (info st)"
    "no_sets v' = no_sets (info ?st3)"
    by blast
  note V = no_sets_fields [OF v'(4)]
  let ?st4 = "set_vid (\<lambda>v. v\<lparr>vidinfo := v', datablock := zero_block\<rparr>) ?st3"
  have fk: "?key \<and> vstate (pvid ?st3) = VIDENC_FIRST_NEXT \<longleftrightarrow> first_key st"
    using F(14) by (auto simp: first_key_def)
  have "write_video E s ?st1 = (if ?key \<and> vstate (pvid ?st3) = VIDENC_FIRST_NEXT
      then do { v \<leftarrow> keep_sets (ram ?st3) s ns (info ?st3); Some (set_info (\<lambda>_. v) ?st3) } else Some ?st3)"
    by (simp add: write_video_def ns(1) st2(1) T(1) nal_blocks_avcc(2) [OF ns(2)] del: not_gr_zero)
  also have "\<dots> = Some (set_info (\<lambda>_. v') ?st3)"
    using v'(1) F(1) unfolding fk by (cases "first_key st") simp_all
  finally have "write_video E s ?st1 = Some (set_info (\<lambda>_. v') ?st3)" .
  moreover have "s = H264_STREAM \<or> s = H265_STREAM" using fr(1) by (auto simp: video_type_def)
  ultimately have "muxer_videnc_write E st = Some ?st4"
    using d(1) cf by (simp add: muxer_videnc_write_def muxer_videnc_write_process_def zero_block_def)
  moreover have "sink_ok E D P ?st4" using st2(2) by (simp add: sink_ok_def buf_ok_def)
  moreover have "layout D P hdr (S @ [frame_sample ?d us]) ?st4"
    using st2(4) L(1,3,4) T(2) F V cf
    by (simp add: layout_def view_def frame_sample_def counters_def videos_append tables_def)
  moreover have "keep ?st4 = keep st"
    using F T(3) V cf by (simp add: keep_def room_def room_audio_def)
  ultimately show ?thesis using v'(2,3) by (intro exI [of _ ?st4]) simp
qed

definition audio_in :: "t_block_t \<Rightarrow> bool" where
  "audio_in d \<longleftrightarrow> b_type d = av_code eSTREAMMSG_AUDIO \<and> b_addr d \<noteq> 0 \<and> unat (b_size d) < 2 ^ 31"

lemma write_audio_ok:
  assumes ok: "sink_ok E D P st" and lay: "layout D P hdr S st" and v: "vid_ok (info st)"
    and d: "b_state (datablock (pvid st)) = 1" "audio_in (datablock (pvid st))"
    and r: "length (audios (length hdr) S) < room_audio (tbuf st)"
  defines "x \<equiv> load (ram st) (unat (b_addr (datablock (pvid st)))) (unat (b_size (datablock (pvid st))))"
  shows "\<exists>st'. muxer_videnc_write E st = Some st' \<and> sink_ok E D P st'
    \<and> layout D P hdr (S @ [Audio x]) st' \<and> vid_ok (info st') \<and> keep st' = keep st
    \<and> psets (info st') = psets (info st)"
proof -
  let ?d = "datablock (pvid st)"
  let ?A = "audios (length hdr) S"
  have L: "length hdr = unat (hdr_size (tbuf st))" "tables (length hdr) S (tbuf st)"
    "counters (length hdr) S (info st)" "view D P st = hdr @ payload S"
    using lay unfolding layout_def by blast+
  let ?st1 = "set_info (\<lambda>v. v\<lparr>un32audscount := un32audscount v + 1\<rparr>) st"
  have cf: "count_frame (b_type ?d) (info st) = (Some G711_STREAM, info ?st1)"
    using d(2) by (simp add: audio_in_def count_frame_def)
  have ok1: "sink_ok E D P ?st1" using ok by (simp add: sink_ok_def)
  obtain st2 where st2: "bufferadd_loop E (\<lambda>i. ram st (unat (b_addr ?d) + i)) (b_size ?d) ?st1 = Some st2"
    "sink_ok E D P st2" "sink_only ?st1 st2" "view D P st2 = view D P st @ x"
    using bufferadd_loop_ok [OF ok1, of "b_size ?d" "\<lambda>i. ram st (unat (b_addr ?d) + i)"] d(2)
    by (auto simp: audio_in_def x_def load_map view_def)
  note F = sink_only_fields [OF st2(3)]
  let ?T = "Astbl (tbuf st)"
  have t: "tab (stco ?T) (stco_len ?T) (map fst ?A)" using L(2) by (simp add: tables_def)
  have l: "length (map fst ?A) < length (stco ?T)" using r by (simp add: room_audio_def)
  let ?o = "length hdr + length (payload S)"
  let ?T' = "?T\<lparr>stco := (stco ?T)[length ?A := vidswapSB32 (of_nat ?o)], stco_len := stco_len ?T + 1\<rparr>"
  have "mdat_size (info st2) + hdr_size (tbuf st2) = of_nat ?o"
    using L(1,3) F by (simp add: counters_def add.commute)
  then have o: "put_stco (mdat_size (info st2) + hdr_size (tbuf st2)) (Astbl (tbuf st2)) = Some ?T'"
    using tab_put(1) [OF t l, of ?o] F by (simp add: put_stco_def)
  have len: "length x = unat (b_size ?d)" by (simp add: x_def)
  have add: "add_mem E (if b_addr ?d = 0 then None else Some (unat (b_addr ?d))) (b_size ?d) ?st1 = Some st2"
    using st2(1) d(2) by (simp add: add_mem_def muxer_videnc_bufferadd_def audio_in_def)
  let ?st4 = "set_vid (\<lambda>v. v\<lparr>vidinfo := (vidinfo v)\<lparr>mdat_size := mdat_size (vidinfo v) + b_size ?d\<rparr>, datablock := zero_block\<rparr>)
    (set_buf (\<lambda>b. b\<lparr>Astbl := ?T'\<lparr>stsz_len := stsz_len ?T + 1\<rparr>\<rparr>) st2)"
  have "write_audio E ?st1 =
      Some (set_info (\<lambda>v. v\<lparr>mdat_size := mdat_size v + b_size ?d\<rparr>)
        (set_buf (\<lambda>b. b\<lparr>Astbl := ?T'\<lparr>stsz_len := stsz_len ?T + 1\<rparr>\<rparr>) st2))"
    using add o by (simp add: write_audio_def)
  then have "muxer_videnc_write E st = Some ?st4"
    using d(1) cf by (simp add: muxer_videnc_write_def muxer_videnc_write_process_def zero_block_def)
  moreover have "sink_ok E D P ?st4" using st2(2) by (simp add: sink_ok_def buf_ok_def)
  moreover have "layout D P hdr (S @ [Audio x]) ?st4"
    using st2(4) L F tab_put(2) [OF t l, of ?o] len
    by (simp add: layout_def view_def counters_def videos_append tables_def)
  moreover have "keep ?st4 = keep st"
    using F by (simp add: keep_def room_def room_audio_def)
  moreover have "psets (info ?st4) = psets (info st)" using F by (simp add: psets_def)
  moreover from this have "vid_ok (info ?st4)" using v vid_ok_cong by blast
  ultimately show ?thesis by (intro exI [of _ ?st4]) simp
qed

section \<open>Opening a file\<close>

text \<open>The write buffer is allocated, whatever it holds.\<close>

definition buf_there :: "t_videnc_totalbuf_t \<Rightarrow> bool" where
  "buf_there b \<longleftrightarrow> base b = 0 \<and> length (wbuf b) = unat (total b) \<and> total b \<noteq> 0"

lemma error_tbuf: "muxer_videnc_error E g x st = Some st' \<Longrightarrow> tbuf st' = tbuf st \<and> info st' = info st"
  by (auto simp: muxer_videnc_error_def muxer_videnc_all_stop_def muxer_videnc_stop_def Let_def
      split: if_splits)

text \<open>What opening and closing leave alone: the queue, the settings, the mode.\<close>

definition user :: "'w recorder \<Rightarrow> sbuf_t \<times> bool \<times> (nat \<Rightarrow> u32) \<times> nat \<times> u32 \<times> u32" where
  "user st = (sbuf (pvid st), bSdVidSave st, nFps st, v_type (info st), rec_type (pvid st), nVidenc_Mode_now st)"

lemma user_cong:
  "user a = user b \<longleftrightarrow> sbuf (pvid a) = sbuf (pvid b) \<and> bSdVidSave a = bSdVidSave b \<and> nFps a = nFps b
     \<and> v_type (info a) = v_type (info b) \<and> rec_type (pvid a) = rec_type (pvid b)
     \<and> nVidenc_Mode_now a = nVidenc_Mode_now b"
  by (simp add: user_def)

lemma sink_only_user: "sink_only a b \<Longrightarrow> user b = user a"
  by (simp add: user_def sink_only_fields)

lemma delete_loop_fields:
  "delete_loop F nMax cnt nFree e w = (n, e', w') \<Longrightarrow>
   vidinfo e' = vidinfo e \<and> vstate e' = vstate e \<and> sbuf e' = sbuf e \<and> rec_type e' = rec_type e"
proof (induction F nMax cnt nFree e w rule: delete_loop.induct)
  case (1 F nMax cnt nFree e w)
  then show ?case
    by (subst (asm) (2) delete_loop.simps) (auto simp: Let_def split: if_splits prod.splits)
qed

text \<open>If opening succeeds, it ends in \<open>start_file\<close> on an empty position of the file.\<close>

lemma open_True:
  assumes c: "card_ok (fs E) D P" and o: "muxer_videnc_open E st = Some (True, st1)"
  shows "\<exists>st'. start_file E st' = Some (True, st1) \<and> tbuf st' = tbuf st \<and> P (disk st') = 0
    \<and> info st' = info st \<and> vstate (pvid st') = vstate (pvid st) \<and> ram st' = ram st \<and> menv st' = menv st
    \<and> nVidenc_Fps_old st' = nVidenc_Fps_old st \<and> user st' = user st"
proof -
  have fail: "muxer_videnc_fail E e s \<noteq> Some (True, s')" for e s s'
    by (auto simp: muxer_videnc_fail_def)
  have enter: "\<exists>h w. (P (disk s) = 0 \<longrightarrow> P w = 0) \<and> start_file E (s\<lparr>pvid := (pvid s)\<lparr>filenamelist := h\<rparr>, disk := w\<rparr>) = Some (True, st1)"
    if e: "enter_name E s = Some (True, st1)" for s
  proof -
    obtain r h where q: "encHeap_addQueue (filenamelist (pvid s)) (now_name (pvid s)) = (r, h)"
      by (metis surj_pair)
    have u: "P (snd (f_unlink (fs E) p w)) = P w" for p w using c by (simp add: card_ok_def)
    show ?thesis
    proof (cases "r = 1")
      case True
      let ?w = "snd (f_unlink (fs E) (file_path (pvid s) (filename (delHData h))) (disk s))"
      let ?h = "h\<lparr>delHData := zeroHData\<rparr>"
      have "start_file E (s\<lparr>pvid := (pvid s)\<lparr>filenamelist := ?h\<rparr>, disk := ?w\<rparr>) = Some (True, st1)"
        using e fail by (simp add: enter_name_def q True Let_def split: if_splits)
      with u show ?thesis by (intro exI [of _ ?h] exI [of _ ?w]) simp
    next
      case False
      then have "start_file E (s\<lparr>pvid := (pvid s)\<lparr>filenamelist := h\<rparr>, disk := disk s\<rparr>) = Some (True, st1)"
        using e by (simp add: enter_name_def q Let_def)
      then show ?thesis by (intro exI [of _ h] exI [of _ "disk s"]) simp
    qed
  qed
  obtain n e w where d: "videnc_info_file_delete (fs E) (of_nat MAX_FILE_NUM) (pvid st) (disk st) = (n, e, w)"
    by (metis prod_cases3)
  have df: "vidinfo e = info st" "vstate e = vstate (pvid st)" "sbuf e = sbuf (pvid st)" "rec_type e = rec_type (pvid st)"
    using delete_loop_fields [OF d [unfolded videnc_info_file_delete_def]] by simp_all
  let ?v = "videnc_info_file_getname (localtime E (TIME (menv st))) e"
  obtain r1 w1 where f1: "f_open (fs E) (file_path ?v (now_name ?v)) w = (r1, w1)" by (metis surj_pair)
  obtain r2 w2 where f2: "f_expand (fs E) FAT_SDSAVE_FREE_ALLOC_SIZE w1 = (r2, w2)" by (metis surj_pair)
  have "P w1 = 0" "P w2 = P w1"
    using c f1 f2 unfolding card_ok_def by (metis snd_conv)+
  moreover have "enter_name E (st\<lparr>pvid := ?v, disk := w2\<rparr>) = Some (True, st1)"
    using o d f1 f2 fail by (auto simp: muxer_videnc_open_def Let_def split: if_splits)
  ultimately show ?thesis
    using enter [of "st\<lparr>pvid := ?v, disk := w2\<rparr>"] df
    by (auto simp: videnc_info_file_getname_def user_def)
qed

lemma write_header_fields:
  "\<exists>m' n. mp4_write_header e v b m = (m', b\<lparr>hdr_len := n\<rparr>, hdr_info b)"
  by (simp add: mp4_write_header_def Let_def split_beta) blast

definition arrays_small :: "t_videnc_totalbuf_t \<Rightarrow> bool" where
  "arrays_small b \<longleftrightarrow> list_all (\<lambda>ws. length ws < 2 ^ 32)
     [stss (Vstbl b), stsz (Vstbl b), stco (Vstbl b), stss (Astbl b), stsz (Astbl b), stco (Astbl b)]"

lemma tab_Nil: "length arr < 2 ^ 32 \<Longrightarrow> tab arr 0 []"
  by (simp add: tab_def)

lemma malloc_small:
  assumes "length ws < 2 ^ 32"
  shows "length (snd (videnc_info_init_item_malloc A ws n)) < 2 ^ 32"
  using assms unat_u32_less [of n] div_le_dividend [of "unat n" 4]
  by (auto simp: videnc_info_init_item_malloc_def Let_def)

lemma savetime_fields:
  assumes "set_savetime E f st = st'"
  shows "psets (info st') = psets (info st)" "vstate (pvid st') = vstate (pvid st)"
    "disk st' = disk st" "ram st' = ram st" "menv st' = menv st" "wbuf (tbuf st') = wbuf (tbuf st)"
    "base (tbuf st') = base (tbuf st)" "total (tbuf st') = total (tbuf st)"
    "buf (tbuf st') = buf (tbuf st)" "blength (tbuf st') = blength (tbuf st)"
    "hdr_info (tbuf st) \<noteq> 0 \<Longrightarrow> hdr_info (tbuf st') = hdr_info (tbuf st) \<and> hdr_size (tbuf st') = hdr_size (tbuf st)"
    "arrays_small (tbuf st) \<Longrightarrow> arrays_small (tbuf st')" "user st' = user st"
  unfolding assms [symmetric]
  by (simp_all add: user_def set_savetime_def videnc_info_init_savetime_def savetime_limits_def savetime_tables_def
      psets_def arrays_small_def grow_stbl_def clear_stbl_def malloc_small [simplified] Let_def)

lemma savetime_start_fields:
  assumes "change_savetime_start E st = (f, st')"
  shows "psets (info st') = psets (info st)" "vstate (pvid st') = vstate (pvid st)"
    "disk st' = disk st" "ram st' = ram st" "menv st' = menv st" "wbuf (tbuf st') = wbuf (tbuf st)"
    "base (tbuf st') = base (tbuf st)" "total (tbuf st') = total (tbuf st)"
    "buf (tbuf st') = buf (tbuf st)" "blength (tbuf st') = blength (tbuf st)"
    "hdr_info (tbuf st) \<noteq> 0 \<Longrightarrow> hdr_info (tbuf st') = hdr_info (tbuf st) \<and> hdr_size (tbuf st') = hdr_size (tbuf st)"
    "arrays_small (tbuf st) \<Longrightarrow> arrays_small (tbuf st')" "nVidenc_Fps_old st' = 30"
    "user st' = user st" "nVidenc_Fps_old st = 30 \<Longrightarrow> room (tbuf st') = room (tbuf st) \<and> room_audio (tbuf st') = room_audio (tbuf st)"
  using assms savetime_fields [where E = E and f = 30 and st = "st\<lparr>nVidenc_Fps_old := 30\<rparr>", OF refl]
  by (auto simp: change_savetime_start_def set_savetime_def user_def split: if_splits prod.splits)

lemma start_file_ok:
  assumes c: "card_ok (fs E) D P" and b: "buf_there (tbuf st)" "hdr_info (tbuf st) \<noteq> 0"
    "unat (hdr_size (tbuf st)) < 2 ^ 31" "arrays_small (tbuf st)"
    and o: "vstate (pvid st) = VIDENC_OPEN" and p: "P (disk st) = 0" and v: "vid_ok (info st)"
  shows "\<exists>st1 hdr. start_file E st = Some (True, st1) \<and> sink_ok E D P st1 \<and> layout D P hdr [] st1
    \<and> vstate (pvid st1) = VIDENC_FIRST \<and> vid_ok (info st1) \<and> menv st1 = menv st
    \<and> total (tbuf st1) = total (tbuf st) \<and> hdr_size (tbuf st1) = hdr_size (tbuf st)
    \<and> hdr_info (tbuf st1) = hdr_info (tbuf st)
    \<and> nVidenc_Fps_old st1 = 30 \<and> nVidenc_Mode_old st1 = nVidenc_Mode_now st
    \<and> user (st1\<lparr>nVidenc_Mode_now := nVidenc_Mode_now st\<rparr>) = user st
    \<and> nVidenc_Mode_now st1 = rec_type (pvid st)
    \<and> (nVidenc_Fps_old st = 30 \<longrightarrow> room (tbuf st1) = room (tbuf st) \<and> room_audio (tbuf st1) = room_audio (tbuf st))"
proof -
  let ?st0 = "set_buf (\<lambda>b. b\<lparr>buf := base b, blength := 0\<rparr>) (set_vid (\<lambda>v. v\<lparr>filesize := 0\<rparr>) st)"
  obtain f st2 where cs: "change_savetime_start E ?st0 = (f, st2)" by (metis surj_pair)
  note S = savetime_start_fields [OF cs]
  obtain w h where wh: "resolution ?st0 (v_type (info ?st0)) = (w, h)" by (metis surj_pair)
  let ?st3 = "set_buf (\<lambda>b. b\<lparr>Vstbl := clear_stbl (Vstbl b), Astbl := clear_stbl (Astbl b)\<rparr>)
    (set_info (\<lambda>v. v\<lparr>f_fps := f, i_width := w, i_height := h, un32vidicount := 0,
                   un32vidscount := 0, un32audscount := 0, un32txtscount := 0, mdat_size := 0\<rparr>) st2)"
  let ?m = "store (ram ?st3) (hdr_info (tbuf ?st3)) (replicate (unat (hdr_size (tbuf ?st3))) 0)"
  obtain m n where wr: "mp4_write_header (menv ?st3) (info ?st3) (tbuf ?st3) ?m =
      (m, (tbuf ?st3)\<lparr>hdr_len := n\<rparr>, hdr_info (tbuf ?st3))"
    using write_header_fields by blast
  let ?st4 = "?st3\<lparr>ram := m, tbuf := (tbuf ?st3)\<lparr>hdr_len := n\<rparr>\<rparr>"
  have H: "hdr_info (tbuf st2) = hdr_info (tbuf st)" "hdr_size (tbuf st2) = hdr_size (tbuf st)"
    using S(11) b(2) by simp_all
  have mk: "muxer_videnc_makevidheader E ?st0 = Some (hdr_info (tbuf st), ?st4)"
    using o b(2) cs wh wr H by (simp add: muxer_videnc_makevidheader_def build_header_def Let_def)
  have ok: "sink_ok E D P ?st4"
    using c b(1) p S by (auto simp: sink_ok_def buf_ok_def buf_there_def word_gt_0)
  obtain st5 where st5: "add_mem E (Some (hdr_info (tbuf st))) (hdr_size (tbuf ?st4)) ?st4 = Some st5"
    "sink_ok E D P st5" "sink_only ?st4 st5" "view D P st5 = view D P ?st4 @ load m (hdr_info (tbuf st)) (unat (hdr_size (tbuf st)))"
    using bufferadd_loop_ok [OF ok, of "hdr_size (tbuf st)" "\<lambda>i. m (hdr_info (tbuf st) + i)"] b(3) H
    by (auto simp: add_mem_def muxer_videnc_bufferadd_def load_map)
  note F = sink_only_fields [OF st5(3)]
  let ?hdr = "load m (hdr_info (tbuf st)) (unat (hdr_size (tbuf st)))"
  let ?st6 = "(set_state VIDENC_FIRST st5)\<lparr>nVidenc_Mode_old := nVidenc_Mode_now st5, nVidenc_Mode_now := rec_type (pvid st5)\<rparr>"
  have ah: "add_header E ?st0 = Some st5"
    using mk b(2) st5(1) by (simp add: add_header_def)
  have start: "start_file E st = Some (True, ?st6)"
    using ah by (simp add: start_file_def)
  have v0: "view D P ?st4 = []" using p S by (simp add: view_def)
  have arr: "arrays_small (tbuf st2)" using S(12) b(4) by (simp add: arrays_small_def)
  have lay: "layout D P ?hdr [] ?st6"
    using st5(4) v0 F H arr
    by (simp add: layout_def view_def payload_def tables_def counters_def videos_def audios_def key_numbers_def
        clear_stbl_def tab_Nil arrays_small_def)
  have "psets (info ?st6) = psets (info st)" using F(13) S(1) by (simp add: psets_def)
  then have "vid_ok (info ?st6)" using v vid_ok_cong by blast
  moreover have "user (?st6\<lparr>nVidenc_Mode_now := nVidenc_Mode_now st\<rparr>) = user st" "rec_type (pvid st5) = rec_type (pvid st)"
      "nVidenc_Mode_now st5 = nVidenc_Mode_now st"
    using F S(14) by (simp_all add: user_def)
  moreover have "nVidenc_Fps_old st = 30 \<longrightarrow> room (tbuf ?st6) = room (tbuf st) \<and> room_audio (tbuf ?st6) = room_audio (tbuf st)"
    using F S(15) by (simp add: room_def room_audio_def clear_stbl_def)
  ultimately show ?thesis using start lay st5(2) F(2,11,14,19-21) S(5,8,13) H
    by (intro exI [of _ ?st6] exI [of _ ?hdr]) (simp add: sink_ok_def)
qed

section \<open>Closing a file\<close>

text \<open>What fits the buffer stays there.\<close>

lemma bufferadd_fits:
  assumes b: "buf_ok (tbuf st)" "blength (tbuf st) = 0" and sz: "sz < total (tbuf st)" "0 < sz" "unat sz < 2 ^ 31"
  shows "\<exists>st'. bufferadd_loop E dat sz st = Some st' \<and> disk st' = disk st \<and> sink_only st st'
    \<and> buf_ok (tbuf st') \<and> blength (tbuf st') = sz
    \<and> take (unat sz) (wbuf (tbuf st')) = map dat [0..<unat sz]"
proof -
  let ?b = "tbuf st"
  let ?x = "overwrite (wbuf ?b) (buf ?b) (map dat [0..<unat sz])"
  let ?st = "set_vid (\<lambda>v. v\<lparr>filesize := filesize v + sz\<rparr>)
    (st\<lparr>tbuf := ?b\<lparr>wbuf := ?x, blength := blength ?b + sz, buf := buf ?b + unat sz\<rparr>\<rparr>)"
  have "\<not> total ?b \<le> sz" "sz \<noteq> total ?b" using sz(1) by auto
  then have "bufferadd_step E dat sz st = Some (sz, True, ?st)"
    using b by (simp add: bufferadd_step_def Let_def)
  moreover have "bufferadd_loop E dat' 0 st' = Some st'" for dat' st'
    by (subst bufferadd_loop.simps) simp
  moreover have "0 < sint sz" using sint_pos [of sz] sz(2,3) by (simp add: word_gt_0)
  ultimately have "bufferadd_loop E dat sz st = Some ?st"
    by (subst bufferadd_loop.simps) simp
  moreover have "unat sz \<le> length (wbuf ?b)" using b sz(1) by (simp add: buf_ok_def word_less_nat_alt)
  ultimately show ?thesis
    using b sink_only_copy [where st = st and f = "filesize (pvid st) + sz" and x = ?x and z = "blength ?b + sz" and y = "buf ?b + unat sz"]
    by (intro exI [of _ ?st]) (simp add: buf_ok_def take_overwrite)
qed

text \<open>The header that a file is closed with.\<close>

definition final_info :: "t_mp4_t \<Rightarrow> t_mp4_t" where
  "final_info v = v\<lparr>mp4_option := counts_option v\<rparr>"

definition header_room :: "'w recorder \<Rightarrow> bool" where
  "header_room st \<longleftrightarrow> hdr_info (tbuf st) \<noteq> 0 \<and> unat (hdr_size (tbuf st)) < 2 ^ 31
     \<and> hdr_size (tbuf st) < total (tbuf st) \<and> header_ok (menv st) (final_info (info st)) (tbuf st)"

text \<open>A header depends on the tables and the size of its buffer only.\<close>

lemma box_entry_but_t: "box_entry (e\<lparr>but_t := b\<rparr>) vid = box_entry e vid"
  by (simp add: box_entry_def visual_entry_def box_avcc_def box_hvcc_def cong: VideoCodec.case_cong)

lemma boxes_but_t:
  "box_mvhd (e\<lparr>but_t := b\<rparr>) = box_mvhd e"
  "Vstbl b = Vstbl (but_t e) \<Longrightarrow> Astbl b = Astbl (but_t e) \<Longrightarrow> traks (e\<lparr>but_t := b\<rparr>) = traks e"
  by (simp_all add: traks_def box_trak_def box_tkhd_def box_edts_def box_mdhd_def box_stbl_def
      box_entry_but_t box_stts_def box_stss_def box_stsz_def box_stco_def track_duration_def box_mvhd_def movie_duration_def mp4_time_def has_audio_def)

lemma header_env_but_t:
  "header_env e v b' = (header_env e v b)\<lparr>but_t := b'\<lparr>hdr_len := 32\<rparr>\<rparr>"
  by (simp add: header_env_def mp4_init_header_build_def)

lemma header_cong:
  assumes "Vstbl b' = Vstbl b" "Astbl b' = Astbl b" "hdr_size b' = hdr_size b" "hdr_info b' = hdr_info b"
  shows "header_ok e v b' = header_ok e v b" and "header_bytes e v b' m = header_bytes e v b m"
proof -
  let ?E = "header_env e v b" and ?E' = "header_env e v b'"
  have "traks ?E' = traks ?E" "box_mvhd ?E' = box_mvhd ?E"
    using boxes_but_t [where e = ?E and b = "b'\<lparr>hdr_len := 32\<rparr>"] assms header_env_but_t [of e v b' b] by simp_all
  then have "moov_used ?E' = moov_used ?E" and m: "box_moov ?E' x = box_moov ?E x" for x
    by (simp_all add: moov_used_def box_moov_def)
  then show "header_ok e v b' = header_ok e v b" and "header_bytes e v b' m = header_bytes e v b m"
    using assms by (simp_all add: header_ok_def moov_fits_def header_bytes_def header_boxes_def moov_pad_def Let_def)
qed

lemma close_ok:
  assumes ok: "sink_ok E D P st" and lay: "layout D P hdr S st"
    and s: "vstate (pvid st) = VIDENC_CLOSE \<or> vstate (pvid st) = VIDENC_EXIT"
    and h: "header_room st" and lim: "length (hdr @ payload S) < 2 ^ 32"
  shows "\<exists>st' m. muxer_videnc_close E st = Some st' \<and> vstate (pvid st') = VIDENC_IDLE
    \<and> D (disk st') = header_bytes (menv st) (final_info (info st)) (tbuf st) m @ payload S
    \<and> info st' = final_info (info st) \<and> Vstbl (tbuf st') = Vstbl (tbuf st) \<and> Astbl (tbuf st') = Astbl (tbuf st)
    \<and> menv st' = menv st \<and> user st' = user st"
proof -
  have c: "card_ok (fs E) D P" using ok by (simp add: sink_ok_def)
  have L: "length hdr = unat (hdr_size (tbuf st))" "view D P st = hdr @ payload S"
    "mdat_size (info st) = of_nat (length (payload S))"
    using lay by (simp_all add: layout_def counters_def)
  let ?n = "length (hdr @ payload S)"
  have flush: "\<exists>st'. muxer_videnc_bufferflush E st0 = Some (FR_OK, st') \<and> view D P st' = view D P st0
    \<and> sink_only st0 st' \<and> sink_ok E D P st' \<and> blength (tbuf st') = 0" if "sink_ok E D P st0" for st0
    using that by (intro flush_ok) (auto simp: sink_ok_def word_gt_0)
  obtain st1 where st1: "muxer_videnc_bufferflush E st = Some (FR_OK, st1)" "view D P st1 = hdr @ payload S"
    "sink_only st st1" "sink_ok E D P st1" "blength (tbuf st1) = 0"
    using flush [OF ok] L(2) by auto
  note F1 = sink_only_fields [OF st1(3)]
  have p1: "P (disk st1) = ?n" "take ?n (D (disk st1)) = hdr @ payload S"
  proof -
    have "take (P (disk st1)) (D (disk st1)) = hdr @ payload S" "P (disk st1) \<le> length (D (disk st1))"
      using st1(2,4,5) by (simp_all add: view_def sink_ok_def)
    then show "P (disk st1) = ?n" "take ?n (D (disk st1)) = hdr @ payload S"
      by (metis length_take min.absorb2)+
  qed
  let ?w2 = "set_f_size (fs E) (hdr_size (tbuf st1) + mdat_size (info st1)) (disk st1)"
  let ?st2 = "(set_vid (\<lambda>v. v\<lparr>filesize := f_tell (fs E) (disk st1)\<rparr>) st1)\<lparr>disk := ?w2\<rparr>"
  have "unat (hdr_size (tbuf st1) + mdat_size (info st1)) = ?n"
  proof -
    have "hdr_size (tbuf st1) + mdat_size (info st1) = of_nat ?n"
      using F1 L(1,3) by (simp add: of_nat_add)
    then show ?thesis using lim unat_of_nat32 [of ?n] by simp
  qed
  then have d2: "D ?w2 = hdr @ payload S" "P ?w2 = ?n"
    using c p1 by (simp_all add: card_ok_def)
  let ?i = "final_info (info st)"
  obtain m n where wr: "mp4_write_header (menv st) ?i (tbuf st1) (ram st) = (m, (tbuf st1)\<lparr>hdr_len := n\<rparr>, hdr_info (tbuf st1))"
    using write_header_fields by blast
  have ho: "header_ok (menv st) ?i (tbuf st1)"
    using h F1 header_cong(1) [of "tbuf st1" "tbuf st"] by (simp add: header_room_def)
  have hb: "load m (hdr_info (tbuf st)) (unat (hdr_size (tbuf st))) = header_bytes (menv st) ?i (tbuf st1) (ram st)"
    using write_header_store [OF ho, of "ram st"] wr F1 length_header_bytes [OF ho, of "ram st"]
    by (simp add: load_store_same)
  let ?st3 = "(set_info final_info ?st2)\<lparr>ram := m, tbuf := (tbuf st1)\<lparr>hdr_len := n\<rparr>\<rparr>"
  have mk: "muxer_videnc_makevidheader E ?st2 = Some (hdr_info (tbuf st), ?st3)"
  proof -
    have "muxer_videnc_makevidheader E s0 = build_header (set_info final_info s0)"
      if "vstate (pvid s0) = VIDENC_CLOSE \<or> vstate (pvid s0) = VIDENC_EXIT" for s0
      using that by (auto simp: muxer_videnc_makevidheader_def final_info_def)
    from this [of ?st2] have "muxer_videnc_makevidheader E ?st2 = build_header (set_info final_info ?st2)"
      using s F1(14) by simp
    also have "\<dots> = Some (hdr_info (tbuf st), ?st3)"
      using h F1(1,2,13,21) wr by (simp add: build_header_def header_room_def)
    finally show ?thesis .
  qed
  have z: "0 < hdr_size (tbuf st)"
    using h by (auto simp: header_room_def header_ok_def moov_fits_def word_gt_0 split: if_splits)
  have b3: "buf_ok (tbuf ?st3)" "blength (tbuf ?st3) = 0"
    using st1(4,5) by (simp_all add: sink_ok_def buf_ok_def)
  obtain st4 where st4: "bufferadd_loop E (\<lambda>i. m (hdr_info (tbuf st) + i)) (hdr_size (tbuf st)) ?st3 = Some st4"
    "disk st4 = ?w2" "sink_only ?st3 st4" "buf_ok (tbuf st4)" "blength (tbuf st4) = hdr_size (tbuf st)"
    "take (unat (hdr_size (tbuf st))) (wbuf (tbuf st4)) = load m (hdr_info (tbuf st)) (unat (hdr_size (tbuf st)))"
    using bufferadd_fits [OF b3, of "hdr_size (tbuf st)" E "\<lambda>i. m (hdr_info (tbuf st) + i)"] h z F1
    by (auto simp: header_room_def load_map)
  note F4 = sink_only_fields [OF st4(3)]
  have ah: "add_header E ?st2 = Some st4"
    using mk st4(1) h F1 by (simp add: add_header_def add_mem_def muxer_videnc_bufferadd_def header_room_def)
  let ?w5 = "f_lseek (fs E) 0 (disk st4)"
  let ?st5 = "st4\<lparr>disk := ?w5\<rparr>"
  have w5: "P ?w5 = 0" "D ?w5 = hdr @ payload S" using c d2 st4(2) by (simp_all add: card_ok_def)
  have ok5: "sink_ok E D P ?st5"
    using c st4(4,5) w5 F4 F1 h by (simp add: sink_ok_def header_room_def)
  let ?H = "header_bytes (menv st) ?i (tbuf st1) (ram st)"
  obtain st6 where st6: "muxer_videnc_bufferflush E ?st5 = Some (FR_OK, st6)" "sink_only ?st5 st6"
    "D (disk st6) = ?H @ payload S"
  proof -
    obtain st6 where f: "muxer_videnc_bufferflush E ?st5 = Some (FR_OK, st6)" "sink_only ?st5 st6"
      using flush [OF ok5] by blast
    obtain w where w: "f_write (fs E) ?H ?w5 = (FR_OK, of_nat (length ?H), w)" "D w = overwrite (D ?w5) (P ?w5) ?H"
      using c w5 unfolding card_ok_def by (metis le0)
    have "take (unat (blength (tbuf ?st5))) (drop (base (tbuf ?st5)) (wbuf (tbuf ?st5))) = ?H"
      using st4(4,5,6) hb by (simp add: buf_ok_def)
    then have "disk st6 = w"
      using f(1) w(1) c by (auto simp: muxer_videnc_bufferflush_def card_ok_def Let_def Option.bind_eq_Some_conv
        split: if_splits)
    with w(2) w5 L(1) length_header_bytes [OF ho, of "ram st"] F1 have "D (disk st6) = ?H @ payload S"
      by (simp add: overwrite_def)
    with f that show thesis by blast
  qed
  note F6 = sink_only_fields [OF st6(2)]
  let ?st' = "(set_state VIDENC_IDLE (st6\<lparr>disk := snd (f_close (fs E) (disk st6))\<rparr>))\<lparr>enc_ing := False\<rparr>"
  have "muxer_videnc_close E st = Some ?st'"
    using st1(1) ah st6(1) by (simp add: muxer_videnc_close_def muxer_videnc_bufferadd_def)
  moreover have "D (disk ?st') = ?H @ payload S" using c st6(3) by (simp add: card_ok_def)
  moreover have "?H = header_bytes (menv st) ?i (tbuf st) (ram st)"
    using F1 header_cong(2) [of "tbuf st1" "tbuf st"] by simp
  moreover have "user ?st' = user st"
    using sink_only_user [OF st1(3)] sink_only_user [OF st4(3)] sink_only_user [OF st6(2)]
    by (simp add: user_def final_info_def)
  ultimately show ?thesis using F1(2,13,22,23) F4(2,13,22,23) F6(2,13,22,23)
    by (intro exI [of _ ?st'] exI [of _ "ram st"]) simp
qed

section \<open>Room for the header\<close>

lemma moov_used_bound:
  assumes "vid_ok (mp4a E)"
  shows "moov_used E \<le> 2000 + 4 * (unat (stss_len (Vstbl (but_t E))) + unat (stsz_len (Vstbl (but_t E)))
     + unat (stco_len (Vstbl (but_t E))) + unat (stco_len (Astbl (but_t E))))"
proof -
  have "length (sers (box_entry E VID_VIDEO)) \<le> 400" "length (sers (box_entry E VID_AUDIO)) \<le> 400"
    using assms by (simp_all add: box_entry_def visual_entry_def box_avcc_def box_hvcc_def length_ser_Box vid_ok_def
        Let_def split: VideoCodec.split)
  moreover have t: "length (table n ws) \<le> 4 * unat n" for n ws by (simp add: length_table)
  note t [of "stss_len (Vstbl (but_t E))" "stss (Vstbl (but_t E))"]
    t [of "stsz_len (Vstbl (but_t E))" "stsz (Vstbl (but_t E))"]
    t [of "stco_len (Vstbl (but_t E))" "stco (Vstbl (but_t E))"]
    t [of "stco_len (Astbl (but_t E))" "stco (Astbl (but_t E))"]
  ultimately show ?thesis
    by (simp add: moov_used_def traks_def box_trak_def box_tkhd_def box_edts_def box_mdhd_def box_stbl_def
      box_hdlr_def box_vmhd_def box_smhd_def box_dinf_def
      box_stts_def box_stsc_def box_stss_def box_stsz_def box_stco_def box_mvhd_def
      length_ser_Box matrix9_def Let_def)
qed

lemma tab_len: "tab arr n vs \<Longrightarrow> unat n = length vs \<and> unat n \<le> length arr"
  by (simp add: tab_def)

lemma length_videos: "length (videos h S) + length (audios h S) = length S"
proof -
  have "length (placed p S) = length S" for p by (induction S arbitrary: p) auto
  then show ?thesis
    using sum_length_filter_compl [of "\<lambda>(p, s). is_video s" "placed h S"]
    by (simp add: videos_def audios_def case_prod_unfold)
qed

lemma header_room_ok:
  assumes lay: "layout D P hdr S st" and v: "vid_ok (info st)" and h: "hdr_info (tbuf st) \<noteq> 0"
    "unat (hdr_size (tbuf st)) < 2 ^ 31" "hdr_size (tbuf st) < total (tbuf st)"
    and a: "length (audios (length hdr) S) \<le> room_audio (tbuf st)"
    and n: "2100 + 12 * length S \<le> unat (hdr_size (tbuf st))"
  shows "header_room st"
proof -
  have L: "tables (length hdr) S (tbuf st)" using lay unfolding layout_def by blast
  let ?V = "videos (length hdr) S" and ?A = "audios (length hdr) S"
  note t = L [unfolded tables_def]
  have k: "length (key_numbers ?V) \<le> length ?V" by (rule length_key_numbers)
  have "unat (stss_len (Vstbl (tbuf st))) \<le> length ?V" "unat (stsz_len (Vstbl (tbuf st))) = length ?V"
    "unat (stco_len (Vstbl (tbuf st))) = length ?V" "unat (stco_len (Astbl (tbuf st))) = length ?A"
    using t k tab_len by fastforce+
  then have "moov_used (header_env (menv st) (final_info (info st)) (tbuf st)) \<le> 2000 + 12 * length S"
    using moov_used_bound [of "header_env (menv st) (final_info (info st)) (tbuf st)"] v
      length_videos [of "length hdr" S]
    by (simp add: final_info_def vid_ok_def)
  then have "moov_fits (header_env (menv st) (final_info (info st)) (tbuf st))"
    using n by (simp add: moov_fits_def)
  moreover have "stbl_ok (Vstbl (tbuf st))" "stbl_ok (Astbl (tbuf st))"
    using t tab_len a by (auto simp: stbl_ok_def room_audio_def tab_def unat_of_nat)
  ultimately show ?thesis
    using v h by (simp add: header_room_def header_ok_def final_info_def vid_ok_def)
qed

end
