(* ===== verification/MuxerRun.thy ===== *)
theory MuxerRun
  imports MuxerSpec
begin

text \<open>
  Sequences of operations of the recorder: frames written one behind the other, the loop of the
  state \<open>VIDENC_WRITE\<close> over the stream queue, and the file that closing leaves.
\<close>

section \<open>A recording\<close>

text \<open>
  The frames of a recording as the state machine writes them: each with the memory at that time and
  its descriptor, the first one in the state \<open>VIDENC_FIRST_NEXT\<close>.
\<close>

fun write_frames :: "'w muxer_env \<Rightarrow> (mem \<times> sbuf_data) list \<Rightarrow> 'w recorder \<Rightarrow> 'w recorder option" where
  "write_frames E [] st = Some st"
| "write_frames E ((m, d) # fr) st = do {
     st \<leftarrow> muxer_videnc_write E (block_ready (take_block d (st\<lparr>ram := m\<rparr>)));
     write_frames E fr (set_state VIDENC_WRITE st) }"

definition block_of :: "sbuf_data \<Rightarrow> t_block_t" where
  "block_of d = \<lparr>b_flags = flags d, b_size = size d, b_addr = addr d, b_type = type d, b_state = 1\<rparr>"

text \<open>The sample a frame becomes.\<close>

inductive frame_of :: "mem \<times> sbuf_data \<Rightarrow> sample \<Rightarrow> bool" where
  video: "frame_in m (block_of d) s us \<Longrightarrow> frame_of (m, d) (frame_sample (block_of d) us)"
| audio: "audio_in (block_of d) \<Longrightarrow>
    frame_of (m, d) (Audio (load m (unat (addr d)) (unat (size d))))"

lemma ready_block [simp]:
  "datablock (pvid (block_ready (take_block d st))) = block_of d"
  by (simp add: block_ready_def take_block_def block_of_def)

lemma ready_fields [simp]:
  "vstate (pvid (block_ready (take_block d st))) = vstate (pvid st)"
  "info (block_ready (take_block d st)) = info st" "tbuf (block_ready (take_block d st)) = tbuf st"
  "disk (block_ready (take_block d st)) = disk st" "ram (block_ready (take_block d st)) = ram st"
  "sbuf (pvid (block_ready (take_block d st))) = sbuf (pvid st)"
  "keep (block_ready (take_block d st)) = keep st"
  by (simp_all add: block_ready_def take_block_def keep_def)

lemma keep_ram [simp]: "keep (st\<lparr>ram := m\<rparr>) = keep st"
  by (simp add: keep_def)

lemma keep_fields:
  assumes "keep a = keep b"
  shows "vstate (pvid a) = vstate (pvid b)" "sbuf (pvid a) = sbuf (pvid b)" "total (tbuf a) = total (tbuf b)"
    "hdr_size (tbuf a) = hdr_size (tbuf b)" "hdr_info (tbuf a) = hdr_info (tbuf b)"
    "room (tbuf a) = room (tbuf b)" "room_audio (tbuf a) = room_audio (tbuf b)" "menv a = menv b"
    "bSdVidSave a = bSdVidSave b" "nFps a = nFps b" "nVidenc_Fps_old a = nVidenc_Fps_old b"
    "v_type (info a) = v_type (info b)" "un32vidsmax (info a) = un32vidsmax (info b)"
  using assms by (simp_all add: keep_def)

lemma view_cong: "disk a = disk b \<Longrightarrow> tbuf a = tbuf b \<Longrightarrow> view D P a = view D P b"
  by (simp add: view_def)

lemma layout_cong:
  "disk a = disk b \<Longrightarrow> tbuf a = tbuf b \<Longrightarrow> info a = info b \<Longrightarrow> layout D P h S a = layout D P h S b"
  by (simp add: layout_def view_def)

lemma sink_ok_cong: "disk a = disk b \<Longrightarrow> tbuf a = tbuf b \<Longrightarrow> sink_ok E D P a = sink_ok E D P b"
  by (simp add: sink_ok_def)

text \<open>What holds between frames.\<close>

definition recording_ok where
  "recording_ok E D P hdr S st \<longleftrightarrow> sink_ok E D P st \<and> layout D P hdr S st \<and> vid_ok (info st)
     \<and> length S \<le> room (tbuf st) \<and> length (audios (length hdr) S) \<le> room_audio (tbuf st)"

lemma recording_ok_cong:
  "disk a = disk b \<Longrightarrow> tbuf a = tbuf b \<Longrightarrow> info a = info b \<Longrightarrow>
   recording_ok E D P h S a = recording_ok E D P h S b"
  by (simp add: recording_ok_def sink_ok_cong [of a b] layout_cong [of a b])

lemma write_frame_ok:
  assumes r: "recording_ok E D P hdr S st" and f: "frame_of (m, d) x"
    and room: "length S < room (tbuf st)" "length (audios (length hdr) (S @ [x])) \<le> room_audio (tbuf st)"
    and w: "vstate (pvid st) = VIDENC_WRITE"
  shows "\<exists>st'. muxer_videnc_write E (block_ready (take_block d (st\<lparr>ram := m\<rparr>))) = Some st'
    \<and> recording_ok E D P hdr (S @ [x]) st' \<and> keep st' = keep st \<and> psets (info st') = psets (info st)"
  using f
proof cases
  case (video s us)
  let ?st = "block_ready (take_block d (st\<lparr>ram := m\<rparr>))"
  have "recording_ok E D P hdr S ?st" using r by (simp add: recording_ok_cong [of ?st st])
  moreover have "length (videos (length hdr) S) < room (tbuf st)" using room(1) length_videos [of "length hdr" S] by simp
  moreover have "\<not> first_key ?st" using w by (simp add: first_key_def)
  ultimately obtain st' where "muxer_videnc_write E ?st = Some st'" "sink_ok E D P st'"
    "layout D P hdr (S @ [x]) st'" "vid_ok (info st')" "keep st' = keep st" "psets (info st') = psets (info st)"
    using write_video_ok [of E D P ?st hdr S s us] video by (auto simp: recording_ok_def block_of_def)
  with keep_fields [of st' st] room show ?thesis by (auto simp: recording_ok_def)
next
  case audio
  let ?st = "block_ready (take_block d (st\<lparr>ram := m\<rparr>))"
  have "recording_ok E D P hdr S ?st" using r by (simp add: recording_ok_cong [of ?st st])
  moreover have "length (audios (length hdr) S) < room_audio (tbuf st)"
    using room(2) audio by (simp add: videos_append)
  ultimately obtain st' where "muxer_videnc_write E ?st = Some st'" "sink_ok E D P st'"
    "layout D P hdr (S @ [x]) st'" "vid_ok (info st')" "keep st' = keep st" "psets (info st') = psets (info st)"
    using write_audio_ok [of E D P ?st hdr S] audio by (auto simp: recording_ok_def block_of_def)
  with keep_fields [of st' st] room show ?thesis by (auto simp: recording_ok_def)
qed

lemma placed_snd: "map snd (placed p S) = S"
  by (induction S arbitrary: p) auto

lemma map_snd_filter: "map snd (filter (\<lambda>(p, s). Q s) xs) = filter Q (map snd xs)"
  by (induction xs) auto

lemma videos_snd: "map snd (videos h S) = filter is_video S"
  by (simp add: videos_def map_snd_filter placed_snd)

lemma length_audios: "length (audios h S) = length (filter (\<lambda>s. \<not> is_video s) S)"
  using arg_cong [OF map_snd_filter [of "\<lambda>s. \<not> is_video s" "placed h S"], of length]
  by (simp add: audios_def placed_snd)

lemma write_frames_ok:
  assumes "recording_ok E D P hdr S st" and "vstate (pvid st) = VIDENC_WRITE"
    and "list_all2 frame_of fr X" and "length (S @ X) \<le> room (tbuf st)"
    and "length (audios (length hdr) (S @ X)) \<le> room_audio (tbuf st)"
  shows "\<exists>st'. write_frames E fr st = Some st' \<and> recording_ok E D P hdr (S @ X) st'
    \<and> keep st' = keep st \<and> psets (info st') = psets (info st)"
  using assms
proof (induction fr arbitrary: S X st)
  case Nil
  then show ?case by simp
next
  case (Cons f fr)
  obtain m d where f: "f = (m, d)" by (cases f)
  obtain x X' where X: "X = x # X'" "frame_of (m, d) x" "list_all2 frame_of fr X'"
    using Cons.prems(3) f by (auto simp: list_all2_Cons1)
  have "length (audios (length hdr) (S @ [x])) \<le> length (audios (length hdr) (S @ X))"
    by (simp add: length_audios X(1))
  with write_frame_ok [OF Cons.prems(1) X(2) _ _ Cons.prems(2)] Cons.prems(4,5) X(1) obtain st1 where
    st1: "muxer_videnc_write E (block_ready (take_block d (st\<lparr>ram := m\<rparr>))) = Some st1"
    "recording_ok E D P hdr (S @ [x]) st1" "keep st1 = keep st" "psets (info st1) = psets (info st)"
    by auto
  let ?st = "set_state VIDENC_WRITE st1"
  have k: "keep ?st = keep st" using st1(3) Cons.prems(2) by (simp add: keep_def)
  have "recording_ok E D P hdr (S @ [x]) ?st" using st1(2) by (simp add: recording_ok_cong [of ?st st1])
  from Cons.IH [OF this _ X(3)] Cons.prems(4,5) X(1) keep_fields [OF k] obtain st' where
    "write_frames E fr ?st = Some st'" "recording_ok E D P hdr (S @ X) st'" "keep st' = keep ?st"
    "psets (info st') = psets (info ?st)" by auto
  with st1 k show ?case by (simp add: f)
qed

lemma vidswap_vidswap [simp]: "vidswapSB32 (vidswapSB32 x) = x"
proof -
  have r: "be32 w = rev (le32 w)" for w by (simp add: be32_def le32_def)
  have "le32 (vidswapSB32 (vidswapSB32 x)) = rev (rev (le32 x))"
    by (simp only: le32_vidswapSB32 r)
  then show ?thesis using of_le32_le32 by (metis rev_rev_ident)
qed

lemma tab_nth:
  assumes "tab arr n vs" and "k < length vs" and "vs ! k < 2 ^ 32"
  shows "unat (vidswapSB32 (arr ! k)) = vs ! k"
proof -
  have "arr ! k = take (length vs) arr ! k" using assms(2) by simp
  also have "\<dots> = vidswapSB32 (of_nat (vs ! k))" using assms by (simp add: tab_def)
  finally show ?thesis using assms(3) by simp
qed

lemma placed_bound: "(q, s) \<in> set (placed p S) \<Longrightarrow> q + length (sbytes s) \<le> p + length (payload S)"
  by (induction S arbitrary: p) (fastforce simp: payload_def)+

text \<open>What the tables of a file say of its samples.\<close>

definition tables_locate :: "MP4HeaderSTBL \<Rightarrow> sample list \<Rightarrow> bytes \<Rightarrow> bool" where
  "tables_locate V vs file \<longleftrightarrow> unat (stsz_len V) = length vs \<and> unat (stco_len V) = length vs
     \<and> list_all (\<lambda>k. take (unat (vidswapSB32 (stsz V ! k))) (drop (unat (vidswapSB32 (stco V ! k))) file)
          = sbytes (vs ! k)) [0..<length vs]
     \<and> map (unat \<circ> vidswapSB32) (take (unat (stss_len V)) (stss V))
       = map Suc (filter (\<lambda>k. is_key (vs ! k)) [0..<length vs])"

lemma tables_locate_samples:
  assumes t: "tables (length hdr) S b" and lim: "length hdr + length (payload S) < 2 ^ 32"
    and h: "length H = length hdr"
  shows "tables_locate (Vstbl b) (filter is_video S) (H @ payload S)"
proof -
  let ?V = "videos (length hdr) S"
  let ?T = "Vstbl b"
  have tabs: "tab (stss ?T) (stss_len ?T) (key_numbers ?V)"
    "tab (stsz ?T) (stsz_len ?T) (map (\<lambda>(p, s). length (sbytes s)) ?V)"
    "tab (stco ?T) (stco_len ?T) (map fst ?V)"
    using t by (simp_all add: tables_def)
  have vs: "filter is_video S = map snd ?V" by (simp add: videos_snd)
  have slice: "take (unat (vidswapSB32 (stsz ?T ! k))) (drop (unat (vidswapSB32 (stco ?T ! k))) (H @ payload S))
      = sbytes (snd (?V ! k))" if k: "k < length ?V" for k
  proof -
    obtain q s where q: "?V ! k = (q, s)" by (cases "?V ! k")
    then have mem: "(q, s) \<in> set (placed (length hdr) S)"
      using nth_mem [OF k] by (auto simp: videos_def)
    have "q + length (sbytes s) < 2 ^ 32" using placed_bound [OF mem] lim by linarith
    then have "unat (vidswapSB32 (stco ?T ! k)) = q" "unat (vidswapSB32 (stsz ?T ! k)) = length (sbytes s)"
      using tab_nth [OF tabs(3), of k] tab_nth [OF tabs(2), of k] k q by simp_all
    then show ?thesis using placed_slice [of q s H S] mem q h by simp
  qed
  have "map (unat \<circ> vidswapSB32) (take (unat (stss_len ?T)) (stss ?T)) = key_numbers ?V"
  proof (rule nth_equalityI)
    show "length (map (unat \<circ> vidswapSB32) (take (unat (stss_len ?T)) (stss ?T))) = length (key_numbers ?V)"
      using tab_len [OF tabs(1)] by simp
  next
    fix i
    assume i: "i < length (map (unat \<circ> vidswapSB32) (take (unat (stss_len ?T)) (stss ?T)))"
    then have i': "i < length (key_numbers ?V)" using tab_len [OF tabs(1)] by simp
    have "key_numbers ?V ! i \<le> length ?V"
    proof -
      have "key_numbers ?V ! i \<in> set (key_numbers ?V)" using i' by simp
      then show ?thesis by (auto simp: key_numbers_def)
    qed
    moreover have "length ?V < 2 ^ 32" using tabs(3) by (simp add: tab_def)
    ultimately show "map (unat \<circ> vidswapSB32) (take (unat (stss_len ?T)) (stss ?T)) ! i = key_numbers ?V ! i"
      using tab_nth [OF tabs(1) i'] i by simp
  qed
  moreover have "key_numbers ?V = map Suc (filter (\<lambda>k. is_key (filter is_video S ! k)) [0..<length (filter is_video S)])"
    unfolding vs key_numbers_def by (auto intro!: arg_cong [where f = "map Suc"] filter_cong)
  moreover have "length (filter is_video S) = length ?V" by (simp add: vs)
  ultimately show ?thesis
    using tab_len [OF tabs(2)] tab_len [OF tabs(3)] slice
    by (simp add: tables_locate_def list_all_iff) (simp add: vs)
qed

section \<open>The writing loop\<close>

lemma add_nals_ram: "add_nals E ns st = Some st' \<Longrightarrow> ram st' = ram st"
proof (induction ns arbitrary: st)
  case Nil
  then show ?case by simp
next
  case (Cons pn ns)
  obtain p n where pn: "pn = (p, n)" by (cases pn)
  from Cons.prems obtain s1 s2 where "add_word E (vidswapSB32 n) st = Some s1" "add_mem E p n s1 = Some s2"
    "add_nals E ns s2 = Some st'" by (auto simp: pn Option.bind_eq_Some_conv)
  then show ?case using Cons.IH
    by (auto simp: add_word_def add_mem_def muxer_videnc_bufferadd_def dest!: loop_ram flush_ram split: option.splits)
qed

lemma entry_ram: "put_video_entry k n st = Some st' \<Longrightarrow> ram st' = ram st"
  by (auto simp: put_video_entry_def Option.bind_eq_Some_conv)

lemma write_ram: "muxer_videnc_write E st = Some st' \<Longrightarrow> ram st' = ram st"
proof -
  have v: "ram s' = ram s" if "write_video E c s = Some s'" for c s s'
    using that by (auto simp: write_video_def Let_def Option.bind_eq_Some_conv dest!: add_nals_ram entry_ram split: if_splits)
  have a: "ram s' = ram s" if "write_audio E s = Some s'" for s s'
    using that by (auto simp: write_audio_def Let_def Option.bind_eq_Some_conv add_mem_def muxer_videnc_bufferadd_def
        dest!: loop_ram flush_ram split: option.splits if_splits)
  assume "muxer_videnc_write E st = Some st'"
  then show ?thesis
    by (auto simp: muxer_videnc_write_def muxer_videnc_write_process_def Let_def Option.bind_eq_Some_conv
      dest!: v a split: if_splits option.splits prod.splits)
qed

text \<open>The frames the loop takes before it closes the file: up to the first key frame beyond the limit.\<close>

fun accepted :: "u32 \<Rightarrow> u32 \<Rightarrow> sbuf_data list \<Rightarrow> sbuf_data list" where
  "accepted n mx [] = []"
| "accepted n mx (d # ds) =
     (if key_type (type d) \<and> n \<ge> mx then []
      else d # accepted (if \<exists>s. video_type s (type d) then n + 1 else n) mx ds)"

lemma sbuf_next:
  assumes "sbuf_ok q" and "sbuf_items q = d # ds"
  shows "\<exists>q'. sbuf_get q = Some (d, q') \<and> sbuf_peek q = Some d \<and> sbuf_ok q' \<and> sbuf_items q' = ds"
  using sbuf_get_cons [OF assms(1)] sbuf_empty_iff [OF assms(1)] assms
  by (auto simp: sbuf_get_def sbuf_peek_def)

lemma take_block_fields [simp]:
  "sbuf (pvid (take_block d st)) = sbuf (pvid st)" "info (take_block d st) = info st"
  "vstate (pvid (take_block d st)) = vstate (pvid st)" "tbuf (take_block d st) = tbuf st"
  "disk (take_block d st) = disk st" "ram (take_block d st) = ram st"
  "bSdVidSave (take_block d st) = bSdVidSave st" "keep (take_block d st) = keep st"
  "user (take_block d st) = user st" "menv (take_block d st) = menv st"
  by (simp_all add: take_block_def keep_def user_def)

text \<open>The contents and counters after a frame.\<close>

lemma frame_of_video: "frame_of (m, d) x \<Longrightarrow> is_video x \<longleftrightarrow> (\<exists>s. video_type s (type d))"
  by (erule frame_of.cases)
    (auto simp: frame_in_def frame_sample_def block_of_def audio_in_def video_type_def)

lemma recording_counts:
  assumes "recording_ok E D P hdr S st"
  shows "un32vidscount (info st) = of_nat (length (filter is_video S))"
  using assms arg_cong [OF videos_snd [of "length hdr" S], of length]
  by (auto simp: recording_ok_def layout_def counters_def)

abbreviation requeue :: "sbuf_t \<Rightarrow> 'w recorder \<Rightarrow> 'w recorder" where
  "requeue q st \<equiv> set_vid (\<lambda>v. v\<lparr>sbuf := q\<rparr>) st"

lemma close_idle: "muxer_videnc_close E st = Some st' \<Longrightarrow> vstate (pvid st') = VIDENC_IDLE"
  by (auto simp: muxer_videnc_close_def Let_def Option.bind_eq_Some_conv)

lemma close_stops:
  "(map_option Some (muxer_videnc_close E st) \<bind> (\<lambda>r. case r of None \<Rightarrow> Some s
      | Some st \<Rightarrow> (case check_stop st of (go, st) \<Rightarrow> if go then f st else Some st)))
   = muxer_videnc_close E st"
  by (cases "muxer_videnc_close E st")
    (auto simp: check_stop_def stopped_def dest: close_idle)

lemma write_loop_Nil: "sbuf_peek (sbuf (pvid st)) = None \<Longrightarrow> write_loop E st = Some st"
  by (subst write_loop.simps) simp

lemma write_loop_close:
  assumes "sbuf_peek (sbuf (pvid st)) = Some d" "key_type (type d)" "un32vidscount (info st) \<ge> un32vidsmax (info st)"
  shows "write_loop E st = muxer_videnc_close E (set_state VIDENC_CLOSE (take_block d st))"
  using assms by (subst write_loop.simps) (simp add: Let_def close_stops)

lemma write_loop_write:
  assumes "sbuf_peek (sbuf (pvid st)) = Some d" "sbuf_get (sbuf (pvid st)) = Some (d, q)"
    and "\<not> (key_type (type d) \<and> un32vidscount (info st) \<ge> un32vidsmax (info st))"
    and "muxer_videnc_write E (block_ready (take_block d (requeue q st))) = Some st1"
    and "vstate (pvid st1) = VIDENC_WRITE" "bSdVidSave st1"
  shows "write_loop E st = write_loop E st1"
proof -
  have "take_block d (requeue q (take_block d st)) = take_block d (requeue q st)"
    by (simp add: take_block_def)
  then have "next_block (take_block d st) = Some (take_block d (requeue q st))"
    using assms(2) by (simp add: next_block_def)
  then show ?thesis
    using assms by (subst write_loop.simps) (auto simp: check_stop_def stopped_def)
qed

text \<open>
  The loop takes frames into samples until the queue is empty, or until a key frame is next and the
  limit is reached; then it closes the file.
\<close>

lemma write_loop_ok:
  assumes "recording_ok E D P hdr S st" and "vstate (pvid st) = VIDENC_WRITE" "bSdVidSave st"
    and "sbuf_ok (sbuf (pvid st))" "sbuf_items (sbuf (pvid st)) = ds"
    and "accepted (un32vidscount (info st)) (un32vidsmax (info st)) ds = as"
    and "list_all2 (\<lambda>d x. frame_of (ram st, d) x) as X"
    and "length (S @ X) \<le> room (tbuf st)" "length (audios (length hdr) (S @ X)) \<le> room_audio (tbuf st)"
  shows "\<exists>st2. recording_ok E D P hdr (S @ X) st2 \<and> sbuf_ok (sbuf (pvid st2))
    \<and> sbuf_items (sbuf (pvid st2)) = drop (length as) ds
    \<and> keep (requeue (sbuf (pvid st)) st2) = keep st
    \<and> write_loop E st = (if length as = length ds then Some st2
                         else muxer_videnc_close E (set_state VIDENC_CLOSE st2))"
  using assms
proof (induction ds arbitrary: S st as X)
  case Nil
  then have "sbuf_peek (sbuf (pvid st)) = None" by (simp add: sbuf_peek_def sbuf_empty_iff)
  with Nil write_loop_Nil show ?case by (intro exI [of _ st]) auto
next
  case (Cons d ds)
  obtain q where q: "sbuf_get (sbuf (pvid st)) = Some (d, q)" "sbuf_peek (sbuf (pvid st)) = Some d"
    "sbuf_ok q" "sbuf_items q = ds" using sbuf_next [OF Cons.prems(4,5)] by blast
  let ?stop = "key_type (type d) \<and> un32vidscount (info st) \<ge> un32vidsmax (info st)"
  show ?case
  proof (cases ?stop)
    case True
    with Cons.prems(6,7) have e: "as = []" "X = []" by auto
    let ?st = "take_block d st"
    have "recording_ok E D P hdr S ?st" using Cons.prems(1) by (simp add: recording_ok_cong [of ?st st])
    moreover have "keep (requeue (sbuf (pvid st)) ?st) = keep st" by (simp add: keep_def take_block_def)
    ultimately show ?thesis using e q True Cons.prems(4,5)
      by (intro exI [of _ ?st]) (auto simp: write_loop_close)
  next
    case False
    let ?n = "if \<exists>s. video_type s (type d) then un32vidscount (info st) + 1 else un32vidscount (info st)"
    from False Cons.prems(6) have as: "as = d # accepted ?n (un32vidsmax (info st)) ds" by auto
    then obtain x X' where X: "X = x # X'" "frame_of (ram st, d) x"
      "list_all2 (\<lambda>d x. frame_of (ram st, d) x) (accepted ?n (un32vidsmax (info st)) ds) X'"
      using Cons.prems(7) by (auto simp: list_all2_Cons1)
    let ?st = "requeue q st"
    have "recording_ok E D P hdr S ?st" using Cons.prems(1) by (simp add: recording_ok_cong [of ?st st])
    moreover have "length (audios (length hdr) (S @ [x])) \<le> length (audios (length hdr) (S @ X))"
      by (simp add: length_audios X(1))
    ultimately obtain st1 where st1: "muxer_videnc_write E (block_ready (take_block d ?st)) = Some st1"
      "recording_ok E D P hdr (S @ [x]) st1" "keep st1 = keep ?st"
      using write_frame_ok [of E D P hdr S ?st "ram st" d x] X(1,2) Cons.prems(2,8,9) by auto
    note K = keep_fields [OF st1(3)]
    have r1: "ram st1 = ram st" using write_ram [OF st1(1)] by simp
    have w: "vstate (pvid st1) = VIDENC_WRITE" "bSdVidSave st1" using K Cons.prems(2,3) by simp_all
    have n: "un32vidscount (info st1) = ?n"
      using recording_counts [OF st1(2)] recording_counts [OF Cons.prems(1)] frame_of_video [OF X(2)] by simp
    have "\<exists>st2. recording_ok E D P hdr ((S @ [x]) @ X') st2 \<and> sbuf_ok (sbuf (pvid st2))
      \<and> sbuf_items (sbuf (pvid st2)) = drop (length (tl as)) ds
      \<and> keep (requeue (sbuf (pvid st1)) st2) = keep st1
      \<and> write_loop E st1 = (if length (tl as) = length ds then Some st2
                           else muxer_videnc_close E (set_state VIDENC_CLOSE st2))"
      by (rule Cons.IH [OF st1(2) w]) (use K q n as r1 X Cons.prems(8,9) in auto)
    then obtain st2 where st2: "recording_ok E D P hdr (S @ X) st2" "sbuf_ok (sbuf (pvid st2))"
      "sbuf_items (sbuf (pvid st2)) = drop (length as) (d # ds)" "keep (requeue (sbuf (pvid st1)) st2) = keep st1"
      "write_loop E st1 = (if length as = length (d # ds) then Some st2
                           else muxer_videnc_close E (set_state VIDENC_CLOSE st2))"
      using X(1) as by auto
    have "write_loop E st = write_loop E st1"
      by (rule write_loop_write [OF q(2,1) False st1(1) w])
    moreover have "keep (requeue (sbuf (pvid st)) st2) = keep st"
      using st2(4) st1(3) by (simp add: keep_def)
    ultimately show ?thesis using st2 by (intro exI [of _ st2]) simp
  qed
qed

section \<open>Closing what was recorded\<close>

definition header_fits :: "'w recorder \<Rightarrow> sample list \<Rightarrow> bool" where
  "header_fits st S \<longleftrightarrow> hdr_info (tbuf st) \<noteq> 0 \<and> hdr_size (tbuf st) < total (tbuf st)
     \<and> unat (hdr_size (tbuf st)) < 2 ^ 31 \<and> 2100 + 12 * length S \<le> unat (hdr_size (tbuf st))
     \<and> unat (hdr_size (tbuf st)) + length (payload S) < 2 ^ 32"

definition file_of :: "sample list \<Rightarrow> MP4HeaderSTBL \<Rightarrow> bytes \<Rightarrow> bool" where
  "file_of S V file \<longleftrightarrow> (\<exists>moov. parse_boxes file = Some [(str ''ftyp'', bhdr box_ftyp), (str ''moov'', moov),
        (str ''mdat'', payload S)])
     \<and> tables_locate V (filter is_video S) file"

lemma close_recording_from:
  assumes r: "recording_ok E D P hdr S st" and h: "header_fits st S"
    and c: "c = VIDENC_CLOSE \<or> c = VIDENC_EXIT"
  shows "\<exists>st'. muxer_videnc_close E (set_state c st) = Some st' \<and> vstate (pvid st') = VIDENC_IDLE
    \<and> file_of S (Vstbl (tbuf st')) (D (disk st')) \<and> psets (info st') = psets (info st) \<and> user st' = user st"
proof -
  have R: "sink_ok E D P st" "layout D P hdr S st" "vid_ok (info st)"
    "length (audios (length hdr) S) \<le> room_audio (tbuf st)"
    using r unfolding recording_ok_def by auto
  let ?c = "set_state c st"
  have C: "sink_ok E D P ?c" "layout D P hdr S ?c"
    using R sink_ok_cong [of ?c st] layout_cong [of ?c st] by simp_all
  have hl: "length hdr = unat (hdr_size (tbuf st))" using R(2) by (simp add: layout_def)
  have hr: "header_room ?c"
    by (rule header_room_ok [OF C(2)]) (use R h in \<open>simp_all add: header_fits_def\<close>)
  have lim: "length (hdr @ payload S) < 2 ^ 32" using hl h by (simp add: header_fits_def)
  have "vstate (pvid ?c) = VIDENC_CLOSE \<or> vstate (pvid ?c) = VIDENC_EXIT" using c by simp
  from close_ok [OF C this hr lim] obtain st3 m3 where st3: "muxer_videnc_close E ?c = Some st3"
    "vstate (pvid st3) = VIDENC_IDLE"
    "D (disk st3) = header_bytes (menv st) (final_info (info st)) (tbuf st) m3 @ payload S"
    "info st3 = final_info (info st)" "Vstbl (tbuf st3) = Vstbl (tbuf st)" "user st3 = user ?c" by auto
  have ho: "header_ok (menv st) (final_info (info st)) (tbuf st)" using hr by (simp add: header_room_def)
  have md: "mdat_size (final_info (info st)) = of_nat (length (payload S))"
    using R(2) by (simp add: layout_def counters_def final_info_def)
  have len: "8 + length (payload S) < 2 ^ 32" using h by (simp add: header_fits_def)
  have "\<exists>moov. parse_boxes (D (disk st3)) =
      Some [(str ''ftyp'', bhdr box_ftyp), (str ''moov'', moov), (str ''mdat'', payload S)]"
    using header_parses [OF ho _ len, of m3] md len unfolding st3(3) by simp
  moreover have "tables_locate (Vstbl (tbuf st3)) (filter is_video S) (D (disk st3))"
    unfolding st3(3,5)
    by (rule tables_locate_samples [of hdr])
      (use R(2) length_header_bytes [OF ho] hl h in \<open>auto simp: layout_def header_fits_def\<close>)
  moreover have "psets (info st3) = psets (info st)" using st3(4) by (simp add: psets_def final_info_def)
  moreover have "user st3 = user st" using st3(6) by (simp add: user_def)
  ultimately show ?thesis using st3(1,2) by (intro exI [of _ st3]) (simp add: file_of_def)
qed

lemmas close_recording = close_recording_from [of _ _ _ _ _ _ VIDENC_CLOSE, simplified]

text \<open>The first key frame of a file.\<close>

lemma first_frame_ok:
  assumes st1: "sink_ok E D P st1" "layout D P hdr [] st1" "vid_ok (info st1)"
    and f: "frame_in m (block_of d) s us" "flags d \<noteq> 0" "sets_fit s (map snd us)" and room: "0 < room (tbuf st1)"
    and w: "vstate (pvid st1) = VIDENC_FIRST_NEXT"
  shows "\<exists>st'. muxer_videnc_write E (block_ready (take_block d (st1\<lparr>ram := m\<rparr>))) = Some st'
    \<and> recording_ok E D P hdr [frame_sample (block_of d) us] st' \<and> keep st' = keep st1
    \<and> sets_kept s (map snd us) (info st')"
proof -
  let ?st = "block_ready (take_block d (st1\<lparr>ram := m\<rparr>))"
  let ?x = "frame_sample (block_of d) us"
  have fk: "first_key ?st" using f(2) w by (simp add: first_key_def block_of_def)
  have "sink_ok E D P ?st" "layout D P hdr [] ?st" "vid_ok (info ?st)" "0 < room (tbuf ?st)"
    using st1 room sink_ok_cong [of ?st st1] layout_cong [of ?st st1] by auto
  then obtain s1 where s1: "muxer_videnc_write E ?st = Some s1" "sink_ok E D P s1" "layout D P hdr [?x] s1"
    "vid_ok (info s1)" "keep s1 = keep ?st" "sets_kept s (map snd us) (info s1)"
    using write_video_ok [of E D P ?st hdr "[]" s us] f(1,3) fk by (auto simp: block_of_def videos_def)
  have "length (audios (length hdr) [?x]) \<le> room_audio (tbuf s1)"
    by (simp add: length_audios frame_sample_def)
  with s1 room keep_fields [of s1 st1] show ?thesis by (intro exI [of _ s1]) (simp add: recording_ok_def)
qed

end
