(* ===== verification/MuxerState.thy ===== *)
theory MuxerState
  imports MuxerRun
begin

text \<open>
  The recorder as a machine that runs beside the encoder and the user: whatever the card answers and
  whatever the order of events, which states it rests in, when a file is open, and that the queue and
  the name heap stay well formed.
\<close>

section \<open>What the writers leave alone\<close>

text \<open>
  No writer touches the queue and the name heap, and each leaves the state of the machine or, after
  an error, makes it \<open>VIDENC_EXIT\<close>.
\<close>

definition queues :: "'w recorder \<Rightarrow> sbuf_t \<times> encHeap" where
  "queues st = (sbuf (pvid st), filenamelist (pvid st))"

definition writes :: "'w recorder \<Rightarrow> 'w recorder \<Rightarrow> bool" where
  "writes st st' \<longleftrightarrow> queues st' = queues st
     \<and> (vstate (pvid st') = vstate (pvid st) \<or> vstate (pvid st') = VIDENC_EXIT)"

lemma writes_refl [simp]: "writes st st"
  by (simp add: writes_def)

lemma writes_trans [trans]: "writes a b \<Longrightarrow> writes b c \<Longrightarrow> writes a c"
  by (auto simp: writes_def)

lemma writes_same: "queues b = queues a \<Longrightarrow> vstate (pvid b) = vstate (pvid a) \<Longrightarrow> writes a b"
  by (simp add: writes_def)

lemma all_stop_fields [simp]:
  "pvid (muxer_videnc_all_stop st) = (pvid st)\<lparr>recording := 0\<rparr>"
  "disk (muxer_videnc_all_stop st) = disk st" "bSdVidSave (muxer_videnc_all_stop st) = bSdVidSave st"
  by (simp_all add: muxer_videnc_all_stop_def muxer_videnc_stop_def eRecSnapshot_def eRecNormal_def)

lemma error_writes:
  assumes "muxer_videnc_error E True x st = Some st'" and "x = VID_WRITEFAIL \<or> x = VID_WRITEFAIL_DISKFULL \<or> x = VID_OPENFAIL"
  shows "writes st st'" and "vstate (pvid st') = VIDENC_EXIT"
  using assms by (auto simp: muxer_videnc_error_def Let_def writes_def queues_def)

lemma flush_writes: "muxer_videnc_bufferflush E st = Some (r, st') \<Longrightarrow> writes st st'"
  by (auto simp: muxer_videnc_bufferflush_def Let_def Option.bind_eq_Some_conv writes_def queues_def
      dest!: error_writes(1) split: prod.splits if_splits)

lemma step_writes: "bufferadd_step E f n st = Some (wb, go, st') \<Longrightarrow> writes st st'"
  by (auto simp: bufferadd_step_def Let_def Option.bind_eq_Some_conv writes_def queues_def
      dest!: flush_writes split: if_splits)

lemma loop_writes:
  assumes "bufferadd_loop E f n st = Some st'"
  shows "writes st st'"
proof (rule bufferadd_loop.raw_induct [of "\<lambda>E f n st st'. writes st st'", OF _ assms], goal_cases)
  case (1 loop E f n st st')
  then show ?case
    by (auto simp: Option.bind_eq_Some_conv dest!: step_writes split: if_splits intro: writes_trans)
qed

lemma bufferadd_writes: "muxer_videnc_bufferadd E p n st = Some st' \<Longrightarrow> writes st st'"
  by (auto simp: muxer_videnc_bufferadd_def dest!: loop_writes flush_writes split: option.splits)

lemma add_nals_writes: "add_nals E ns st = Some st' \<Longrightarrow> writes st st'"
proof (induction ns arbitrary: st)
  case Nil
  then show ?case by simp
next
  case (Cons pn ns)
  obtain p n where pn: "pn = (p, n)" by (cases pn)
  from Cons.prems obtain s1 s2 where s: "add_word E (vidswapSB32 n) st = Some s1" "add_mem E p n s1 = Some s2"
    "add_nals E ns s2 = Some st'" by (auto simp: pn Option.bind_eq_Some_conv)
  have "writes st s1" "writes s1 s2"
    using s(1,2) by (auto simp: add_word_def add_mem_def dest: bufferadd_writes)
  with Cons.IH [OF s(3)] show ?case by (blast intro: writes_trans)
qed

lemma flush_tables: "muxer_videnc_bufferflush E st = Some (r, st') \<Longrightarrow> Vstbl (tbuf st') = Vstbl (tbuf st)"
  by (auto simp: muxer_videnc_bufferflush_def Let_def Option.bind_eq_Some_conv
      dest!: error_tbuf split: prod.splits if_splits)

lemma loop_tables:
  assumes "bufferadd_loop E f n st = Some st'"
  shows "Vstbl (tbuf st') = Vstbl (tbuf st)"
proof (rule bufferadd_loop.raw_induct [of "\<lambda>E f n st st'. Vstbl (tbuf st') = Vstbl (tbuf st)", OF _ assms], goal_cases)
  case (1 loop E f n st st')
  then show ?case
    by (auto simp: bufferadd_step_def Let_def Option.bind_eq_Some_conv dest!: flush_tables split: if_splits)
qed

lemma add_nals_tables: "add_nals E ns st = Some st' \<Longrightarrow> Vstbl (tbuf st') = Vstbl (tbuf st)"
proof (induction ns arbitrary: st)
  case Nil
  then show ?case by simp
next
  case (Cons pn ns)
  then show ?case
    by (cases pn) (auto simp: Option.bind_eq_Some_conv add_word_def add_mem_def muxer_videnc_bufferadd_def
        dest!: loop_tables flush_tables split: option.splits)
qed

lemma entry_writes: "put_video_entry k n st = Some st' \<Longrightarrow> writes st st'"
  by (auto simp: put_video_entry_def Option.bind_eq_Some_conv writes_def queues_def)

lemma write_writes: "muxer_videnc_write E st = Some st' \<Longrightarrow> writes st st'"
proof -
  have v: "writes s s'" if "write_video E c s = Some s'" for c s s'
    using that by (auto simp: write_video_def Let_def Option.bind_eq_Some_conv writes_def queues_def
        dest!: add_nals_writes entry_writes split: if_splits)
  have a: "writes s s'" if "write_audio E s = Some s'" for s s'
    using that by (auto simp: write_audio_def Let_def Option.bind_eq_Some_conv add_mem_def writes_def queues_def
        dest!: bufferadd_writes)
  assume "muxer_videnc_write E st = Some st'"
  then show ?thesis
    by (auto simp: muxer_videnc_write_def muxer_videnc_write_process_def Let_def Option.bind_eq_Some_conv
        writes_def queues_def dest!: v a split: if_splits option.splits prod.splits)
qed

lemma set_savetime_writes: "writes st (set_savetime E f st)"
  by (auto simp: set_savetime_def videnc_info_init_savetime_def writes_def queues_def Let_def)

lemma build_header_writes: "build_header st = Some (a, st') \<Longrightarrow> writes st st'"
  by (auto simp: build_header_def writes_def queues_def Let_def split: if_splits prod.splits)

lemma change_start_writes: "change_savetime_start E st = (f, st') \<Longrightarrow> writes st st'"
  using set_savetime_writes [of "st\<lparr>nVidenc_Fps_old := 30\<rparr>" E 30]
  by (auto simp: change_savetime_start_def writes_def queues_def split: if_splits)

lemma makevidheader_writes: "muxer_videnc_makevidheader E st = Some (a, st') \<Longrightarrow> writes st st'"
  by (auto simp: muxer_videnc_makevidheader_def Let_def writes_def queues_def
      dest!: build_header_writes change_start_writes split: if_splits prod.splits)

lemma add_header_writes: "add_header E st = Some st' \<Longrightarrow> writes st st'"
  by (auto simp: add_header_def add_mem_def Option.bind_eq_Some_conv
      dest!: makevidheader_writes bufferadd_writes split: if_splits intro: writes_trans)

section \<open>States of rest\<close>

text \<open>
  \<open>C\<close> says that no file is open on the card: a failed \<open>f_open\<close> opens none, and neither does deleting a
  file or writing a still picture.
\<close>

definition opens_nothing :: "'w muxer_env \<Rightarrow> ('w \<Rightarrow> bool) \<Rightarrow> bool" where
  "opens_nothing E C \<longleftrightarrow>
     (\<forall>p w. C w \<longrightarrow> fst (f_open (fs E) p w) \<noteq> FR_OK \<longrightarrow> C (snd (f_open (fs E) p w)))
     \<and> (\<forall>p w. C w \<longrightarrow> C (snd (f_unlink (fs E) p w))) \<and> (\<forall>w. C w \<longrightarrow> C (jpegstill E w))"

text \<open>
  \<open>f_close\<close> of FatFs leaves the file open when its cached data cannot be written: \<open>J\<close> says that the
  last \<open>f_close\<close> of an open file failed. With nothing open, \<open>f_close\<close> does nothing.
\<close>

definition close_ok :: "'w muxer_env \<Rightarrow> ('w \<Rightarrow> bool) \<Rightarrow> ('w \<Rightarrow> bool) \<Rightarrow> bool" where
  "close_ok E C J \<longleftrightarrow> (\<forall>w. if C w \<or> fst (f_close (fs E) w) = FR_OK then C (snd (f_close (fs E) w))
     else J (snd (f_close (fs E) w)))"

text \<open>What the proofs on the state machine use: \<open>C\<close> holds after every \<open>f_close\<close>. The condition "closed,
  or the last \<open>f_close\<close> failed" has this property; "closed" alone has it only on a card that does not fail.\<close>

definition handle_ok :: "'w muxer_env \<Rightarrow> ('w \<Rightarrow> bool) \<Rightarrow> bool" where
  "handle_ok E C \<longleftrightarrow> opens_nothing E C \<and> (\<forall>w. C (snd (f_close (fs E) w)))"

lemma close_handle: "close_ok E C J \<Longrightarrow> opens_nothing E (\<lambda>w. C w \<or> J w) \<Longrightarrow> handle_ok E (\<lambda>w. C w \<or> J w)"
  by (auto simp: close_ok_def handle_ok_def split: if_splits)

text \<open>The states in which a pass may leave the recorder.\<close>

definition resting :: "VIDENC_STATE \<Rightarrow> bool" where
  "resting s \<longleftrightarrow> s \<noteq> VIDENC_OPEN \<and> s \<noteq> VIDENC_CLOSE"

definition queues_ok :: "sbuf_t \<times> encHeap \<Rightarrow> bool" where
  "queues_ok = (\<lambda>(q, h). sbuf_ok q \<and> 0 < sbuf_slots q \<and> heap_ok h \<and> 0 < capacity h)"

definition machine_ok :: "('w \<Rightarrow> bool) \<Rightarrow> 'w recorder \<Rightarrow> bool" where
  "machine_ok C st \<longleftrightarrow> resting (vstate (pvid st)) \<and> queues_ok (queues st)
     \<and> (vstate (pvid st) = VIDENC_IDLE \<longrightarrow> C (disk st))"

text \<open>In the middle of a file.\<close>

definition busy :: "'w recorder \<Rightarrow> bool" where
  "busy st \<longleftrightarrow> resting (vstate (pvid st)) \<and> vstate (pvid st) \<noteq> VIDENC_IDLE \<and> queues_ok (queues st)"

lemma busy_ok: "busy st \<Longrightarrow> machine_ok C st"
  by (simp add: busy_def machine_ok_def)

lemma busy_writes: "busy st \<Longrightarrow> writes st st' \<Longrightarrow> busy st'"
  by (auto simp: busy_def writes_def resting_def)

lemma busy_set: "busy st \<Longrightarrow> s \<noteq> VIDENC_IDLE \<Longrightarrow> resting s \<Longrightarrow> busy (set_state s st)"
  by (simp add: busy_def queues_def)

lemma queues_set_state [simp]: "queues (set_state s st) = queues st"
  by (simp add: queues_def)

lemma close_machine:
  assumes "muxer_videnc_close E st = Some st'" and "handle_ok E C" and "queues_ok (queues st)"
  shows "machine_ok C st'"
proof -
  from assms(1) obtain s1 s2 s3 where s: "muxer_videnc_bufferadd E None (- 1) st = Some s1"
    "add_header E ((set_vid (\<lambda>v. v\<lparr>filesize := f_tell (fs E) (disk s1)\<rparr>) s1)
       \<lparr>disk := set_f_size (fs E) (hdr_size (tbuf s1) + mdat_size (info s1)) (disk s1)\<rparr>) = Some s2"
    "muxer_videnc_bufferadd E None (- 1) (s2\<lparr>disk := f_lseek (fs E) 0 (disk s2)\<rparr>) = Some s3"
    "st' = (set_state VIDENC_IDLE (s3\<lparr>disk := snd (f_close (fs E) (disk s3))\<rparr>))\<lparr>enc_ing := False\<rparr>"
    by (auto simp: muxer_videnc_close_def Let_def Option.bind_eq_Some_conv)
  have "queues s1 = queues st" "queues s2 = queues s1" "queues s3 = queues s2"
    using bufferadd_writes [OF s(1)] add_header_writes [OF s(2)] bufferadd_writes [OF s(3)]
    by (auto simp: writes_def queues_def)
  then show ?thesis
    using assms(2,3) by (simp add: machine_ok_def resting_def handle_ok_def opens_nothing_def queues_def s(4))
qed

lemma savetime_machine:
  assumes "muxer_videnc_change_savetime E True False st = Some (f, st')" and "handle_ok E C" and "busy st"
  shows "machine_ok C st'"
proof -
  have sv: "machine_ok C (set_savetime E n s)" if "machine_ok C s" for n s
    using that set_savetime_writes [of s E n] savetime_fields(2,3) [where E = E and f = n and st = s, OF refl]
    by (simp add: machine_ok_def writes_def)
  have q: "queues_ok (queues s)" if "s = set_state VIDENC_CLOSE (st\<lparr>nVidenc_Fps_old := n\<rparr>)" for s n
    using assms(3) by (simp add: that busy_def queues_def)
  show ?thesis
    using assms close_machine [OF _ assms(2) q [OF refl]] sv busy_ok [OF assms(3)]
    by (auto simp: muxer_videnc_change_savetime_def Let_def Option.bind_eq_Some_conv split: if_splits)
qed

text \<open>The queue.\<close>

lemma get_ok:
  assumes "sbuf_ok q" and "sbuf_get q = Some (d, q')"
  shows "sbuf_ok q' \<and> sbuf_slots q' = sbuf_slots q"
  using assms sbuf_empty_iff [OF assms(1)] sbuf_get_cons [OF assms(1)]
  by (auto simp: sbuf_get_def split: if_splits)

lemma next_block_busy: "next_block st = Some st' \<Longrightarrow> busy st \<Longrightarrow> busy st' \<and> vstate (pvid st') = vstate (pvid st)"
  by (auto simp: next_block_def take_block_def busy_def queues_def queues_ok_def dest: get_ok)

lemma block_busy [simp]: "busy (take_block d st) = busy st" "busy (block_ready st) = busy st"
  by (simp_all add: busy_def take_block_def block_ready_def queues_def)

section \<open>Opening\<close>

lemma drain_capacity: "drain encHeap_deQueue k h = (ds, h') \<Longrightarrow> capacity h' = capacity h"
proof (induction k arbitrary: h ds)
  case 0
  then show ?case by simp
next
  case (Suc k)
  obtain x h1 where h1: "encHeap_deQueue h = (x, h1)" by (metis surj_pair)
  moreover have "capacity h1 = capacity h" using h1 by (auto simp: encHeap_deQueue_def Let_def split: if_splits)
  ultimately show ?case using Suc by (auto split: prod.splits)
qed

lemma unlink_all_closed: "handle_ok E C \<Longrightarrow> C w \<Longrightarrow> C (unlink_all (fs E) e ds w)"
  by (induction ds arbitrary: w) (auto simp: handle_ok_def opens_nothing_def)

lemma file_delete_machine:
  assumes "videnc_info_file_delete (fs E) (of_nat MAX_FILE_NUM) e w = (n, e', w')"
    and "handle_ok E C" and "C w" and "queues_ok (sbuf e, filenamelist e)"
  shows "queues_ok (sbuf e', filenamelist e') \<and> vstate e' = vstate e \<and> C w'"
proof -
  have "unat (of_nat MAX_FILE_NUM :: u32) = 9999" by (simp add: MAX_FILE_NUM_def)
  then obtain k ds where "deleted (fs E) 9999 0 e w n k ds e' w'"
    using delete_loop_drain [OF _ _ assms(1) [unfolded videnc_info_file_delete_def]] assms(4)
    by (auto simp: queues_ok_def)
  then obtain h where h: "drain encHeap_deQueue k (filenamelist e) = (ds, h)" "e' = e\<lparr>filenamelist := h\<rparr>"
    "w' = unlink_all (fs E) e ds w" "k \<le> usedsize (filenamelist e)"
    by (auto simp: deleted_def)
  have "heap_ok h" "capacity h = capacity (filenamelist e)"
    using names.drain_sorted [of "filenamelist e" k] h(1,4) assms(4) drain_capacity [OF h(1)]
    by (auto simp: queues_ok_def size_names)
  then show ?thesis
    using h(2,3) assms(3,4) unlink_all_closed [OF assms(2,3)] by (simp add: queues_ok_def)
qed

lemma start_machine:
  assumes "start_file E st = Some (ok, st')" and "queues_ok (queues st)"
  shows "ok \<and> busy st' \<and> vstate (pvid st') = VIDENC_FIRST"
proof -
  from assms(1) obtain s1 where s1: "ok" "add_header E (set_buf (\<lambda>b. b\<lparr>buf := base b, blength := 0\<rparr>)
      (set_vid (\<lambda>v. v\<lparr>filesize := 0\<rparr>) st)) = Some s1"
    "st' = (set_state VIDENC_FIRST s1)\<lparr>nVidenc_Mode_old := nVidenc_Mode_now s1, nVidenc_Mode_now := rec_type (pvid s1)\<rparr>"
    by (auto simp: start_file_def Let_def Option.bind_eq_Some_conv)
  show ?thesis
    using add_header_writes [OF s1(2)] assms(2) s1(1,3)
    by (simp add: writes_def busy_def queues_def resting_def)
qed

text \<open>Opening gives a file in the state \<open>VIDENC_FIRST\<close>, or closes what it opened.\<close>

definition opened :: "('w \<Rightarrow> bool) \<Rightarrow> bool \<Rightarrow> 'w recorder \<Rightarrow> bool" where
  "opened C ok st \<longleftrightarrow> (if ok then busy st \<and> vstate (pvid st) = VIDENC_FIRST else machine_ok C st)"

lemma fail_opened:
  assumes "muxer_videnc_fail E x st = Some (ok, st')" and "x = VID_OPENFAIL \<or> x = VID_FULL"
    and "handle_ok E C" and "queues_ok (queues st)"
  shows "opened C ok st'"
  using assms
  by (auto simp: muxer_videnc_fail_def muxer_videnc_error_def opened_def machine_ok_def resting_def
      queues_def handle_ok_def opens_nothing_def Let_def)

lemma start_opened: "start_file E st = Some (ok, st') \<Longrightarrow> queues_ok (queues st) \<Longrightarrow> opened C ok st'"
  using start_machine [of E st ok st'] by (simp add: opened_def)

lemma enter_opened:
  assumes "enter_name E st = Some (ok, st')" and "handle_ok E C" and "queues_ok (queues st)"
  shows "opened C ok st'"
proof -
  obtain r h where q: "encHeap_addQueue (filenamelist (pvid st)) (now_name (pvid st)) = (r, h)"
    by (metis surj_pair)
  have h: "heap_ok h" "capacity h = capacity (filenamelist (pvid st))"
    using enQueue_correct [OF _ _ q [unfolded encHeap_addQueue_def]] assms(3)
    by (auto simp: queues_ok_def queues_def)
  have set_ok: "queues_ok (queues (set_vid (\<lambda>v. v\<lparr>filenamelist := h\<rparr>) st))"
    "queues_ok (queues ((set_vid (\<lambda>v. v\<lparr>filenamelist := h\<lparr>delHData := z\<rparr>\<rparr>) st)\<lparr>disk := w\<rparr>))" for z w
    using h assms(3) by (simp_all add: queues_ok_def queues_def heap_ok_def)
  show ?thesis
    using assms(1)
    by (auto simp: enter_name_def q Let_def split: if_splits intro: start_opened [OF _ set_ok(1)]
        start_opened [OF _ set_ok(2)] fail_opened [OF _ _ assms(2) set_ok(1)])
qed

lemma idle_opened:
  assumes "muxer_videnc_idle E st = Some (ok, st')" and "handle_ok E C" and "C (disk st)"
    and "queues_ok (queues st)"
  shows "opened C ok st'"
proof -
  let ?v = "(pvid st)\<lparr>vstate := VIDENC_OPEN\<rparr>"
  obtain n e w where d: "videnc_info_file_delete (fs E) (of_nat MAX_FILE_NUM) ?v (disk st) = (n, e, w)"
    by (metis prod_cases3)
  have e: "queues_ok (sbuf e, filenamelist e)"
    using file_delete_machine [OF d assms(2,3)] assms(4) by (simp add: queues_def)
  let ?e = "videnc_info_file_getname (localtime E (TIME (menv st))) e"
  obtain r1 w1 where f1: "f_open (fs E) (file_path ?e (now_name ?e)) w = (r1, w1)" by (metis surj_pair)
  obtain r2 w2 where f2: "f_expand (fs E) FAT_SDSAVE_FREE_ALLOC_SIZE w1 = (r2, w2)" by (metis surj_pair)
  have qs: "queues_ok (queues (st\<lparr>pvid := e, disk := w\<rparr>))" "queues_ok (queues (st\<lparr>pvid := ?e, disk := x\<rparr>))" for w x
    using e by (simp_all add: queues_def videnc_info_file_getname_def)
  show ?thesis
    using assms(1) d f1 f2 fail_opened [OF _ _ assms(2) qs(1)] fail_opened [OF _ _ assms(2) qs(2)]
      enter_opened [OF _ assms(2) qs(2)]
    by (auto simp: muxer_videnc_idle_def muxer_videnc_open_def Let_def split: if_splits)
qed

section \<open>The stages\<close>

lemma nextI_busy:
  assumes "muxer_videnc_nextI_video E st = Some (ok, st')" and "busy st"
  shows "busy st'"
proof -
  have "busy st \<longrightarrow> busy (snd r)" if "muxer_videnc_nextI_video E st = Some r" for r
  proof (rule muxer_videnc_nextI_video.raw_induct [of "\<lambda>E st r. busy st \<longrightarrow> busy (snd r)", OF _ that], goal_cases)
    case (1 next_I E st r)
    show ?case
    proof
      assume b: "busy st"
      show "busy (snd r)"
      proof (cases "next_block st")
        case None
        with 1(2) b show ?thesis by auto
      next
        case (Some s1)
        have s1: "busy s1" using next_block_busy [OF Some b] by simp
        have "busy (block_ready (set_state VIDENC_WRITE s1))"
          using busy_set [OF s1, of VIDENC_WRITE] by (simp add: resting_def)
        then have "busy z" if "muxer_videnc_write E (block_ready (set_state VIDENC_WRITE s1)) = Some z" for z
          using that by (rule busy_writes [OF _ write_writes])
        then show ?thesis
          using 1(1) [of E s1 r] 1(2) Some s1 by (auto split: if_splits)
      qed
    qed
  qed
  from this [OF assms(1)] assms(2) show ?thesis by simp
qed

lemma check_stop_go: "check_stop st = (True, s) \<Longrightarrow> s = st \<and> \<not> stopped (vstate (pvid st)) \<and> bSdVidSave st"
  by (auto simp: check_stop_def split: if_splits)

lemma check_stop_ok: "check_stop st = (go, s) \<Longrightarrow> machine_ok C st \<Longrightarrow> machine_ok C s \<and> (go \<longrightarrow> busy s)"
  by (auto simp: check_stop_def stopped_def machine_ok_def resting_def queues_def busy_def split: if_splits)

lemma write_loop_machine:
  assumes "write_loop E st = Some st'" and "handle_ok E C" and "busy st"
  shows "machine_ok C st'"
proof -
  have "handle_ok E C \<longrightarrow> busy st \<longrightarrow> machine_ok C st'"
  proof (rule write_loop.raw_induct [of "\<lambda>E st r. handle_ok E C \<longrightarrow> busy st \<longrightarrow> machine_ok C r", OF _ assms(1)], goal_cases)
    case (1 loop E st st')
    show ?case
    proof (intro impI)
      assume h: "handle_ok E C" and b: "busy st"
      show "machine_ok C st'"
      proof (cases "sbuf_peek (sbuf (pvid st))")
        case None
        with 1(2) b show ?thesis by (auto intro: busy_ok)
      next
        case (Some d)
        let ?st = "take_block d st"
        have go: "machine_ok C st'" if s: "machine_ok C s"
            "(case check_stop s of (go, s) \<Rightarrow> if go then loop E s else Some s) = Some st'" for s
          using check_stop_ok [OF _ s(1)] 1(1) [of E _ st'] s(2) h by (auto split: prod.splits if_splits)
        show ?thesis
        proof (cases "key_type (type d) \<and> un32vidscount (info ?st) \<ge> un32vidsmax (info ?st)")
          case True
          with 1(2) Some obtain s where s: "muxer_videnc_close E (set_state VIDENC_CLOSE ?st) = Some s"
            "(case check_stop s of (go, s) \<Rightarrow> if go then loop E s else Some s) = Some st'"
            by (auto simp: Let_def Option.bind_eq_Some_conv split: option.splits)
          have "queues_ok (queues (set_state VIDENC_CLOSE ?st))"
            using b by (simp add: busy_def queues_def take_block_def)
          from go [OF close_machine [OF s(1) h this] s(2)] show ?thesis .
        next
          case False
          show ?thesis
          proof (cases "next_block ?st")
            case None
            with 1(2) Some False have "st' = ?st" by auto
            then show ?thesis using b by (simp add: busy_ok)
          next
            case (Some s1)
            with 1(2) \<open>sbuf_peek _ = Some d\<close> False obtain s where s: "muxer_videnc_write E (block_ready s1) = Some s"
              "(case check_stop s of (go, s) \<Rightarrow> if go then loop E s else Some s) = Some st'"
              by (auto simp: Let_def Option.bind_eq_Some_conv split: option.splits)
            have "busy (block_ready s1)" using next_block_busy [OF Some] b by simp
            from busy_writes [OF this write_writes [OF s(1)]] have "machine_ok C s" by (rule busy_ok)
            from go [OF this s(2)] show ?thesis .
          qed
        qed
      qed
    qed
  qed
  with assms(2,3) show ?thesis by simp
qed

lemma write_stage_machine:
  assumes "write_stage E st = Some st'" and "handle_ok E C" and "busy st"
  shows "machine_ok C st'"
proof (cases "bSdVidSave st")
  case False
  with assms(1,3) show ?thesis
    by (auto simp: write_stage_def busy_def machine_ok_def resting_def queues_def)
next
  case True
  let ?st = "st\<lparr>VIDEO_REC := True, enc_ing := True\<rparr>"
  from assms(1) True obtain n s1 where s1: "muxer_videnc_change_savetime E True False ?st = Some (n, s1)"
    "(case check_stop s1 of (go, st) \<Rightarrow> if go then write_loop E st else Some st) = Some st'"
    by (auto simp: write_stage_def Let_def Option.bind_eq_Some_conv)
  have "busy ?st" using assms(3) by (simp add: busy_def queues_def)
  from check_stop_ok [OF _ savetime_machine [OF s1(1) assms(2) this]] s1(2) write_loop_machine [OF _ assms(2)]
  show ?thesis by (auto split: prod.splits if_splits)
qed

lemma next_stage_machine:
  assumes "next_stage E st = Some st'" and "handle_ok E C" and "busy st"
  shows "machine_ok C st'"
proof (cases "nVidenc_Mode_now st = nVidenc_Mode_old st")
  case False
  with assms show ?thesis by (auto simp: next_stage_def dest: nextI_busy intro: busy_ok)
next
  case True
  with assms(1) obtain s1 where s1: "muxer_videnc_write E st = Some s1"
    "write_stage E (set_state VIDENC_WRITE s1) = Some st'"
    by (auto simp: next_stage_def Option.bind_eq_Some_conv)
  have "busy (set_state VIDENC_WRITE s1)"
    using busy_set [OF busy_writes [OF assms(3) write_writes [OF s1(1)]], of VIDENC_WRITE] by (simp add: resting_def)
  from write_stage_machine [OF s1(2) assms(2) this] show ?thesis .
qed

lemma first_stage_machine:
  assumes "first_stage E st = Some st'" and "handle_ok E C" and "busy st"
  shows "machine_ok C st'"
proof (cases "next_block st")
  case None
  with assms show ?thesis by (simp add: first_stage_def muxer_videnc_frist_video_def busy_ok)
next
  case (Some s1)
  then have s1: "busy s1" using next_block_busy assms(3) by blast
  have "busy (block_ready (set_state VIDENC_FIRST_NEXT s1))"
    using busy_set [OF s1, of VIDENC_FIRST_NEXT] by (simp add: resting_def)
  with Some s1 assms(1) next_stage_machine [OF _ assms(2)] show ?thesis
    by (auto simp: first_stage_def muxer_videnc_frist_video_def busy_ok split: if_splits)
qed

lemma process_machine:
  assumes "muxer_videnc_process E st = Some st'" and "handle_ok E C" and "machine_ok C st"
  shows "machine_ok C st'"
proof (cases "vstate (pvid st)")
  case VIDENC_IDLE
  with assms(1) obtain ok s1 where s1: "muxer_videnc_idle E (st\<lparr>enc_ing := True\<rparr>) = Some (ok, s1)"
    "(if ok then first_stage E s1 else Some s1) = Some st'"
    by (auto simp: muxer_videnc_process_def Option.bind_eq_Some_conv)
  have "C (disk (st\<lparr>enc_ing := True\<rparr>))" "queues_ok (queues (st\<lparr>enc_ing := True\<rparr>))"
    using assms(3) VIDENC_IDLE by (simp_all add: machine_ok_def queues_def)
  from idle_opened [OF s1(1) assms(2) this] s1(2) first_stage_machine [OF _ assms(2)] show ?thesis
    by (auto simp: opened_def split: if_splits)
next
  case VIDENC_EXIT
  with assms obtain s1 where "muxer_videnc_close E st = Some s1" "st' = muxer_videnc_all_stop s1"
    by (auto simp: muxer_videnc_process_def)
  with close_machine [of E st s1 C] assms(2,3) show ?thesis by (simp add: machine_ok_def queues_def)
next
  case VIDENC_OPEN
  with assms(3) show ?thesis by (simp add: machine_ok_def resting_def)
next
  case VIDENC_CLOSE
  with assms(3) show ?thesis by (simp add: machine_ok_def resting_def)
next
  case VIDENC_FIRST
  with assms first_stage_machine [of E st st' C] show ?thesis
    by (simp add: muxer_videnc_process_def machine_ok_def busy_def)
next
  case VIDENC_FIRST_NEXT
  with assms next_stage_machine [of E st st' C] show ?thesis
    by (simp add: muxer_videnc_process_def machine_ok_def busy_def)
next
  case VIDENC_WRITE
  with assms write_stage_machine [of E st st' C] show ?thesis
    by (simp add: muxer_videnc_process_def machine_ok_def busy_def)
qed

section \<open>Runs\<close>

lemma task_machine:
  assumes "muxer_videnc_task E st = Some st'" and "handle_ok E C" and "machine_ok C st"
  shows "machine_ok C st'"
proof -
  have m: "machine_ok C s'" if "muxer_videnc E s = Some s'" "machine_ok C s" for s s'
  proof -
    have snap: "machine_ok C (muxer_videnc_stop eRecSnapshot (s1\<lparr>disk := jpegstill E (disk s1)\<rparr>))"
      if "machine_ok C s1" for s1
      using that assms(2)
      by (simp add: machine_ok_def handle_ok_def opens_nothing_def queues_def muxer_videnc_stop_def eRecSnapshot_def eRecNormal_def)
    show ?thesis
      using that assms(2) snap
      by (auto simp: muxer_videnc_def Option.bind_eq_Some_conv dest: process_machine split: if_splits)
  qed
  show ?thesis using assms(1,3) m by (auto simp: muxer_videnc_task_def split: if_splits)
qed

lemma put_machine:
  assumes "muxer_videnc_Buffering a n fl ty st = Some st'" and "machine_ok C st"
  shows "machine_ok C st'"
proof -
  have "queues_ok (queues st')" "vstate (pvid st') = vstate (pvid st)" "disk st' = disk st"
    using assms sbuf_put_items [of "sbuf (pvid st)" "\<lparr>addr = ucast a, size = n, flags = fl, type = ty\<rparr>"]
    by (auto simp: muxer_videnc_Buffering_def videnc_info_put_def machine_ok_def queues_def queues_ok_def split: if_splits)
  then show ?thesis using assms(2) by (simp add: machine_ok_def)
qed

text \<open>
  What happens to the recorder: the encoder writes a frame into memory and hands it over, the task
  has a round, the user starts and stops recordings and changes settings, and time passes.
\<close>

inductive rec_step :: "'w muxer_env \<Rightarrow> 'w recorder \<Rightarrow> 'w recorder \<Rightarrow> bool" for E where
  frame: "muxer_videnc_Buffering a n fl ty (st\<lparr>ram := m\<rparr>) = Some st' \<Longrightarrow> rec_step E st st'"
| round: "muxer_videnc_task E st = Some st' \<Longrightarrow> rec_step E st st'"
| go: "rec_step E st (muxer_videnc_go var st)"
| stop: "rec_step E st (muxer_videnc_stop var st)"
| settings: "rec_step E st (st\<lparr>nFps := f, resolution := r, bSdVidSave := b\<rparr>)"
| codec: "rec_step E st (muxer_videnc_set_vcodec vs st)"
| clock: "rec_step E st (st\<lparr>menv := e\<rparr>)"

inductive_cases rec_stepE: "rec_step E st st'"

lemma machine_cong:
  "queues a = queues b \<Longrightarrow> vstate (pvid a) = vstate (pvid b) \<Longrightarrow> disk a = disk b \<Longrightarrow> machine_ok C a = machine_ok C b"
  by (simp add: machine_ok_def)

lemma rec_step_machine:
  assumes "rec_step E st st'" and "handle_ok E C" and "machine_ok C st"
  shows "machine_ok C st'"
  using assms(1)
proof cases
  case (frame a n fl ty m)
  have "machine_ok C (st\<lparr>ram := m\<rparr>)" using assms(3) by (simp add: machine_ok_def queues_def)
  with frame show ?thesis by (rule put_machine)
next
  case round
  with assms(2,3) show ?thesis by (simp add: task_machine)
qed (use assms(3) in \<open>auto simp: machine_ok_def queues_def muxer_videnc_go_def muxer_videnc_stop_def
      muxer_videnc_set_vcodec_def\<close>)

text \<open>C7: Whatever frames come in, whatever the card answers, and whatever the user does, the recorder
  rests in one of the states idle, first, first-next, write and exit; its frame queue and its heap of
  file names stay well formed; and when it is idle no file is open (\<open>C\<close>), unless the last \<open>f_close\<close> of one
  failed (\<open>J\<close>): the recorder goes idle without looking at the result of \<open>f_close\<close>.\<close>

theorem recorder_invariant:
  assumes "(rec_step E)\<^sup>*\<^sup>* st st'" and "close_ok E C J" and "opens_nothing E (\<lambda>w. C w \<or> J w)"
    and "machine_ok C st"
  shows "vstate (pvid st') \<in> {VIDENC_IDLE, VIDENC_FIRST, VIDENC_FIRST_NEXT, VIDENC_WRITE, VIDENC_EXIT}
    \<and> (vstate (pvid st') = VIDENC_IDLE \<longrightarrow> C (disk st') \<or> J (disk st'))
    \<and> sbuf_ok (sbuf (pvid st')) \<and> heap_ok (filenamelist (pvid st'))"
proof -
  let ?C = "\<lambda>w. C w \<or> J w"
  have "machine_ok ?C st" using assms(4) by (simp add: machine_ok_def)
  with assms(1) have "machine_ok ?C st'"
    by (induction rule: rtranclp_induct) (use rec_step_machine [OF _ close_handle [OF assms(2,3)]] in blast)+
  then show ?thesis
    by (cases "vstate (pvid st')") (auto simp: machine_ok_def resting_def queues_def queues_ok_def)
qed

end
