(* ===== verification/MuxerInit.thy ===== *)
theory MuxerInit
  imports MuxerState
begin

text \<open>
  The recorder after power-up and the detection of a card: its buffers and tables are there, and it is
  in a state from which the results on files and on the machine hold.
\<close>

text \<open>The recorder is set up for a file: its buffers are there and large enough.\<close>

definition ready :: "'w recorder \<Rightarrow> bool" where
  "ready st \<longleftrightarrow> buf_there (tbuf st) \<and> hdr_info (tbuf st) \<noteq> 0 \<and> hdr_size (tbuf st) < total (tbuf st)
     \<and> unat (hdr_size (tbuf st)) < 2 ^ 31 \<and> arrays_small (tbuf st) \<and> vid_ok (info st)"

text \<open>Static memory.\<close>

definition zero_stbl :: MP4HeaderSTBL where
  "zero_stbl = \<lparr>stbl_size = 0, stss_len = 0, stss = [], stsz_len = 0, stsz = [], stco_len = 0, stco = []\<rparr>"

definition zero_buf :: t_videnc_totalbuf_t where
  "zero_buf = \<lparr>wbuf = [], buf = 0, base = 0, blength = 0, total = 0, hdr_size = 0, hdr_len = 0,
     hdr_info = 0, Vstbl = zero_stbl, Astbl = zero_stbl\<rparr>"

text \<open>Reading a directory opens no file.\<close>

definition dir_ok :: "'w fatfs \<Rightarrow> ('w \<Rightarrow> bool) \<Rightarrow> bool" where
  "dir_ok F C \<longleftrightarrow> (\<forall>p w. C w \<longrightarrow> C (f_opendir F p w)) \<and> (\<forall>w. C w \<longrightarrow> C (snd (snd (f_readdir F w))))
     \<and> (\<forall>w. C w \<longrightarrow> C (f_closedir F w))"

definition names_ok :: "t_videnc_t \<Rightarrow> t_videnc_t \<Rightarrow> bool" where
  "names_ok e e' \<longleftrightarrow> (\<exists>h. e' = e\<lparr>filenamelist := h\<rparr> \<and> capacity h = capacity (filenamelist e)
     \<and> (heap_ok (filenamelist e) \<longrightarrow> 0 < capacity (filenamelist e) \<longrightarrow> heap_ok h))"

lemma names_okI: "capacity h = capacity (filenamelist e) \<Longrightarrow>
    (heap_ok (filenamelist e) \<Longrightarrow> 0 < capacity (filenamelist e) \<Longrightarrow> heap_ok h) \<Longrightarrow>
    names_ok e (e\<lparr>filenamelist := h\<rparr>)"
  unfolding names_ok_def by (rule exI [of _ h]) simp

lemma names_ok_refl: "names_ok e e"
  unfolding names_ok_def by (intro exI [of _ "filenamelist e"]) simp

lemma names_ok_trans: "names_ok a b \<Longrightarrow> names_ok b c \<Longrightarrow> names_ok a c"
  by (auto simp: names_ok_def)

lemma enQueue_capacity: "encHeap_enQueue h d = (r, h') \<Longrightarrow> capacity h' = capacity h"
  by (auto simp: encHeap_enQueue_def heap_add_def encHeap_deQueue_def Let_def split: if_splits)

lemma list_entry_ok:
  assumes "list_entry (fs E) fi e w = (e', w')" and "opens_nothing E C" and "C w"
  shows "names_ok e e' \<and> C w'"
proof -
  have unl: "C (snd (f_unlink (fs E) p w))" for p using assms(2,3) by (simp add: opens_nothing_def)
  obtain r h where q: "encHeap_addQueue (filenamelist e) (fname fi) = (r, h)" by (metis surj_pair)
  have h: "capacity h = capacity (filenamelist e)"
    "heap_ok (filenamelist e) \<Longrightarrow> 0 < capacity (filenamelist e) \<Longrightarrow> heap_ok h"
    using enQueue_capacity [OF q [unfolded encHeap_addQueue_def]] enQueue_correct [OF _ _ q [unfolded encHeap_addQueue_def]]
    by simp_all
  have "names_ok e (e\<lparr>filenamelist := h\<rparr>)" "names_ok e (e\<lparr>filenamelist := h\<lparr>delHData := z\<rparr>\<rparr>)" for z
    using h by (auto intro!: names_okI simp: heap_ok_def)
  with assms(1,3) unl names_ok_refl [of e] show ?thesis
    by (auto simp: list_entry_def q split: if_splits)
qed

lemma list_dir_ok:
  assumes "list_dir (fs E) e w = Some (e', w')" and "opens_nothing E C" and "dir_ok (fs E) C" and "C w"
  shows "names_ok e e' \<and> C w'"
proof -
  have "F = fs E \<longrightarrow> C w \<longrightarrow> names_ok e (fst r) \<and> C (snd r)" if "list_dir F e w = Some r" for F r
  proof (rule list_dir.raw_induct [of "\<lambda>F e w r. F = fs E \<longrightarrow> C w \<longrightarrow> names_ok e (fst r) \<and> C (snd r)", OF _ that], goal_cases)
    case (1 loop F e w r)
    show ?case
    proof (intro impI)
      assume F: "F = fs E" and w: "C w"
      obtain x fi w1 where rd: "f_readdir F w = (x, fi, w1)" by (metis prod_cases3)
      have w1: "C w1" using assms(3) w rd F unfolding dir_ok_def by (metis snd_conv)
      obtain e1 w2 where le: "list_entry F fi e w1 = (e1, w2)" by (metis surj_pair)
      note le1 = list_entry_ok [OF le [unfolded F] assms(2) w1]
      show "names_ok e (fst r) \<and> C (snd r)"
        using 1(1) [of F e1 w2 r] 1(2) rd le le1 w1 F names_ok_refl
        by (auto split: if_splits intro: names_ok_trans)
    qed
  qed
  from this [OF assms(1)] assms(4) show ?thesis by simp
qed

lemma reset_ok: "heap_ok (encHeap_resetQueue h)"
  by (simp add: encHeap_resetQueue_def heap_ok_def heap_ord_def)


lemma sbuf_init_ok:
  "sbuf_ok (snd (sbuf_init True NUM_STREAM_TOTAL))" "sbuf_slots (snd (sbuf_init True NUM_STREAM_TOTAL)) = 149"
  by (simp_all add: sbuf_init_def NUM_STREAM_TOTAL_def sbuf_defs ring_ok_iff Let_def)

lemma savetime_room:
  assumes "\<And>n. alloc_ok (heap E) n" and "Vstbl (tbuf st) = zero_stbl"
  shows "room (tbuf (set_savetime E 30 st)) = 900" and "un32vidsmax (info (set_savetime E 30 st)) = 900"
  using assms
  by (simp_all add: set_savetime_def videnc_info_init_savetime_def savetime_limits_def savetime_tables_def
      room_def grow_stbl_def clear_stbl_def videnc_info_init_item_malloc_def zero_stbl_def SAVE_NOR_TIME_MAX_def Let_def)

lemma savetime_header:
  assumes "\<And>n. alloc_ok (heap E) n" and "hdr_info (tbuf st) = 0"
  shows "hdr_info (tbuf (set_savetime E f st)) = fresh_addr (heap E)"
    and "hdr_size (tbuf (set_savetime E f st)) = 64 * 1024"
  using assms
  by (simp_all add: set_savetime_def videnc_info_init_savetime_def savetime_tables_def Let_def)

lemma init_ready:
  assumes "muxer_videnc_init E True (muxer_videnc_task_init E st0) = Some st"
    and "tbuf st0 = zero_buf" and "nVidenc_Fps_old st0 = 0"
    and "\<And>n. alloc_ok (heap E) n" and "fresh_addr (heap E) \<noteq> 0"
    and "opens_nothing E C" and "dir_ok (fs E) C" and "C (disk st0)"
  shows "ready st \<and> machine_ok C st \<and> vstate (pvid st) = VIDENC_IDLE
    \<and> room (tbuf st) = 900 \<and> un32vidsmax (info st) = 900"
proof -
  let ?v = "videnc_info_sbuf_init (heap E) (videnc_info_init (heap E) eRecNormal (str ''NORMAL'') SAVE_NOR_NAME_FORMAT (Suc MAX_FILE_NUM))"
  let ?b = "zero_buf\<lparr>wbuf := replicate (unat VID_BUF_SIZE) (ucast (fresh_word (heap E))), total := VID_BUF_SIZE\<rparr>"
  let ?e = "?v\<lparr>filenamelist := encHeap_resetQueue (filenamelist ?v)\<rparr>"
  have init: "pvid (muxer_videnc_task_init E st0) = ?v" "tbuf (muxer_videnc_task_init E st0) = ?b"
    "disk (muxer_videnc_task_init E st0) = disk st0" "nVidenc_Fps_old (muxer_videnc_task_init E st0) = 0"
    using assms(2-4) by (simp_all add: muxer_videnc_task_init_def muxer_init_buffering_def
        videnc_info_init_buffer_def zero_buf_def Let_def)
  have dflt: "videnc_info_default ?v ?b = (?v, ?b)"
    by (simp add: videnc_info_default_def videnc_info_sbuf_init_def videnc_info_init_def zero_buf_def)
  obtain e w where list: "list_dir (fs E) ?e (f_opendir (fs E) (dir_name ?v) (disk st0)) = Some (e, w)"
    and st: "st = (set_savetime E 30 ((muxer_videnc_task_init E st0)
        \<lparr>pvid := e, tbuf := ?b, disk := f_closedir (fs E) w, nVidenc_Fps_old := 30\<rparr>))\<lparr>bSD_FAT_mounted := True\<rparr>"
    using assms(1)
    by (auto simp: muxer_videnc_init_def init dflt videnc_info_init_filenamelist_def change_savetime_start
        change_savetime_start_def Let_def Option.bind_eq_Some_conv split: option.splits)
  let ?s = "(muxer_videnc_task_init E st0)
        \<lparr>pvid := e, tbuf := ?b, disk := f_closedir (fs E) w, nVidenc_Fps_old := 30\<rparr>"
  have "C (f_opendir (fs E) (dir_name ?v) (disk st0))" using assms(7,8) by (simp add: dir_ok_def)
  note LD = list_dir_ok [where C = C and E = E, OF list assms(6,7) this]
  have L: "names_ok ?e e" "C w" by (rule LD [THEN conjunct1], rule LD [THEN conjunct2])
  have cap: "capacity (filenamelist ?e) = 10000"
    by (simp add: videnc_info_sbuf_init_def videnc_info_init_def encHeap_create_def encHeap_resetQueue_def MAX_FILE_NUM_def)
  have e: "vidinfo e = zero_mp4" "vstate e = VIDENC_IDLE" "queues_ok (sbuf e, filenamelist e)"
    using L(1) cap reset_ok [of "filenamelist ?v"] sbuf_init_ok assms(4)
    by (auto simp: names_ok_def queues_ok_def videnc_info_sbuf_init_def videnc_info_init_def)
  have cl: "C (f_closedir (fs E) w)" using L(2) assms(7) by (simp add: dir_ok_def)
  obtain s where s: "s = ?s" by blast
  have tb: "tbuf s = ?b" "pvid s = e" "disk s = f_closedir (fs E) w" by (simp_all add: s)
  have small: "arrays_small (tbuf s)" by (simp add: tb(1) arrays_small_def zero_buf_def zero_stbl_def)
  have b: "hdr_info (tbuf s) = 0" "Vstbl (tbuf s) = zero_stbl" "base (tbuf s) = 0"
    "length (wbuf (tbuf s)) = unat (total (tbuf s))" "total (tbuf s) = VID_BUF_SIZE"
    by (simp_all add: tb(1) zero_buf_def)
  let ?t = "set_savetime E 30 s"
  have st: "st = ?t\<lparr>bSD_FAT_mounted := True\<rparr>" by (simp only: st s)
  note F = savetime_fields [where E = E and f = 30 and st = s, OF refl]
  note H = savetime_header [where E = E and f = 30 and st = s, OF assms(4) b(1)]
  have "vid_ok (info s)" using e(1) by (simp add: tb(2) vid_ok_def zero_mp4_def)
  then have v: "vid_ok (info ?t)" using vid_ok_cong [OF F(1)] by blast
  have "buf_there (tbuf ?t)" unfolding buf_there_def F(6-8) using b(3-5) by (simp add: VID_BUF_SIZE_def)
  then have "ready st"
    unfolding ready_def using H F(8) F(12) [OF small] b(5) v assms(5) by (simp add: st VID_BUF_SIZE_def)
  moreover have "vstate (pvid ?t) = VIDENC_IDLE" "queues ?t = queues s \<and> disk ?t = disk s"
    using set_savetime_writes [of s E 30] F(2,3) e(2) tb(2) by (simp_all add: writes_def)
  moreover from this have "machine_ok C st"
    using e(3) cl by (simp add: st tb(2,3) machine_ok_def queues_def resting_def)
  moreover have "room (tbuf st) = 900" "un32vidsmax (info st) = 900"
    using savetime_room [where E = E and st = s, OF assms(4) b(2)] by (simp_all add: st)
  ultimately show ?thesis by (simp add: st)
qed

text \<open>C9: When every allocation at power-up succeeds and a card is found, the recorder is idle and
  ready for files: its buffers are there, with room for the header in the write buffer, the frame
  queue and the name heap are well formed, and the video tables have exactly the 900 entries after
  which a file is due to be closed.\<close>

theorem recorder_ready:
  assumes "muxer_videnc_init E True (muxer_videnc_task_init E st0) = Some st"
    and "tbuf st0 = zero_buf" and "nVidenc_Fps_old st0 = 0"
    and "\<And>n. alloc_ok (heap E) n" and "fresh_addr (heap E) \<noteq> 0"
    and "opens_nothing E C" and "dir_ok (fs E) C" and "C (disk st0)"
  shows "ready st \<and> machine_ok C st \<and> vstate (pvid st) = VIDENC_IDLE
    \<and> room (tbuf st) = 900 \<and> un32vidsmax (info st) = 900"
  using assms by (rule init_ready)

end
