(* ===== verification/MuxerProps.thy ===== *)
theory MuxerProps
  imports MuxerInit
begin

text \<open>
  The properties of the recorder, \<open>task/videnc/muxer_videnc.c\<close>: a recording becomes a valid MP4 file,
  the state machine takes the queue into files cut at key frames, and where it goes wrong.
\<close>

section \<open>Files\<close>

lemma idle_ok:
  assumes c: "card_ok (fs E) D P" and r: "ready st" and i: "muxer_videnc_idle E st = Some (True, st1)"
  shows "\<exists>hdr. sink_ok E D P st1 \<and> layout D P hdr [] st1 \<and> vid_ok (info st1)
    \<and> vstate (pvid st1) = VIDENC_FIRST \<and> total (tbuf st1) = total (tbuf st)
    \<and> hdr_size (tbuf st1) = hdr_size (tbuf st) \<and> hdr_info (tbuf st1) = hdr_info (tbuf st)
    \<and> nVidenc_Fps_old st1 = 30 \<and> nVidenc_Mode_old st1 = nVidenc_Mode_now st
    \<and> nVidenc_Mode_now st1 = rec_type (pvid st)
    \<and> user (st1\<lparr>nVidenc_Mode_now := nVidenc_Mode_now st\<rparr>) = user st
    \<and> (nVidenc_Fps_old st = 30 \<longrightarrow> room (tbuf st1) = room (tbuf st) \<and> room_audio (tbuf st1) = room_audio (tbuf st))"
proof -
  from open_True [OF c i [unfolded muxer_videnc_idle_def]] obtain st' where st':
    "start_file E st' = Some (True, st1)" "tbuf st' = tbuf st" "P (disk st') = 0" "info st' = info st"
    "vstate (pvid st') = VIDENC_OPEN" "nVidenc_Fps_old st' = nVidenc_Fps_old st" "user st' = user st"
    by (auto simp: user_def)
  with r have b: "buf_there (tbuf st')" "hdr_info (tbuf st') \<noteq> 0" "unat (hdr_size (tbuf st')) < 2 ^ 31"
    "arrays_small (tbuf st')" "vid_ok (info st')" by (simp_all add: ready_def)
  have "rec_type (pvid st') = rec_type (pvid st)" "nVidenc_Mode_now st' = nVidenc_Mode_now st"
    using st'(7) by (simp_all add: user_def)
  with start_file_ok [OF c b(1-4) st'(5,3) b(5)] st'(1,2,6,7) show ?thesis by auto
qed

text \<open>C5: A recording of frames in Annex B form and of sound, opened on a card that neither fails nor
  fills, is written and closed without the code going astray, and leaves the recorder idle. The file
  reads as the boxes \<open>ftyp\<close>, \<open>moov\<close> and \<open>mdat\<close>, the last holding exactly the samples, each NAL unit
  behind its length; the size and offset tables find every video sample in the file, the sync table
  names the key frames, and the parameter sets kept for the header are those of the first frame.\<close>

theorem recorded_file:
  assumes "card_ok (fs E) D P" and "ready st0" and "muxer_videnc_idle E st0 = Some (True, st1)"
    and "frame_in m (block_of d) s us" and "flags d \<noteq> 0" and "sets_fit s (map snd us)"
    and "list_all2 frame_of fr X"
    and "S = frame_sample (block_of d) us # X"
    and "length S \<le> room (tbuf st1)" and "length (filter (\<lambda>s. \<not> is_video s) S) \<le> room_audio (tbuf st1)"
    and "2100 + 12 * length S \<le> unat (hdr_size (tbuf st0))"
    and "unat (hdr_size (tbuf st0)) + length (payload S) < 2 ^ 32"
  shows "\<exists>st2 st3. write_frames E ((m, d) # fr) (set_state VIDENC_FIRST_NEXT st1) = Some st2
    \<and> muxer_videnc_close E (set_state VIDENC_CLOSE st2) = Some st3 \<and> vstate (pvid st3) = VIDENC_IDLE
    \<and> file_of S (Vstbl (tbuf st3)) (D (disk st3)) \<and> sets_kept s (map snd us) (info st3)"
proof -
  obtain hdr where st1: "sink_ok E D P st1" "layout D P hdr [] st1" "vid_ok (info st1)"
    "total (tbuf st1) = total (tbuf st0)" "hdr_size (tbuf st1) = hdr_size (tbuf st0)"
    "hdr_info (tbuf st1) = hdr_info (tbuf st0)"
    using idle_ok [OF assms(1-3)] by blast
  let ?f = "set_state VIDENC_FIRST_NEXT st1"
  let ?x = "frame_sample (block_of d) us"
  have "sink_ok E D P ?f" "layout D P hdr [] ?f" "vid_ok (info ?f)" "0 < room (tbuf ?f)"
    using st1(1-3) assms(8,9) sink_ok_cong [of ?f st1] layout_cong [of ?f st1] by auto
  from first_frame_ok [OF this(1-3) assms(4-6) this(4)] obtain s1 where
    s1: "muxer_videnc_write E (block_ready (take_block d (?f\<lparr>ram := m\<rparr>))) = Some s1"
    "recording_ok E D P hdr [?x] s1" "keep s1 = keep ?f" "sets_kept s (map snd us) (info s1)" by auto
  note K1 = keep_fields [OF s1(3)]
  let ?s = "set_state VIDENC_WRITE s1"
  have rec: "recording_ok E D P hdr [?x] ?s" using s1(2) by (simp add: recording_ok_cong [of ?s s1])
  have room: "length ([?x] @ X) \<le> room (tbuf ?s)" "length (audios (length hdr) ([?x] @ X)) \<le> room_audio (tbuf ?s)"
    using assms(8-10) K1 by (simp_all add: length_audios)
  obtain st2 where st2: "write_frames E fr ?s = Some st2" "recording_ok E D P hdr ([?x] @ X) st2"
    "keep st2 = keep ?s" "psets (info st2) = psets (info ?s)"
    using write_frames_ok [OF rec _ assms(7) room] by auto
  have S: "[?x] @ X = S" using assms(8) by simp
  have "header_fits st2 S"
    using keep_fields [OF st2(3)] K1 st1(4-6) assms(2,11,12) by (simp add: header_fits_def ready_def)
  from close_recording [OF st2(2) [unfolded S] this] obtain st3 where st3:
    "muxer_videnc_close E (set_state VIDENC_CLOSE st2) = Some st3" "vstate (pvid st3) = VIDENC_IDLE"
    "file_of S (Vstbl (tbuf st3)) (D (disk st3))" "psets (info st3) = psets (info st2)" by blast
  have "psets (info st3) = psets (info s1)" using st3(4) st2(4) by simp
  then have "sets_kept s (map snd us) (info st3)" using s1(4) sets_kept_cong by blast
  moreover have "write_frames E ((m, d) # fr) ?f = Some st2" using s1(1) st2(1) by simp
  ultimately show ?thesis using st3(1-3) by blast
qed

text \<open>C6: A pass of the recorder in the state \<open>VIDENC_WRITE\<close> comes back. It turns the waiting frames
  into samples in order until the queue is empty, and then goes on recording; or, when a key frame is
  next and the frames of the save time are there, closes the file, leaves that key frame and all behind
  it in the queue, and is idle.\<close>

theorem process_takes_queue:
  assumes "recording_ok E D P hdr S st" and "vstate (pvid st) = VIDENC_WRITE" and "bSdVidSave st"
    and "nFps st (v_type (info st)) = nVidenc_Fps_old st"
    and "sbuf_ok (sbuf (pvid st))" and "sbuf_items (sbuf (pvid st)) = ds"
    and "accepted (un32vidscount (info st)) (un32vidsmax (info st)) ds = as"
    and "list_all2 (\<lambda>d x. frame_of (ram st, d) x) as X"
    and "length (S @ X) \<le> room (tbuf st)"
    and "length (filter (\<lambda>s. \<not> is_video s) (S @ X)) \<le> room_audio (tbuf st)"
    and "header_fits st (S @ X)"
  shows "\<exists>st'. muxer_videnc_process E st = Some st' \<and> sbuf_ok (sbuf (pvid st'))
    \<and> sbuf_items (sbuf (pvid st')) = drop (length as) ds
    \<and> (if as = ds then vstate (pvid st') = VIDENC_WRITE \<and> recording_ok E D P hdr (S @ X) st'
       else vstate (pvid st') = VIDENC_IDLE \<and> file_of (S @ X) (Vstbl (tbuf st')) (D (disk st')))"
proof -
  let ?st = "st\<lparr>VIDEO_REC := True, enc_ing := True\<rparr>"
  have "recording_ok E D P hdr S ?st" using assms(1) by (simp add: recording_ok_cong [of ?st st])
  from write_loop_ok [OF this, of ds as X] assms(2-10) obtain st2 where st2:
    "recording_ok E D P hdr (S @ X) st2" "sbuf_ok (sbuf (pvid st2))"
    "sbuf_items (sbuf (pvid st2)) = drop (length as) ds" "keep (requeue (sbuf (pvid st)) st2) = keep ?st"
    "write_loop E ?st = (if length as = length ds then Some st2
                         else muxer_videnc_close E (set_state VIDENC_CLOSE st2))"
    by (auto simp: length_audios)
  have acc: "length (accepted n mx xs) = length xs \<longleftrightarrow> accepted n mx xs = xs"
    "length (accepted n mx xs) \<le> length xs" for n mx xs
    by (induction n mx xs rule: accepted.induct) auto
  have p: "muxer_videnc_process E st = write_loop E ?st"
    using assms(2-4)
    by (simp add: muxer_videnc_process_def write_stage_def muxer_videnc_change_savetime_def check_stop_def
        stopped_def)
  note K = keep_fields [OF st2(4)]
  show ?thesis
  proof (cases "as = ds")
    case True
    with p st2 K assms(2) show ?thesis by (intro exI [of _ st2]) simp
  next
    case False
    then have ne: "length as \<noteq> length ds" using acc(1) assms(7) by blast
    have "header_fits st2 (S @ X)" using assms(11) K by (simp add: header_fits_def)
    from close_recording [OF st2(1) this] obtain st3 where st3:
      "muxer_videnc_close E (set_state VIDENC_CLOSE st2) = Some st3" "vstate (pvid st3) = VIDENC_IDLE"
      "file_of (S @ X) (Vstbl (tbuf st3)) (D (disk st3))" "user st3 = user st2" by blast
    with p st2 ne False show ?thesis by (intro exI [of _ st3]) (simp add: user_def)
  qed
qed

text \<open>A round of the task in the exit state closes the file.\<close>

lemma exit_round_closes:
  assumes "recording_ok E D P hdr S st" and "header_fits st S" and "bSD_FAT_mounted st"
    and "recording (pvid st) \<noteq> 0" and "snap_recording st \<noteq> 1"
    and "sbuf_ok (sbuf (pvid st))" and "sbuf_items (sbuf (pvid st)) \<noteq> []"
  shows "\<exists>st'. muxer_videnc_task E (set_state VIDENC_EXIT st) = Some st' \<and> vstate (pvid st') = VIDENC_IDLE
    \<and> recording (pvid st') = 0 \<and> sbuf (pvid st') = sbuf (pvid st) \<and> file_of S (Vstbl (tbuf st')) (D (disk st'))"
proof -
  let ?st = "set_state VIDENC_EXIT st"
  obtain s where s: "muxer_videnc_close E ?st = Some s" "vstate (pvid s) = VIDENC_IDLE"
    "file_of S (Vstbl (tbuf s)) (D (disk s))" "user s = user st"
    using close_recording_from [OF assms(1,2), of VIDENC_EXIT] by auto
  have "muxer_videnc_sbuf_depth_sum ?st = ENX_OK"
    using sbuf_empty_iff [OF assms(6)] assms(7) by (simp add: muxer_videnc_sbuf_depth_sum_def)
  then have "muxer_videnc_task E ?st = Some (muxer_videnc_all_stop s)"
    using s(1) assms(3,4,5)
    by (simp add: muxer_videnc_task_def muxer_videnc_def muxer_videnc_process_def
        muxer_videnc_state_def muxer_videnc_all_stop_def muxer_videnc_stop_def eRecNormal_def eRecSnapshot_def)
  then show ?thesis using s(2-4)
    by (intro exI [of _ "muxer_videnc_all_stop s"])
      (simp add: user_def muxer_videnc_all_stop_def muxer_videnc_stop_def eRecNormal_def eRecSnapshot_def)
qed

text \<open>C8: When the user turns recording off in the middle of a file, the next two rounds of the task
  finish it: the first goes to the exit state, the second closes the file, which holds every sample
  taken so far, switches recording off and leaves the recorder idle, with the waiting frames untouched.\<close>

theorem stop_closes_file:
  assumes "recording_ok E D P hdr S st" and "vstate (pvid st) = VIDENC_WRITE" and "\<not> bSdVidSave st"
    and "header_fits st S" and "bSD_FAT_mounted st" and "recording (pvid st) \<noteq> 0" and "snap_recording st \<noteq> 1"
    and "sbuf_ok (sbuf (pvid st))" and "sbuf_items (sbuf (pvid st)) \<noteq> []"
  shows "\<exists>st1 st2. muxer_videnc_task E st = Some st1 \<and> vstate (pvid st1) = VIDENC_EXIT
    \<and> muxer_videnc_task E st1 = Some st2 \<and> vstate (pvid st2) = VIDENC_IDLE \<and> recording (pvid st2) = 0
    \<and> sbuf (pvid st2) = sbuf (pvid st) \<and> file_of S (Vstbl (tbuf st2)) (D (disk st2))"
proof -
  have "muxer_videnc_sbuf_depth_sum st = ENX_OK"
    using sbuf_empty_iff [OF assms(8)] assms(9) by (simp add: muxer_videnc_sbuf_depth_sum_def)
  then have "muxer_videnc_task E st = Some (set_state VIDENC_EXIT st)"
    using assms(2,3,5-7)
    by (simp add: muxer_videnc_task_def muxer_videnc_def muxer_videnc_process_def write_stage_def
        muxer_videnc_state_def eRecNormal_def eRecSnapshot_def)
  with exit_round_closes [OF assms(1,4-9)] show ?thesis by auto
qed

section \<open>Where it goes wrong\<close>

text \<open>C10: The file is opened for 30 frames per second whatever the user's setting, and the state
  \<open>VIDENC_WRITE\<close> closes a file whose rate is not the user's. So with any other frame rate every file
  holds a single frame: starting from the idle state with a key frame in front, one pass of the
  recorder opens a file, writes that frame, closes the file, and is idle again.\<close>

theorem one_frame_files:
  assumes "card_ok (fs E) D P" and "ready st" and "vstate (pvid st) = VIDENC_IDLE" and "bSdVidSave st"
    and "nFps st (v_type (info st)) \<noteq> 30"
    and "nVidenc_Mode_now st = rec_type (pvid st)"
    and "sbuf_ok (sbuf (pvid st))" and "sbuf_items (sbuf (pvid st)) = d # ds" and "flags d = 1"
    and "muxer_videnc_idle E (st\<lparr>enc_ing := True\<rparr>) = Some (True, st1)"
    and "frame_in (ram st1) (block_of d) s us" and "sets_fit s (map snd us)" and "0 < room (tbuf st1)"
    and "header_fits st [frame_sample (block_of d) us]"
  shows "\<exists>st'. muxer_videnc_process E st = Some st' \<and> vstate (pvid st') = VIDENC_IDLE
    \<and> sbuf_items (sbuf (pvid st')) = ds
    \<and> (\<exists>V. file_of [frame_sample (block_of d) us] V (D (disk st')))"
proof -
  let ?x = "frame_sample (block_of d) us"
  obtain hdr where st1: "sink_ok E D P st1" "layout D P hdr [] st1" "vid_ok (info st1)"
    "total (tbuf st1) = total (tbuf st)" "hdr_size (tbuf st1) = hdr_size (tbuf st)"
    "hdr_info (tbuf st1) = hdr_info (tbuf st)" "sbuf (pvid st1) = sbuf (pvid st)" "bSdVidSave st1"
    "nFps st1 = nFps st" "v_type (info st1) = v_type (info st)" "nVidenc_Fps_old st1 = 30"
    "nVidenc_Mode_now st1 = nVidenc_Mode_old st1"
    using idle_ok [OF assms(1) _ assms(10)] assms(2,4,6) by (auto simp: ready_def user_def)
  obtain q where q: "sbuf_get (sbuf (pvid st)) = Some (d, q)" "sbuf_items q = ds"
    using sbuf_next [OF assms(7,8)] by blast
  let ?f = "requeue q (set_state VIDENC_FIRST_NEXT st1)"
  have "sink_ok E D P ?f" "layout D P hdr [] ?f" "vid_ok (info ?f)" "0 < room (tbuf ?f)"
    using st1(1-3) assms(13) sink_ok_cong [of ?f st1] layout_cong [of ?f st1] by auto
  from first_frame_ok [OF this(1-3) assms(11) _ assms(12) this(4)] assms(9) obtain s1 where
    s1: "muxer_videnc_write E (block_ready (take_block d (?f\<lparr>ram := ram st1\<rparr>))) = Some s1"
    "recording_ok E D P hdr [?x] s1" "keep s1 = keep ?f" by auto
  note K1 = keep_fields [OF s1(3)]
  have fv: "muxer_videnc_frist_video st1 = (True, block_ready (take_block d ?f))"
    using q(1) st1(7) assms(9)
    by (simp add: muxer_videnc_frist_video_def next_block_def take_block_def block_ready_def)
  have next_eq: "first_stage E st1 = write_stage E (set_state VIDENC_WRITE s1)"
    using fv s1(1) st1(12)
    by (simp add: first_stage_def next_stage_def block_ready_def take_block_def)
  let ?c = "(set_state VIDENC_WRITE s1)\<lparr>VIDEO_REC := True, enc_ing := True, nVidenc_Fps_old := nFps st (v_type (info st))\<rparr>"
  have rc: "recording_ok E D P hdr [?x] ?c" using s1(2) by (simp add: recording_ok_cong [of ?c s1])
  have "header_fits ?c [?x]" using assms(14) K1 st1(4-6) by (simp add: header_fits_def)
  from close_recording [OF rc this] obtain s2 where s2:
    "muxer_videnc_close E (set_state VIDENC_CLOSE ?c) = Some s2" "vstate (pvid s2) = VIDENC_IDLE"
    "file_of [?x] (Vstbl (tbuf s2)) (D (disk s2))" "user s2 = user ?c" by blast
  let ?st' = "set_savetime E (nFps st (v_type (info st))) s2"
  note F = savetime_fields [where E = E and f = "nFps st (v_type (info st))" and st = s2, OF refl]
  have "write_stage E (set_state VIDENC_WRITE s1) = Some ?st'"
    using K1 st1(8-11) assms(5) s2(1,2) F(2)
    by (simp add: write_stage_def muxer_videnc_change_savetime_def check_stop_def stopped_def Let_def)
  moreover have "muxer_videnc_process E st = first_stage E st1"
    using assms(3,10) by (simp add: muxer_videnc_process_def)
  ultimately have "muxer_videnc_process E st = Some ?st'" using next_eq by simp
  moreover have "sbuf (pvid ?st') = q" using F(13) s2(4) K1 by (simp add: user_def)
  ultimately show ?thesis using q(2) s2(2,3) F(2,3) by (intro exI [of _ ?st']) auto
qed

text \<open>C11: The tables have room for the frames of the save time, but a file is closed only in front of a
  key frame. When the tables are full and another frame that is no key frame is next, the pass writes
  outside the size table, although the limit has long been reached.\<close>

theorem table_overflow:
  assumes "recording_ok E D P hdr S st" and "vstate (pvid st) = VIDENC_WRITE" and "bSdVidSave st"
    and "nFps st (v_type (info st)) = nVidenc_Fps_old st"
    and "sbuf_ok (sbuf (pvid st))" and "sbuf_items (sbuf (pvid st)) = d # ds"
    and "type d = av_code eSTREAMMSG_H264P \<or> type d = av_code eSTREAMMSG_H265P" and "flags d = 0"
    and "length (filter is_video S) = length (stsz (Vstbl (tbuf st)))"
  shows "muxer_videnc_process E st = None"
proof -
  obtain q where q: "sbuf_get (sbuf (pvid st)) = Some (d, q)" "sbuf_peek (sbuf (pvid st)) = Some d"
    using sbuf_next [OF assms(5,6)] by blast
  have nk: "\<not> key_type (type d)" using assms(7) by (auto simp: key_type_def)
  obtain s where s: "s = H264_STREAM \<or> s = H265_STREAM" "\<And>v. fst (count_frame (type d) v) = Some s"
    using assms(7) count_frame_codes(2,4) by (metis fst_conv)
  let ?st = "st\<lparr>VIDEO_REC := True, enc_ing := True\<rparr>"
  let ?b = "block_ready (take_block d (requeue q (take_block d ?st)))"
  let ?T = "Vstbl (tbuf st)"
  have full: "unat (stsz_len ?T) = length (stsz ?T)"
  proof -
    have "tables (length hdr) S (tbuf st)" using assms(1) unfolding recording_ok_def layout_def by blast
    then have "tab (stsz ?T) (stsz_len ?T) (map (\<lambda>(p, s). length (sbytes s)) (videos (length hdr) S))"
      by (simp add: tables_def)
    from tab_len [OF this] assms(9) arg_cong [OF videos_snd [of "length hdr" S], of length] show ?thesis by simp
  qed
  have nal: "Vstbl (tbuf s2) = Vstbl (tbuf s1)" if "add_nals E ns s1 = Some s2" for ns s1 s2
    using add_nals_tables [OF that] .
  have entry: "put_video_entry False n s2 = None" if "Vstbl (tbuf s2) = ?T" for n and s2 :: "'a recorder"
    using full that by (simp add: put_video_entry_def put_stsz_def put_at_def)
  have "write_video E s s1 = None" if t: "tbuf s1 = tbuf st" and f: "b_flags (datablock (pvid s1)) = 0" for s1
  proof (rule ccontr)
    assume "write_video E s s1 \<noteq> None"
    then obtain ns s2 s3 where "add_nals E ns s1 = Some s2" "put_video_entry False (nals_size ns) s2 = Some s3"
      using f by (auto simp: write_video_def Let_def Option.bind_eq_Some_conv)
    with nal entry t show False by (metis option.distinct(1))
  qed
  note no_video = this
  obtain v where v: "count_frame (type d) (info st) = (Some s, v)" using s(2) by (metis prod.collapse)
  have "write_video E s (set_info (\<lambda>_. v) ?b) = None"
    by (rule no_video) (use assms(8) in \<open>simp_all add: block_of_def\<close>)
  then have "muxer_videnc_write_process E s (set_info (\<lambda>_. v) ?b) = None"
    using s(1) by (simp add: muxer_videnc_write_process_def)
  then have "muxer_videnc_write E ?b = None"
    using v by (simp add: muxer_videnc_write_def block_of_def)
  then have "write_loop E ?st = None"
    using q nk by (subst write_loop.simps) (simp add: next_block_def)
  then show ?thesis
    using assms(2-4)
    by (simp add: muxer_videnc_process_def write_stage_def muxer_videnc_change_savetime_def check_stop_def stopped_def)
qed

section \<open>Without a write buffer\<close>

text \<open>With a buffer of no bytes the copying loop makes no progress.\<close>

definition no_buffer :: "'w muxer_env \<Rightarrow> ('w \<Rightarrow> bytes) \<Rightarrow> ('w \<Rightarrow> nat) \<Rightarrow> 'w recorder \<Rightarrow> bool" where
  "no_buffer E D P st \<longleftrightarrow> card_ok (fs E) D P \<and> total (tbuf st) = 0 \<and> blength (tbuf st) = 0
     \<and> P (disk st) \<le> length (D (disk st))"

lemma no_buffer_step:
  assumes "no_buffer E D P st"
  shows "\<exists>st'. bufferadd_step E f n st = Some (0, True, st') \<and> no_buffer E D P st'"
proof -
  let ?b = "(tbuf st)\<lparr>wbuf := overwrite (wbuf (tbuf st)) (buf (tbuf st)) []\<rparr>"
  have c: "card_ok (fs E) D P" "P (disk st) \<le> length (D (disk st))" using assms by (simp_all add: no_buffer_def)
  obtain w where "f_write (fs E) [] (disk st) = (FR_OK, of_nat (length ([] :: bytes)), w)"
    "D w = overwrite (D (disk st)) (P (disk st)) []" "P w = P (disk st) + length ([] :: bytes)"
    using c unfolding card_ok_def by blast
  then have w: "f_write (fs E) [] (disk st) = (FR_OK, 0, w)"
    "D w = overwrite (D (disk st)) (P (disk st)) []" "P w = P (disk st)" by simp_all
  have free: "fat_get_freesize (fs E) w \<noteq> 0" using c(1) by (simp add: card_ok_def)
  have "bufferadd_step E f n st = Some (0, True, st\<lparr>disk := w, tbuf := ?b\<lparr>buf := base (tbuf st)\<rparr>\<rparr>)"
    using assms w(1) free by (simp add: bufferadd_step_def muxer_videnc_bufferflush_def no_buffer_def Let_def)
  then show ?thesis
    using assms w by (simp add: no_buffer_def overwrite_def)
qed

lemma no_buffer_loop:
  assumes "no_buffer E D P st" and "0 < sint n"
  shows "bufferadd_loop E f n st = None"
proof -
  have "\<not> (no_buffer E D P st \<and> 0 < sint n)" if "bufferadd_loop E f n st = Some r" for r
  proof (rule bufferadd_loop.raw_induct [of "\<lambda>E f n st r. \<not> (no_buffer E D P st \<and> 0 < sint n)", OF _ that], goal_cases)
    case (1 loop E f n st r)
    show ?case
    proof
      assume a: "no_buffer E D P st \<and> 0 < sint n"
      then obtain st' where "bufferadd_step E f n st = Some (0, True, st')" "no_buffer E D P st'"
        using no_buffer_step by blast
      with 1 a show False by simp
    qed
  qed
  with assms show ?thesis by (cases "bufferadd_loop E f n st") auto
qed

text \<open>Opening on a card with room, which deletes nothing.\<close>

definition opens :: "'w muxer_env \<Rightarrow> 'w recorder \<Rightarrow> bool" where
  "opens E st \<longleftrightarrow> 5 \<le> uint (fat_get_freesize (fs E) (disk st))
     \<and> (\<forall>p w. fst (f_open (fs E) p w) = FR_OK) \<and> (\<forall>n w. fst (f_expand (fs E) n w) = FR_OK)
     \<and> usedsize (filenamelist (pvid st)) < capacity (filenamelist (pvid st))"

lemma idle_starts:
  assumes "opens E st" and c: "card_ok (fs E) D P"
  shows "\<exists>st'. muxer_videnc_idle E st = start_file E st' \<and> tbuf st' = tbuf st \<and> P (disk st') = 0
    \<and> info st' = info st \<and> vstate (pvid st') = VIDENC_OPEN \<and> menv st' = menv st \<and> ram st' = ram st"
proof -
  let ?e = "(pvid st)\<lparr>vstate := VIDENC_OPEN\<rparr>"
  let ?v = "videnc_info_file_getname (localtime E (TIME (menv st))) ?e"
  obtain r1 w1 where f1: "f_open (fs E) (file_path ?v (now_name ?v)) (disk st) = (r1, w1)" by (metis surj_pair)
  obtain r2 w2 where f2: "f_expand (fs E) FAT_SDSAVE_FREE_ALLOC_SIZE w1 = (r2, w2)" by (metis surj_pair)
  have ok: "r1 = FR_OK" "r2 = FR_OK" using assms(1) f1 f2 unfolding opens_def by (metis fst_conv)+
  have "P w1 = 0" "P w2 = P w1" using c f1 f2 unfolding card_ok_def by (metis snd_conv)+
  moreover have "videnc_info_file_delete (fs E) (of_nat MAX_FILE_NUM) ?e (disk st)
      = (uint (fat_get_freesize (fs E) (disk st)), ?e, disk st)"
    using assms(1) by (simp add: videnc_info_file_delete_def delete_loop.simps opens_def MIX_FREE_SD_4CENT_def)
  moreover obtain h where "encHeap_addQueue (filenamelist (pvid st)) (now_name ?v) = (0, h)"
    using assms(1) by (auto simp: encHeap_addQueue_def encHeap_enQueue_def opens_def)
  ultimately show ?thesis
    using f1 f2 ok assms(1)
    by (intro exI [of _ "st\<lparr>disk := w2, pvid := ?v\<lparr>filenamelist := h\<rparr>\<rparr>"])
      (simp add: muxer_videnc_idle_def muxer_videnc_open_def enter_name_def opens_def
        videnc_info_file_getname_def Let_def)
qed

lemma header_open:
  assumes "vstate (pvid st) = VIDENC_OPEN" and "hdr_info (tbuf st) \<noteq> 0"
  shows "\<exists>st'. muxer_videnc_makevidheader E st = Some (hdr_info (tbuf st), st') \<and> disk st' = disk st
    \<and> total (tbuf st') = total (tbuf st) \<and> blength (tbuf st') = blength (tbuf st)
    \<and> hdr_size (tbuf st') = hdr_size (tbuf st)
    \<and> (vid_ok (info st) \<longrightarrow> 2100 \<le> unat (hdr_size (tbuf st)) \<longrightarrow>
        (\<forall>q n. q + n \<le> hdr_info (tbuf st) \<longrightarrow> load (ram st') q n = load (ram st) q n))"
proof -
  obtain f st2 where cs: "change_savetime_start E st = (f, st2)" by (metis surj_pair)
  note S = savetime_start_fields [OF cs]
  obtain w h where wh: "resolution st (v_type (info st)) = (w, h)" by (metis surj_pair)
  let ?st3 = "set_buf (\<lambda>b. b\<lparr>Vstbl := clear_stbl (Vstbl b), Astbl := clear_stbl (Astbl b)\<rparr>)
    (set_info (\<lambda>v. v\<lparr>f_fps := f, i_width := w, i_height := h, un32vidicount := 0,
                   un32vidscount := 0, un32audscount := 0, un32txtscount := 0, mdat_size := 0\<rparr>) st2)"
  let ?m = "store (ram ?st3) (hdr_info (tbuf ?st3)) (replicate (unat (hdr_size (tbuf ?st3))) 0)"
  obtain m n where wr: "mp4_write_header (menv ?st3) (info ?st3) (tbuf ?st3) ?m =
      (m, (tbuf ?st3)\<lparr>hdr_len := n\<rparr>, hdr_info (tbuf ?st3))"
    using write_header_fields by blast
  let ?st4 = "?st3\<lparr>ram := m, tbuf := (tbuf ?st3)\<lparr>hdr_len := n\<rparr>\<rparr>"
  have mk: "muxer_videnc_makevidheader E st = Some (hdr_info (tbuf st), ?st4)"
    using assms cs wh wr S(11) by (simp add: muxer_videnc_makevidheader_def build_header_def Let_def)
  have "load m q k = load (ram st) q k"
    if v: "vid_ok (info st)" "2100 \<le> unat (hdr_size (tbuf st))" and q: "q + k \<le> hdr_info (tbuf st)" for q k
  proof -
    have "psets (info ?st3) = psets (info st)" using S(1) by (simp add: psets_def)
    then have v3: "vid_ok (info ?st3)" using v(1) vid_ok_cong by blast
    have "moov_used (header_env (menv ?st3) (info ?st3) (tbuf ?st3)) \<le> 2000"
      using moov_used_bound [of "header_env (menv ?st3) (info ?st3) (tbuf ?st3)"] v3 by (simp add: clear_stbl_def)
    then have "header_ok (menv ?st3) (info ?st3) (tbuf ?st3)"
      using v3 v(2) S(11) assms(2) by (simp add: header_ok_def stbl_ok_def moov_fits_def clear_stbl_def)
    from write_header_store [OF this, of ?m] wr have "m = store ?m (hdr_info (tbuf ?st3))
        (header_bytes (menv ?st3) (info ?st3) (tbuf ?st3) ?m)" by simp
    then show ?thesis using S(4,11) q assms(2) by (simp add: load_store_before)
  qed
  with mk S(3,8,10,11) assms(2) show ?thesis by (intro exI [of _ ?st4]) simp
qed

text \<open>With a buffer, opening succeeds, and the memory below the header keeps the frames.\<close>

lemma idle_opens:
  assumes "opens E st" and c: "card_ok (fs E) D P" and r: "ready st"
  shows "\<exists>st1. muxer_videnc_idle E st = Some (True, st1)
    \<and> (2100 \<le> unat (hdr_size (tbuf st)) \<longrightarrow>
        (\<forall>q n. q + n \<le> hdr_info (tbuf st) \<longrightarrow> load (ram st1) q n = load (ram st) q n))"
proof -
  obtain s where s: "muxer_videnc_idle E st = start_file E s" "tbuf s = tbuf st" "P (disk s) = 0"
    "info s = info st" "vstate (pvid s) = VIDENC_OPEN" "ram s = ram st"
    using idle_starts [OF assms(1) c] by auto
  have R: "buf_there (tbuf s)" "hdr_info (tbuf s) \<noteq> 0" "unat (hdr_size (tbuf s)) < 2 ^ 31" "arrays_small (tbuf s)"
    "vid_ok (info s)" using r s by (simp_all add: ready_def)
  obtain st1 where st1: "start_file E s = Some (True, st1)"
    using start_file_ok [OF c R(1-4) s(5,3) R(5)] by blast
  let ?s = "set_buf (\<lambda>b. b\<lparr>buf := base b, blength := 0\<rparr>) (set_vid (\<lambda>v. v\<lparr>filesize := 0\<rparr>) s)"
  obtain s1 where s1: "muxer_videnc_makevidheader E ?s = Some (hdr_info (tbuf st), s1)"
    "2100 \<le> unat (hdr_size (tbuf st)) \<longrightarrow>
      (\<forall>q n. q + n \<le> hdr_info (tbuf st) \<longrightarrow> load (ram s1) q n = load (ram st) q n)"
    using header_open [of ?s E] s R by auto
  have "ram st1 = ram s1"
    using st1 s1(1) R(2) s(2)
    by (auto simp: start_file_def add_header_def add_mem_def muxer_videnc_bufferadd_def Let_def
        Option.bind_eq_Some_conv dest!: loop_ram)
  with s(1) st1 s1(2) show ?thesis by auto
qed

text \<open>\<open>muxer_init_buffering\<close> ignores that the write buffer could not be allocated, and leaves it
  at zero bytes. The first recording then never gets past its header: on a card that works, a pass of
  the idle recorder does not come back.\<close>

theorem no_buffer_hangs:
  assumes "card_ok (fs E) D P" and "opens E st" and "vstate (pvid st) = VIDENC_IDLE"
    and "\<not> alloc_ok (heap E) VID_BUF_SIZE" and "total (tbuf st0) = 0"
    and "total (tbuf st) = total (tbuf (muxer_init_buffering E st0))"
    and "hdr_info (tbuf st) \<noteq> 0" and "hdr_size (tbuf st) = 64 * 1024"
  shows "muxer_videnc_process E st = None"
proof -
  have total: "total (tbuf st) = 0"
    using assms(4-6) by (simp add: muxer_init_buffering_def videnc_info_init_buffer_def)
  let ?st = "st\<lparr>enc_ing := True\<rparr>"
  have "opens E ?st" using assms(2) by (simp add: opens_def)
  from idle_starts [OF this assms(1)] obtain s where s: "muxer_videnc_idle E ?st = start_file E s"
    "tbuf s = tbuf st" "P (disk s) = 0" "vstate (pvid s) = VIDENC_OPEN" by auto
  let ?s = "set_buf (\<lambda>b. b\<lparr>buf := base b, blength := 0\<rparr>) (set_vid (\<lambda>v. v\<lparr>filesize := 0\<rparr>) s)"
  obtain s1 where s1: "muxer_videnc_makevidheader E ?s = Some (hdr_info (tbuf st), s1)" "disk s1 = disk s"
    "total (tbuf s1) = 0" "blength (tbuf s1) = 0" "hdr_size (tbuf s1) = 64 * 1024"
    using header_open [of ?s E] s total assms(7,8) by auto
  have "no_buffer E D P s1" using s1 s(3) assms(1) by (simp add: no_buffer_def)
  moreover have "0 < sint (64 * 1024 :: u32)" by (rule sint_pos) simp_all
  ultimately have "bufferadd_loop E (\<lambda>i. ram s1 (hdr_info (tbuf st) + i)) (hdr_size (tbuf s1)) s1 = None"
    unfolding s1(5) by (rule no_buffer_loop)
  then have "start_file E s = None"
    using s1(1) assms(7) by (simp add: start_file_def add_header_def add_mem_def muxer_videnc_bufferadd_def)
  then show ?thesis using s(1) assms(3) by (simp add: muxer_videnc_process_def)
qed

end
