(* ===== verification/MuxerEx.thy ===== *)
theory MuxerEx
  imports MuxerProps
begin

text \<open>
  The recorder's theorems on a concrete recorder: a card in memory, an H.264 key frame with its
  parameter sets, a P frame and a packet of sound.
\<close>

section \<open>A card and frames\<close>

definition ex_muxer :: "ramdisk muxer_env" where
  "ex_muxer = \<lparr>fs = ram_fs\<lparr>fat_get_freesize := \<lambda>_. 50\<rparr>, heap = ex_allocator,
     localtime = \<lambda>_. ex_tm 124 11 31, jpegstill = \<lambda>w. w\<rparr>"

lemma ex_card: "card_ok (fs ex_muxer) fdata fpos"
  by (auto simp: card_ok_def ex_muxer_def ram_fs_def FR_OK_def)

definition ex_units :: "(nat \<times> bytes) list" where
  "ex_units = [(1, [0x67, 0x42, 0, 0x1F]), (1, [0x68, 0xCE]), (1, [0x65, 0x88])]"

definition ex_slice :: "(nat \<times> bytes) list" where "ex_slice = [(1, [0x41, 0x9A])]"

definition ex_ram :: mem where
  "ex_ram = store (store (\<lambda>_. 0) 4096 (annexb ex_units)) 8192 (annexb ex_slice)"

definition ex_I :: sbuf_data where "ex_I = \<lparr>addr = 4096, size = 20, flags = 1, type = 3\<rparr>"
definition ex_P :: sbuf_data where "ex_P = \<lparr>addr = 8192, size = 6, flags = 0, type = 4\<rparr>"
definition ex_A :: sbuf_data where "ex_A = \<lparr>addr = 8192, size = 4, flags = 0, type = 6\<rparr>"

lemma ex_load: "load ex_ram 4096 20 = annexb ex_units" "load ex_ram 8192 6 = annexb ex_slice"
  by (simp_all add: ex_ram_def load_store_same load_store_before ex_units_def ex_slice_def start_code_def)

lemma ex_I_frame: "load m 4096 20 = annexb ex_units \<Longrightarrow> frame_in m (block_of ex_I) H264_STREAM ex_units"
  by (simp add: frame_in_def block_of_def ex_I_def video_type_def nal_limits_def ex_units_def unit_ok_def
      start_code_def upt_rec)

lemma ex_P_frame: "load m 8192 6 = annexb ex_slice \<Longrightarrow> frame_in m (block_of ex_P) H264_STREAM ex_slice"
  by (simp add: frame_in_def block_of_def ex_P_def video_type_def nal_limits_def ex_slice_def)

lemma ex_sets: "sets_fit H264_STREAM (map snd ex_units)"
  by (simp add: ex_units_def)

definition ex_X :: "sample list" where
  "ex_X = [frame_sample (block_of ex_P) ex_slice, Audio (load ex_ram (unat (addr ex_A)) (unat (size ex_A)))]"

lemma ex_X_frames: "list_all2 (\<lambda>d x. frame_of (ex_ram, d) x) [ex_P, ex_A] ex_X"
  using frame_of.video [OF ex_P_frame [OF ex_load(2)]] frame_of.audio [of ex_A ex_ram]
  by (simp add: ex_X_def audio_in_def block_of_def ex_A_def)

section \<open>Recorders\<close>

definition ex_queue :: "sbuf_data list \<Rightarrow> sbuf_t" where
  "ex_queue ds = \<lparr>head = 0, tail = of_nat (length ds), tot_num = 8,
     data = ds @ replicate (8 - length ds) sbuf_data_zero\<rparr>"

lemma ex_queue_ok:
  assumes "length ds < 8"
  shows "sbuf_ok (ex_queue ds)" and "sbuf_items (ex_queue ds) = ds"
proof -
  have l: "unat (of_nat (length ds) :: u32) = length ds" using assms by (simp add: unat_of_nat)
  show "sbuf_ok (ex_queue ds)" using assms l by (simp add: sbuf_defs ex_queue_def ring_ok_iff)
  show "sbuf_items (ex_queue ds) = ds"
    by (rule nth_equalityI) (use assms l in \<open>simp_all add: sbuf_defs ex_queue_def ring_items_def ring_len_def nth_append\<close>)
qed

definition ex_recorder :: "t_videnc_totalbuf_t \<Rightarrow> t_mp4_t \<Rightarrow> VIDENC_STATE \<Rightarrow> sbuf_data list \<Rightarrow> bool \<Rightarrow> u32
    \<Rightarrow> ramdisk recorder" where
  "ex_recorder b v s ds on fps =
     \<lparr>pvid = ex_vid\<lparr>filenamelist := snd (encHeap_create True 10 zeroHData), vstate := s, vidinfo := v,
        recording := 1, sbuf := ex_queue ds\<rparr>,
      tbuf = b, ram = ex_ram, disk = \<lparr>fdata = [], fpos = 0, freepc = 50, fopened = False\<rparr>, menv = ex_env,
      nFps = \<lambda>_. fps, resolution = \<lambda>_. (1920, 1080), snap_recording = 0, bSdVidSave = on,
      VIDEO_REC = False, bSD_FAT_mounted = True, nVidenc_Mode_now = 0, nVidenc_Mode_old = - 1,
      nVidenc_Fps_old = 30, enc_ing = False\<rparr>"

text \<open>Tables of \<open>n\<close> entries, of which the first \<open>k\<close>, at most one, are in use.\<close>

definition ex_table :: "nat \<Rightarrow> nat \<Rightarrow> MP4HeaderSTBL" where
  "ex_table k n = \<lparr>stbl_size = of_nat n, stss_len = of_nat k, stss = replicate k (vidswapSB32 1) @ replicate (n - k) 0,
     stsz_len = of_nat k, stsz = replicate k (vidswapSB32 5) @ replicate (n - k) 0,
     stco_len = of_nat k, stco = replicate k (vidswapSB32 4096) @ replicate (n - k) 0\<rparr>"

definition ex_buf :: "bytes \<Rightarrow> nat \<Rightarrow> nat \<Rightarrow> t_videnc_totalbuf_t" where
  "ex_buf xs k n = \<lparr>wbuf = xs @ replicate (8192 - length xs) 0, buf = length xs, base = 0,
     blength = of_nat (length xs), total = 8192, hdr_size = 4096, hdr_len = 0, hdr_info = 65536,
     Vstbl = ex_table k n, Astbl = ex_table 0 10\<rparr>"

abbreviation ex_start :: "sbuf_data list \<Rightarrow> u32 \<Rightarrow> ramdisk recorder" where
  "ex_start ds fps \<equiv> ex_recorder (ex_buf [] 0 10) zero_mp4 VIDENC_IDLE ds True fps"

lemma ex_start_ready: "ready (ex_start ds fps)"
  by (simp add: ready_def ex_recorder_def ex_buf_def ex_table_def buf_there_def arrays_small_def vid_ok_def zero_mp4_def)

lemma ex_start_opens: "opens ex_muxer (ex_start ds fps)" "opens ex_muxer ((ex_start ds fps)\<lparr>enc_ing := True\<rparr>)"
  by (simp_all add: opens_def ex_muxer_def ex_recorder_def ram_fs_def encHeap_create_def)

lemma ex_recorder_queue [simp]: "sbuf (pvid (ex_recorder b v s ds on fps)) = ex_queue ds"
  by (simp add: ex_recorder_def)

lemma ex_start_room: "room (tbuf (ex_start ds fps)) = 10" "room_audio (tbuf (ex_start ds fps)) = 10"
  by (simp_all add: room_def room_audio_def ex_recorder_def ex_buf_def ex_table_def)

text \<open>A recording of one key frame.\<close>

definition ex_sample :: sample where "ex_sample = Video True [0, 0, 0, 1, 0x65]"

definition ex_hdr :: bytes where "ex_hdr = replicate 4096 0"

abbreviation ex_mid :: "nat \<Rightarrow> sbuf_data list \<Rightarrow> bool \<Rightarrow> ramdisk recorder" where
  "ex_mid n ds on \<equiv> ex_recorder (ex_buf (ex_hdr @ sbytes ex_sample) 1 n)
     (zero_mp4\<lparr>un32vidscount := 1, un32vidsmax := 1, mdat_size := 5\<rparr>) VIDENC_WRITE ds on 30"

lemma ex_mid_ok:
  assumes "0 < n" and "n < 2 ^ 32"
  shows "recording_ok ex_muxer fdata fpos ex_hdr [ex_sample] (ex_mid n ds on)"
proof -
  have "sink_ok ex_muxer fdata fpos (ex_mid n ds on)"
    using ex_card by (simp add: sink_ok_def buf_ok_def ex_recorder_def ex_buf_def ex_hdr_def ex_sample_def)
  moreover have "view fdata fpos (ex_mid n ds on) = ex_hdr @ payload [ex_sample]"
    by (simp add: view_def ex_recorder_def ex_buf_def ex_hdr_def payload_def ex_sample_def)
  moreover have "tables (length ex_hdr) [ex_sample] (tbuf (ex_mid n ds on))"
    using assms by (simp add: tables_def tab_def ex_recorder_def ex_buf_def ex_table_def videos_def audios_def
        key_numbers_def ex_sample_def ex_hdr_def)
  moreover have "counters (length ex_hdr) [ex_sample] (info (ex_mid n ds on))"
    by (simp add: counters_def ex_recorder_def zero_mp4_def videos_def audios_def payload_def ex_sample_def)
  moreover have "vid_ok (info (ex_mid n ds on))" by (simp add: vid_ok_def ex_recorder_def zero_mp4_def)
  moreover have "length [ex_sample] \<le> room (tbuf (ex_mid n ds on))"
    using assms(1) by (simp add: room_def ex_recorder_def ex_buf_def ex_table_def)
  moreover have "audios (length ex_hdr) [ex_sample] = []" by (simp add: audios_def ex_sample_def)
  moreover have "length ex_hdr = unat (hdr_size (tbuf (ex_mid n ds on)))"
    by (simp add: ex_hdr_def ex_recorder_def ex_buf_def)
  ultimately show ?thesis by (simp add: recording_ok_def layout_def)
qed

lemma ex_start_idle:
  "\<exists>st1. muxer_videnc_idle ex_muxer (ex_start ds fps) = Some (True, st1)"
  "\<exists>st1. muxer_videnc_idle ex_muxer ((ex_start ds fps)\<lparr>enc_ing := True\<rparr>) = Some (True, st1)
     \<and> load (ram st1) 4096 20 = annexb ex_units"
proof -
  show "\<exists>st1. muxer_videnc_idle ex_muxer (ex_start ds fps) = Some (True, st1)"
    using idle_opens [OF ex_start_opens(1) ex_card ex_start_ready] by blast
  have "ready ((ex_start ds fps)\<lparr>enc_ing := True\<rparr>)" using ex_start_ready [of ds fps] by (simp add: ready_def)
  from idle_opens [OF ex_start_opens(2) ex_card this] ex_load(1)
  show "\<exists>st1. muxer_videnc_idle ex_muxer ((ex_start ds fps)\<lparr>enc_ing := True\<rparr>) = Some (True, st1)
     \<and> load (ram st1) 4096 20 = annexb ex_units"
    by (auto simp: ex_recorder_def ex_buf_def)
qed

lemma ex_idle_room:
  assumes "muxer_videnc_idle ex_muxer st = Some (True, st1)" and "ready st" and "nVidenc_Fps_old st = 30"
  shows "room (tbuf st1) = room (tbuf st)" and "room_audio (tbuf st1) = room_audio (tbuf st)"
  using idle_ok [OF ex_card assms(2,1)] assms(3) by auto

lemma ex_payload: "length (payload [frame_sample (block_of ex_I) ex_units]) = 20" "length (payload ex_X) = 10"
  by (simp_all add: payload_def frame_sample_def ex_units_def ex_slice_def avcc_def ex_X_def ex_A_def be32_def)

section \<open>Witnesses\<close>

lemma recorded_file_witness:
  "\<exists>st1 st2 st3. muxer_videnc_idle ex_muxer (ex_start [] 30) = Some (True, st1)
    \<and> write_frames ex_muxer [(ex_ram, ex_I), (ex_ram, ex_P), (ex_ram, ex_A)] (set_state VIDENC_FIRST_NEXT st1) = Some st2
    \<and> muxer_videnc_close ex_muxer (set_state VIDENC_CLOSE st2) = Some st3 \<and> vstate (pvid st3) = VIDENC_IDLE
    \<and> file_of (frame_sample (block_of ex_I) ex_units # ex_X) (Vstbl (tbuf st3)) (fdata (disk st3))"
proof -
  let ?st0 = "ex_start [] 30" and ?S = "frame_sample (block_of ex_I) ex_units # ex_X"
  obtain st1 where st1: "muxer_videnc_idle ex_muxer ?st0 = Some (True, st1)" using ex_start_idle(1) by blast
  have "nVidenc_Fps_old ?st0 = 30" by (simp add: ex_recorder_def)
  note room = ex_idle_room [OF st1 ex_start_ready this, unfolded ex_start_room]
  have fr: "list_all2 frame_of [(ex_ram, ex_P), (ex_ram, ex_A)] ex_X" using ex_X_frames by (simp add: ex_X_def)
  have "length (payload ?S) = 30" using ex_payload by (simp add: payload_def)
  moreover have "hdr_size (tbuf ?st0) = 4096" by (simp add: ex_recorder_def ex_buf_def)
  ultimately have "2100 + 12 * length ?S \<le> unat (hdr_size (tbuf ?st0))"
    "unat (hdr_size (tbuf ?st0)) + length (payload ?S) < 2 ^ 32" by (simp_all add: ex_X_def)
  moreover have "length ?S \<le> room (tbuf st1)" "length (filter (\<lambda>s. \<not> is_video s) ?S) \<le> room_audio (tbuf st1)"
    using room by (simp_all add: ex_X_def frame_sample_def)
  moreover have "flags ex_I \<noteq> 0" by (simp add: ex_I_def)
  ultimately show ?thesis
    using recorded_file [OF ex_card ex_start_ready st1 ex_I_frame [OF ex_load(1)] _ ex_sets fr refl] st1 by blast
qed

lemma ex_mid_header: "0 < n \<Longrightarrow> length (payload S) < 1000 \<Longrightarrow> length S < 100 \<Longrightarrow> header_fits (ex_mid n ds on) S"
  by (simp add: header_fits_def ex_recorder_def ex_buf_def)

lemma process_takes_queue_witness:
  "\<exists>st'. muxer_videnc_process ex_muxer (ex_mid 10 [ex_P, ex_A, ex_I] True) = Some st'
    \<and> sbuf_items (sbuf (pvid st')) = [ex_I] \<and> vstate (pvid st') = VIDENC_IDLE
    \<and> file_of (ex_sample # ex_X) (Vstbl (tbuf st')) (fdata (disk st'))"
proof -
  let ?st = "ex_mid 10 [ex_P, ex_A, ex_I] True"
  have r: "recording_ok ex_muxer fdata fpos ex_hdr [ex_sample] ?st" by (rule ex_mid_ok) simp_all
  have a: "accepted (un32vidscount (info ?st)) (un32vidsmax (info ?st)) [ex_P, ex_A, ex_I] = [ex_P, ex_A]"
    by (simp add: ex_recorder_def ex_P_def ex_A_def ex_I_def key_type_def zero_mp4_def)
  have X: "list_all2 (\<lambda>d x. frame_of (ram ?st, d) x) [ex_P, ex_A] ex_X"
    using ex_X_frames by (simp add: ex_recorder_def)
  have s: "vstate (pvid ?st) = VIDENC_WRITE" "bSdVidSave ?st" "nFps ?st (v_type (info ?st)) = nVidenc_Fps_old ?st"
    by (simp_all add: ex_recorder_def)
  have rm: "length ([ex_sample] @ ex_X) \<le> room (tbuf ?st)"
    "length (filter (\<lambda>s. \<not> is_video s) ([ex_sample] @ ex_X)) \<le> room_audio (tbuf ?st)"
    by (simp_all add: room_def room_audio_def ex_recorder_def ex_buf_def ex_table_def ex_X_def ex_sample_def frame_sample_def)
  have "length (payload ([ex_sample] @ ex_X)) = 15" using ex_payload(2) by (simp add: payload_def ex_sample_def)
  then have h: "header_fits ?st ([ex_sample] @ ex_X)" by (intro ex_mid_header) (simp_all add: ex_X_def)
  have q: "sbuf_ok (sbuf (pvid ?st))" "sbuf_items (sbuf (pvid ?st)) = [ex_P, ex_A, ex_I]"
    by (simp_all add: ex_queue_ok)
  show ?thesis using process_takes_queue [OF r s q a X rm h] by auto
qed

lemma stop_closes_file_witness:
  "\<exists>st1 st2. muxer_videnc_task ex_muxer (ex_mid 10 [ex_P] False) = Some st1
    \<and> muxer_videnc_task ex_muxer st1 = Some st2 \<and> vstate (pvid st2) = VIDENC_IDLE
    \<and> file_of [ex_sample] (Vstbl (tbuf st2)) (fdata (disk st2))"
proof -
  let ?st = "ex_mid 10 [ex_P] False"
  have r: "recording_ok ex_muxer fdata fpos ex_hdr [ex_sample] ?st" by (rule ex_mid_ok) simp_all
  have s: "vstate (pvid ?st) = VIDENC_WRITE" "\<not> bSdVidSave ?st" "bSD_FAT_mounted ?st" "recording (pvid ?st) \<noteq> 0"
    "snap_recording ?st \<noteq> 1" by (simp_all add: ex_recorder_def)
  have h: "header_fits ?st [ex_sample]" by (rule ex_mid_header) (simp_all add: payload_def ex_sample_def)
  have q: "sbuf_ok (sbuf (pvid ?st))" "sbuf_items (sbuf (pvid ?st)) \<noteq> []" by (simp_all add: ex_queue_ok)
  show ?thesis using stop_closes_file [OF r s(1,2) h s(3-5) q] by blast
qed

lemma one_frame_files_witness:
  "\<exists>st' V. muxer_videnc_process ex_muxer (ex_start [ex_I] 25) = Some st' \<and> vstate (pvid st') = VIDENC_IDLE
    \<and> file_of [frame_sample (block_of ex_I) ex_units] V (fdata (disk st'))"
proof -
  let ?st = "ex_start [ex_I] 25"
  obtain st1 where st1: "muxer_videnc_idle ex_muxer (?st\<lparr>enc_ing := True\<rparr>) = Some (True, st1)"
    "load (ram st1) 4096 20 = annexb ex_units" using ex_start_idle(2) by blast
  have s: "vstate (pvid ?st) = VIDENC_IDLE" "bSdVidSave ?st" "nFps ?st (v_type (info ?st)) \<noteq> 30"
    "nVidenc_Mode_now ?st = rec_type (pvid ?st)"
    by (simp_all add: ex_recorder_def ex_vid_def videnc_info_init_def eRecNormal_def)
  have q: "sbuf_ok (sbuf (pvid ?st))" "sbuf_items (sbuf (pvid ?st)) = [ex_I]" by (simp_all add: ex_queue_ok)
  have f: "flags ex_I = 1" by (simp add: ex_I_def)
  have "ready (?st\<lparr>enc_ing := True\<rparr>)" using ex_start_ready [of "[ex_I]" 25] by (simp add: ready_def)
  from ex_idle_room(1) [OF st1(1) this] have rm: "0 < room (tbuf st1)"
    by (simp add: ex_start_room) (simp add: ex_recorder_def)
  have h: "header_fits ?st [frame_sample (block_of ex_I) ex_units]"
    using ex_payload(1) by (simp add: header_fits_def ex_recorder_def ex_buf_def)
  show ?thesis
    using one_frame_files [OF ex_card ex_start_ready s q f st1(1) ex_I_frame [OF st1(2)] ex_sets rm h] by blast
qed

lemma table_overflow_witness: "muxer_videnc_process ex_muxer (ex_mid 1 [ex_P] True) = None"
proof (rule table_overflow)
  let ?st = "ex_mid 1 [ex_P] True"
  show "recording_ok ex_muxer fdata fpos ex_hdr [ex_sample] ?st" by (rule ex_mid_ok) simp_all
  show "vstate (pvid ?st) = VIDENC_WRITE" "bSdVidSave ?st" "nFps ?st (v_type (info ?st)) = nVidenc_Fps_old ?st"
    by (simp_all add: ex_recorder_def)
  show "sbuf_ok (sbuf (pvid ?st))" "sbuf_items (sbuf (pvid ?st)) = [ex_P]" by (simp_all add: ex_queue_ok)
  show "type ex_P = av_code eSTREAMMSG_H264P \<or> type ex_P = av_code eSTREAMMSG_H265P" "flags ex_P = 0"
    by (simp_all add: ex_P_def)
  show "length (filter is_video [ex_sample]) = length (stsz (Vstbl (tbuf ?st)))"
    by (simp add: ex_sample_def ex_recorder_def ex_buf_def ex_table_def)
qed

lemma no_buffer_hangs_witness:
  "muxer_videnc_process (ex_muxer\<lparr>heap := ex_allocator\<lparr>alloc_ok := \<lambda>n. n \<noteq> VID_BUF_SIZE\<rparr>\<rparr>)
     ((ex_start [ex_I] 30)\<lparr>tbuf := (ex_buf [] 0 10)\<lparr>total := 0, hdr_size := 64 * 1024\<rparr>\<rparr>) = None"
proof -
  let ?E = "ex_muxer\<lparr>heap := ex_allocator\<lparr>alloc_ok := \<lambda>n. n \<noteq> VID_BUF_SIZE\<rparr>\<rparr>"
  let ?st0 = "ex_recorder zero_buf zero_mp4 VIDENC_IDLE [] True 30"
  let ?st = "(ex_start [ex_I] 30)\<lparr>tbuf := (ex_buf [] 0 10)\<lparr>total := 0, hdr_size := 64 * 1024\<rparr>\<rparr>"
  have c: "card_ok (fs ?E) fdata fpos" using ex_card by simp
  have o: "opens ?E ?st" using ex_start_opens(1) [of "[ex_I]" 30] by (simp add: opens_def ex_muxer_def ex_recorder_def)
  have a: "\<not> alloc_ok (heap ?E) VID_BUF_SIZE" by simp
  have s: "vstate (pvid ?st) = VIDENC_IDLE" "total (tbuf ?st0) = 0" "hdr_info (tbuf ?st) \<noteq> 0"
    "hdr_size (tbuf ?st) = 64 * 1024" by (simp_all add: ex_recorder_def zero_buf_def ex_buf_def)
  have t: "total (tbuf ?st) = total (tbuf (muxer_init_buffering ?E ?st0))"
    by (simp add: muxer_init_buffering_def videnc_info_init_buffer_def ex_recorder_def zero_buf_def Let_def)
  show ?thesis by (rule no_buffer_hangs [OF c o s(1) a s(2) t s(3,4)])
qed

definition ex_shut :: "ramdisk \<Rightarrow> bool" where "ex_shut w \<longleftrightarrow> \<not> fopened w"

lemma ex_handle: "opens_nothing ex_muxer ex_shut" "dir_ok (fs ex_muxer) ex_shut"
  "close_ok ex_muxer ex_shut (\<lambda>_. False)" "opens_nothing ex_muxer (\<lambda>w. ex_shut w \<or> False)"
  by (simp_all add: opens_nothing_def close_ok_def dir_ok_def ex_shut_def ex_muxer_def ram_fs_def FR_OK_def)

lemma ex_queue_P: "sbuf_ok (ex_queue [ex_P])" "sbuf_items (ex_queue [ex_P]) = [ex_P]"
  by (simp_all add: ex_queue_ok)

lemma recorder_invariant_witness:
  "\<exists>st'. muxer_videnc_task ex_muxer (ex_start [ex_P] 30) = Some st'
    \<and> sbuf_ok (sbuf (pvid st')) \<and> heap_ok (filenamelist (pvid st'))
    \<and> vstate (pvid st') \<in> {VIDENC_IDLE, VIDENC_FIRST, VIDENC_FIRST_NEXT, VIDENC_WRITE, VIDENC_EXIT}"
proof -
  let ?st = "ex_start [ex_P] 30"
  let ?s = "?st\<lparr>enc_ing := True\<rparr>"
  obtain st1 where st1: "muxer_videnc_idle ex_muxer ?s = Some (True, st1)" using ex_start_idle(2) by blast
  have "ready ?s" using ex_start_ready [of "[ex_P]" 30] by (simp add: ready_def)
  from idle_ok [OF ex_card this st1] have "sbuf (pvid st1) = ex_queue [ex_P]"
    by (auto simp: user_def)
  then obtain q where "sbuf_get (sbuf (pvid st1)) = Some (ex_P, q)"
    using sbuf_next [OF ex_queue_P] by auto
  then have "\<exists>st'. first_stage ex_muxer st1 = Some st'"
    by (simp add: first_stage_def muxer_videnc_frist_video_def next_block_def take_block_def ex_P_def)
  then obtain st' where "muxer_videnc_process ex_muxer ?st = Some st'"
    using st1 by (auto simp: muxer_videnc_process_def ex_recorder_def)
  moreover have "muxer_videnc_sbuf_depth_sum ?st = ENX_OK"
    using sbuf_empty_iff [OF ex_queue_P(1)] by (simp add: muxer_videnc_sbuf_depth_sum_def ex_queue_P)
  moreover have "bSD_FAT_mounted ?st" "muxer_videnc_state eRecNormal ?st \<noteq> 0"
    by (simp_all add: ex_recorder_def muxer_videnc_state_def)
  ultimately obtain st'' where t: "muxer_videnc_task ex_muxer ?st = Some st''"
    by (auto simp: muxer_videnc_task_def muxer_videnc_def)
  then have "(rec_step ex_muxer)\<^sup>*\<^sup>* ?st st''" by (blast intro: rec_step.round)
  moreover have "machine_ok ex_shut ?st"
    using ex_queue_P(1)
    by (simp add: machine_ok_def queues_def queues_ok_def resting_def ex_shut_def)
      (simp add: ex_recorder_def encHeap_create_def heap_ok_def heap_ord_def ex_queue_def sbuf_slots_def)
  ultimately show ?thesis using recorder_invariant [OF _ ex_handle(3,4)] t by blast
qed

lemma recorder_ready_witness:
  "\<exists>st. muxer_videnc_init ex_muxer True
      (muxer_videnc_task_init ex_muxer ((ex_recorder zero_buf zero_mp4 VIDENC_IDLE [] True 30)\<lparr>nVidenc_Fps_old := 0\<rparr>)) = Some st
    \<and> ready st \<and> machine_ok ex_shut st \<and> room (tbuf st) = 900"
proof -
  let ?st0 = "(ex_recorder zero_buf zero_mp4 VIDENC_IDLE [] True 30)\<lparr>nVidenc_Fps_old := 0\<rparr>"
  have "list_dir (fs ex_muxer) e w = Some (e, w)" for e w
    by (subst list_dir.simps) (simp add: ex_muxer_def ram_fs_def FR_OK_def)
  then obtain st where st: "muxer_videnc_init ex_muxer True (muxer_videnc_task_init ex_muxer ?st0) = Some st"
    by (auto simp: muxer_videnc_init_def videnc_info_init_filenamelist_def change_savetime_start case_prod_unfold Let_def)
  have s: "tbuf ?st0 = zero_buf" "nVidenc_Fps_old ?st0 = 0" "alloc_ok (heap ex_muxer) n" "fresh_addr (heap ex_muxer) \<noteq> 0"
    "ex_shut (disk ?st0)" for n
    by (simp_all add: ex_recorder_def ex_muxer_def ex_allocator_def ex_shut_def)
  show ?thesis using recorder_ready [OF st s(1-4) ex_handle(1,2) s(5)] st by blast
qed

end
