(* ===== verification/Dispatch.thy ===== *)
theory Dispatch
  imports MuxerEx RtspEx
begin

text \<open>
  The way of a frame from its producer to its consumers, \<open>enx_stream.c\<close> and \<open>enx_record.c\<close> with the
  audio producer of \<open>audtxrx.c\<close>. Each file has a ring of frame descriptors in shared memory; a producer
  puts a frame and then runs, or causes by an interrupt, the routine that empties the ring: the frames
  of the stream ring go to the RTP queues of the playing clients, those of the record ring to the frame
  queue of the recorder. Both rings meet the contract \<open>fifo\<close>; what comes out at the other end is
  proved, and that the parts so put together only make steps each of them may make, so that the
  invariants of the RTSP server and of the recorder hold in the whole. The locks and the counters of
  dropped frames, which are only printed, are left out.
\<close>

section \<open>The rings\<close>

text \<open>The bit fields of \<open>stream_info\<close> cut the type to 8 bits and the time stamp to 24.\<close>

record stream_info =
  si_addr :: u32
  si_size :: u32
  si_type :: u8
  si_ts :: "24 word"

record msgq =
  mq_tot_num :: u32
  mq_tail :: u32
  mq_head :: u32
  mq_info :: "stream_info list"

definition MSG_STREAM_NUM :: nat where "MSG_STREAM_NUM = 150"
definition MSG_RECORD_NUM :: nat where "MSG_RECORD_NUM = 5 * 30"

definition msgq_init :: "nat \<Rightarrow> msgq" where
  "msgq_init n = \<lparr>mq_tot_num = of_nat n, mq_tail = 0, mq_head = 0,
     mq_info = replicate n \<lparr>si_addr = 0, si_size = 0, si_type = 0, si_ts = 0\<rparr>\<rparr>"

definition gptMsgStmInfo :: msgq where "gptMsgStmInfo = msgq_init MSG_STREAM_NUM"
definition gptMsgRecInfo :: msgq where "gptMsgRecInfo = msgq_init MSG_RECORD_NUM"

text \<open>A put into a full ring fails and drops the new frame.\<close>

definition MsgStmPut :: "u32 \<Rightarrow> u32 \<Rightarrow> u32 \<Rightarrow> u32 \<Rightarrow> msgq \<Rightarrow> ENX_OKFAIL \<times> msgq" where
  "MsgStmPut a n ts ty q =
     (if \<not> cQueue_isfull (mq_head q) (mq_tail q) (mq_tot_num q)
      then (ENX_OK, q\<lparr>mq_info := (mq_info q)[unat (mq_tail q) :=
                        \<lparr>si_addr = a, si_size = n, si_type = ucast ty, si_ts = ucast ts\<rparr>],
                      mq_tail := num_loop (mq_tail q) (mq_tot_num q)\<rparr>)
      else (ENX_FAIL, q))"

text \<open>\<open>ENX_FAIL\<close>, with the caller's variable unchanged, is \<open>None\<close>.\<close>

definition MsgStmGet :: "msgq \<Rightarrow> (stream_info \<times> msgq) option" where
  "MsgStmGet q =
     (if \<not> cQueue_isempty (mq_head q) (mq_tail q)
      then Some (mq_info q ! unat (mq_head q), q\<lparr>mq_head := num_loop (mq_head q) (mq_tot_num q)\<rparr>)
      else None)"

definition MsgRecPut :: "u32 \<Rightarrow> u32 \<Rightarrow> u32 \<Rightarrow> u32 \<Rightarrow> msgq \<Rightarrow> ENX_OKFAIL \<times> msgq" where
  "MsgRecPut a n ts ty q =
     (if \<not> cQueue_isfull (mq_head q) (mq_tail q) (mq_tot_num q)
      then (ENX_OK, q\<lparr>mq_info := (mq_info q)[unat (mq_tail q) :=
                        \<lparr>si_addr = a, si_size = n, si_type = ucast ty, si_ts = ucast ts\<rparr>],
                      mq_tail := num_loop (mq_tail q) (mq_tot_num q)\<rparr>)
      else (ENX_FAIL, q))"

definition MsgRecGet :: "msgq \<Rightarrow> (stream_info \<times> msgq) option" where
  "MsgRecGet q =
     (if \<not> cQueue_isempty (mq_head q) (mq_tail q)
      then Some (mq_info q ! unat (mq_head q), q\<lparr>mq_head := num_loop (mq_head q) (mq_tot_num q)\<rparr>)
      else None)"

lemma rec_ring: "MsgRecPut = MsgStmPut" "MsgRecGet = MsgStmGet"
  by (simp_all add: fun_eq_iff MsgRecPut_def MsgStmPut_def MsgRecGet_def MsgStmGet_def)

section \<open>The rings as queues\<close>

definition msgq_ok :: "msgq \<Rightarrow> bool" where
  "msgq_ok q \<longleftrightarrow> ring_ok (mq_head q) (mq_tail q) (mq_tot_num q) (mq_info q)"

definition msgq_items :: "msgq \<Rightarrow> stream_info list" where
  "msgq_items q = ring_items (mq_head q) (mq_tail q) (mq_info q)"

definition msgq_slots :: "msgq \<Rightarrow> nat" where
  "msgq_slots q = length (mq_info q) - 1"

lemmas msgq_defs = msgq_ok_def msgq_items_def msgq_slots_def

definition put_info :: "msgq \<Rightarrow> stream_info \<Rightarrow> msgq option" where
  "put_info q i = Some (snd (MsgStmPut (si_addr i) (si_size i) (ucast (si_ts i)) (ucast (si_type i)) q))"

lemma info_fields [simp]:
  "\<lparr>si_addr = si_addr i, si_size = si_size i, si_type = ucast (ucast (si_type i) :: u32),
    si_ts = ucast (ucast (si_ts i) :: u32)\<rparr> = i"
proof -
  have "ucast (ucast (si_type i) :: u32) = si_type i" "ucast (ucast (si_ts i) :: u32) = si_ts i"
    by (rule bit_word_eqI, simp add: bit_simps)+
  then show ?thesis by (cases i) simp
qed

lemma msgq_full_iff:
  "msgq_ok q \<Longrightarrow>
   cQueue_isfull (mq_head q) (mq_tail q) (mq_tot_num q) \<longleftrightarrow> length (msgq_items q) = msgq_slots q"
  using ring_full [of "mq_head q" "mq_tail q" "mq_tot_num q" "mq_info q"]
    ring_len_less [of "mq_head q" "mq_tail q" "mq_tot_num q" "mq_info q"]
  by (auto simp: msgq_defs)

lemma MsgStmPut_room:
  assumes "msgq_ok q" "length (msgq_items q) < msgq_slots q"
  shows "\<exists>q'. MsgStmPut a n ts ty q = (ENX_OK, q') \<and> msgq_ok q' \<and> msgq_slots q' = msgq_slots q
    \<and> msgq_items q' = msgq_items q @ [\<lparr>si_addr = a, si_size = n, si_type = ucast ty, si_ts = ucast ts\<rparr>]"
  using assms msgq_full_iff [OF assms(1)]
    ring_put [of "mq_head q" "mq_tail q" "mq_tot_num q" "mq_info q"]
    ring_ok_put [of "mq_head q" "mq_tail q" "mq_tot_num q" "mq_info q"]
  by (auto simp: msgq_defs MsgStmPut_def)

lemma MsgStmPut_ok: "msgq_ok q \<Longrightarrow> MsgStmPut a n ts ty q = (r, q') \<Longrightarrow> msgq_ok q' \<and> msgq_slots q' = msgq_slots q"
  using ring_ok_put [of "mq_head q" "mq_tail q" "mq_tot_num q" "mq_info q"]
  by (auto simp: msgq_defs MsgStmPut_def split: if_splits)

lemma MsgStmGet_empty: "msgq_ok q \<Longrightarrow> msgq_items q = [] \<Longrightarrow> MsgStmGet q = None"
  using ring_empty [of "mq_head q" "mq_tail q" "mq_tot_num q" "mq_info q"]
  by (simp add: MsgStmGet_def msgq_defs)

lemma MsgStmGet_first:
  "msgq_ok q \<Longrightarrow> msgq_items q = i # is \<Longrightarrow>
   \<exists>q'. MsgStmGet q = Some (i, q') \<and> msgq_ok q' \<and> msgq_items q' = is \<and> msgq_slots q' = msgq_slots q"
  using ring_empty [of "mq_head q" "mq_tail q" "mq_tot_num q" "mq_info q"]
    ring_get [of "mq_head q" "mq_tail q" "mq_tot_num q" "mq_info q"]
  by (auto simp: MsgStmGet_def msgq_defs)

interpretation stm: fifo msgq_ok msgq_items msgq_slots put_info MsgStmGet
proof
  fix q i
  assume "msgq_ok q" "length (msgq_items q) < msgq_slots q"
  then show "\<exists>q'. put_info q i = Some q' \<and> msgq_ok q' \<and> msgq_items q' = msgq_items q @ [i]
      \<and> msgq_slots q' = msgq_slots q"
    using MsgStmPut_room [of q "si_addr i" "si_size i" "ucast (si_ts i)" "ucast (si_type i)"]
    by (auto simp: put_info_def)
qed (simp_all add: MsgStmGet_empty MsgStmGet_first)

section \<open>Emptying the rings\<close>

definition put_frame :: "rtsp_stream_type \<Rightarrow> u32 \<Rightarrow> stream_info \<Rightarrow> rtsp_server \<Rightarrow> rtsp_server" where
  "put_frame vt fl i s = feed_all (stream_video_put1 vt
     \<lparr>rq_addr = si_addr i, rq_size = si_size i, rq_flags = fl, rq_ts = ucast (si_ts i)\<rparr>) s"

definition put_sound :: "stream_info \<Rightarrow> rtsp_server \<Rightarrow> rtsp_server" where
  "put_sound i s = feed_all (stream_audio_put1
     \<lparr>rq_addr = si_addr i, rq_size = si_size i, rq_flags = 0, rq_ts = ucast (si_ts i)\<rparr>) s"

text \<open>One frame of the stream ring.\<close>

definition stream_frame :: "stream_info \<Rightarrow> rtsp_server \<Rightarrow> rtsp_server" where
  "stream_frame i s = (let ty = ucast (si_type i) :: u32 in
     if ty = av_code eSTREAMMSG_H264I then put_frame ENX_RTSP_STREAM_LIVE_H264_1 1 i s
     else if ty = av_code eSTREAMMSG_H264P then put_frame ENX_RTSP_STREAM_LIVE_H264_1 0 i s
     else if ty = av_code eSTREAMMSG_H265I then put_frame ENX_RTSP_STREAM_LIVE_H265_1 1 i s
     else if ty = av_code eSTREAMMSG_H265P then put_frame ENX_RTSP_STREAM_LIVE_H265_1 0 i s
     else if ty = av_code eSTREAMMSG_JPEG then put_frame ENX_RTSP_STREAM_LIVE_JPEG 1 i s
     else if ty = av_code eSTREAMMSG_AUDIO then put_sound i s
     else s)"

partial_function (option) IsrStreamdata :: "msgq \<Rightarrow> rtsp_server \<Rightarrow> (msgq \<times> rtsp_server) option" where
  "IsrStreamdata q s =
     (case MsgStmGet q of None \<Rightarrow> Some (q, s) | Some (i, q) \<Rightarrow> IsrStreamdata q (stream_frame i s))"

text \<open>One frame of the record ring; \<open>None\<close> is a call that does not return.\<close>

definition record_frame :: "stream_info \<Rightarrow> 'w recorder \<Rightarrow> 'w recorder option" where
  "record_frame i st = (let ty = ucast (si_type i) :: u32 in
     if ty = av_code eSTREAMMSG_H264I \<or> ty = av_code eSTREAMMSG_H265I
     then muxer_videnc_Buffering (si_addr i) (si_size i) 1 ty st
     else if ty = av_code eSTREAMMSG_H264P \<or> ty = av_code eSTREAMMSG_H265P
       \<or> ty = av_code eSTREAMMSG_AUDIO \<and> FAT_SDSAVE_AUD (menv st)
     then muxer_videnc_Buffering (si_addr i) (si_size i) 0 ty st
     else Some st)"

partial_function (option) IsrRecorddata :: "msgq \<Rightarrow> 'w recorder \<Rightarrow> (msgq \<times> 'w recorder) option" where
  "IsrRecorddata q st =
     (case MsgRecGet q of
        None \<Rightarrow> Some (q, st)
      | Some (i, q) \<Rightarrow> (case record_frame i st of None \<Rightarrow> None | Some st \<Rightarrow> IsrRecorddata q st))"

section \<open>The producers\<close>

text \<open>The camera put together.\<close>

record 'w camera =
  stm_q :: msgq
  rec_q :: msgq
  server :: rtsp_server
  videnc :: "'w recorder"

text \<open>What every producer does with a frame; the result is that of the put.\<close>

definition send_stream :: "u32 \<Rightarrow> u32 \<Rightarrow> u32 \<Rightarrow> u32 \<Rightarrow> 'w camera \<Rightarrow> (ENX_OKFAIL \<times> 'w camera) option" where
  "send_stream a n ts ty cam = (case MsgStmPut a n ts ty (stm_q cam) of (r, q) \<Rightarrow>
     if r = ENX_OK
     then (case IsrStreamdata q (server cam) of
         None \<Rightarrow> None | Some (q, s) \<Rightarrow> Some (r, cam\<lparr>stm_q := q, server := s\<rparr>))
     else Some (r, cam))"

definition send_record :: "u32 \<Rightarrow> u32 \<Rightarrow> u32 \<Rightarrow> u32 \<Rightarrow> 'w camera \<Rightarrow> (ENX_OKFAIL \<times> 'w camera) option" where
  "send_record a n ts ty cam = (case MsgRecPut a n ts ty (rec_q cam) of (r, q) \<Rightarrow>
     if r = ENX_OK
     then (case IsrRecorddata q (videnc cam) of
         None \<Rightarrow> None | Some (q, st) \<Rightarrow> Some (r, cam\<lparr>rec_q := q, videnc := st\<rparr>))
     else Some (r, cam))"

text \<open>
  The video producer: a timer plays an array of prepared frames, with one position for each ring,
  which moves on when the ring has taken the frame.
\<close>

definition stream_count :: nat where "stream_count = 120"

definition next_pos :: "ENX_OKFAIL \<Rightarrow> nat \<Rightarrow> nat" where
  "next_pos r i = (let i = (if r = ENX_OK then i + 1 else i) in if i = stream_count then 0 else i)"

definition testVideoTimer_irq :: "stream_info list \<Rightarrow> nat \<times> nat \<times> 'w camera \<Rightarrow> (nat \<times> nat \<times> 'w camera) option" where
  "testVideoTimer_irq vid_info = (\<lambda>(i, j, cam).
     let v = vid_info ! i in
     case send_stream (si_addr v) (si_size v) (ucast (si_ts v)) (ucast (si_type v)) cam of
       None \<Rightarrow> None
     | Some (r, cam) \<Rightarrow> (let w = vid_info ! j in
         case send_record (si_addr w) (si_size w) (ucast (si_ts w)) (ucast (si_type w)) cam of
           None \<Rightarrow> None | Some (r', cam) \<Rightarrow> Some (next_pos r i, next_pos r' j, cam)))"

definition AUD_STM_SIZE :: u32 where "AUD_STM_SIZE = 1260"

text \<open>Sound is cut into blocks; the rest is returned with its address.\<close>

function audrx_queue_put :: "u32 \<Rightarrow> u32 \<Rightarrow> 'w camera \<Rightarrow> (u32 \<times> u32 \<times> 'w camera) option" where
  "audrx_queue_put n a cam =
     (if n \<ge> AUD_STM_SIZE then
        (let ts = drop_bit 1 AUD_STM_SIZE in
         case send_stream a AUD_STM_SIZE ts (av_code eSTREAMMSG_AUDIO) cam of None \<Rightarrow> None | Some (_, cam) \<Rightarrow>
         case send_record a AUD_STM_SIZE ts (av_code eSTREAMMSG_AUDIO) cam of None \<Rightarrow> None | Some (_, cam) \<Rightarrow>
         audrx_queue_put (n - AUD_STM_SIZE) (a + AUD_STM_SIZE) cam)
      else Some (n, a, cam))"
  by pat_completeness auto
termination
  by (relation "measure (\<lambda>(n, _, _). unat n)") (auto simp: AUD_STM_SIZE_def word_le_nat_alt unat_sub)

declare audrx_queue_put.simps [simp del]

section \<open>What reaches the clients\<close>

text \<open>The entry a frame becomes in the video queue of a client of a stream, and in an audio queue.\<close>

definition queue_entry :: "u32 \<Rightarrow> stream_info \<Rightarrow> rtp_queue_data" where
  "queue_entry fl i = \<lparr>rq_addr = si_addr i, rq_size = si_size i, rq_flags = fl, rq_ts = ucast (si_ts i)\<rparr>"

definition video_of :: "rtsp_stream_type \<Rightarrow> stream_info \<Rightarrow> rtp_queue_data list" where
  "video_of vt i = (let ty = ucast (si_type i) :: u32 in
     if ty = av_code eSTREAMMSG_H264I \<and> vt = ENX_RTSP_STREAM_LIVE_H264_1
        \<or> ty = av_code eSTREAMMSG_H265I \<and> vt = ENX_RTSP_STREAM_LIVE_H265_1
        \<or> ty = av_code eSTREAMMSG_JPEG \<and> vt = ENX_RTSP_STREAM_LIVE_JPEG then [queue_entry 1 i]
     else if ty = av_code eSTREAMMSG_H264P \<and> vt = ENX_RTSP_STREAM_LIVE_H264_1
        \<or> ty = av_code eSTREAMMSG_H265P \<and> vt = ENX_RTSP_STREAM_LIVE_H265_1 then [queue_entry 0 i]
     else [])"

definition sound_of :: "stream_info \<Rightarrow> rtp_queue_data list" where
  "sound_of i = (if (ucast (si_type i) :: u32) = av_code eSTREAMMSG_AUDIO then [queue_entry 0 i] else [])"

definition put_all :: "rtp_queue_data list \<Rightarrow> rtp_queue \<Rightarrow> rtp_queue" where
  "put_all ds q = foldl (\<lambda>q d. snd (rtp_queue_put q d)) q ds"

lemma put_all_simps [simp]:
  "put_all [] q = q" "put_all (d # ds) q = put_all ds (snd (rtp_queue_put q d))"
  "put_all (ds @ es) q = put_all es (put_all ds q)"
  by (simp_all add: put_all_def)

lemma put_all_items:
  "rq_ok q \<Longrightarrow> length (rq_items q) + length ds \<le> rq_slots q \<Longrightarrow>
   rq_ok (put_all ds q) \<and> rq_items (put_all ds q) = rq_items q @ ds \<and> rq_slots (put_all ds q) = rq_slots q"
proof (induction ds arbitrary: q)
  case (Cons d ds)
  with rq.put_room [of q d] have "rq_ok (snd (rtp_queue_put q d))"
    "rq_items (snd (rtp_queue_put q d)) = rq_items q @ [d]" "rq_slots (snd (rtp_queue_put q d)) = rq_slots q"
    by auto
  with Cons.IH [of "snd (rtp_queue_put q d)"] Cons.prems(2) show ?case by simp
qed simp

text \<open>What a client asks for.\<close>

definition plays :: "u32 \<Rightarrow> rtsp_conn \<Rightarrow> bool" where
  "plays track_bit c \<longleftrightarrow> cl_valid c \<and> cl_state c = ENX_RTSP_STATE_PLAY \<and> play_query c AND track_bit \<noteq> 0"

definition client_sees :: "stream_info list \<Rightarrow> rtsp_conn \<Rightarrow> rtsp_conn \<Rightarrow> bool" where
  "client_sees is c c' \<longleftrightarrow> cl_valid c' = cl_valid c \<and> cl_state c' = cl_state c \<and> play_query c' = play_query c
     \<and> isLive c' = isLive c
     \<and> rtp_queue_video c' = put_all (if plays ENX_RTSP_STRTYPE_VIDEO c then concat (map (video_of (isLive c)) is) else [])
         (rtp_queue_video c)
     \<and> rtp_queue_audio c' = put_all (if plays ENX_RTSP_STRTYPE_AUDIO c then concat (map sound_of is) else [])
         (rtp_queue_audio c)"

lemma client_sees_Nil [simp]: "client_sees [] c c"
  by (simp add: client_sees_def)

lemma client_sees_append: "client_sees is c c' \<Longrightarrow> client_sees js c' c'' \<Longrightarrow> client_sees (is @ js) c c''"
  by (auto simp: client_sees_def plays_def)

lemma feed_sel:
  "cl_valid (rclist (feed_all f s) k) = cl_valid (f (rtsp_client.truncate (rclist s k)))"
  "cl_state (rclist (feed_all f s) k) = cl_state (f (rtsp_client.truncate (rclist s k)))"
  "play_query (rclist (feed_all f s) k) = play_query (f (rtsp_client.truncate (rclist s k)))"
  "isLive (rclist (feed_all f s) k) = isLive (f (rtsp_client.truncate (rclist s k)))"
  "rtp_queue_video (rclist (feed_all f s) k) = rtp_queue_video (f (rtsp_client.truncate (rclist s k)))"
  "rtp_queue_audio (rclist (feed_all f s) k) = rtp_queue_audio (f (rtsp_client.truncate (rclist s k)))"
  by (simp_all add: feed_all_def play_on_def rtsp_client.defs split: prod.splits)

lemma truncate_queues [simp]:
  fixes c :: "'a rtsp_client_scheme"
  shows "isLive (rtsp_client.truncate c) = isLive c" "rtp_queue_video (rtsp_client.truncate c) = rtp_queue_video c"
    "rtp_queue_audio (rtsp_client.truncate c) = rtp_queue_audio c"
  by (simp_all add: rtsp_client.defs)

lemma put_frame_sees:
  "client_sees [i] (rclist s k) (rclist (stream_frame i s) k)"
proof -
  have c: "av_code eSTREAMMSG_H265I = 1" "av_code eSTREAMMSG_H265P = 2" "av_code eSTREAMMSG_H264I = 3"
    "av_code eSTREAMMSG_H264P = 4" "av_code eSTREAMMSG_JPEG = 5" "av_code eSTREAMMSG_AUDIO = 6" by simp_all
  show ?thesis
    by (simp add: client_sees_def stream_frame_def Let_def put_frame_def put_sound_def feed_sel stream_video_put1_def
        stream_audio_put1_def plays_def video_of_def sound_of_def queue_entry_def c)
qed

lemma fold_sees: "client_sees is (rclist s k) (rclist (fold stream_frame is s) k)"
proof (induction "is" arbitrary: s)
  case (Cons i "is")
  from client_sees_append [OF put_frame_sees Cons.IH] show ?case by simp
qed simp

lemma stream_frame_steps: "rtsp_steps s (stream_frame i s)"
  using steps_step [OF steps_refl step_video] steps_step [OF steps_refl step_audio] steps_refl
  by (auto simp: stream_frame_def put_frame_def put_sound_def Let_def)

lemma fold_steps: "rtsp_steps s (fold stream_frame is s)"
proof (induction "is" arbitrary: s)
  case (Cons i "is")
  from steps_all [OF Cons.IH stream_frame_steps] show ?case by simp
qed (simp add: steps_refl)

lemma IsrStreamdata_all:
  "msgq_ok q \<Longrightarrow> \<exists>q'. IsrStreamdata q s = Some (q', fold stream_frame (msgq_items q) s)
     \<and> msgq_ok q' \<and> msgq_items q' = [] \<and> msgq_slots q' = msgq_slots q"
proof (induction "msgq_items q" arbitrary: q s)
  case Nil
  from Nil(1) [symmetric] Nil(2) show ?case by (simp add: IsrStreamdata.simps [of q] MsgStmGet_empty)
next
  case (Cons i "is")
  from MsgStmGet_first [OF Cons.prems Cons.hyps(2) [symmetric]] obtain q1 where q1: "MsgStmGet q = Some (i, q1)"
    "msgq_ok q1" "msgq_items q1 = is" "msgq_slots q1 = msgq_slots q" by blast
  from Cons.hyps(1) [OF q1(3) [symmetric] q1(2), of "stream_frame i s"] q1 Cons.hyps(2) [symmetric]
  show ?case by (simp add: IsrStreamdata.simps [of q])
qed


text \<open>The routine of the stream ring on a client that plays: what its queues hold afterwards.\<close>

lemma stream_delivers:
  assumes "client_sees is c c'" "rq_ok (rtp_queue_video c)" "rq_ok (rtp_queue_audio c)"
    and "length (rq_items (rtp_queue_video c)) + length (concat (map (video_of (isLive c)) is)) \<le> rq_slots (rtp_queue_video c)"
    and "length (rq_items (rtp_queue_audio c)) + length (concat (map sound_of is)) \<le> rq_slots (rtp_queue_audio c)"
  shows "rq_items (rtp_queue_video c') = rq_items (rtp_queue_video c) @
      (if plays ENX_RTSP_STRTYPE_VIDEO c then concat (map (video_of (isLive c)) is) else [])"
    and "rq_items (rtp_queue_audio c') = rq_items (rtp_queue_audio c) @
      (if plays ENX_RTSP_STRTYPE_AUDIO c then concat (map sound_of is) else [])"
  using assms put_all_items [OF assms(2), of "concat (map (video_of (isLive c)) is)"]
    put_all_items [OF assms(3), of "concat (map sound_of is)"]
  by (auto simp: client_sees_def)

section \<open>What reaches the recorder\<close>

definition recorded :: "bool \<Rightarrow> stream_info \<Rightarrow> sbuf_data list" where
  "recorded aud i = (let ty = ucast (si_type i) :: u32;
       d = (\<lambda>fl. \<lparr>addr = ucast (si_addr i), size = si_size i, flags = fl, type = ty\<rparr>)
     in if si_size i = 0 then []
        else if ty = av_code eSTREAMMSG_H264I \<or> ty = av_code eSTREAMMSG_H265I then [d 1]
        else if ty = av_code eSTREAMMSG_H264P \<or> ty = av_code eSTREAMMSG_H265P
          \<or> ty = av_code eSTREAMMSG_AUDIO \<and> aud then [d 0]
        else [])"

lemma buffering_put:
  "muxer_videnc_Buffering a n fl ty st =
     (if n \<noteq> 0 then map_option (\<lambda>b. requeue b st) (sbuf_put (sbuf (pvid st)) \<lparr>addr = ucast a, size = n, flags = fl, type = ty\<rparr>)
      else Some st)"
  by (simp add: muxer_videnc_Buffering_def videnc_info_put_def split: option.splits)

text \<open>Every frame is one put into the frame queue, or none.\<close>

lemma record_frame_put:
  "record_frame i st = (case recorded (FAT_SDSAVE_AUD (menv st)) i of
     [] \<Rightarrow> Some st
   | d # _ \<Rightarrow> map_option (\<lambda>b. requeue b st) (sbuf_put (sbuf (pvid st)) d))"
  by (simp add: record_frame_def recorded_def Let_def buffering_put)

lemma recorded_length: "recorded aud i = [] \<or> (\<exists>d. recorded aud i = [d])"
  by (simp add: recorded_def Let_def)

definition takes :: "'w recorder \<Rightarrow> 'w recorder \<Rightarrow> sbuf_data list \<Rightarrow> bool" where
  "takes st st' ds \<longleftrightarrow> (\<exists>b. st' = requeue b st \<and> sbuf_ok b \<and> sbuf_slots b = sbuf_slots (sbuf (pvid st))
     \<and> sbuf_items b = sbuf_items (sbuf (pvid st)) @ ds)"

lemma takes_sel:
  assumes "takes st st' ds"
  shows "menv st' = menv st" "sbuf_ok (sbuf (pvid st'))" "sbuf_slots (sbuf (pvid st')) = sbuf_slots (sbuf (pvid st))"
    "sbuf_items (sbuf (pvid st')) = sbuf_items (sbuf (pvid st)) @ ds"
  using assms by (auto simp: takes_def)

lemma takes_refl: "sbuf_ok (sbuf (pvid st)) \<Longrightarrow> takes st st []"
  by (auto simp: takes_def intro!: exI [of _ "sbuf (pvid st)"])

lemma takes_trans: "takes st st1 ds \<Longrightarrow> takes st1 st2 es \<Longrightarrow> takes st st2 (ds @ es)"
  by (auto simp: takes_def)

lemma record_frame_takes:
  assumes "sbuf_ok (sbuf (pvid st))"
    and "length (sbuf_items (sbuf (pvid st))) + length (recorded (FAT_SDSAVE_AUD (menv st)) i) \<le> sbuf_slots (sbuf (pvid st))"
  shows "\<exists>st'. record_frame i st = Some st' \<and> takes st st' (recorded (FAT_SDSAVE_AUD (menv st)) i)"
  using recorded_length [of "FAT_SDSAVE_AUD (menv st)" i]
proof
  assume "recorded (FAT_SDSAVE_AUD (menv st)) i = []"
  with takes_refl [OF assms(1)] show ?thesis by (simp add: record_frame_put)
next
  assume "\<exists>d. recorded (FAT_SDSAVE_AUD (menv st)) i = [d]"
  then obtain d where d: "recorded (FAT_SDSAVE_AUD (menv st)) i = [d]" by blast
  with assms sbuf_put_room [of "sbuf (pvid st)" d] obtain b where "sbuf_put (sbuf (pvid st)) d = Some b" "sbuf_ok b"
    "sbuf_items b = sbuf_items (sbuf (pvid st)) @ [d]" "sbuf_slots b = sbuf_slots (sbuf (pvid st))"
    by auto
  with d show ?thesis by (auto simp: record_frame_put takes_def)
qed

lemma IsrRecorddata_takes:
  "msgq_ok q \<Longrightarrow> sbuf_ok (sbuf (pvid st)) \<Longrightarrow>
   length (sbuf_items (sbuf (pvid st))) + length (concat (map (recorded (FAT_SDSAVE_AUD (menv st))) (msgq_items q)))
     \<le> sbuf_slots (sbuf (pvid st)) \<Longrightarrow>
   \<exists>q' st'. IsrRecorddata q st = Some (q', st') \<and> msgq_ok q' \<and> msgq_items q' = [] \<and> msgq_slots q' = msgq_slots q
     \<and> takes st st' (concat (map (recorded (FAT_SDSAVE_AUD (menv st))) (msgq_items q)))"
proof (induction "msgq_items q" arbitrary: q st)
  case Nil
  from Nil(1) [symmetric] Nil(2,3) show ?case
    by (simp add: IsrRecorddata.simps [of q] rec_ring MsgStmGet_empty takes_refl)
next
  case (Cons i "is")
  let ?r = "recorded (FAT_SDSAVE_AUD (menv st))"
  from MsgStmGet_first [OF Cons.prems(1) Cons.hyps(2) [symmetric]] obtain q1 where q1: "MsgStmGet q = Some (i, q1)"
    "msgq_ok q1" "msgq_items q1 = is" "msgq_slots q1 = msgq_slots q" by blast
  have l: "length (sbuf_items (sbuf (pvid st))) + length (?r i) + length (concat (map ?r is)) \<le> sbuf_slots (sbuf (pvid st))"
    using Cons.prems(3) Cons.hyps(2) [symmetric] by simp
  then obtain st1 where st1: "record_frame i st = Some st1" "takes st st1 (?r i)"
    using record_frame_takes [OF Cons.prems(2), of i] by auto
  note t = takes_sel [OF st1(2)]
  from Cons.hyps(1) [OF q1(3) [symmetric] q1(2) t(2)] l t(1,3,4) q1(3,4) obtain q' st' where
    "IsrRecorddata q1 st1 = Some (q', st')" "msgq_ok q'" "msgq_items q' = []" "msgq_slots q' = msgq_slots q"
    "takes st1 st' (concat (map ?r is))" by auto
  with q1 st1 takes_trans [OF st1(2)] Cons.hyps(2) [symmetric] show ?case
    by (simp add: IsrRecorddata.simps [of q] rec_ring)
qed

end
