(* ===== verification/DispatchProps.thy ===== *)
theory DispatchProps
  imports Dispatch
begin

text \<open>
  What the dispatch of frames does, over the definitions of \<open>Dispatch\<close>: delivery to the clients and
  to the recorder, the blocks the sound is cut into, and the steps of the camera, which keep the invariants of its parts.
\<close>

section \<open>Delivery\<close>

definition roomy :: "stream_info list \<Rightarrow> rtsp_conn \<Rightarrow> bool" where
  "roomy is c \<longleftrightarrow> rq_ok (rtp_queue_video c) \<and> rq_ok (rtp_queue_audio c)
     \<and> length (rq_items (rtp_queue_video c)) + length (concat (map (video_of (isLive c)) is)) \<le> rq_slots (rtp_queue_video c)
     \<and> length (rq_items (rtp_queue_audio c)) + length (concat (map sound_of is)) \<le> rq_slots (rtp_queue_audio c)"

text \<open>C31: The interrupt of the stream ring returns with the ring empty, having made only steps the RTSP
  server may make; a client in play has in its queues, behind what was there, exactly the video frames
  of the stream it watches and the blocks of sound, in the order in which they were put into the ring,
  key frames marked.\<close>

theorem stream_frames_delivered:
  assumes "msgq_ok q" and "roomy (msgq_items q) (rclist s k)"
  shows "\<exists>q' s'. IsrStreamdata q s = Some (q', s') \<and> msgq_ok q' \<and> msgq_items q' = [] \<and> rtsp_steps s s'
    \<and> rq_items (rtp_queue_video (rclist s' k)) = rq_items (rtp_queue_video (rclist s k)) @
        (if plays ENX_RTSP_STRTYPE_VIDEO (rclist s k)
         then concat (map (video_of (isLive (rclist s k))) (msgq_items q)) else [])
    \<and> rq_items (rtp_queue_audio (rclist s' k)) = rq_items (rtp_queue_audio (rclist s k)) @
        (if plays ENX_RTSP_STRTYPE_AUDIO (rclist s k) then concat (map sound_of (msgq_items q)) else [])"
proof -
  let ?s = "fold stream_frame (msgq_items q) s"
  obtain q' where "IsrStreamdata q s = Some (q', ?s)" "msgq_ok q'" "msgq_items q' = []"
    using IsrStreamdata_all [OF assms(1)] by blast
  moreover note fold_steps [of s "msgq_items q"]
  moreover note stream_delivers [OF fold_sees [of "msgq_items q" s k]]
  ultimately show ?thesis using assms(2) by (auto simp: roomy_def)
qed

text \<open>An example: three frames and a block of sound for a client that watches H.264.\<close>

definition ex_info :: "u32 \<Rightarrow> AVType \<Rightarrow> stream_info" where
  "ex_info a t = \<lparr>si_addr = a, si_size = 100, si_type = ucast (av_code t), si_ts = 3000\<rparr>"

definition ex_msgq :: msgq where
  "ex_msgq = snd (MsgStmPut 400 100 3000 (av_code eSTREAMMSG_AUDIO)
     (snd (MsgStmPut 300 100 3000 (av_code eSTREAMMSG_H265I)
     (snd (MsgStmPut 200 100 3000 (av_code eSTREAMMSG_H264P)
     (snd (MsgStmPut 100 100 3000 (av_code eSTREAMMSG_H264I) gptMsgStmInfo)))))))"

definition ex_watcher :: rtsp_conn where
  "ex_watcher = zero_conn\<lparr>cl_valid := True, cl_state := ENX_RTSP_STATE_PLAY, play_query := 3,
     isLive := ENX_RTSP_STREAM_LIVE_H264_1, rtp_queue_video := fresh_queue 10, rtp_queue_audio := fresh_queue 10\<rparr>"

lemma msgq_init_ok: "0 < n \<Longrightarrow> n < 2 ^ 32 \<Longrightarrow> msgq_ok (msgq_init n) \<and> msgq_items (msgq_init n) = [] \<and> msgq_slots (msgq_init n) = n - 1"
  by (simp add: msgq_defs msgq_init_def ring_ok_iff ring_items_def ring_len_def unat_of_nat)

lemma MsgStmPut_items:
  assumes "msgq_ok q \<and> msgq_items q = is \<and> msgq_slots q = n" "length is < n"
  shows "msgq_ok (snd (MsgStmPut a m ts ty q))
    \<and> msgq_items (snd (MsgStmPut a m ts ty q)) = is @ [\<lparr>si_addr = a, si_size = m, si_type = ucast ty, si_ts = ucast ts\<rparr>]
    \<and> msgq_slots (snd (MsgStmPut a m ts ty q)) = n"
  using assms MsgStmPut_room [of q a m ts ty] by auto

lemma ex_msgq: "msgq_ok ex_msgq \<and> msgq_items ex_msgq = [ex_info 100 eSTREAMMSG_H264I, ex_info 200 eSTREAMMSG_H264P,
    ex_info 300 eSTREAMMSG_H265I, ex_info 400 eSTREAMMSG_AUDIO] \<and> msgq_slots ex_msgq = 149"
proof -
  have "msgq_ok gptMsgStmInfo \<and> msgq_items gptMsgStmInfo = [] \<and> msgq_slots gptMsgStmInfo = 149"
    using msgq_init_ok [of 150] by (simp add: gptMsgStmInfo_def MSG_STREAM_NUM_def)
  note p1 = MsgStmPut_items [OF this, of 100 100 3000 3, simplified]
  note p2 = MsgStmPut_items [OF p1, of 200 100 3000 4, simplified]
  note p3 = MsgStmPut_items [OF p2, of 300 100 3000 1, simplified]
  note p4 = MsgStmPut_items [OF p3, of 400 100 3000 6, simplified]
  then show ?thesis by (simp add: ex_msgq_def ex_info_def)
qed


theorem stream_frames_delivered_witness:
  "\<exists>q' s'. IsrStreamdata ex_msgq ((rtsp_init 0)\<lparr>rclist := \<lambda>_. ex_watcher\<rparr>) = Some (q', s') \<and> msgq_items q' = []
    \<and> rq_items (rtp_queue_video (rclist s' 0)) =
        [queue_entry 1 (ex_info 100 eSTREAMMSG_H264I), queue_entry 0 (ex_info 200 eSTREAMMSG_H264P)]
    \<and> rq_items (rtp_queue_audio (rclist s' 0)) = [queue_entry 0 (ex_info 400 eSTREAMMSG_AUDIO)]"
proof -
  let ?s = "(rtsp_init 0)\<lparr>rclist := \<lambda>_. ex_watcher\<rparr>"
  have f: "rq_ok (fresh_queue 10)" "rq_items (fresh_queue 10) = []" "rq_slots (fresh_queue 10) = 9"
    by (simp_all add: fresh_queue_def rtp_queue_init_def rtp_queue_freebuffer_def rq_defs ring_ok_iff ring_items_def ring_len_def)
  have w: "plays ENX_RTSP_STRTYPE_VIDEO ex_watcher" "plays ENX_RTSP_STRTYPE_AUDIO ex_watcher"
    "isLive ex_watcher = ENX_RTSP_STREAM_LIVE_H264_1" "rtp_queue_video ex_watcher = fresh_queue 10"
    "rtp_queue_audio ex_watcher = fresh_queue 10"
    by (simp_all add: plays_def ex_watcher_def ENX_RTSP_STRTYPE_VIDEO_def ENX_RTSP_STRTYPE_AUDIO_def)
  have i: "concat (map (video_of ENX_RTSP_STREAM_LIVE_H264_1) (msgq_items ex_msgq)) =
      [queue_entry 1 (ex_info 100 eSTREAMMSG_H264I), queue_entry 0 (ex_info 200 eSTREAMMSG_H264P)]"
    "concat (map sound_of (msgq_items ex_msgq)) = [queue_entry 0 (ex_info 400 eSTREAMMSG_AUDIO)]"
    using ex_msgq by (simp_all add: video_of_def sound_of_def ex_info_def)
  have "roomy (msgq_items ex_msgq) (rclist ?s 0)" using f w i by (simp add: roomy_def)
  from stream_frames_delivered [OF conjunct1 [OF ex_msgq] this] show ?thesis using w i f(2) by auto
qed

lemma record_frame_step: "record_frame i st = Some st' \<Longrightarrow> (rec_step E)\<^sup>*\<^sup>* st st'"
proof -
  have "(rec_step E)\<^sup>*\<^sup>* st st'" if "muxer_videnc_Buffering a n fl ty st = Some st'" for a n fl ty
    using rec_step.frame [where m = "ram st" and st = st and E = E, of a n fl ty st'] that by simp
  moreover assume "record_frame i st = Some st'"
  ultimately show ?thesis by (auto simp: record_frame_def Let_def split: if_splits)
qed

lemma record_frame_total:
  assumes "sbuf_ok (sbuf (pvid st))" "0 < sbuf_slots (sbuf (pvid st))"
  shows "\<exists>st'. record_frame i st = Some st' \<and> sbuf_ok (sbuf (pvid st')) \<and> 0 < sbuf_slots (sbuf (pvid st'))"
  using recorded_length [of "FAT_SDSAVE_AUD (menv st)" i]
proof
  assume "\<exists>d. recorded (FAT_SDSAVE_AUD (menv st)) i = [d]"
  then obtain d where d: "recorded (FAT_SDSAVE_AUD (menv st)) i = [d]" by blast
  with sbuf_put_items [OF assms, of d] assms(2) show ?thesis by (auto simp: record_frame_put)
qed (use assms in \<open>simp add: record_frame_put\<close>)

lemma IsrRecorddata_all:
  "msgq_ok q \<Longrightarrow> sbuf_ok (sbuf (pvid st)) \<Longrightarrow> 0 < sbuf_slots (sbuf (pvid st)) \<Longrightarrow>
   \<exists>q' st'. IsrRecorddata q st = Some (q', st') \<and> msgq_ok q' \<and> msgq_items q' = [] \<and> msgq_slots q' = msgq_slots q
     \<and> (rec_step E)\<^sup>*\<^sup>* st st'"
proof (induction "msgq_items q" arbitrary: q st)
  case Nil
  from Nil(1) [symmetric] Nil(2) show ?case
    by (simp add: IsrRecorddata.simps [of q] rec_ring MsgStmGet_empty)
next
  case (Cons i "is")
  from MsgStmGet_first [OF Cons.prems(1) Cons.hyps(2) [symmetric]] obtain q1 where q1: "MsgStmGet q = Some (i, q1)"
    "msgq_ok q1" "msgq_items q1 = is" "msgq_slots q1 = msgq_slots q" by blast
  obtain st1 where st1: "record_frame i st = Some st1" "sbuf_ok (sbuf (pvid st1))" "0 < sbuf_slots (sbuf (pvid st1))"
    using record_frame_total [OF Cons.prems(2,3)] by blast
  from Cons.hyps(1) [OF q1(3) [symmetric] q1(2) st1(2,3)] obtain q' st' where r: "IsrRecorddata q1 st1 = Some (q', st')"
    "msgq_ok q'" "msgq_items q' = []" "msgq_slots q' = msgq_slots q1" "(rec_step E)\<^sup>*\<^sup>* st1 st'" by blast
  from r(5) record_frame_step [OF st1(1), of E] have "(rec_step E)\<^sup>*\<^sup>* st st'" by simp
  with r(1-4) q1 st1(1) show ?case by (simp add: IsrRecorddata.simps [of q] rec_ring)
qed

text \<open>The routine of the record ring returns with the ring empty, having made only steps of the
  recorder; while its frame queue has room, the frames of the ring, without pictures and empty frames,
  with sound only where it is recorded, follow in it in order, key frames marked.\<close>

theorem record_frames_delivered:
  assumes "msgq_ok q" and "sbuf_ok (sbuf (pvid st))"
    and "length (sbuf_items (sbuf (pvid st))) + length (concat (map (recorded (FAT_SDSAVE_AUD (menv st))) (msgq_items q)))
      \<le> sbuf_slots (sbuf (pvid st))" and "0 < sbuf_slots (sbuf (pvid st))"
  shows "\<exists>q' st'. IsrRecorddata q st = Some (q', st') \<and> msgq_ok q' \<and> msgq_items q' = [] \<and> (rec_step E)\<^sup>*\<^sup>* st st'
    \<and> sbuf_items (sbuf (pvid st')) = sbuf_items (sbuf (pvid st)) @
        concat (map (recorded (FAT_SDSAVE_AUD (menv st))) (msgq_items q))"
proof -
  obtain q' st' where "IsrRecorddata q st = Some (q', st')" "msgq_ok q'" "msgq_items q' = []"
    "takes st st' (concat (map (recorded (FAT_SDSAVE_AUD (menv st))) (msgq_items q)))"
    using IsrRecorddata_takes [OF assms(1-3)] by blast
  with IsrRecorddata_all [OF assms(1,2,4), of E] takes_sel(4) show ?thesis by auto
qed

theorem record_frames_delivered_witness:
  "\<exists>q' st'. IsrRecorddata ex_msgq (ex_start [ex_P] 30) = Some (q', st') \<and> msgq_items q' = []
    \<and> map (\<lambda>d. (addr d, flags d, type d)) (sbuf_items (sbuf (pvid st'))) =
        [(8192, 0, 4), (100, 1, 3), (200, 0, 4), (300, 1, 1)]"
proof -
  let ?st = "ex_start [ex_P] 30"
  have s: "sbuf (pvid ?st) = ex_queue [ex_P]" "\<not> FAT_SDSAVE_AUD (menv ?st)"
    by (simp_all add: ex_recorder_def Mp4Spec.ex_env_def)
  have l: "sbuf_slots (ex_queue [ex_P]) = 7" by (simp add: sbuf_defs ex_queue_def)
  have i: "concat (map (recorded False) (msgq_items ex_msgq)) =
      map (\<lambda>(a, f, t). \<lparr>addr = a, size = 100, flags = f, type = t\<rparr>) [(100, 1, 3), (200, 0, 4), (300, 1, 1)]"
    using ex_msgq by (simp add: recorded_def ex_info_def)
  have "length (sbuf_items (sbuf (pvid ?st))) + length (concat (map (recorded (FAT_SDSAVE_AUD (menv ?st))) (msgq_items ex_msgq)))
      \<le> sbuf_slots (sbuf (pvid ?st))" "0 < sbuf_slots (sbuf (pvid ?st))"
    using s l i ex_queue_P by simp_all
  from record_frames_delivered [OF conjunct1 [OF ex_msgq] _ this, of ex_muxer] s i ex_queue_P show ?thesis
    by (auto simp: ex_P_def)
qed


section \<open>Blocks of sound\<close>

definition rings_idle :: "'w camera \<Rightarrow> bool" where
  "rings_idle cam \<longleftrightarrow> msgq_ok (stm_q cam) \<and> msgq_items (stm_q cam) = [] \<and> 0 < msgq_slots (stm_q cam)
     \<and> msgq_ok (rec_q cam) \<and> msgq_items (rec_q cam) = [] \<and> 0 < msgq_slots (rec_q cam)"

abbreviation info_of :: "u32 \<Rightarrow> u32 \<Rightarrow> u32 \<Rightarrow> u32 \<Rightarrow> stream_info" where
  "info_of a n ts ty \<equiv> \<lparr>si_addr = a, si_size = n, si_type = ucast ty, si_ts = ucast ts\<rparr>"

lemma send_stream_idle:
  assumes "rings_idle cam"
  shows "\<exists>q. send_stream a n ts ty cam =
      Some (ENX_OK, cam\<lparr>stm_q := q, server := stream_frame (info_of a n ts ty) (server cam)\<rparr>)
    \<and> rings_idle (cam\<lparr>stm_q := q, server := stream_frame (info_of a n ts ty) (server cam)\<rparr>)"
proof -
  obtain q1 where q1: "MsgStmPut a n ts ty (stm_q cam) = (ENX_OK, q1)" "msgq_ok q1"
    "msgq_items q1 = [info_of a n ts ty]" "msgq_slots q1 = msgq_slots (stm_q cam)"
    using MsgStmPut_room [of "stm_q cam" a n ts ty] assms by (auto simp: rings_idle_def)
  from IsrStreamdata_all [OF q1(2), of "server cam"] q1 assms show ?thesis
    by (auto simp: send_stream_def rings_idle_def)
qed

lemma send_record_idle:
  assumes "rings_idle cam" "sbuf_ok (sbuf (pvid (videnc cam)))"
    and "length (sbuf_items (sbuf (pvid (videnc cam)))) +
      length (recorded (FAT_SDSAVE_AUD (menv (videnc cam))) (info_of a n ts ty)) \<le> sbuf_slots (sbuf (pvid (videnc cam)))"
  shows "\<exists>q st. send_record a n ts ty cam = Some (ENX_OK, cam\<lparr>rec_q := q, videnc := st\<rparr>)
    \<and> rings_idle (cam\<lparr>rec_q := q, videnc := st\<rparr>)
    \<and> takes (videnc cam) st (recorded (FAT_SDSAVE_AUD (menv (videnc cam))) (info_of a n ts ty))"
proof -
  obtain q1 where q1: "MsgStmPut a n ts ty (rec_q cam) = (ENX_OK, q1)" "msgq_ok q1"
    "msgq_items q1 = [info_of a n ts ty]" "msgq_slots q1 = msgq_slots (rec_q cam)"
    using MsgStmPut_room [of "rec_q cam" a n ts ty] assms(1) by (auto simp: rings_idle_def)
  from IsrRecorddata_takes [OF q1(2) assms(2)] q1 assms(3) obtain q' st' where r:
    "IsrRecorddata q1 (videnc cam) = Some (q', st')" "msgq_ok q'" "msgq_items q' = []" "msgq_slots q' = msgq_slots q1"
    "takes (videnc cam) st' (recorded (FAT_SDSAVE_AUD (menv (videnc cam))) (info_of a n ts ty))" by auto
  with q1 assms(1) show ?thesis
    by (intro exI [of _ q'] exI [of _ st']) (simp add: send_record_def rec_ring rings_idle_def)
qed

definition sound_block :: "u32 \<Rightarrow> stream_info" where
  "sound_block a = \<lparr>si_addr = a, si_size = 1260, si_type = 6, si_ts = 630\<rparr>"

definition blocks :: "u32 \<Rightarrow> nat \<Rightarrow> stream_info list" where
  "blocks a m = map (\<lambda>k. sound_block (a + of_nat (1260 * k))) [0..<m]"

lemma blocks_Suc: "blocks a (Suc m) = sound_block a # blocks (a + 1260) m"
  by (simp add: blocks_def upt_conv_Cons map_Suc_upt [symmetric] comp_def add.assoc del: upt_Suc)

lemma sound_block_addr [simp]: "si_addr (sound_block a) = a"
  by (simp add: sound_block_def)

lemma info_sound: "info_of a 1260 630 6 = sound_block a"
  by (simp add: sound_block_def)

lemma audrx_blocks:
  "unat n div 1260 = m \<Longrightarrow> rings_idle cam \<Longrightarrow> sbuf_ok (sbuf (pvid (videnc cam))) \<Longrightarrow>
   length (sbuf_items (sbuf (pvid (videnc cam)))) + m \<le> sbuf_slots (sbuf (pvid (videnc cam))) \<Longrightarrow>
   \<exists>n' cam'. audrx_queue_put n a cam = Some (n', a + of_nat (1260 * m), cam') \<and> unat n' = unat n mod 1260
     \<and> rings_idle cam' \<and> (\<forall>k. client_sees (blocks a m) (rclist (server cam) k) (rclist (server cam') k))
     \<and> takes (videnc cam) (videnc cam') (concat (map (recorded (FAT_SDSAVE_AUD (menv (videnc cam)))) (blocks a m)))"
proof (induction m arbitrary: n a cam)
  case 0
  then have "unat n < 1260" by (simp add: div_eq_0_iff)
  then show ?case
    using 0 takes_refl [OF 0(3)] by (simp add: audrx_queue_put.simps [of n] AUD_STM_SIZE_def word_le_nat_alt blocks_def)
next
  case (Suc m)
  let ?r = "recorded (FAT_SDSAVE_AUD (menv (videnc cam)))"
  have n: "1260 \<le> unat n" using Suc.prems(1) by (metis div_less not_less Zero_neq_Suc)
  then have u: "unat (n - 1260) = unat n - 1260" by (simp add: unat_sub word_le_nat_alt)
  have d: "unat (n - 1260) div 1260 = m" "unat (n - 1260) mod 1260 = unat n mod 1260"
    using Suc.prems(1) n by (simp_all add: u le_div_geq le_mod_geq)
  obtain cam1 where c1: "send_stream a 1260 630 6 cam = Some (ENX_OK, cam1)" "rings_idle cam1"
    "server cam1 = stream_frame (sound_block a) (server cam)" "videnc cam1 = videnc cam"
    using send_stream_idle [OF Suc.prems(2), where a = a and n = 1260 and ts = 630 and ty = 6] unfolding info_sound by auto
  have "length (?r (sound_block a)) \<le> 1" using recorded_length [of _ "sound_block a"] by (metis le0 length_0_conv length_Cons order_refl One_nat_def)
  with Suc.prems(4) have "length (sbuf_items (sbuf (pvid (videnc cam1)))) + length (?r (sound_block a))
      \<le> sbuf_slots (sbuf (pvid (videnc cam1)))" by (simp add: c1(4))
  with send_record_idle [OF c1(2), where a = a and n = 1260 and ts = 630 and ty = 6] Suc.prems(3) obtain cam2 where c2:
    "send_record a 1260 630 6 cam1 = Some (ENX_OK, cam2)" "rings_idle cam2" "server cam2 = server cam1"
    "takes (videnc cam) (videnc cam2) (?r (sound_block a))"
    unfolding info_sound by (auto simp: c1(4))
  note t = takes_sel [OF c2(4)]
  have "length (sbuf_items (sbuf (pvid (videnc cam2)))) + m \<le> sbuf_slots (sbuf (pvid (videnc cam2)))"
    using Suc.prems(4) \<open>length (?r (sound_block a)) \<le> 1\<close> by (simp add: t)
  from Suc.IH [OF d(1) c2(2) t(2) this, of "a + 1260"] obtain n' cam' where r:
    "audrx_queue_put (n - 1260) (a + 1260) cam2 = Some (n', a + 1260 + of_nat (1260 * m), cam')"
    "unat n' = unat n mod 1260" "rings_idle cam'"
    "\<And>k. client_sees (blocks (a + 1260) m) (rclist (server cam2) k) (rclist (server cam') k)"
    "takes (videnc cam2) (videnc cam') (concat (map ?r (blocks (a + 1260) m)))"
    by (auto simp: d(2) t(1))
  have "client_sees (blocks a (Suc m)) (rclist (server cam) k) (rclist (server cam') k)" for k
    using client_sees_append [OF put_frame_sees [of "sound_block a" "server cam" k] r(4) [of k, unfolded c2(3) c1(3)]]
    by (simp add: blocks_Suc)
  moreover have "takes (videnc cam) (videnc cam') (concat (map ?r (blocks a (Suc m))))"
    using takes_trans [OF c2(4) r(5)] by (simp add: blocks_Suc)
  moreover have "audrx_queue_put n a cam = Some (n', a + of_nat (1260 * Suc m), cam')"
  proof -
    have "1260 \<le> n" "drop_bit (Suc 0) (1260 :: u32) = 630" using n by (simp add: word_le_nat_alt, code_simp)
    with r(1) c1(1) c2(1) show ?thesis by (subst audrx_queue_put.simps) (simp add: AUD_STM_SIZE_def algebra_simps)
  qed
  ultimately show ?case using r(2,3) by blast
qed


text \<open>C32: Sound of \<open>n\<close> bytes at \<open>a\<close> is cut into \<open>n div 1260\<close> consecutive blocks of 1260 bytes; a client that
  plays sound has them in its queue, in order, and the recorder too if sound is recorded; what is
  returned is the rest, shorter than a block, with its address.\<close>

theorem sound_in_blocks:
  assumes "rings_idle cam" and "plays ENX_RTSP_STRTYPE_AUDIO (rclist (server cam) k)"
    and "rq_ok (rtp_queue_audio (rclist (server cam) k))"
    and "length (rq_items (rtp_queue_audio (rclist (server cam) k))) + unat n div 1260
      \<le> rq_slots (rtp_queue_audio (rclist (server cam) k))"
    and "FAT_SDSAVE_AUD (menv (videnc cam))" and "sbuf_ok (sbuf (pvid (videnc cam)))"
    and "length (sbuf_items (sbuf (pvid (videnc cam)))) + unat n div 1260 \<le> sbuf_slots (sbuf (pvid (videnc cam)))"
  shows "\<exists>n' cam'. audrx_queue_put n a cam = Some (n', a + of_nat (1260 * (unat n div 1260)), cam')
    \<and> unat n' = unat n mod 1260 \<and> rings_idle cam'
    \<and> map rq_addr (rq_items (rtp_queue_audio (rclist (server cam') k))) =
        map rq_addr (rq_items (rtp_queue_audio (rclist (server cam) k))) @
        map (\<lambda>j. a + of_nat (1260 * j)) [0..<unat n div 1260]
    \<and> map addr (sbuf_items (sbuf (pvid (videnc cam')))) =
        map addr (sbuf_items (sbuf (pvid (videnc cam)))) @
        map (\<lambda>j. ucast (a + of_nat (1260 * j))) [0..<unat n div 1260]"
proof -
  let ?m = "unat n div 1260"
  obtain n' cam' where r: "audrx_queue_put n a cam = Some (n', a + of_nat (1260 * ?m), cam')"
    "unat n' = unat n mod 1260" "rings_idle cam'"
    "client_sees (blocks a ?m) (rclist (server cam) k) (rclist (server cam') k)"
    "takes (videnc cam) (videnc cam') (concat (map (recorded True) (blocks a ?m)))"
    using audrx_blocks [OF refl assms(1,6,7), of a] assms(5) by auto
  have b: "sound_of (sound_block x) = [queue_entry 0 (sound_block x)]"
    "recorded True (sound_block x) = [\<lparr>addr = ucast x, size = 1260, flags = 0, type = 6\<rparr>]" for x
    by (simp_all add: sound_of_def sound_block_def recorded_def)
  have "concat (map sound_of (blocks a ?m)) = map (queue_entry 0) (blocks a ?m)"
    by (simp add: blocks_def b comp_def concat_map_singleton)
  moreover have "length (blocks a ?m) = ?m" by (simp add: blocks_def)
  ultimately have "rq_items (rtp_queue_audio (rclist (server cam') k)) =
      rq_items (rtp_queue_audio (rclist (server cam) k)) @ map (queue_entry 0) (blocks a ?m)"
    using r(4) assms(2,4) put_all_items [OF assms(3), of "map (queue_entry 0) (blocks a ?m)"]
    by (simp add: client_sees_def)
  moreover have "concat (map (recorded True) (blocks a ?m)) =
      map (\<lambda>i. \<lparr>addr = ucast (si_addr i), size = 1260, flags = 0, type = 6\<rparr>) (blocks a ?m)"
    by (simp add: blocks_def b comp_def concat_map_singleton)
  ultimately show ?thesis using r(1-3) takes_sel(4) [OF r(5)]
    by (simp add: blocks_def queue_entry_def sound_block_def comp_def)
qed

text \<open>A camera with a client that plays, whose recorder stores sound, and one that has just started.\<close>

definition ex_camera :: "rtsp_server \<Rightarrow> ramdisk camera" where
  "ex_camera s = \<lparr>stm_q = gptMsgStmInfo, rec_q = gptMsgRecInfo, server = s,
     videnc = (ex_start [] 30)\<lparr>menv := Mp4Spec.ex_env\<lparr>FAT_SDSAVE_AUD := True\<rparr>\<rparr>\<rparr>"

lemma ex_camera:
  "rings_idle (ex_camera s)" "sbuf_ok (sbuf (pvid (videnc (ex_camera s))))" "sbuf_items (sbuf (pvid (videnc (ex_camera s)))) = []"
  "sbuf_slots (sbuf (pvid (videnc (ex_camera s)))) = 7" "FAT_SDSAVE_AUD (menv (videnc (ex_camera s)))" "server (ex_camera s) = s"
  using msgq_init_ok [of 150] ex_queue_ok [of "[]"]
  by (simp_all add: ex_camera_def rings_idle_def gptMsgStmInfo_def gptMsgRecInfo_def MSG_STREAM_NUM_def MSG_RECORD_NUM_def
      ex_recorder_def sbuf_slots_def ex_queue_def)

theorem sound_in_blocks_witness:
  "\<exists>n' cam'. audrx_queue_put 2600 4096 (ex_camera ((rtsp_init 0)\<lparr>rclist := \<lambda>_. ex_watcher\<rparr>)) = Some (n', 6616, cam')
     \<and> unat n' = 80 \<and> map rq_addr (rq_items (rtp_queue_audio (rclist (server cam') 3))) = [4096, 5356]
     \<and> map addr (sbuf_items (sbuf (pvid (videnc cam')))) = [4096, 5356]"
proof -
  let ?s = "(rtsp_init 0)\<lparr>rclist := \<lambda>_. ex_watcher\<rparr>"
  have f: "rtp_queue_audio ex_watcher = fresh_queue 10" "rq_ok (fresh_queue 10)" "rq_items (fresh_queue 10) = []"
    "rq_slots (fresh_queue 10) = 9" "plays ENX_RTSP_STRTYPE_AUDIO ex_watcher"
    by (simp_all add: ex_watcher_def fresh_queue_def rtp_queue_init_def rtp_queue_freebuffer_def rq_defs ring_ok_iff ring_items_def
        ring_len_def plays_def ENX_RTSP_STRTYPE_AUDIO_def)
  have m: "unat (2600 :: u32) div 1260 = 2" "unat (2600 :: u32) mod 1260 = 80" "[0..<2] = [0, 1]" by (simp_all add: upt_rec)
  from sound_in_blocks [of "ex_camera ?s" 3 2600 4096] ex_camera [of ?s] f m show ?thesis by auto
qed

section \<open>The camera\<close>

text \<open>
  What happens in the camera: the video timer and the sound, pictures that another core puts into the
  stream ring and the interrupt it causes, the clients and the tasks of the RTSP server, the recorder.
\<close>

inductive camera_step :: "'w muxer_env \<Rightarrow> 'w camera \<Rightarrow> 'w camera \<Rightarrow> bool" for E where
  cam_video: "testVideoTimer_irq v (i, j, cam) = Some (i', j', cam') \<Longrightarrow> camera_step E cam cam'"
| cam_sound: "audrx_queue_put n a cam = Some (n', a', cam') \<Longrightarrow> camera_step E cam cam'"
| cam_jpeg: "camera_step E cam (cam\<lparr>stm_q := snd (MsgStmPut a n ts (av_code eSTREAMMSG_JPEG) (stm_q cam))\<rparr>)"
| cam_swirq: "IsrStreamdata (stm_q cam) (server cam) = Some (q, s) \<Longrightarrow> camera_step E cam (cam\<lparr>stm_q := q, server := s\<rparr>)"
| cam_server: "rtsp_step (server cam) s \<Longrightarrow> camera_step E cam (cam\<lparr>server := s\<rparr>)"
| cam_recorder: "rec_step E (videnc cam) st \<Longrightarrow> camera_step E cam (cam\<lparr>videnc := st\<rparr>)"

text \<open>The invariants of the parts, and that the record ring is empty between the steps. They are kept by
  every step; the properties of the whole, with the card task, are in \<open>Camera\<close>.\<close>

definition camera_ok :: "('w \<Rightarrow> bool) \<Rightarrow> 'w camera \<Rightarrow> bool" where
  "camera_ok C cam \<longleftrightarrow> msgq_ok (stm_q cam) \<and> msgq_ok (rec_q cam) \<and> msgq_items (rec_q cam) = [] \<and> 0 < msgq_slots (rec_q cam)
     \<and> server_ok (server cam) \<and> machine_ok C (videnc cam)"

lemma machine_queue: "machine_ok C st \<Longrightarrow> sbuf_ok (sbuf (pvid st)) \<and> 0 < sbuf_slots (sbuf (pvid st))"
  by (auto simp: machine_ok_def queues_def queues_ok_def)

lemma rec_steps_machine:
  "(rec_step E)\<^sup>*\<^sup>* st st' \<Longrightarrow> handle_ok E C \<Longrightarrow> machine_ok C st \<Longrightarrow> machine_ok C st'"
  by (induction rule: rtranclp_induct) (auto dest: rec_step_machine)

lemma send_stream_ok: "send_stream a n ts ty cam = Some (r, cam') \<Longrightarrow> camera_ok C cam \<Longrightarrow> camera_ok C cam'"
proof -
  assume s: "send_stream a n ts ty cam = Some (r, cam')" and ok: "camera_ok C cam"
  obtain q where q: "MsgStmPut a n ts ty (stm_q cam) = (r, q)" using s by (auto simp: send_stream_def split: prod.splits if_splits option.splits)
  then have "msgq_ok q" using ok MsgStmPut_ok [OF _ q] by (simp add: camera_ok_def)
  from IsrStreamdata_all [OF this, of "server cam"] s ok q steps_ok [OF fold_steps]
  show "camera_ok C cam'" by (auto simp: send_stream_def camera_ok_def split: if_splits)
qed

lemma send_record_ok:
  assumes "send_record a n ts ty cam = Some (r, cam')" "camera_ok C cam" "handle_ok E C"
  shows "camera_ok C cam'"
proof -
  obtain q where q: "MsgStmPut a n ts ty (rec_q cam) = (ENX_OK, q)" "msgq_ok q" "msgq_slots q = msgq_slots (rec_q cam)"
    using assms(2) MsgStmPut_room [of "rec_q cam" a n ts ty] by (auto simp: camera_ok_def)
  have "machine_ok C (videnc cam)" using assms(2) by (simp add: camera_ok_def)
  with IsrRecorddata_all [OF q(2), of "videnc cam" E] obtain q' st' where r:
    "IsrRecorddata q (videnc cam) = Some (q', st')" "msgq_ok q'" "msgq_items q' = []" "msgq_slots q' = msgq_slots q"
    "machine_ok C st'"
    using machine_queue rec_steps_machine [OF _ assms(3)] by metis
  with q assms(1,2) show ?thesis by (auto simp: send_record_def rec_ring camera_ok_def)
qed

lemma audrx_ok:
  "audrx_queue_put n a cam = Some (n', a', cam') \<Longrightarrow> camera_ok C cam \<Longrightarrow> handle_ok E C \<Longrightarrow> camera_ok C cam'"
proof (induction n a cam arbitrary: n' a' cam' rule: audrx_queue_put.induct)
  case (1 n a cam)
  show ?case
  proof (cases "AUD_STM_SIZE \<le> n")
    case True
    let ?ts = "drop_bit 1 AUD_STM_SIZE"
    from 1(2) True obtain r1 cam1 r2 cam2 where c:
      "send_stream a AUD_STM_SIZE ?ts (av_code eSTREAMMSG_AUDIO) cam = Some (r1, cam1)"
      "send_record a AUD_STM_SIZE ?ts (av_code eSTREAMMSG_AUDIO) cam1 = Some (r2, cam2)"
      "audrx_queue_put (n - AUD_STM_SIZE) (a + AUD_STM_SIZE) cam2 = Some (n', a', cam')"
      by (subst (asm) audrx_queue_put.simps) (auto simp: Let_def split: option.splits)
    from send_record_ok [OF c(2) send_stream_ok [OF c(1) 1(3)] 1(4)] have "camera_ok C cam2" .
    from 1(1) [OF True refl c(1) refl c(2) refl c(3) this 1(4)] show ?thesis .
  next
    case False
    with 1(2,3) show ?thesis by (subst (asm) audrx_queue_put.simps) simp
  qed
qed

lemma video_timer_ok:
  assumes "testVideoTimer_irq v (i, j, cam) = Some (i', j', cam')" "camera_ok C cam" "handle_ok E C"
  shows "camera_ok C cam'"
proof -
  from assms(1) obtain r1 cam1 r2 where c:
    "send_stream (si_addr (v ! i)) (si_size (v ! i)) (ucast (si_ts (v ! i))) (ucast (si_type (v ! i))) cam = Some (r1, cam1)"
    "send_record (si_addr (v ! j)) (si_size (v ! j)) (ucast (si_ts (v ! j))) (ucast (si_type (v ! j))) cam1 = Some (r2, cam')"
    by (auto simp: testVideoTimer_irq_def Let_def split: option.splits)
  from send_record_ok [OF c(2) send_stream_ok [OF c(1) assms(2)] assms(3)] show ?thesis .
qed

lemma camera_step_ok:
  assumes "camera_step E cam cam'" "camera_ok C cam" "handle_ok E C"
  shows "camera_ok C cam'"
  using assms(1)
proof cases
  case cam_video
  then show ?thesis using video_timer_ok assms(2,3) by blast
next
  case cam_sound
  then show ?thesis using audrx_ok assms(2,3) by blast
next
  case (cam_jpeg a n ts)
  obtain r q where "MsgStmPut a n ts (av_code eSTREAMMSG_JPEG) (stm_q cam) = (r, q)" by fastforce
  with cam_jpeg MsgStmPut_ok [OF _ this] assms(2) show ?thesis by (simp add: camera_ok_def)
next
  case (cam_swirq q s)
  with IsrStreamdata_all [of "stm_q cam" "server cam"] assms(2) steps_ok [OF fold_steps] show ?thesis
    by (auto simp: camera_ok_def)
next
  case (cam_server s)
  with step_ok assms(2) show ?thesis by (auto simp: camera_ok_def)
next
  case (cam_recorder st)
  with rec_step_machine [OF _ assms(3)] assms(2) show ?thesis by (auto simp: camera_ok_def)
qed

end
