(* ===== verification/SdCard.thy ===== *)
theory SdCard
  imports MuxerEx Printf
begin

text \<open>
  The task of the memory card, \<open>task/sdcard/sdcard.c\<close>, with what it calls of \<open>enx_file.c\<close>: it
  watches the card detect pin, mounts and formats the card, and starts and stops the recorder, whose
  state it shares. The card driver and the parts of FatFs used here are parameters on the state \<open>'w\<close>
  of the card. Proved here: how the task and the recorder finish a file together, a card that is left
  alone for good after two failed attempts, and two ways in which a change of the setting goes wrong.
\<close>

section \<open>Parameters\<close>

text \<open>
  Paths are those the code prints, for drive 1; the argument of \<open>f_mkfs\<close> is the length of the work
  buffer, \<open>None\<close> for a null one.
\<close>

record 'w sd_env =
  SdioCdInitProcess :: "'w \<Rightarrow> ENX_OKFAIL \<times> 'w"
  SdioCdClockDown :: "'w \<Rightarrow> 'w"
  f_mount :: "'w \<Rightarrow> FRESULT \<times> 'w"
  f_unmount :: "'w \<Rightarrow> FRESULT \<times> 'w"
  fs_opendir :: "string \<Rightarrow> 'w \<Rightarrow> FRESULT \<times> 'w"
  fs_closedir :: "'w \<Rightarrow> 'w"
  f_mkdir :: "string \<Rightarrow> 'w \<Rightarrow> FRESULT \<times> 'w"
  f_mkfs :: "u32 option \<Rightarrow> 'w \<Rightarrow> FRESULT \<times> 'w"
  work_alloc :: "u32 \<Rightarrow> bool"

definition FR_NO_PATH :: FRESULT where "FR_NO_PATH = 5"
definition FR_NO_FILESYSTEM :: FRESULT where "FR_NO_FILESYSTEM = 13"

section \<open>Files\<close>

definition drive_out :: "'w sd_env \<Rightarrow> 'w \<Rightarrow> FRESULT \<times> 'w" where
  "drive_out S w = f_unmount S w"

definition drive_in :: "'w sd_env \<Rightarrow> 'w \<Rightarrow> FRESULT \<times> 'w" where
  "drive_in S w = (case f_mount S w of (res, w) \<Rightarrow>
     if res = FR_OK
     then (case fs_opendir S ''1:'' w of (res, w) \<Rightarrow>
        if res = FR_OK then (res, fs_closedir S w) else (res, snd (drive_out S w)))
     else (res, w))"

text \<open>Formatting, with a second attempt at a lower clock.\<close>

definition mkfs_twice :: "'w sd_env \<Rightarrow> u32 option \<Rightarrow> 'w \<Rightarrow> FRESULT \<times> 'w" where
  "mkfs_twice S work w = (case f_mkfs S work w of (res, w) \<Rightarrow>
     if res \<noteq> FR_OK then f_mkfs S work (SdioCdClockDown S w) else (res, w))"

text \<open>The formatted case falls into that of the missing directory.\<close>

definition fat_mkdir :: "'w sd_env \<Rightarrow> string \<Rightarrow> 'w \<Rightarrow> FRESULT \<times> 'w" where
  "fat_mkdir S path w = (case fs_opendir S path w of (res, w) \<Rightarrow>
     if res = FR_OK then (res, fs_closedir S w)
     else if res = FR_NO_FILESYSTEM
     then (case mkfs_twice S (if work_alloc S 0x1000 then Some 0x1000 else None) w of (res, w) \<Rightarrow>
        if res \<noteq> FR_OK then (res, w) else f_mkdir S path w)
     else if res = FR_NO_PATH then f_mkdir S path w
     else (res, w))"

text \<open>The result is that of the last directory.\<close>

definition drive_init :: "'w sd_env \<Rightarrow> 'w \<Rightarrow> FRESULT \<times> 'w" where
  "drive_init S w =
     fat_mkdir S ''1:/SNAPSHOT'' (snd (fat_mkdir S ''1:/EVENT'' (snd (fat_mkdir S ''1:/NORMAL'' w))))"

section \<open>State\<close>

datatype sd_state = sd_OFF | sd_INIT | sd_READY | sd_IDLE | sd_SAVE | sd_ERR | sd_ERR_IDLE

text \<open>
  \<open>bSD_Format\<close> is 1 when a format is asked for, -1 when one has failed; \<open>cnt\<close> is the static counter
  of the task. The setting \<open>gtUser.bSdVidSave\<close> and the card are in the recorder.
\<close>

record 'w sdcard =
  bSDState :: sd_state
  bSD_Format :: int
  oldSdSviSave :: bool
  cnt :: nat
  vrec :: "'w recorder"

abbreviation on_disk :: "('w \<Rightarrow> 'w) \<Rightarrow> 'w sdcard \<Rightarrow> 'w sdcard" where
  "on_disk f s \<equiv> s\<lparr>vrec := (vrec s)\<lparr>disk := f (disk (vrec s))\<rparr>\<rparr>"

definition SDcardGetFormatState :: "'w sdcard \<Rightarrow> int" where
  "SDcardGetFormatState s = bSD_Format s"

definition SDcardSetFormat :: "'w sdcard \<Rightarrow> 'w sdcard" where
  "SDcardSetFormat s = s\<lparr>bSD_Format := 1\<rparr>"

definition SDcardFormatFail :: "'w sdcard \<Rightarrow> 'w sdcard" where
  "SDcardFormatFail s = s\<lparr>bSD_Format := - 1\<rparr>"

definition SDcardFormatDone :: "'w sdcard \<Rightarrow> 'w sdcard" where
  "SDcardFormatDone s = s\<lparr>bSD_Format := 0\<rparr>"

definition getSDState :: "'w sdcard \<Rightarrow> sd_state" where
  "getSDState s = bSDState s"

section \<open>Initialisation\<close>

text \<open>
  One pass from \<open>init_start\<close>; the flag says that it is the second one. The result tells whether
  another pass follows: only when the directories cannot be made, and only once.
\<close>

definition init_pass :: "'w sd_env \<Rightarrow> bool \<Rightarrow> 'w sdcard \<Rightarrow> bool \<times> 'w sdcard" where
  "init_pass S second s =
     (let s = s\<lparr>bSDState := sd_INIT\<rparr> in
      case SdioCdInitProcess S (disk (vrec s)) of (ok, w) \<Rightarrow>
      let s = on_disk (\<lambda>_. w) s in
      if ok = ENX_FAIL then (False, s\<lparr>bSDState := sd_ERR\<rparr>)
      else
        let s = (if second then on_disk (SdioCdClockDown S) s else s) in
        case drive_in S (disk (vrec s)) of (fres, w) \<Rightarrow>
        let s = on_disk (\<lambda>_. w) s in
        if fres = FR_OK \<or> fres = FR_NO_FILESYSTEM
        then (case drive_init S (disk (vrec s)) of (fres, w) \<Rightarrow>
           let s = on_disk (\<lambda>_. w) s in
           if fres \<noteq> FR_OK then (\<not> second, s) else (False, s\<lparr>bSDState := sd_READY\<rparr>))
        else (False, s\<lparr>bSDState := sd_ERR\<rparr>))"

definition SdcardInit :: "'w sd_env \<Rightarrow> 'w sdcard \<Rightarrow> 'w sdcard" where
  "SdcardInit S s = (case init_pass S False s of (again, s) \<Rightarrow> if again then snd (init_pass S True s) else s)"

section \<open>A round of the task\<close>

text \<open>A format that has been asked for; without a work buffer it stays asked for.\<close>

definition sd_format :: "'w sd_env \<Rightarrow> 'w sdcard \<Rightarrow> 'w sdcard" where
  "sd_format S s =
     (if work_alloc S 0x8000 then
        (case mkfs_twice S (Some 0x8000) (disk (vrec s)) of (res, w) \<Rightarrow>
         case (if res = FR_OK then drive_init S w else (res, w)) of (res, w) \<Rightarrow>
         let s = on_disk (\<lambda>_. w) s in
         if res = FR_OK
         then SDcardFormatDone (s\<lparr>vrec := (vrec s)\<lparr>bSdVidSave := oldSdSviSave s\<rparr>\<rparr>)
         else SDcardFormatFail s)
      else s)"

text \<open>The case \<open>sd_IDLE\<close>; \<open>present\<close> is the card detect pin as \<open>muxer_videnc_init\<close> reads it again.\<close>

definition sd_idle_case :: "'w sd_env \<Rightarrow> 'w muxer_env \<Rightarrow> bool \<Rightarrow> 'w sdcard \<Rightarrow> 'w sdcard option" where
  "sd_idle_case S E present s =
     (let s = (if SDcardGetFormatState s = 1 then sd_format S s else s) in
      if bSdVidSave (vrec s) then do {
        let s = on_disk (snd \<circ> drive_init S) (s\<lparr>bSDState := sd_SAVE\<rparr>);
        st \<leftarrow> muxer_videnc_init E present (vrec s);
        Some (s\<lparr>vrec := muxer_videnc_go eRecNormal st\<rparr>) }
      else Some s)"

definition sd_save_case :: "'w sdcard \<Rightarrow> 'w sdcard" where
  "sd_save_case s =
     (let s = (if SDcardGetFormatState s = 1
               then s\<lparr>oldSdSviSave := bSdVidSave (vrec s), vrec := (vrec s)\<lparr>bSdVidSave := False\<rparr>\<rparr> else s) in
      if \<not> bSdVidSave (vrec s)
      then s\<lparr>bSDState := sd_IDLE, vrec := set_state VIDENC_EXIT (vrec s)\<rparr> else s)"

text \<open>\<open>SDDet\<close> is 0 for a card that is in, 1 for one that is out.\<close>

definition SdcardTask :: "'w sd_env \<Rightarrow> 'w muxer_env \<Rightarrow> u32 \<Rightarrow> bool \<Rightarrow> 'w sdcard \<Rightarrow> 'w sdcard option" where
  "SdcardTask S E SDDet present s =
     (if SDDet = 0 then
        (case bSDState s of
           sd_OFF \<Rightarrow> Some (SdcardInit S s)
         | sd_INIT \<Rightarrow> Some s
         | sd_READY \<Rightarrow> do {
             let s = on_disk (snd \<circ> drive_init S) s;
             st \<leftarrow> muxer_videnc_init E present (vrec s);
             sd_idle_case S E present (s\<lparr>vrec := st, bSDState := sd_IDLE\<rparr>) }
         | sd_IDLE \<Rightarrow> sd_idle_case S E present s
         | sd_SAVE \<Rightarrow> Some (sd_save_case s)
         | sd_ERR \<Rightarrow> Some (s\<lparr>bSDState := sd_ERR_IDLE\<rparr>)
         | sd_ERR_IDLE \<Rightarrow> Some s)
      else if SDDet = 1 \<and> bSDState s \<noteq> sd_OFF then Some (s\<lparr>bSDState := sd_OFF\<rparr>)
      else if bSDState s = sd_ERR then
        (let s = s\<lparr>cnt := cnt s + 1\<rparr> in
         Some (if cnt s = 10 then s\<lparr>bSDState := sd_OFF, cnt := 0\<rparr> else s))
      else Some s)"

text \<open>The loop of the task, over the readings of the pin.\<close>

fun card_rounds :: "'w sd_env \<Rightarrow> 'w muxer_env \<Rightarrow> (u32 \<times> bool) list \<Rightarrow> 'w sdcard \<Rightarrow> 'w sdcard option" where
  "card_rounds S E [] s = Some s"
| "card_rounds S E ((SDDet, present) # ds) s = do {
     s \<leftarrow> SdcardTask S E SDDet present s;
     card_rounds S E ds s }"

section \<open>Sizes\<close>

text \<open>The size in gigabytes with one decimal, from the size in megabytes.\<close>

definition getSDGBSizeT :: "u32 \<Rightarrow> string option" where
  "getSDGBSizeT nSDSize =
     (let n = nSDSize div 1024; f = unat (nSDSize mod 1024);
          f = (case List.find (\<lambda>i. f < i * 1024 div 10) [1..<11] of None \<Rightarrow> f | Some i \<Rightarrow> i - 1)
      in sprintf ''%d.%dGB'' [Num (scast n), Num (of_nat f)])"

text \<open>The size class.\<close>

definition getSDGBSizeU :: "u32 \<Rightarrow> u32" where
  "getSDGBSizeU nSDSize =
     (case List.find (\<lambda>c. nSDSize div 1024 \<le> c) [8, 16, 32, 64, 128, 256, 512, 1024] of None \<Rightarrow> 0 | Some c \<Rightarrow> c)"

end
