(* ===== verification/SdCardProps.thy ===== *)
theory SdCardProps
  imports SdCard
begin

text \<open>
  What the card task does together with the recorder: starting and finishing a recording, and what
  goes wrong when a card cannot be prepared, when a format follows a change of the setting, and when
  saving is switched off and on again before the recorder has had a round.
\<close>

section \<open>Initialising the recorder\<close>

lemma list_dir_inv:
  assumes "list_dir F e w = Some (e', w')" "P w"
    and "\<And>w. P w \<Longrightarrow> P (snd (snd (f_readdir F w)))" "\<And>p w. P w \<Longrightarrow> P (snd (f_unlink F p w))"
  shows "P w' \<and> (\<exists>h. e' = e\<lparr>filenamelist := h\<rparr>)"
proof -
  have entry: "P w2 \<and> (\<exists>h. e1 = e\<lparr>filenamelist := h\<rparr>)" if "list_entry F fi e w1 = (e1, w2)" "P w1" for fi e w1 e1 w2
  proof -
    have "\<exists>h. e = e\<lparr>filenamelist := h\<rparr>" by (intro exI [of _ "filenamelist e"]) simp
    with that assms(4) show ?thesis by (auto simp: list_entry_def split: if_splits prod.splits option.splits)
  qed
  have "F' = F \<longrightarrow> P w \<longrightarrow> P (snd r) \<and> (\<exists>h. fst r = e\<lparr>filenamelist := h\<rparr>)" if "list_dir F' e w = Some r" for F' r
  proof (rule list_dir.raw_induct [of "\<lambda>F' e w r. F' = F \<longrightarrow> P w \<longrightarrow> P (snd r) \<and> (\<exists>h. fst r = e\<lparr>filenamelist := h\<rparr>)", OF _ that], goal_cases)
    case (1 loop F' e w r)
    show ?case
    proof (intro impI)
      assume F: "F' = F" and w: "P w"
      obtain x fi w1 where rd: "f_readdir F' w = (x, fi, w1)" by (metis prod_cases3)
      have w1: "P w1" using assms(3) [OF w] rd F by simp
      obtain e1 w2 where le: "list_entry F' fi e w1 = (e1, w2)" by (metis surj_pair)
      from entry [OF le [unfolded F] w1] obtain h where h: "P w2" "e1 = e\<lparr>filenamelist := h\<rparr>" by blast
      have "\<exists>h. e = e\<lparr>filenamelist := h\<rparr>" by (intro exI [of _ "filenamelist e"]) simp
      with 1(1) [of F' e1 w2 r] 1(2) rd le h w1 F show "P (snd r) \<and> (\<exists>h. fst r = e\<lparr>filenamelist := h\<rparr>)"
        by (auto split: if_splits)
    qed
  qed
  from this [OF assms(1)] assms(2) show ?thesis by simp
qed

text \<open>The recorder is idle, its file handle is as it was, the settings are kept.\<close>

lemma init_keeps:
  assumes "muxer_videnc_init E True st = Some st'" "P (disk st)"
    and "\<And>w. P w \<Longrightarrow> P (snd (snd (f_readdir (fs E) w)))" "\<And>p w. P w \<Longrightarrow> P (snd (f_unlink (fs E) p w))"
    and "\<And>p w. P w \<Longrightarrow> P (f_opendir (fs E) p w)" "\<And>w. P w \<Longrightarrow> P (f_closedir (fs E) w)"
  shows "vstate (pvid st') = VIDENC_IDLE" "P (disk st')" "bSD_FAT_mounted st'" "bSdVidSave st' = bSdVidSave st"
    "sbuf (pvid st') = sbuf (pvid st)"
proof -
  let ?v = "fst (videnc_info_default (pvid st) (tbuf st))"
  let ?e = "?v\<lparr>filenamelist := encHeap_resetQueue (filenamelist ?v)\<rparr>"
  obtain e w where l: "list_dir (fs E) ?e (f_opendir (fs E) (dir_name ?v) (disk st)) = Some (e, w)"
    and st': "st' = (snd (change_savetime_start E (st\<lparr>pvid := e, tbuf := snd (videnc_info_default (pvid st) (tbuf st)),
        disk := f_closedir (fs E) w\<rparr>)))\<lparr>bSD_FAT_mounted := True\<rparr>"
    using assms(1)
    by (auto simp: muxer_videnc_init_def videnc_info_init_filenamelist_def change_savetime_start
        videnc_info_default_def Let_def Option.bind_eq_Some_conv split: option.splits prod.splits)
  let ?s = "st\<lparr>pvid := e, tbuf := snd (videnc_info_default (pvid st) (tbuf st)), disk := f_closedir (fs E) w\<rparr>"
  obtain f s where s: "change_savetime_start E ?s = (f, s)" by fastforce
  note F = savetime_start_fields [OF s]
  have "P w \<and> (\<exists>h. e = ?e\<lparr>filenamelist := h\<rparr>)"
    using list_dir_inv [where P = P, OF l] assms(2-5) by blast
  then obtain h where h: "P w" "e = ?e\<lparr>filenamelist := h\<rparr>" by blast
  have sb: "sbuf e = sbuf (pvid st)" "vstate e = VIDENC_IDLE" by (simp_all add: h(2) videnc_info_default_def)
  show "vstate (pvid st') = VIDENC_IDLE" "bSD_FAT_mounted st'" using F(2) s sb by (simp_all add: st')
  show "P (disk st')" using F(3) s assms(6) [OF h(1)] by (simp add: st')
  show "bSdVidSave st' = bSdVidSave st" "sbuf (pvid st') = sbuf (pvid st)" using F(14) s sb by (simp_all add: st' user_def)
qed


text \<open>Reading the directory ends when each entry that is read leaves fewer of them.\<close>

definition dir_ends :: "'w fatfs \<Rightarrow> ('w \<Rightarrow> nat) \<Rightarrow> bool" where
  "dir_ends F m \<longleftrightarrow> (\<forall>w x fi w'. f_readdir F w = (x, fi, w') \<longrightarrow> x = FR_OK \<and> fname fi \<noteq> [] \<longrightarrow> m w' < m w)
     \<and> (\<forall>p w. m (snd (f_unlink F p w)) \<le> m w)"

lemma list_dir_returns:
  assumes "dir_ends F m"
  shows "\<exists>r. list_dir F e w = Some r"
proof (induction "m w" arbitrary: e w rule: less_induct)
  case less
  obtain x fi w1 where rd: "f_readdir F w = (x, fi, w1)" by (metis prod_cases3)
  obtain e1 w2 where le: "list_entry F fi e w1 = (e1, w2)" by (metis surj_pair)
  show ?case
  proof (cases "x = FR_OK \<and> fname fi \<noteq> []")
    case True
    have un: "m (snd (f_unlink F p w1)) \<le> m w1" for p using assms by (simp add: dir_ends_def)
    have "m w2 \<le> m w1" using un le by (auto simp: list_entry_def split: if_splits prod.splits)
    also have "m w1 < m w" using assms rd True by (simp add: dir_ends_def)
    finally show ?thesis using less [of w2 e1] rd le True by (subst list_dir.simps) simp
  qed (use rd in \<open>subst list_dir.simps, auto\<close>)
qed

lemma init_returns: "dir_ends (fs E) m \<Longrightarrow> \<exists>st'. muxer_videnc_init E True st = Some st'"
  using list_dir_returns [where F = "fs E" and m = m]
  by (fastforce simp: muxer_videnc_init_def videnc_info_init_filenamelist_def change_savetime_start
      videnc_info_default_def Let_def split: option.splits prod.splits)

section \<open>Stopping\<close>

text \<open>C34: When the user turns saving off, or asks for a format, while a file is being written, the
  next round of the card task tells the recorder, whose next round closes the file. The file holds
  every sample taken so far, the recorder is idle, and the card task waits in \<open>sd_IDLE\<close>, with a format
  still asked for, for it to be carried out.\<close>

theorem sd_stop_closes_file:
  assumes "bSDState s = sd_SAVE" and "bSD_Format s = 1 \<or> \<not> bSdVidSave (vrec s)"
    and "recording_ok E D P hdr xs (vrec s)" and "header_fits (vrec s) xs" and "bSD_FAT_mounted (vrec s)"
    and "recording (pvid (vrec s)) \<noteq> 0" and "snap_recording (vrec s) \<noteq> 1"
    and "sbuf_ok (sbuf (pvid (vrec s)))" and "sbuf_items (sbuf (pvid (vrec s))) \<noteq> []"
  shows "\<exists>s' st. SdcardTask S E 0 p s = Some s' \<and> bSDState s' = sd_IDLE \<and> bSD_Format s' = bSD_Format s
    \<and> vstate (pvid (vrec s')) = VIDENC_EXIT \<and> \<not> bSdVidSave (vrec s')
    \<and> muxer_videnc_task E (vrec s') = Some st \<and> vstate (pvid st) = VIDENC_IDLE \<and> recording (pvid st) = 0
    \<and> sbuf (pvid st) = sbuf (pvid (vrec s)) \<and> file_of xs (Vstbl (tbuf st)) (D (disk st))"
proof -
  let ?st = "(vrec s)\<lparr>bSdVidSave := False\<rparr>"
  obtain s' where s': "SdcardTask S E 0 p s = Some s'" "bSDState s' = sd_IDLE" "bSD_Format s' = bSD_Format s"
    "vrec s' = set_state VIDENC_EXIT ?st"
    using assms(1,2) by (fastforce simp: SdcardTask_def sd_save_case_def SDcardGetFormatState_def)
  have r: "recording_ok E D P hdr xs ?st" using assms(3) by (simp add: recording_ok_cong [of ?st "vrec s"])
  have h: "header_fits ?st xs" using assms(4) by (simp add: header_fits_def)
  from exit_round_closes [OF r h] assms(5-9) obtain st where
    "muxer_videnc_task E (set_state VIDENC_EXIT ?st) = Some st" "vstate (pvid st) = VIDENC_IDLE"
    "recording (pvid st) = 0" "sbuf (pvid st) = sbuf (pvid (vrec s))" "file_of xs (Vstbl (tbuf st)) (D (disk st))"
    by auto
  with s' show ?thesis by auto
qed

section \<open>A card that cannot be prepared\<close>

text \<open>When the directories cannot be made, the second attempt included, the card is left in
  \<open>sd_INIT\<close>: every later round of the task leaves all as it is while the card stays in, and the retry
  for \<open>sd_ERR\<close> does not apply; taking the card out is the only way on.\<close>

lemma card_init_lockout:
  assumes "bSDState s = sd_OFF" and "\<And>w. fst (SdioCdInitProcess S w) = ENX_OK"
    and "\<And>w. fst (drive_in S w) = FR_OK" and "\<And>w. fst (drive_init S w) \<noteq> FR_OK"
  shows "\<exists>s'. SdcardTask S E 0 p s = Some s' \<and> bSDState s' = sd_INIT \<and> vrec s' = (vrec s)\<lparr>disk := disk (vrec s')\<rparr>
    \<and> card_rounds S E (replicate n (0, p)) s' = Some s'
    \<and> SdcardTask S E 1 p s' = Some (s'\<lparr>bSDState := sd_OFF\<rparr>)"
proof -
  have pass: "\<exists>w. init_pass S b s = (\<not> b, s\<lparr>bSDState := sd_INIT, vrec := (vrec s)\<lparr>disk := w\<rparr>\<rparr>)" for b s
  proof -
    obtain w1 where w1: "SdioCdInitProcess S (disk (vrec s)) = (ENX_OK, w1)"
      using assms(2) [of "disk (vrec s)"] by (metis surjective_pairing)
    let ?w = "if b then SdioCdClockDown S w1 else w1"
    obtain w2 where w2: "drive_in S ?w = (FR_OK, w2)" using assms(3) [of ?w] by (metis surjective_pairing)
    obtain x w3 where w3: "drive_init S w2 = (x, w3)" "x \<noteq> FR_OK"
      using assms(4) [of w2] by (metis surjective_pairing)
    show ?thesis using w1 w2 w3 by (intro exI [of _ w3]) (simp add: init_pass_def Let_def split: if_splits)
  qed
  obtain w1 where w1: "init_pass S False s = (True, s\<lparr>bSDState := sd_INIT, vrec := (vrec s)\<lparr>disk := w1\<rparr>\<rparr>)"
    using pass [of False s] by auto
  obtain w2 where "SdcardInit S s = s\<lparr>bSDState := sd_INIT, vrec := (vrec s)\<lparr>disk := w2\<rparr>\<rparr>"
    using pass [of True "s\<lparr>bSDState := sd_INIT, vrec := (vrec s)\<lparr>disk := w1\<rparr>\<rparr>"] by (auto simp: SdcardInit_def w1)
  then obtain s' where s': "SdcardTask S E 0 p s = Some s'" "bSDState s' = sd_INIT" "vrec s' = (vrec s)\<lparr>disk := disk (vrec s')\<rparr>"
    using assms(1) by (simp add: SdcardTask_def)
  have "card_rounds S E (replicate n (0, p)) s' = Some s'"
    by (induction n) (simp_all add: SdcardTask_def s'(2))
  with s' show ?thesis by (intro exI [of _ s']) (simp add: SdcardTask_def)
qed

section \<open>Starting\<close>

text \<open>What the card task leaves of the file system alone: \<open>I\<close> is kept by whatever it and the
  initialisation of the recorder do with directories.\<close>

definition dirs_keep :: "'w sd_env \<Rightarrow> 'w muxer_env \<Rightarrow> ('w \<Rightarrow> bool) \<Rightarrow> bool" where
  "dirs_keep S E I \<longleftrightarrow> (\<forall>w. I w \<longrightarrow> I (snd (drive_init S w)))
     \<and> (\<forall>w. I w \<longrightarrow> I (snd (snd (f_readdir (fs E) w)))) \<and> (\<forall>p w. I w \<longrightarrow> I (snd (f_unlink (fs E) p w)))
     \<and> (\<forall>p w. I w \<longrightarrow> I (f_opendir (fs E) p w)) \<and> (\<forall>w. I w \<longrightarrow> I (f_closedir (fs E) w))"

lemma sd_idle_starts:
  assumes "dirs_keep S E I" and "dir_ends (fs E) m"
    and "bSD_Format s \<noteq> 1" and "bSdVidSave (vrec s)" and "I (disk (vrec s))"
  shows "\<exists>s'. sd_idle_case S E True s = Some s' \<and> bSDState s' = sd_SAVE \<and> vstate (pvid (vrec s')) = VIDENC_IDLE
    \<and> recording (pvid (vrec s')) = 1 \<and> bSD_FAT_mounted (vrec s') \<and> I (disk (vrec s'))
    \<and> sbuf (pvid (vrec s')) = sbuf (pvid (vrec s))"
proof -
  let ?st = "(vrec s)\<lparr>disk := snd (drive_init S (disk (vrec s)))\<rparr>"
  obtain st where st: "muxer_videnc_init E True ?st = Some st" using init_returns [OF assms(2)] by blast
  have I: "I (disk ?st)" "\<And>w. I w \<Longrightarrow> I (snd (snd (f_readdir (fs E) w)))" "\<And>p w. I w \<Longrightarrow> I (snd (f_unlink (fs E) p w))"
    "\<And>p w. I w \<Longrightarrow> I (f_opendir (fs E) p w)" "\<And>w. I w \<Longrightarrow> I (f_closedir (fs E) w)"
    using assms(1,5) by (simp_all add: dirs_keep_def)
  note K = init_keeps [where P = I, OF st I]
  have "sd_idle_case S E True s = Some (s\<lparr>bSDState := sd_SAVE, vrec := muxer_videnc_go eRecNormal st\<rparr>)"
    using assms(3,4) st by (simp add: sd_idle_case_def SDcardGetFormatState_def)
  with K show ?thesis by (simp add: muxer_videnc_go_def eRecNormal_def)
qed

lemma sd_ready_starts:
  assumes "dirs_keep S E I" and "dir_ends (fs E) m" and "bSDState s = sd_READY"
    and "bSD_Format s \<noteq> 1" and "bSdVidSave (vrec s)" and "I (disk (vrec s))"
  shows "\<exists>s'. SdcardTask S E 0 True s = Some s' \<and> bSDState s' = sd_SAVE \<and> vstate (pvid (vrec s')) = VIDENC_IDLE
    \<and> recording (pvid (vrec s')) = 1 \<and> bSD_FAT_mounted (vrec s') \<and> I (disk (vrec s'))
    \<and> sbuf (pvid (vrec s')) = sbuf (pvid (vrec s))"
proof -
  let ?st = "(vrec s)\<lparr>disk := snd (drive_init S (disk (vrec s)))\<rparr>"
  obtain st where st: "muxer_videnc_init E True ?st = Some st" using init_returns [OF assms(2)] by blast
  have I: "I (disk ?st)" "\<And>w. I w \<Longrightarrow> I (snd (snd (f_readdir (fs E) w)))" "\<And>p w. I w \<Longrightarrow> I (snd (f_unlink (fs E) p w))"
    "\<And>p w. I w \<Longrightarrow> I (f_opendir (fs E) p w)" "\<And>w. I w \<Longrightarrow> I (f_closedir (fs E) w)"
    using assms(1,6) by (simp_all add: dirs_keep_def)
  note K = init_keeps [where P = I, OF st I]
  from sd_idle_starts [OF assms(1,2), of "s\<lparr>vrec := st, bSDState := sd_IDLE\<rparr>"] K assms(4,5)
  show ?thesis using assms(3) st by (simp add: SdcardTask_def)
qed

text \<open>C35: A card that answers, mounts and lets its directories be made is recorded on after two
  rounds of the task, when saving is on and no format is asked for: the recorder is initialised and
  idle, mounted and told to record, its waiting frames are kept, and whatever the directory operations
  keep of the card, that its file is closed for one, still holds.\<close>

theorem card_starts_recording:
  assumes "bSDState s = sd_OFF" and "bSD_Format s \<noteq> 1" and "bSdVidSave (vrec s)"
    and "\<And>w. fst (SdioCdInitProcess S w) = ENX_OK"
    and "\<And>w. fst (drive_in S w) = FR_OK" and "\<And>w. fst (drive_init S w) = FR_OK"
    and "dirs_keep S E I" and "dir_ends (fs E) m"
    and "\<And>w. I w \<Longrightarrow> I (snd (SdioCdInitProcess S w))" and "\<And>w. I w \<Longrightarrow> I (snd (drive_in S w))" and "I (disk (vrec s))"
  shows "\<exists>s'. card_rounds S E [(0, p), (0, True)] s = Some s' \<and> bSDState s' = sd_SAVE
    \<and> vstate (pvid (vrec s')) = VIDENC_IDLE \<and> recording (pvid (vrec s')) = 1 \<and> bSD_FAT_mounted (vrec s')
    \<and> sbuf (pvid (vrec s')) = sbuf (pvid (vrec s)) \<and> I (disk (vrec s'))"
proof -
  obtain w1 where w1: "SdioCdInitProcess S (disk (vrec s)) = (ENX_OK, w1)"
    using assms(4) [of "disk (vrec s)"] by (metis surjective_pairing)
  obtain w2 where w2: "drive_in S w1 = (FR_OK, w2)" using assms(5) [of w1] by (metis surjective_pairing)
  obtain w3 where w3: "drive_init S w2 = (FR_OK, w3)" using assms(6) [of w2] by (metis surjective_pairing)
  have "I w1" using assms(9) [OF assms(11)] w1 by simp
  from assms(10) [OF this] have "I w2" using w2 by simp
  then have "I (snd (drive_init S w2))" using assms(7) unfolding dirs_keep_def by blast
  then have I: "I w3" using w3 by simp
  let ?s = "s\<lparr>bSDState := sd_READY, vrec := (vrec s)\<lparr>disk := w3\<rparr>\<rparr>"
  have "SdcardTask S E 0 p s = Some ?s"
    using assms(1) w1 w2 w3 by (simp add: SdcardTask_def SdcardInit_def init_pass_def Let_def)
  then show ?thesis using sd_ready_starts [OF assms(7,8), of ?s] assms(2,3) I by auto
qed

section \<open>Where it goes wrong\<close>

text \<open>The task remembers whether saving was on when it started, or when a format last interrupted
  a recording, and a format puts the setting back to that. So when the user has turned saving off
  since, and then formats the card, saving is turned on again and a recording starts on the fresh card.\<close>

lemma format_restarts_saving:
  assumes "bSDState s = sd_SAVE" and "oldSdSviSave s" and "bSD_Format s = 0" and "\<not> bSdVidSave (vrec s)"
    and "work_alloc S 0x8000" and "\<And>w. fst (f_mkfs S (Some 0x8000) w) = FR_OK" and "\<And>w. fst (drive_init S w) = FR_OK"
    and "dir_ends (fs E) m"
  shows "\<exists>s1 s2. SdcardTask S E 0 p s = Some s1 \<and> bSDState s1 = sd_IDLE \<and> \<not> bSdVidSave (vrec s1)
    \<and> SdcardTask S E 0 True (SDcardSetFormat s1) = Some s2 \<and> bSD_Format s2 = 0
    \<and> bSdVidSave (vrec s2) \<and> bSDState s2 = sd_SAVE \<and> recording (pvid (vrec s2)) = 1"
proof -
  let ?s = "s\<lparr>bSDState := sd_IDLE, vrec := set_state VIDENC_EXIT (vrec s)\<rparr>"
  have 1: "SdcardTask S E 0 p s = Some ?s"
    using assms(1,3,4) by (simp add: SdcardTask_def sd_save_case_def SDcardGetFormatState_def)
  let ?f = "?s\<lparr>bSD_Format := 1\<rparr>"
  obtain w1 where w1: "mkfs_twice S (Some 0x8000) (disk (vrec s)) = (FR_OK, w1)"
  proof -
    obtain w1 where "f_mkfs S (Some 0x8000) (disk (vrec s)) = (FR_OK, w1)"
      using assms(6) [of "disk (vrec s)"] by (metis surjective_pairing)
    then show ?thesis using that by (simp add: mkfs_twice_def)
  qed
  obtain w2 where w2: "drive_init S w1 = (FR_OK, w2)" using assms(7) [of w1] by (metis surjective_pairing)
  let ?g = "?f\<lparr>bSD_Format := 0, vrec := (vrec ?s)\<lparr>disk := w2, bSdVidSave := True\<rparr>\<rparr>"
  have g: "sd_format S ?f = ?g"
    using assms(2,5) w1 w2 by (simp add: sd_format_def SDcardFormatDone_def Let_def)
  have d: "dirs_keep S E (\<lambda>_. True)" by (simp add: dirs_keep_def)
  obtain s2 where s2: "sd_idle_case S E True ?g = Some s2" "bSDState s2 = sd_SAVE" "recording (pvid (vrec s2)) = 1"
    using sd_idle_starts [OF d assms(8), of ?g] by auto
  have k: "bSD_Format s2 = 0 \<and> bSdVidSave (vrec s2)"
    using s2(1) init_keeps(4) [where P = "\<lambda>_. True" and E = E]
    by (auto simp: sd_idle_case_def SDcardGetFormatState_def muxer_videnc_go_def Option.bind_eq_Some_conv split: if_splits)
  have "SdcardTask S E 0 True (SDcardSetFormat ?s) = sd_idle_case S E True ?f"
    by (simp add: SdcardTask_def SDcardSetFormat_def)
  also have "\<dots> = sd_idle_case S E True ?g"
    by (simp add: sd_idle_case_def SDcardGetFormatState_def g)
  finally have "SdcardTask S E 0 True (SDcardSetFormat ?s) = Some s2" using s2(1) by simp
  with 1 s2 k assms(4) show ?thesis by (intro exI [of _ ?s] exI [of _ s2]) simp
qed

text \<open>C36: Saving turned off and on again within two rounds of the card task, before the recorder has
  had one, abandons the file: the order to close it is overwritten by the initialisation, which leaves
  the recorder idle with the file still open (\<open>I\<close>), so the recorder's invariant, that an idle recorder
  has closed its file (\<open>C\<close>), is broken.\<close>

theorem restart_abandons_file:
  assumes "bSDState s = sd_SAVE" and "bSD_Format s \<noteq> 1" and "\<not> bSdVidSave (vrec s)"
    and "dirs_keep S E I" and "dir_ends (fs E) m" and "I (disk (vrec s))" and "\<And>w. I w \<Longrightarrow> \<not> C w"
  shows "\<exists>s1 s2. SdcardTask S E 0 p s = Some s1 \<and> vstate (pvid (vrec s1)) = VIDENC_EXIT
    \<and> SdcardTask S E 0 True (s1\<lparr>vrec := (vrec s1)\<lparr>bSdVidSave := True\<rparr>\<rparr>) = Some s2
    \<and> bSDState s2 = sd_SAVE \<and> recording (pvid (vrec s2)) = 1
    \<and> vstate (pvid (vrec s2)) = VIDENC_IDLE \<and> I (disk (vrec s2)) \<and> \<not> machine_ok C (vrec s2)"
proof -
  let ?s = "s\<lparr>bSDState := sd_IDLE, vrec := set_state VIDENC_EXIT (vrec s)\<rparr>"
  let ?t = "?s\<lparr>vrec := (vrec ?s)\<lparr>bSdVidSave := True\<rparr>\<rparr>"
  have 1: "SdcardTask S E 0 p s = Some ?s"
    using assms(1-3) by (simp add: SdcardTask_def sd_save_case_def SDcardGetFormatState_def)
  have 2: "SdcardTask S E 0 True ?t = sd_idle_case S E True ?t" by (simp add: SdcardTask_def)
  obtain s2 where s2: "sd_idle_case S E True ?t = Some s2" "bSDState s2 = sd_SAVE"
    "vstate (pvid (vrec s2)) = VIDENC_IDLE" "recording (pvid (vrec s2)) = 1" "I (disk (vrec s2))"
    using sd_idle_starts [OF assms(4,5), of ?t] assms(2,6) by auto
  have "\<not> machine_ok C (vrec s2)" using s2(3,5) assms(7) by (simp add: machine_ok_def)
  with 1 2 s2 show ?thesis by (intro exI [of _ ?s] exI [of _ s2]) simp
qed

section \<open>The printed size\<close>

lemma find_tenth:
  assumes "f < 1024"
  shows "(case List.find (\<lambda>i. f < i * 1024 div 10) [1..<11] of None \<Rightarrow> f | Some i \<Rightarrow> i - 1) = (10 * f + 9) div (1024::nat)"
proof -
  have "[1..<11] = [1, 2, 3, 4, 5, 6, 7, 8, 9, 10::nat]" by code_simp
  then show ?thesis using assms by auto
qed

lemma as_int_small:
  assumes "n < 2 ^ 31"
  shows "as_int (scast (of_nat n :: u32)) = int n" and "as_int (of_nat n) = int n"
proof -
  have "sint (of_nat n :: u32) = int n"
  proof -
    have "signed_take_bit 31 (int n) = int n"
      using assms by (intro signed_take_bit_int_eq_self) (simp_all add: order_trans [of _ 0])
    then show ?thesis by (simp add: signed_of_nat)
  qed
  moreover have "(ucast (scast (of_nat n :: u32) :: u64) :: u32) = of_nat n" "(ucast (of_nat n :: u64) :: u32) = of_nat n"
    by (rule bit_word_eqI, simp add: bit_simps)+
  ultimately show "as_int (scast (of_nat n :: u32)) = int n" and "as_int (of_nat n) = int n"
    by (simp_all add: as_int_def)
qed

lemma unat_numeral_1024: "unat (1024 :: u32) = 1024" by simp

text \<open>The size of a card prints as gigabytes with one decimal, which is the tenth the size lies in
  or, just below the next one, that next one; the text always fits the twelve bytes its callers keep
  for it.\<close>

lemma card_size_printed:
  "getSDGBSizeT mb = Some (fmt_u (unat mb div 1024) @ ''.'' @ fmt_u ((10 * (unat mb mod 1024) + 9) div 1024) @ ''GB'')
   \<and> length (the (getSDGBSizeT mb)) < 12"
proof -
  let ?n = "unat mb div 1024" and ?t = "(10 * (unat mb mod 1024) + 9) div 1024"
  have n: "?n < 10 ^ 7" using unat_u32_less [of mb] by (simp add: less_mult_imp_div_less)
  have t: "?t < 10 ^ 1" by (simp add: less_mult_imp_div_less)
  let ?w = "scast (of_nat ?n :: u32)"
  let ?ps = "[Sint ?w, Lit ''.'', Sint (of_nat ?t), Lit ''GB'']"
  have w: "mb div 1024 = of_nat ?n" "unat (mb mod 1024) = unat mb mod 1024"
  proof -
    have "mb div 1024 = of_nat (unat (mb div 1024))" by simp
    then show "mb div 1024 = of_nat ?n" by (simp only: unat_div unat_numeral_1024)
  qed (simp add: unat_mod)
  have "sprintf (concat (map piece_fmt ?ps)) (concat (map piece_args ?ps)) = Some (concat (map piece_text ?ps))"
    by (rule sprintf_pieces) simp_all
  then have "getSDGBSizeT mb = Some (fmt_u ?n @ ''.'' @ fmt_u ?t @ ''GB'')"
    using n t unfolding getSDGBSizeT_def Let_def w
    by (subst find_tenth) (simp_all add: as_int_small)
  with length_fmt_u [OF _ n] length_fmt_u [OF _ t] show ?thesis by simp
qed

text \<open>The size class is the smallest that holds the card.\<close>

lemma getSDGBSizeU_class:
  assumes "mb div 1024 \<le> 1024"
  shows "mb div 1024 \<le> getSDGBSizeU mb
    \<and> (\<forall>c \<in> {8, 16, 32, 64, 128, 256, 512, 1024}. mb div 1024 \<le> c \<longrightarrow> getSDGBSizeU mb \<le> c)"
  using assms by (simp add: getSDGBSizeU_def)

section \<open>Witnesses\<close>

text \<open>A card that answers and has its directories, and one that cannot be written.\<close>

definition ex_sd :: "ramdisk sd_env" where
  "ex_sd = \<lparr>SdioCdInitProcess = (\<lambda>w. (ENX_OK, w)), SdioCdClockDown = (\<lambda>w. w),
     f_mount = (\<lambda>w. (FR_OK, w)), f_unmount = (\<lambda>w. (FR_OK, w)),
     fs_opendir = (\<lambda>_ w. (FR_OK, w)), fs_closedir = (\<lambda>w. w), f_mkdir = (\<lambda>_ w. (FR_OK, w)),
     f_mkfs = (\<lambda>_ w. (FR_OK, w\<lparr>fdata := []\<rparr>)), work_alloc = (\<lambda>_. True)\<rparr>"

definition ex_locked :: "ramdisk sd_env" where
  "ex_locked = ex_sd\<lparr>fs_opendir := (\<lambda>path w. (if path = ''1:'' then FR_OK else FR_NO_PATH, w)),
     f_mkdir := (\<lambda>_ w. (10, w))\<rparr>"

definition ex_sdcard :: "sd_state \<Rightarrow> bool \<Rightarrow> ramdisk recorder \<Rightarrow> ramdisk sdcard" where
  "ex_sdcard b old v = \<lparr>bSDState = b, bSD_Format = 0, oldSdSviSave = old, cnt = 0, vrec = v\<rparr>"

lemma ex_sd_ok:
  "drive_init ex_sd w = (FR_OK, w)" "drive_in ex_sd w = (FR_OK, w)" "fst (f_mkfs ex_sd b w) = FR_OK"
  "SdioCdInitProcess ex_sd w = (ENX_OK, w)" "dirs_keep ex_sd ex_muxer fopened" "dir_ends (fs ex_muxer) (\<lambda>_. 0)"
  "work_alloc ex_sd n"
  by (simp_all add: ex_sd_def drive_init_def fat_mkdir_def drive_in_def dirs_keep_def dir_ends_def
      ex_muxer_def ram_fs_def FR_OK_def)

lemma sd_stop_closes_file_witness:
  "\<exists>s' st. SdcardTask ex_sd ex_muxer 0 True (ex_sdcard sd_SAVE True (ex_mid 10 [ex_P] False)) = Some s'
    \<and> bSDState s' = sd_IDLE \<and> muxer_videnc_task ex_muxer (vrec s') = Some st
    \<and> file_of [ex_sample] (Vstbl (tbuf st)) (fdata (disk st))"
proof -
  let ?s = "ex_sdcard sd_SAVE True (ex_mid 10 [ex_P] False)"
  have r: "recording_ok ex_muxer fdata fpos ex_hdr [ex_sample] (vrec ?s)"
    unfolding ex_sdcard_def sdcard.simps by (rule ex_mid_ok) simp_all
  have h: "header_fits (vrec ?s) [ex_sample]"
    unfolding ex_sdcard_def sdcard.simps by (rule ex_mid_header) (simp_all add: payload_def ex_sample_def)
  have s: "bSDState ?s = sd_SAVE" "bSD_Format ?s = 1 \<or> \<not> bSdVidSave (vrec ?s)" "bSD_FAT_mounted (vrec ?s)"
    "recording (pvid (vrec ?s)) \<noteq> 0" "snap_recording (vrec ?s) \<noteq> 1"
    by (simp_all add: ex_sdcard_def ex_recorder_def)
  have q: "sbuf_ok (sbuf (pvid (vrec ?s)))" "sbuf_items (sbuf (pvid (vrec ?s))) \<noteq> []"
    by (simp_all add: ex_sdcard_def ex_queue_ok)
  show ?thesis using sd_stop_closes_file [OF s(1,2) r h s(3-5) q, where S = ex_sd and p = True] by blast
qed

lemma card_init_lockout_witness:
  "\<exists>s'. SdcardTask ex_locked ex_muxer 0 True (ex_sdcard sd_OFF True (ex_mid 10 [] True)) = Some s'
    \<and> bSDState s' = sd_INIT \<and> card_rounds ex_locked ex_muxer (replicate 100 (0, True)) s' = Some s'"
proof -
  have "bSDState (ex_sdcard sd_OFF True (ex_mid 10 [] True)) = sd_OFF"
    "fst (SdioCdInitProcess ex_locked w) = ENX_OK" "fst (drive_in ex_locked w) = FR_OK"
    "fst (drive_init ex_locked w) \<noteq> FR_OK" for w
    by (simp_all add: ex_sdcard_def ex_locked_def ex_sd_def drive_in_def drive_init_def fat_mkdir_def
        FR_OK_def FR_NO_PATH_def FR_NO_FILESYSTEM_def)
  from card_init_lockout [OF this, where E = ex_muxer and p = True and n = 100] show ?thesis by blast
qed

lemma card_starts_recording_witness:
  "\<exists>s'. card_rounds ex_sd ex_muxer [(0, True), (0, True)] (ex_sdcard sd_OFF True (ex_start [] 30)) = Some s'
    \<and> bSDState s' = sd_SAVE \<and> recording (pvid (vrec s')) = 1 \<and> vstate (pvid (vrec s')) = VIDENC_IDLE"
proof -
  let ?s = "ex_sdcard sd_OFF True (ex_start [] 30)"
  have s: "bSDState ?s = sd_OFF" "bSD_Format ?s \<noteq> 1" "bSdVidSave (vrec ?s)" by (simp_all add: ex_sdcard_def ex_recorder_def)
  have d: "dirs_keep ex_sd ex_muxer (\<lambda>w. \<not> fopened w)"
    by (simp add: dirs_keep_def ex_sd_ok ex_muxer_def ram_fs_def)
  have "\<not> fopened (disk (vrec ?s))" by (simp add: ex_sdcard_def ex_recorder_def)
  then show ?thesis
    using card_starts_recording [OF s _ _ _ d, where m = "\<lambda>_. 0" and p = True] ex_sd_ok by fastforce
qed

lemma format_restarts_saving_witness:
  "\<exists>s1 s2. SdcardTask ex_sd ex_muxer 0 True (ex_sdcard sd_SAVE True (ex_mid 10 [] False)) = Some s1
    \<and> \<not> bSdVidSave (vrec s1) \<and> SdcardTask ex_sd ex_muxer 0 True (SDcardSetFormat s1) = Some s2
    \<and> bSdVidSave (vrec s2) \<and> bSDState s2 = sd_SAVE"
proof -
  let ?s = "ex_sdcard sd_SAVE True (ex_mid 10 [] False)"
  have "bSDState ?s = sd_SAVE" "oldSdSviSave ?s" "bSD_Format ?s = 0" "\<not> bSdVidSave (vrec ?s)"
    by (simp_all add: ex_sdcard_def ex_recorder_def)
  from format_restarts_saving [OF this, where S = ex_sd and E = ex_muxer and m = "\<lambda>_. 0" and p = True]
  show ?thesis using ex_sd_ok by fastforce
qed

lemma restart_abandons_file_witness:
  "\<exists>s1 s2. SdcardTask ex_sd ex_muxer 0 True (ex_sdcard sd_SAVE True ((ex_mid 10 [] False)
       \<lparr>disk := \<lparr>fdata = [], fpos = 0, freepc = 50, fopened = True\<rparr>\<rparr>)) = Some s1
    \<and> SdcardTask ex_sd ex_muxer 0 True (s1\<lparr>vrec := (vrec s1)\<lparr>bSdVidSave := True\<rparr>\<rparr>) = Some s2
    \<and> vstate (pvid (vrec s2)) = VIDENC_IDLE \<and> fopened (disk (vrec s2)) \<and> \<not> machine_ok ex_shut (vrec s2)"
proof -
  let ?s = "ex_sdcard sd_SAVE True ((ex_mid 10 [] False)\<lparr>disk := \<lparr>fdata = [], fpos = 0, freepc = 50, fopened = True\<rparr>\<rparr>)"
  have s: "bSDState ?s = sd_SAVE" "bSD_Format ?s \<noteq> 1" "\<not> bSdVidSave (vrec ?s)" "fopened (disk (vrec ?s))"
    by (simp_all add: ex_sdcard_def ex_recorder_def)
  have c: "fopened w \<Longrightarrow> \<not> ex_shut w" for w by (simp add: ex_shut_def)
  show ?thesis using restart_abandons_file [OF s(1-3) ex_sd_ok(5,6) s(4), where C = ex_shut and p = True] c by blast
qed

end
