(* ===== verification/Camera.thy ===== *)
theory Camera
  imports DispatchProps SdCardProps
begin

text \<open>
  The camera as a whole: the dispatch of frames, the RTSP server and the recorder, with the task of
  the memory card, which shares the recorder. Proved here: the invariants of all of them together.
\<close>

section \<open>What the card task keeps of the recorder\<close>

text \<open>Preparing, mounting and formatting a card opens no file on it.\<close>

definition card_opens_nothing :: "'w sd_env \<Rightarrow> ('w \<Rightarrow> bool) \<Rightarrow> bool" where
  "card_opens_nothing S C \<longleftrightarrow> (\<forall>w. C w \<longrightarrow> C (snd (SdioCdInitProcess S w))) \<and> (\<forall>w. C w \<longrightarrow> C (SdioCdClockDown S w))
     \<and> (\<forall>w. C w \<longrightarrow> C (snd (f_mount S w))) \<and> (\<forall>w. C w \<longrightarrow> C (snd (f_unmount S w)))
     \<and> (\<forall>p w. C w \<longrightarrow> C (snd (fs_opendir S p w))) \<and> (\<forall>w. C w \<longrightarrow> C (fs_closedir S w))
     \<and> (\<forall>p w. C w \<longrightarrow> C (snd (f_mkdir S p w))) \<and> (\<forall>b w. C w \<longrightarrow> C (snd (f_mkfs S b w)))"

definition rec_kept :: "('w \<Rightarrow> bool) \<Rightarrow> 'w recorder \<Rightarrow> 'w recorder \<Rightarrow> bool" where
  "rec_kept C st st' \<longleftrightarrow> (queues_ok (queues st) \<longrightarrow> queues_ok (queues st'))
     \<and> (C (disk st) \<longrightarrow> C (disk st')) \<and> (resting (vstate (pvid st)) \<longrightarrow> resting (vstate (pvid st')))"

lemma rec_kept_refl [simp]: "rec_kept C st st"
  by (simp add: rec_kept_def)

lemma rec_kept_trans: "rec_kept C a b \<Longrightarrow> rec_kept C b c \<Longrightarrow> rec_kept C a c"
  by (simp add: rec_kept_def)

lemma rec_kept_disk: "(C (disk st) \<Longrightarrow> C w) \<Longrightarrow> rec_kept C st (st\<lparr>disk := w\<rparr>)"
  by (simp add: rec_kept_def queues_def)

lemma mkfs_keeps: "card_opens_nothing S C \<Longrightarrow> C w \<Longrightarrow> C (snd (mkfs_twice S b w))"
  by (cases "f_mkfs S b w") (simp add: mkfs_twice_def card_opens_nothing_def, metis snd_conv)

lemma mkdir_keeps:
  assumes "card_opens_nothing S C" and "C w"
  shows "C (snd (fat_mkdir S p w))"
proof -
  obtain r w1 where o: "fs_opendir S p w = (r, w1)" by (metis surj_pair)
  obtain r2 w2 where f: "mkfs_twice S (if work_alloc S 0x1000 then Some 0x1000 else None) w1 = (r2, w2)" by (metis surj_pair)
  have w1: "C w1" using assms o unfolding card_opens_nothing_def by (metis snd_conv)
  have "C w2" using mkfs_keeps [OF assms(1) w1] f by (metis snd_conv)
  with assms(1) w1 show ?thesis by (simp add: fat_mkdir_def o f card_opens_nothing_def)
qed

lemma init_keeps_card: "card_opens_nothing S C \<Longrightarrow> C w \<Longrightarrow> C (snd (drive_init S w))"
  by (simp add: drive_init_def mkdir_keeps)

lemma in_keeps:
  assumes "card_opens_nothing S C" and "C w"
  shows "C (snd (drive_in S w))"
proof -
  obtain r w1 where m: "f_mount S w = (r, w1)" by (metis surj_pair)
  obtain r2 w2 where o: "fs_opendir S ''1:'' w1 = (r2, w2)" by (metis surj_pair)
  have w1: "C w1" using assms m unfolding card_opens_nothing_def by (metis snd_conv)
  then have "C w2" using assms(1) o unfolding card_opens_nothing_def by (metis snd_conv)
  with assms(1) w1 show ?thesis by (simp add: drive_in_def drive_out_def m o card_opens_nothing_def)
qed

lemma pass_kept:
  assumes "card_opens_nothing S C" and "init_pass S b s = (a, s')"
  shows "rec_kept C (vrec s) (vrec s')" and "cnt s' = cnt s" and "bSD_Format s' = bSD_Format s"
proof -
  obtain r w1 where i: "SdioCdInitProcess S (disk (vrec s)) = (r, w1)" by (metis surj_pair)
  let ?w1 = "if b then SdioCdClockDown S w1 else w1"
  obtain r2 w2 where d: "drive_in S ?w1 = (r2, w2)" by (metis surj_pair)
  obtain r3 w3 where e: "drive_init S w2 = (r3, w3)" by (metis surj_pair)
  have w1: "C w1" if "C (disk (vrec s))" using assms(1) i that unfolding card_opens_nothing_def by (metis snd_conv)
  then have "C ?w1" if "C (disk (vrec s))" using assms(1) that by (simp add: card_opens_nothing_def)
  then have w2: "C w2" if "C (disk (vrec s))" using in_keeps [OF assms(1)] d that by (metis snd_conv)
  have w3: "C w3" if "C (disk (vrec s))" using init_keeps_card [OF assms(1) w2 [OF that]] e by (metis snd_conv)
  let ?s = "\<lambda>q w. s\<lparr>bSDState := q, vrec := (vrec s)\<lparr>disk := w\<rparr>\<rparr>"
  have "init_pass S b s =
      (if r = ENX_FAIL then (False, ?s sd_ERR w1)
       else if r2 = FR_OK \<or> r2 = FR_NO_FILESYSTEM
       then (if r3 \<noteq> FR_OK then (\<not> b, ?s sd_INIT w3) else (False, ?s sd_READY w3))
       else (False, ?s sd_ERR w2))"
    using d by (cases b) (simp_all add: init_pass_def i e)
  with assms(2) obtain q w where s': "s' = ?s q w" and w: "w \<in> {w1, w2, w3}"
    by (auto split: if_splits)
  have "C w" if "C (disk (vrec s))" using w w1 w2 w3 that by blast
  then show "rec_kept C (vrec s) (vrec s')" "cnt s' = cnt s" "bSD_Format s' = bSD_Format s"
    unfolding s' by (simp_all add: rec_kept_disk)
qed

lemma card_init_kept:
  assumes "card_opens_nothing S C"
  shows "rec_kept C (vrec s) (vrec (SdcardInit S s))" and "cnt (SdcardInit S s) = cnt s"
    and "bSD_Format (SdcardInit S s) = bSD_Format s"
proof -
  obtain a s1 where p: "init_pass S False s = (a, s1)" by (metis surj_pair)
  obtain a2 s2 where q: "init_pass S True s1 = (a2, s2)" by (metis surj_pair)
  note pass_kept [OF assms p] pass_kept [OF assms q]
  then show "rec_kept C (vrec s) (vrec (SdcardInit S s))" "cnt (SdcardInit S s) = cnt s"
    "bSD_Format (SdcardInit S s) = bSD_Format s"
    by (auto simp: SdcardInit_def p q intro: rec_kept_trans)
qed

lemma format_kept:
  assumes "card_opens_nothing S C"
  shows "rec_kept C (vrec s) (vrec (sd_format S s))" and "cnt (sd_format S s) = cnt s"
    and "bSD_Format s \<in> {- 1, 0, 1} \<Longrightarrow> bSD_Format (sd_format S s) \<in> {- 1, 0, 1}"
proof -
  obtain r w1 where f: "mkfs_twice S (Some 0x8000) (disk (vrec s)) = (r, w1)" by (metis surj_pair)
  obtain r2 w2 where e: "drive_init S w1 = (r2, w2)" by (metis surj_pair)
  have w1: "C w1" if "C (disk (vrec s))" using mkfs_keeps [OF assms that] f by (metis snd_conv)
  have w2: "C w2" if "C (disk (vrec s))" using init_keeps_card [OF assms w1 [OF that]] e by (metis snd_conv)
  show "rec_kept C (vrec s) (vrec (sd_format S s))" "cnt (sd_format S s) = cnt s"
    "bSD_Format s \<in> {- 1, 0, 1} \<Longrightarrow> bSD_Format (sd_format S s) \<in> {- 1, 0, 1}"
    using w1 w2
    by (auto simp: sd_format_def f e Let_def rec_kept_def queues_def SDcardFormatDone_def SDcardFormatFail_def)
qed

text \<open>The initialisation of the recorder, with the directory it reads.\<close>

lemma recorder_init_kept:
  assumes "muxer_videnc_init E present st = Some st'" and "opens_nothing E C" and "dir_ok (fs E) C"
  shows "rec_kept C st st'"
proof (cases present)
  case False
  with assms(1) show ?thesis by (simp add: muxer_videnc_init_def)
next
  case True
  let ?v = "fst (videnc_info_default (pvid st) (tbuf st))"
  let ?e = "?v\<lparr>filenamelist := encHeap_resetQueue (filenamelist ?v)\<rparr>"
  obtain e w f s where l: "list_dir (fs E) ?e (f_opendir (fs E) (dir_name ?v) (disk st)) = Some (e, w)"
    and s: "change_savetime_start E (st\<lparr>pvid := e, tbuf := snd (videnc_info_default (pvid st) (tbuf st)),
        disk := f_closedir (fs E) w\<rparr>) = (f, s)" and st': "st' = s\<lparr>bSD_FAT_mounted := True\<rparr>"
    using assms(1) True
    by (auto simp: muxer_videnc_init_def videnc_info_init_filenamelist_def change_savetime_start
        videnc_info_default_def Let_def Option.bind_eq_Some_conv split: option.splits prod.splits)
  note F = savetime_start_fields [OF s] and W = change_start_writes [OF s]
  have n: "names_ok ?e e"
    using list_dir_ok [where C = "\<lambda>_. True" and E = E, OF l] by (simp add: opens_nothing_def dir_ok_def)
  have "C w" if "C (disk st)"
    using list_dir_ok [where C = C and E = E, OF l assms(2,3)] that assms(3) by (simp add: dir_ok_def)
  then have d: "C (disk st')" if "C (disk st)" using F(3) assms(3) that by (simp add: st' dir_ok_def)
  have "capacity (filenamelist ?e) = capacity (filenamelist (pvid st))"
    by (simp add: encHeap_resetQueue_def videnc_info_default_def)
  then have "queues_ok (queues st')" if "queues_ok (queues st)"
    using n W that reset_ok [of "filenamelist ?v"]
    by (auto simp: st' names_ok_def queues_ok_def queues_def writes_def videnc_info_default_def)
  moreover have "resting (vstate (pvid st'))"
    using n F(2) by (auto simp: st' names_ok_def videnc_info_default_def resting_def)
  ultimately show ?thesis using d by (simp add: rec_kept_def)
qed

lemma card_idle_kept:
  assumes "sd_idle_case S E p s = Some s'" and "card_opens_nothing S C" and "opens_nothing E C" and "dir_ok (fs E) C"
  shows "rec_kept C (vrec s) (vrec s')" and "cnt s' = cnt s"
    and "bSD_Format s \<in> {- 1, 0, 1} \<Longrightarrow> bSD_Format s' \<in> {- 1, 0, 1}"
proof -
  let ?s = "if SDcardGetFormatState s = 1 then sd_format S s else s"
  have f: "rec_kept C (vrec s) (vrec ?s)" "cnt ?s = cnt s" "bSD_Format s \<in> {- 1, 0, 1} \<Longrightarrow> bSD_Format ?s \<in> {- 1, 0, 1}"
    using format_kept [OF assms(2), of s] by auto
  have go: "rec_kept C st (muxer_videnc_go eRecNormal st)" for st
    by (simp add: rec_kept_def queues_def muxer_videnc_go_def)
  let ?d = "(vrec ?s)\<lparr>disk := snd (drive_init S (disk (vrec ?s)))\<rparr>"
  have d: "rec_kept C (vrec ?s) ?d" by (intro rec_kept_disk) (rule init_keeps_card [OF assms(2)])
  have "rec_kept C (vrec s) (vrec s') \<and> cnt s' = cnt ?s \<and> bSD_Format s' = bSD_Format ?s"
  proof (cases "bSdVidSave (vrec ?s)")
    case True
    with assms(1) obtain st where st: "muxer_videnc_init E p ?d = Some st"
      and s': "s' = (?s\<lparr>bSDState := sd_SAVE\<rparr>)\<lparr>vrec := muxer_videnc_go eRecNormal st\<rparr>"
      by (auto simp: sd_idle_case_def Let_def Option.bind_eq_Some_conv split: if_splits)
    have "rec_kept C (vrec s) (muxer_videnc_go eRecNormal st)"
      using rec_kept_trans [OF rec_kept_trans [OF f(1) d] rec_kept_trans [OF recorder_init_kept [OF st assms(3,4)] go]] .
    then show ?thesis by (simp add: s')
  next
    case False
    with assms(1) have "s' = ?s" by (simp add: sd_idle_case_def Let_def)
    with f(1) show ?thesis by simp
  qed
  with f show "rec_kept C (vrec s) (vrec s')" "cnt s' = cnt s"
    "bSD_Format s \<in> {- 1, 0, 1} \<Longrightarrow> bSD_Format s' \<in> {- 1, 0, 1}" by simp_all
qed

lemma card_task_kept:
  assumes "SdcardTask S E d p s = Some s'" and "card_opens_nothing S C" and "opens_nothing E C" and "dir_ok (fs E) C"
  shows "rec_kept C (vrec s) (vrec s')" and "cnt s < 10 \<Longrightarrow> cnt s' < 10"
    and "bSD_Format s \<in> {- 1, 0, 1} \<Longrightarrow> bSD_Format s' \<in> {- 1, 0, 1}"
proof -
  have ready: "rec_kept C (vrec s) (vrec s') \<and> cnt s' = cnt s \<and> (bSD_Format s \<in> {- 1, 0, 1} \<longrightarrow> bSD_Format s' \<in> {- 1, 0, 1})"
    if st: "muxer_videnc_init E p ((vrec s)\<lparr>disk := snd (drive_init S (disk (vrec s)))\<rparr>) = Some st"
      "sd_idle_case S E p (s\<lparr>vrec := st, bSDState := sd_IDLE\<rparr>) = Some s'" for st
  proof -
    have "rec_kept C (vrec s) ((vrec s)\<lparr>disk := snd (drive_init S (disk (vrec s)))\<rparr>)"
      by (intro rec_kept_disk) (rule init_keeps_card [OF assms(2)])
    from rec_kept_trans [OF this recorder_init_kept [OF st(1) assms(3,4)]] card_idle_kept [OF st(2) assms(2-4)]
    show ?thesis by (auto intro: rec_kept_trans)
  qed
  have save: "rec_kept C (vrec s) (vrec (sd_save_case s))" "cnt (sd_save_case s) = cnt s"
    "bSD_Format (sd_save_case s) = bSD_Format s"
    by (simp_all add: sd_save_case_def Let_def rec_kept_def queues_def resting_def)
  note I = card_init_kept [OF assms(2), of s] and K = card_idle_kept [OF _ assms(2-4), of p s s']
  have "rec_kept C (vrec s) (vrec s') \<and> (cnt s < 10 \<longrightarrow> cnt s' < 10) \<and> (bSD_Format s \<in> {- 1, 0, 1} \<longrightarrow> bSD_Format s' \<in> {- 1, 0, 1})"
  proof (cases "d = 0")
    case True
    show ?thesis
    proof (cases "bSDState s")
      case sd_READY
      with assms(1) True ready show ?thesis by (auto simp: SdcardTask_def Let_def Option.bind_eq_Some_conv)
    next
      case sd_IDLE
      with assms(1) True K show ?thesis by (auto simp: SdcardTask_def)
    qed (use assms(1) True I save in \<open>auto simp: SdcardTask_def\<close>)
  next
    case False
    with assms(1) show ?thesis by (auto simp: SdcardTask_def Let_def split: if_splits)
  qed
  then show "rec_kept C (vrec s) (vrec s')" "cnt s < 10 \<Longrightarrow> cnt s' < 10"
    "bSD_Format s \<in> {- 1, 0, 1} \<Longrightarrow> bSD_Format s' \<in> {- 1, 0, 1}" by simp_all
qed

section \<open>The device\<close>

text \<open>
  What happens in the device: a step of the camera, a round of the card task, which works on the recorder
  of the camera, and a request for a format. The card task may set a recorder that has a file open to
  idle. In an \<open>orderly\<close> run it does not: where it leaves the recorder idle, it has found it idle.
\<close>

type_synonym 'w device = "'w camera \<times> 'w sdcard"

inductive device_step :: "'w sd_env \<Rightarrow> 'w muxer_env \<Rightarrow> bool \<Rightarrow> 'w device \<Rightarrow> 'w device \<Rightarrow> bool" for S E orderly where
  dev_camera: "camera_step E cam cam' \<Longrightarrow> device_step S E orderly (cam, s) (cam', s)"
| dev_card: "SdcardTask S E d p (s\<lparr>vrec := videnc cam\<rparr>) = Some s' \<Longrightarrow>
    (orderly \<Longrightarrow> vstate (pvid (vrec s')) = VIDENC_IDLE \<Longrightarrow> vstate (pvid (videnc cam)) = VIDENC_IDLE) \<Longrightarrow>
    device_step S E orderly (cam, s) (cam\<lparr>videnc := vrec s'\<rparr>, s')"
| dev_format: "device_step S E orderly (cam, s) (cam, SDcardSetFormat s)"

definition device_ok :: "('w \<Rightarrow> bool) \<Rightarrow> 'w device \<Rightarrow> bool" where
  "device_ok C d \<longleftrightarrow> camera_ok C (fst d) \<and> cnt (snd d) < 10 \<and> bSD_Format (snd d) \<in> {- 1, 0, 1}"

lemma rec_kept_machine:
  assumes "rec_kept C st st'" and "machine_ok C st"
    and "vstate (pvid st') = VIDENC_IDLE \<Longrightarrow> vstate (pvid st) = VIDENC_IDLE \<or> C (disk st')"
  shows "machine_ok C st'"
  using assms by (auto simp: rec_kept_def machine_ok_def)

lemma device_step_ok:
  assumes "device_step S E orderly d d'" and "device_ok C d" and "orderly \<or> (\<forall>w. C w)"
    and h: "handle_ok E C" and c: "card_opens_nothing S C" "dir_ok (fs E) C"
  shows "device_ok C d'"
  using assms(1)
proof cases
  case (dev_camera cam cam' s)
  with camera_step_ok [OF _ _ h] assms(2) show ?thesis by (auto simp: device_ok_def)
next
  case (dev_card d0 p cam s s')
  have o: "opens_nothing E C" using h by (simp add: handle_ok_def)
  have "machine_ok C (videnc cam)" "cnt s < 10" "bSD_Format s \<in> {- 1, 0, 1}"
    using assms(2) dev_card(1) by (simp_all add: device_ok_def camera_ok_def)
  with card_task_kept [OF dev_card(3) c(1) o c(2)] rec_kept_machine [of C "videnc cam" "vrec s'"] dev_card(4) assms(3)
  have "machine_ok C (vrec s')" "cnt s' < 10" "bSD_Format s' \<in> {- 1, 0, 1}" by auto
  with assms(2) dev_card(1,2) show ?thesis by (simp add: device_ok_def camera_ok_def)
next
  case (dev_format cam s)
  with assms(2) show ?thesis by (simp add: device_ok_def SDcardSetFormat_def)
qed

lemma device_runs_ok:
  assumes "(device_step S E orderly)\<^sup>*\<^sup>* d d'" and "device_ok C d" and "orderly \<or> (\<forall>w. C w)"
    and "handle_ok E C" and "card_opens_nothing S C" "dir_ok (fs E) C"
  shows "device_ok C d'"
  using assms by (induction rule: rtranclp_induct) (auto dest: device_step_ok)

lemma nothing_needed:
  "handle_ok E (\<lambda>_. True)" "card_opens_nothing S (\<lambda>_. True)" "dir_ok F (\<lambda>_. True)"
  by (simp_all add: handle_ok_def opens_nothing_def card_opens_nothing_def dir_ok_def)

text \<open>C33: In the whole device, whatever frames, sound, pictures, requests, cards and orders to format come
  in and in whatever order, at most two clients play, the counter of the clients stays between 0 and 20, the
  recorder rests in one of its five states, the routine of the stream ring returns, the record ring is
  always empty, so that no frame for the recorder is ever dropped by it, and the counter of the card task
  stays below 10. In orderly runs an idle recorder has closed its file (\<open>C\<close>), unless the last \<open>f_close\<close>
  failed (\<open>J\<close>).\<close>

theorem camera_invariant:
  assumes "(device_step S E orderly)\<^sup>*\<^sup>* (cam, s) (cam', s')"
    and "close_ok E C J" and "opens_nothing E (\<lambda>w. C w \<or> J w)"
    and "card_opens_nothing S (\<lambda>w. C w \<or> J w)" and "dir_ok (fs E) (\<lambda>w. C w \<or> J w)"
    and "server cam = rtsp_init id0" and "machine_ok C (videnc cam)" and "msgq_ok (stm_q cam)"
    and "msgq_ok (rec_q cam)" and "msgq_items (rec_q cam) = []" and "0 < msgq_slots (rec_q cam)"
    and "cnt s < 10" and "bSD_Format s \<in> {- 1, 0, 1}"
  shows "rtspd_player_count (server cam') \<le> RTSP_play_MAX \<and> 0 \<le> client_count (server cam') \<and> client_count (server cam') \<le> 20
    \<and> vstate (pvid (videnc cam')) \<in> {VIDENC_IDLE, VIDENC_FIRST, VIDENC_FIRST_NEXT, VIDENC_WRITE, VIDENC_EXIT}
    \<and> (orderly \<longrightarrow> vstate (pvid (videnc cam')) = VIDENC_IDLE \<longrightarrow> C (disk (videnc cam')) \<or> J (disk (videnc cam')))
    \<and> IsrStreamdata (stm_q cam') (server cam') \<noteq> None
    \<and> msgq_items (rec_q cam') = [] \<and> fst (MsgRecPut a n ts ty (rec_q cam')) = ENX_OK
    \<and> cnt s' < 10 \<and> bSD_Format s' \<in> {- 1, 0, 1}"
proof -
  let ?C = "\<lambda>w. C w \<or> J w"
  have init: "device_ok (\<lambda>_. True) (cam, s)" "device_ok ?C (cam, s)"
    using assms(6-13) init_ok by (simp_all add: device_ok_def camera_ok_def machine_ok_def)
  have ok: "device_ok (\<lambda>_. True) (cam', s')"
    by (rule device_runs_ok [OF assms(1) init(1) _ nothing_needed]) simp
  have idle: "machine_ok ?C (videnc cam')" if orderly
    using device_runs_ok [OF assms(1) init(2) _ close_handle [OF assms(2,3)] assms(4,5)] that
    by (simp add: device_ok_def camera_ok_def)
  from ok have "server_ok (server cam')" "machine_ok (\<lambda>_. True) (videnc cam')" "msgq_ok (stm_q cam')" "msgq_ok (rec_q cam')"
    "msgq_items (rec_q cam') = []" "0 < msgq_slots (rec_q cam')" "cnt s' < 10" "bSD_Format s' \<in> {- 1, 0, 1}"
    by (simp_all add: device_ok_def camera_ok_def)
  then show ?thesis
    using idle server_okD [of "server cam'"] IsrStreamdata_all [of "stm_q cam'" "server cam'"]
      MsgStmPut_room [of "rec_q cam'" a n ts ty]
    by (cases "vstate (pvid (videnc cam'))") (auto simp: machine_ok_def resting_def rec_ring)
qed

lemma ex_card_closed: "card_opens_nothing ex_sd (\<lambda>w. ex_shut w \<or> False)" "dir_ok (fs ex_muxer) (\<lambda>w. ex_shut w \<or> False)"
  using ex_handle(2) by (simp_all add: card_opens_nothing_def ex_sd_def ex_shut_def [abs_def])

text \<open>A round of the card task, with the card put in, and then one of the sound interrupt.\<close>

theorem camera_invariant_witness:
  "\<exists>s' cam' n' a' cam''. SdcardTask ex_sd ex_muxer 0 True ((ex_sdcard sd_OFF True (ex_start [] 30))\<lparr>vrec := videnc (ex_camera (rtsp_init 0))\<rparr>) = Some s'
     \<and> cam' = (ex_camera (rtsp_init 0))\<lparr>videnc := vrec s'\<rparr> \<and> audrx_queue_put 0 4096 cam' = Some (n', a', cam'')
     \<and> rtspd_player_count (server cam'') \<le> RTSP_play_MAX \<and> msgq_items (rec_q cam'') = []
     \<and> vstate (pvid (videnc cam'')) \<in> {VIDENC_IDLE, VIDENC_FIRST, VIDENC_FIRST_NEXT, VIDENC_WRITE, VIDENC_EXIT}"
proof -
  let ?c = "ex_camera (rtsp_init 0)"
  let ?s = "ex_sdcard sd_OFF True (ex_start [] 30)"
  note c = ex_camera [of "rtsp_init 0"]
  have init: "SdcardInit ex_sd s = s\<lparr>bSDState := sd_READY, vrec := (vrec s)\<lparr>disk := disk (vrec s)\<rparr>\<rparr>" for s
    by (simp add: SdcardInit_def init_pass_def ex_sd_ok)
  obtain s' where s': "SdcardTask ex_sd ex_muxer 0 True (?s\<lparr>vrec := videnc ?c\<rparr>) = Some s'" "vrec s' = videnc ?c"
    by (simp add: SdcardTask_def ex_sdcard_def init)
  let ?d = "?c\<lparr>videnc := vrec s'\<rparr>"
  have card: "device_step ex_sd ex_muxer True (?c, ?s) (?d, s')"
    by (rule dev_card [OF s'(1)]) (simp add: s'(2))
  have snd: "audrx_queue_put 0 4096 ?d = Some (0, 4096, ?d)"
    by (subst audrx_queue_put.simps) (simp add: AUD_STM_SIZE_def)
  then have "device_step ex_sd ex_muxer True (?d, s') (?d, s')" by (intro dev_camera cam_sound)
  with card have run: "(device_step ex_sd ex_muxer True)\<^sup>*\<^sup>* (?c, ?s) (?d, s')" by simp
  have m: "machine_ok ex_shut (videnc ?c)"
    using c(2)
    by (simp add: machine_ok_def queues_def queues_ok_def resting_def ex_shut_def ex_camera_def)
      (simp add: ex_recorder_def encHeap_create_def heap_ok_def heap_ord_def ex_queue_def sbuf_slots_def)
  have r: "msgq_ok (stm_q ?c)" "msgq_ok (rec_q ?c)" "msgq_items (rec_q ?c) = []" "0 < msgq_slots (rec_q ?c)"
    using c(1) by (simp_all add: rings_idle_def)
  have k: "cnt ?s < 10" "bSD_Format ?s \<in> {- 1, 0, 1}" by (simp_all add: ex_sdcard_def)
  from camera_invariant [OF run ex_handle(3,4) ex_card_closed c(6) m r k] s'(1) snd show ?thesis by blast
qed

end
