(* ===== verification/Shell.thy ===== *)
theory Shell
  imports Prelude
begin

text \<open>
  The command shell on the serial port, \<open>task/shell/shell.c\<close> without \<open>__ECM_STRING__\<close>: the line editor,
  the splitting of a line into arguments, the history and the call of the command. The commands are a
  parameter, functions on the state \<open>'w\<close> of the rest. Proved here: quoted arguments come through
  unchanged, a line that is typed and edited runs its command, \<open>!\<close> repeats it, the buffers are safe
  without \<open>_!\<close>; and that an open quote runs the command with a negative count of arguments and \<open>_!\<close>
  leads to a write behind a buffer.
\<close>

section \<open>Constants\<close>

definition ARGCNT :: nat where "ARGCNT = 16"
definition CMDLINESIZE :: nat where "CMDLINESIZE = 64"
definition CTLC :: char where "CTLC = CHR 0x03"
definition CMD_SUCCESS :: int where "CMD_SUCCESS = 0"
definition CMD_LINE_ERROR :: int where "CMD_LINE_ERROR = - 3"

abbreviation NUL :: char where "NUL \<equiv> CHR 0x00"
abbreviation CR :: char where "CR \<equiv> CHR 0x0D"
abbreviation LF :: char where "LF \<equiv> CHR 0x0A"
abbreviation BS :: char where "BS \<equiv> CHR 0x08"
abbreviation quotation :: char where "quotation \<equiv> CHR 0x22"
abbreviation backslash :: char where "backslash \<equiv> CHR 0x5C"

definition is_blank :: "char \<Rightarrow> bool" where "is_blank c \<longleftrightarrow> c = CHR '' '' \<or> c = CHR 0x09"

definition cstr :: "string \<Rightarrow> string" where "cstr buf = takeWhile (\<lambda>c. c \<noteq> NUL) buf"

definition begins :: "char \<Rightarrow> string \<Rightarrow> bool" where
  "begins c s = (case s of [] \<Rightarrow> False | x # _ \<Rightarrow> x = c)"

section \<open>Arguments\<close>

text \<open>
  The text behind an opening quote: whether it was closed, the token so far, the rest. The
  characters \<open>strcpy\<close> removes from the line, quotes and the backslashes in front of them, are those
  that do not reach the token.
\<close>

fun tok_quoted :: "string \<Rightarrow> string \<Rightarrow> bool \<times> string \<times> string" where
  "tok_quoted acc [] = (False, acc, [])"
| "tok_quoted acc (c # s) =
     (if c = quotation then (True, acc, s)
      else if c = backslash \<and> begins quotation s then tok_quoted (acc @ [quotation]) (tl s)
      else tok_quoted (acc @ [c]) s)"

lemma tok_quoted_length: "length (snd (snd (tok_quoted acc s))) \<le> length s"
  by (induction acc s rule: tok_quoted.induct) (auto simp: le_SucI)

text \<open>A token: whether it is well formed, whether the line goes on, the token and the rest.\<close>

function tok_arg :: "string \<Rightarrow> string \<Rightarrow> bool \<times> bool \<times> string \<times> string" where
  "tok_arg acc [] = (True, False, acc, [])"
| "tok_arg acc (c # s) =
     (if is_blank c then (True, True, acc, s)
      else if c = backslash \<and> begins quotation s then tok_arg (acc @ [quotation]) (tl s)
      else if c = quotation
      then (let (closed, acc, s) = tok_quoted acc s
            in if closed then tok_arg acc s else (False, False, acc, []))
      else tok_arg (acc @ [c]) s)"
  by pat_completeness auto
termination
proof (relation "measure (\<lambda>(acc, s). length s)", goal_cases)
  case (3 acc c s x closed y acc' s')
  then have "tok_quoted acc s = (closed, acc', s')" by simp
  then show ?case using tok_quoted_length [of acc s] by simp
qed auto

lemma tok_arg_length: "length (snd (snd (snd (tok_arg acc s)))) + of_bool (fst (snd (tok_arg acc s))) \<le> length s"
proof (induction acc s rule: tok_arg.induct)
  case (2 acc c s)
  have q: "length (snd (snd (tok_quoted acc s))) \<le> length s" by (rule tok_quoted_length)
  obtain b t r where t: "tok_quoted acc s = (b, t, r)" by (metis prod_cases3)
  show ?case
  proof (cases "is_blank c \<or> c = backslash \<and> begins quotation s \<or> c \<noteq> quotation")
    case True
    have "length (tl s) \<le> length s" by simp
    then show ?thesis using True 2(1,3) by (auto simp del: length_tl)
  next
    case False
    then have "length (snd (snd (snd (tok_arg t r)))) + of_bool (fst (snd (tok_arg t r))) \<le> length r" if b
      using 2(2) [OF _ _ _ refl t [symmetric] refl that] False by fastforce
    then show ?thesis using False q t by (cases b) (simp_all add: Let_def)
  qed
qed simp

text \<open>
  The arguments: \<open>argc\<close>, -1 for an open quote or too many of them, and those \<open>argv\<close> points to; the
  one with the open quote is among them.
\<close>

function tok_args :: "string list \<Rightarrow> string \<Rightarrow> int \<times> string list" where
  "tok_args argv s =
     (let s = dropWhile is_blank s in
      if s = [] then (int (length argv), argv)
      else (let (ok, more, t, s') = tok_arg [] s; argv = argv @ [t] in
        if \<not> ok then (- 1, argv)
        else if \<not> more then (int (length argv), argv)
        else if length argv \<ge> ARGCNT then (- 1, argv)
        else tok_args argv s'))"
  by pat_completeness auto
termination
proof (relation "measure (\<lambda>(argv, s). length s)", goal_cases)
  case (2 argv s s0 x ok y more z t s' argv')
  then have "tok_arg [] (dropWhile is_blank s) = (ok, more, t, s')" "more" by simp_all
  then show ?case using tok_arg_length [of "[]" "dropWhile is_blank s"] length_dropWhile_le [of is_blank s] by simp
qed auto

declare tok_args.simps [simp del]

definition tokenize :: "string \<Rightarrow> int \<times> string list" where
  "tokenize s = tok_args [] s"

section \<open>Running a line\<close>

text \<open>\<open>gcShellCmdBuf\<close> is the array, \<open>gcHistoryBuf\<close> the text in its array; \<open>sh_tx\<close> is the echo.\<close>

record 'w shell =
  gcShellCmdBuf :: string
  gcHistoryBuf :: string
  gl_crlf :: char
  sh_tx :: string
  sh_world :: 'w

type_synonym 'w command = "int \<Rightarrow> string list \<Rightarrow> 'w \<Rightarrow> int \<times> 'w"

definition strcpy_at :: "nat \<Rightarrow> string \<Rightarrow> string \<Rightarrow> string" where
  "strcpy_at k t buf = take k buf @ t @ [NUL] @ drop (k + length t + 1) buf"

text \<open>
  \<open>None\<close> stands for what C leaves open: a line too long for \<open>cmdcpy\<close>, or an empty table of commands.
  The test of \<open>argc\<close> against 0 from both sides never succeeds and is left out.
\<close>

definition DoCommand :: "(string \<times> 'w command) list \<Rightarrow> 'w shell \<Rightarrow> (int \<times> 'w shell) option" where
  "DoCommand gCmdList s =
     (let k = (if begins (CHR ''_'') (cstr (gcShellCmdBuf s)) then 1 else 0);
          s = (if begins (CHR ''!'') (cstr (drop k (gcShellCmdBuf s)))
               then s\<lparr>gcShellCmdBuf := strcpy_at k (gcHistoryBuf s) (gcShellCmdBuf s)\<rparr> else s);
          cmdline = cstr (drop k (gcShellCmdBuf s)) in
      if length cmdline \<ge> CMDLINESIZE then None
      else
        let s = (if \<not> begins (CHR ''!'') cmdline then s\<lparr>gcHistoryBuf := cmdline\<rparr> else s);
            (argc, argv) = tokenize cmdline in
        if argv = [] then Some (CMD_SUCCESS, s)
        else if gCmdList = [] then None
        else (case map_of gCmdList (hd argv) of
             None \<Rightarrow> Some (CMD_LINE_ERROR, s)
           | Some func \<Rightarrow> (let (ret, w) = func argc argv (sh_world s)
                         in Some (ret, s\<lparr>sh_world := w, sh_tx := sh_tx s @ [LF]\<rparr>))))"

section \<open>Reading a line\<close>

definition gl_put :: "nat \<Rightarrow> char \<Rightarrow> 'w shell \<Rightarrow> 'w shell" where
  "gl_put i c s = s\<lparr>gcShellCmdBuf := (gcShellCmdBuf s)[i := c]\<rparr>"

definition gl_echo :: "string \<Rightarrow> 'w shell \<Rightarrow> 'w shell" where
  "gl_echo t s = s\<lparr>sh_tx := sh_tx s @ t\<rparr>"

text \<open>
  The loop over the received characters; \<open>None\<close> while it waits for one. The position in the buffer is
  \<open>n\<close>, \<open>total\<close> in the code. At the bottom comes the test for too long a line, behind that of the loop.
\<close>

fun getline_loop :: "int \<Rightarrow> int \<Rightarrow> nat \<Rightarrow> string \<Rightarrow> 'w shell \<Rightarrow> ('w shell \<times> string) option" where
  "getline_loop mx idx n [] s = (if idx < mx then None else Some (s, []))"
| "getline_loop mx idx n (c # inp) s =
     (if \<not> idx < mx then Some (s, c # inp)
      else
        let s = gl_put n c s in
        if c = NUL then Some (s, inp)
        else if c = CR \<or> c = LF
        then Some (gl_put n NUL (gl_echo [CR, LF] (s\<lparr>gl_crlf := c\<rparr>)), inp)
        else if c = CTLC then Some (gl_put 0 NUL (gl_echo [CHR ''^'', CHR ''C'', CR, LF] s), inp)
        else
          let (idx, n, s) =
                (if c = BS
                 then (if n \<noteq> 0 then (idx - 2, n - 1, gl_echo [BS, CHR '' '', BS] s) else (idx, n, s))
                 else (idx, n + 1, gl_echo [c] s));
              s = s\<lparr>gl_crlf := NUL\<rparr> in
          if idx \<ge> mx then Some (gl_put n NUL s, inp)
          else getline_loop mx (idx + 1) n inp s)"

definition getline :: "string \<Rightarrow> 'w shell \<Rightarrow> ('w shell \<times> string) option" where
  "getline inp s = getline_loop (int CMDLINESIZE - 1) 0 0 inp s"

text \<open>One round of the task.\<close>

definition ShellTask :: "(string \<times> 'w command) list \<Rightarrow> 'w shell \<times> string \<Rightarrow> (int \<times> 'w shell \<times> string) option" where
  "ShellTask gCmdList = (\<lambda>(s, inp). case getline inp s of None \<Rightarrow> None
     | Some (s, inp) \<Rightarrow> map_option (\<lambda>(ret, s). (ret, s, inp)) (DoCommand gCmdList s))"

section \<open>Quoted arguments\<close>

fun esc :: "string \<Rightarrow> string" where
  "esc [] = []"
| "esc (c # s) = (if c = quotation then [backslash, quotation] else [c]) @ esc s"

definition quote_arg :: "string \<Rightarrow> string" where "quote_arg w = quotation # esc w @ [quotation]"

fun join_args :: "string list \<Rightarrow> string" where
  "join_args [] = []"
| "join_args [w] = w"
| "join_args (w # ws) = w @ CHR '' '' # join_args ws"

lemma begins_esc: "begins quotation (esc w @ quotation # r) \<longleftrightarrow> w = []"
  by (cases w) (auto simp: begins_def)

lemma tok_quoted_esc:
  "w = [] \<or> last w \<noteq> backslash \<Longrightarrow> tok_quoted acc (esc w @ quotation # r) = (True, acc @ w, r)"
proof (induction w arbitrary: acc)
  case (Cons c w)
  then have IH: "tok_quoted (acc @ [c]) (esc w @ quotation # r) = (True, acc @ c # w, r)"
    by (auto split: if_splits)
  have "c = backslash \<Longrightarrow> w \<noteq> []" using Cons.prems by auto
  then show ?case using IH begins_esc [of w r] by (auto simp: begins_def)
qed simp

lemma tok_arg_quoted:
  assumes "w = [] \<or> last w \<noteq> backslash" "r = [] \<or> is_blank (hd r)"
  shows "tok_arg [] (quote_arg w @ r) = (True, r \<noteq> [], w, tl r)"
proof -
  have "tok_arg w r = (True, r \<noteq> [], w, tl r)" using assms(2) by (cases r) auto
  then show ?thesis using tok_quoted_esc [OF assms(1), of "[]" r]
    by (simp add: quote_arg_def is_blank_def begins_def Let_def)
qed

lemma quote_arg_start: "dropWhile is_blank (quote_arg w @ r) = quote_arg w @ r" "quote_arg w @ r \<noteq> []"
  by (simp_all add: quote_arg_def is_blank_def)

lemma tok_args_quoted:
  assumes "\<forall>w \<in> set ws. w = [] \<or> last w \<noteq> backslash" "length argv + length ws \<le> ARGCNT"
  shows "tok_args argv (join_args (map quote_arg ws)) = (int (length argv + length ws), argv @ ws)"
  using assms
proof (induction ws arbitrary: argv rule: join_args.induct)
  case 1
  then show ?case by (simp add: tok_args.simps)
next
  case (2 w)
  then show ?case using quote_arg_start [of w "[]"] tok_arg_quoted [of w "[]"]
    by (subst tok_args.simps) (simp add: Let_def)
next
  case (3 w v ws)
  let ?r = "CHR '' '' # join_args (map quote_arg (v # ws))"
  have IH: "tok_args (argv @ [w]) (join_args (map quote_arg (v # ws))) = (int (length argv + length (w # v # ws)), argv @ w # v # ws)"
    using 3 by simp
  have "tok_arg [] (quote_arg w @ ?r) = (True, True, w, tl ?r)"
    using tok_arg_quoted [of w ?r] 3(2) by (simp add: is_blank_def)
  then show ?case using IH 3(3) quote_arg_start [of w ?r]
    by (subst tok_args.simps) (simp add: Let_def)
qed

text \<open>C38: Any list of up to sixteen arguments, quoted, with the quotation marks in them marked by
  backslashes, and separated by blanks, is split into just these arguments, empty ones and ones with
  blanks included; only a backslash at the end of an argument is not kept apart from the closing quote.\<close>

theorem tokenize_quoted:
  assumes "length ws \<le> 16" and "\<And>w. w \<in> set ws \<Longrightarrow> w = [] \<or> last w \<noteq> backslash"
  shows "tokenize (join_args (map quote_arg ws)) = (int (length ws), ws)"
  using tok_args_quoted [of ws "[]"] assms by (simp add: tokenize_def ARGCNT_def)

section \<open>The line editor\<close>

definition key_ok :: "char \<Rightarrow> bool" where "key_ok c \<longleftrightarrow> c \<notin> {NUL, CR, LF, CTLC}"

text \<open>What the keys amount to.\<close>

definition edit :: "string \<Rightarrow> char \<Rightarrow> string" where
  "edit t c = (if c = BS then butlast t else t @ [c])"

lemma edit_key: "edit t BS = butlast t" "k \<noteq> BS \<Longrightarrow> edit t k = t @ [k]"
  by (simp_all add: edit_def)

lemma length_edit: "length (foldl edit t ks) \<le> length t + length ks"
proof (induction ks arbitrary: t)
  case (Cons k ks)
  from Cons [of "edit t k"] show ?case by (simp add: edit_def split: if_splits)
qed simp

lemma cstr_put: "n < length buf \<Longrightarrow> NUL \<notin> set (take n buf) \<Longrightarrow> cstr (buf[n := NUL]) = take n buf"
proof -
  assume n: "n < length buf" "NUL \<notin> set (take n buf)"
  have "buf[n := NUL] = take n buf @ NUL # drop (Suc n) buf" using n(1) by (rule upd_conv_take_nth_drop)
  moreover have "takeWhile (\<lambda>c. c \<noteq> NUL) (take n buf @ NUL # drop (Suc n) buf) = take n buf"
    using n(2) by (subst takeWhile_append2) auto
  ultimately show ?thesis by (simp add: cstr_def)
qed

definition same_but_line :: "'w shell \<Rightarrow> 'w shell \<Rightarrow> bool" where
  "same_but_line s s' \<longleftrightarrow> gcHistoryBuf s' = gcHistoryBuf s \<and> sh_world s' = sh_world s
     \<and> length (gcShellCmdBuf s') = length (gcShellCmdBuf s)"

lemma getline_edits:
  assumes "list_all key_ok ks" "idx + int (length ks) < mx" "int n \<le> idx" "nat mx < length (gcShellCmdBuf s)"
    and "NUL \<notin> set (take n (gcShellCmdBuf s))" "e = CR \<or> e = LF"
  shows "\<exists>s'. getline_loop mx idx n (ks @ e # inp) s = Some (s', inp) \<and> same_but_line s s'
    \<and> cstr (gcShellCmdBuf s') = foldl edit (take n (gcShellCmdBuf s)) ks"
  using assms
proof (induction ks arbitrary: idx n s)
  case Nil
  then have n: "n < length (gcShellCmdBuf s)" by linarith
  with Nil show ?case using cstr_put [OF n]
    by (auto simp: gl_put_def gl_echo_def same_but_line_def CTLC_def Let_def)
next
  case (Cons k ks)
  then have k: "k \<noteq> NUL" "k \<noteq> CR" "k \<noteq> LF" "k \<noteq> CTLC" by (simp_all add: key_ok_def)
  have ks: "list_all key_ok ks" using Cons.prems(1) by simp
  have "idx < mx" using Cons.prems(2) by simp
  moreover from this have "n < length (gcShellCmdBuf s)" using Cons.prems(3,4) by linarith
  ultimately have lt: "idx < mx" "n < length (gcShellCmdBuf s)" .
  let ?buf = "(gcShellCmdBuf s)[n := k]"
  have b: "length ?buf = length (gcShellCmdBuf s)" "take n ?buf = take n (gcShellCmdBuf s)"
    "take (Suc n) ?buf = take n (gcShellCmdBuf s) @ [k]"
    using lt(2) by (simp_all add: take_Suc_conv_app_nth)
  show ?case
  proof (cases "k = BS")
    case False
    let ?s = "s\<lparr>gcShellCmdBuf := ?buf, sh_tx := sh_tx s @ [k], gl_crlf := NUL\<rparr>"
    from Cons.IH [of "idx + 1" "Suc n" ?s] Cons.prems k ks b obtain s' where
      "getline_loop mx (idx + 1) (Suc n) (ks @ e # inp) ?s = Some (s', inp)" "same_but_line ?s s'"
      "cstr (gcShellCmdBuf s') = foldl edit (take n (gcShellCmdBuf s) @ [k]) ks" by auto
    then show ?thesis using k lt False
      by (simp add: Let_def gl_put_def gl_echo_def edit_key same_but_line_def)
  next
    case True
    note BS = this
    show ?thesis
    proof (cases n)
      case 0
      let ?s = "s\<lparr>gcShellCmdBuf := ?buf, gl_crlf := NUL\<rparr>"
      from Cons.IH [of "idx + 1" 0 ?s] Cons.prems k ks b 0 obtain s' where
        "getline_loop mx (idx + 1) 0 (ks @ e # inp) ?s = Some (s', inp)" "same_but_line ?s s'"
        "cstr (gcShellCmdBuf s') = foldl edit [] ks" by auto
      then show ?thesis using k lt BS 0
        by (simp add: Let_def gl_put_def gl_echo_def edit_key same_but_line_def)
    next
      case (Suc m)
      let ?s = "s\<lparr>gcShellCmdBuf := ?buf, sh_tx := sh_tx s @ [BS, CHR '' '', BS], gl_crlf := NUL\<rparr>"
      have m: "take m ?buf = butlast (take n (gcShellCmdBuf s))"
        using lt(2) Suc by (simp add: butlast_take)
      then have "NUL \<notin> set (take m ?buf)" using Cons.prems(5) by (auto dest: in_set_butlastD)
      with Cons.IH [of "idx - 1" m ?s] Cons.prems k ks b m Suc obtain s' where
        "getline_loop mx (idx - 1) m (ks @ e # inp) ?s = Some (s', inp)" "same_but_line ?s s'"
        "cstr (gcShellCmdBuf s') = foldl edit (butlast (take n (gcShellCmdBuf s))) ks" by auto
      then show ?thesis using k lt BS Suc
        by (simp add: Let_def gl_put_def gl_echo_def edit_key same_but_line_def)
    qed
  qed
qed

section \<open>Lines that run\<close>

text \<open>What a line without \<open>!\<close> and \<open>_\<close> in front does.\<close>

definition runs :: "(string \<times> 'w command) list \<Rightarrow> string \<Rightarrow> 'w \<Rightarrow> int \<times> 'w" where
  "runs gCmdList t w = (let (argc, argv) = tokenize t in
     if argv = [] then (CMD_SUCCESS, w)
     else case map_of gCmdList (hd argv) of None \<Rightarrow> (CMD_LINE_ERROR, w) | Some f \<Rightarrow> f argc argv w)"

definition plain_line :: "string \<Rightarrow> bool" where
  "plain_line t \<longleftrightarrow> NUL \<notin> set t \<and> \<not> begins (CHR ''!'') t \<and> \<not> begins (CHR ''_'') t"

lemma DoCommand_plain:
  assumes "cstr (gcShellCmdBuf s) = t" "plain_line t" "length t < CMDLINESIZE" "gCmdList \<noteq> []"
  shows "\<exists>s'. DoCommand gCmdList s = Some (fst (runs gCmdList t (sh_world s)), s')
    \<and> sh_world s' = snd (runs gCmdList t (sh_world s)) \<and> gcHistoryBuf s' = t
    \<and> gcShellCmdBuf s' = gcShellCmdBuf s"
  using assms by (auto simp: DoCommand_def runs_def plain_line_def Let_def split: prod.splits option.splits)

lemma cstr_strcpy: "NUL \<notin> set t \<Longrightarrow> k \<le> length buf \<Longrightarrow> cstr (drop k (strcpy_at k t buf)) = t"
proof -
  assume t: "NUL \<notin> set t" "k \<le> length buf"
  have "drop k (strcpy_at k t buf) = t @ NUL # drop (k + length t + 1) buf"
    using t(2) by (simp add: strcpy_at_def)
  moreover have "takeWhile (\<lambda>c. c \<noteq> NUL) (t @ NUL # drop (k + length t + 1) buf) = t"
    using t(1) by (subst takeWhile_append2) auto
  ultimately show ?thesis by (simp add: cstr_def)
qed

lemma DoCommand_repeat:
  assumes "cstr (gcShellCmdBuf s) = CHR ''!'' # x" "plain_line (gcHistoryBuf s)"
    and "length (gcHistoryBuf s) < CMDLINESIZE" "gCmdList \<noteq> []"
  shows "\<exists>s'. DoCommand gCmdList s = Some (fst (runs gCmdList (gcHistoryBuf s) (sh_world s)), s')
    \<and> sh_world s' = snd (runs gCmdList (gcHistoryBuf s) (sh_world s)) \<and> gcHistoryBuf s' = gcHistoryBuf s"
proof -
  have "cstr (strcpy_at 0 (gcHistoryBuf s) (gcShellCmdBuf s)) = gcHistoryBuf s"
    using cstr_strcpy [of "gcHistoryBuf s" 0] assms(2) by (simp add: plain_line_def)
  then show ?thesis using assms
    by (auto simp: DoCommand_def runs_def plain_line_def begins_def Let_def split: prod.splits option.splits)
qed

text \<open>C37: A line that is typed, with backspaces, and ended by a carriage return or a line feed runs: in
  one round of the task the command its first argument names is called with the arguments of the line
  as edited, and the line is kept; typing \<open>!\<close> next calls it again with the same arguments.\<close>

theorem shell_line_runs:
  assumes "list_all key_ok ks" and "length ks < 63" and "length (gcShellCmdBuf s) = 128" and "gCmdList \<noteq> []"
    and "plain_line (foldl edit [] ks)" and "e = CR \<or> e = LF" and "e' = CR \<or> e' = LF"
  shows "\<exists>s1 s2. ShellTask gCmdList (s, ks @ e # ''!'' @ e' # inp) =
      Some (fst (runs gCmdList (foldl edit [] ks) (sh_world s)), s1, ''!'' @ e' # inp)
    \<and> sh_world s1 = snd (runs gCmdList (foldl edit [] ks) (sh_world s)) \<and> gcHistoryBuf s1 = foldl edit [] ks
    \<and> ShellTask gCmdList (s1, ''!'' @ e' # inp) =
      Some (fst (runs gCmdList (foldl edit [] ks) (sh_world s1)), s2, inp)
    \<and> sh_world s2 = snd (runs gCmdList (foldl edit [] ks) (sh_world s1))"
proof -
  let ?t = "foldl edit [] ks"
  have mx: "int CMDLINESIZE - 1 = 63" by (simp add: CMDLINESIZE_def)
  have len: "length ?t < 63" using length_edit [of "[]" ks] assms(2) by simp
  obtain u where u: "getline (ks @ e # ''!'' @ e' # inp) s = Some (u, ''!'' @ e' # inp)" "same_but_line s u"
    "cstr (gcShellCmdBuf u) = ?t"
    using getline_edits [of ks 0 63 0 s e "''!'' @ e' # inp"] assms by (auto simp: getline_def mx)
  obtain s1 where s1: "DoCommand gCmdList u = Some (fst (runs gCmdList ?t (sh_world s)), s1)"
    "sh_world s1 = snd (runs gCmdList ?t (sh_world s))" "gcHistoryBuf s1 = ?t" "gcShellCmdBuf s1 = gcShellCmdBuf u"
    using DoCommand_plain [OF u(3) assms(5) _ assms(4)] u(2) len
    by (auto simp: CMDLINESIZE_def same_but_line_def)
  have "list_all key_ok ''!''" by (simp add: key_ok_def CTLC_def)
  then obtain v where v: "getline (''!'' @ e' # inp) s1 = Some (v, inp)" "same_but_line s1 v"
    "cstr (gcShellCmdBuf v) = ''!''"
    using getline_edits [of "''!''" 0 63 0 s1 e' inp] assms u(2) s1(4)
    by (auto simp: getline_def mx same_but_line_def edit_def)
  have h: "gcHistoryBuf v = ?t" "sh_world v = sh_world s1" using v(2) s1(3) by (simp_all add: same_but_line_def)
  obtain s2 where "DoCommand gCmdList v = Some (fst (runs gCmdList ?t (sh_world s1)), s2)"
    "sh_world s2 = snd (runs gCmdList ?t (sh_world s1))"
    using DoCommand_repeat [OF v(3), of gCmdList] assms(4,5) len h by (auto simp: CMDLINESIZE_def)
  with u v s1 show ?thesis by (intro exI [of _ s1] exI [of _ s2]) (simp add: ShellTask_def)
qed

section \<open>Buffers\<close>

definition shell_ok :: "'w shell \<Rightarrow> bool" where
  "shell_ok s \<longleftrightarrow> length (gcShellCmdBuf s) = 128 \<and> drop 63 (gcShellCmdBuf s) = replicate 65 NUL
     \<and> length (gcHistoryBuf s) < CMDLINESIZE \<and> NUL \<notin> set (gcHistoryBuf s) \<and> \<not> begins (CHR ''!'') (gcHistoryBuf s)"

lemma getline_keeps:
  assumes "getline_loop mx idx n inp s = Some (s', inp')" and "int n \<le> idx" and "mx \<le> 63"
  shows "same_but_line s s' \<and> drop 63 (gcShellCmdBuf s') = drop 63 (gcShellCmdBuf s)"
  using assms
proof (induction mx idx n inp s rule: getline_loop.induct)
  case (2 mx idx n c inp s)
  show ?case
  proof (cases "idx < mx")
    case True
    then have n: "n < 63" using "2.prems"(2,3) by linarith
    consider "c = NUL \<or> c = CR \<or> c = LF \<or> c = CTLC" | "c = BS" "n = 0" | "c = BS" "n \<noteq> 0" "c \<noteq> CTLC" | 
      "c \<noteq> NUL" "c \<noteq> CR" "c \<noteq> LF" "c \<noteq> CTLC" "c \<noteq> BS" by (auto simp: CTLC_def)
    then show ?thesis
    proof cases
      case 1
      then show ?thesis using "2.prems"(1) True n
        by (auto simp: gl_put_def gl_echo_def same_but_line_def Let_def split: if_splits)
    next
      case 2
      then have "c \<noteq> NUL" "c \<noteq> CR" "c \<noteq> LF" "c \<noteq> CTLC" by (auto simp: CTLC_def)
      with "2" show ?thesis using "2.IH" "2.prems" True n
        by (simp add: gl_put_def gl_echo_def same_but_line_def Let_def)
    next
      case 3
      then have "c \<noteq> NUL" "c \<noteq> CR" "c \<noteq> LF" by auto
      with 3 show ?thesis using "2.IH" "2.prems" True n
        by (simp add: gl_put_def gl_echo_def same_but_line_def Let_def)
    next
      case 4
      then show ?thesis using "2.IH" "2.prems" True n
        by (simp add: gl_put_def gl_echo_def same_but_line_def Let_def)
    qed
  next
    case False
    then show ?thesis using "2.prems"(1) by (simp add: same_but_line_def)
  qed
qed (simp add: same_but_line_def split: if_splits)

lemma cstr_short: "drop 63 buf = replicate 65 NUL \<Longrightarrow> k \<le> 63 \<Longrightarrow> length (cstr (drop k buf)) \<le> 63 - k"
proof -
  assume d: "drop 63 buf = replicate 65 NUL" "k \<le> 63"
  have "drop k buf = drop k (take 63 buf) @ drop 63 buf" using d(2)
    by (metis append_take_drop_id drop_drop drop_take le_add_diff_inverse2)
  then have "cstr (drop k buf) = takeWhile (\<lambda>c. c \<noteq> NUL) (drop k (take 63 buf))"
    unfolding d(1) by (auto simp: cstr_def takeWhile_append takeWhile_eq_all_conv [THEN iffD2])
  then show ?thesis using length_takeWhile_le [of "\<lambda>c. c \<noteq> NUL" "drop k (take 63 buf)"] by simp
qed

lemma cstr_no_NUL: "NUL \<notin> set (cstr buf)"
  by (auto simp: cstr_def dest: set_takeWhileD)

lemma strcpy_keeps:
  assumes "length buf = 128" "drop 63 buf = replicate 65 NUL" "length t < 64"
  shows "length (strcpy_at 0 t buf) = 128" and "drop 63 (strcpy_at 0 t buf) = replicate 65 NUL"
proof -
  show "length (strcpy_at 0 t buf) = 128" using assms(1,3) by (simp add: strcpy_at_def)
  have d: "drop (Suc (length t)) buf = drop (Suc (length t)) (take 63 buf) @ drop (length t - 62) (drop 63 buf)"
    by (subst append_take_drop_id [of 63 buf, symmetric], subst drop_append) (simp add: assms(1))
  show "drop 63 (strcpy_at 0 t buf) = replicate 65 NUL"
  proof (cases "length t = 63")
    case True
    have "drop 64 buf = drop 1 (drop 63 buf)" by simp
    also have "\<dots> = replicate 64 NUL" unfolding assms(2) by (simp add: drop_replicate)
    finally show ?thesis using True by (simp add: strcpy_at_def numeral_eq_Suc)
  next
    case False
    have "drop 63 (strcpy_at 0 t buf) = drop (62 - length t) (drop (Suc (length t)) buf)"
      using False assms(3) by (simp add: strcpy_at_def drop_Cons')
    also have "\<dots> = drop 63 buf" using False assms(3) by simp
    finally show ?thesis using assms(2) by simp
  qed
qed

text \<open>C39: As long as no line starts with \<open>_!\<close>, whatever is received, no buffer of the shell overflows:
  after every line the task goes on, the line buffer still ends in zeros behind its first 63 characters,
  and the history fits and does not start with an exclamation mark.\<close>

theorem shell_safe:
  assumes "shell_ok s" and "getline inp s = Some (s1, inp1)" and "take 2 (cstr (gcShellCmdBuf s1)) \<noteq> ''_!''"
    and "gCmdList \<noteq> []"
  shows "\<exists>r s'. ShellTask gCmdList (s, inp) = Some (r, s', inp1) \<and> shell_ok s'"
proof -
  let ?buf = "gcShellCmdBuf s1" and ?h = "gcHistoryBuf s1"
  have "same_but_line s s1 \<and> drop 63 ?buf = drop 63 (gcShellCmdBuf s)"
    using getline_keeps [OF assms(2) [unfolded getline_def]] by (simp add: CMDLINESIZE_def)
  then have ok: "length ?buf = 128" "drop 63 ?buf = replicate 65 NUL" "length ?h < 64" "NUL \<notin> set ?h"
    "\<not> begins (CHR ''!'') ?h" using assms(1) by (simp_all add: shell_ok_def same_but_line_def CMDLINESIZE_def)
  have "\<exists>r s'. DoCommand gCmdList s1 = Some (r, s') \<and> shell_ok s'"
  proof (cases "begins (CHR ''!'') (cstr ?buf)")
    case True
    then have "\<not> begins (CHR ''_'') (cstr ?buf)" by (auto simp: begins_def split: list.splits)
    moreover have "cstr (strcpy_at 0 ?h ?buf) = ?h" using cstr_strcpy [of ?h 0] ok(4) by simp
    ultimately show ?thesis using True ok strcpy_keeps [OF ok(1-3)] assms(4)
      by (auto simp: DoCommand_def shell_ok_def CMDLINESIZE_def Let_def split: prod.splits option.splits)
  next
    case False
    let ?k = "if begins (CHR ''_'') (cstr ?buf) then 1 else 0 :: nat"
    have nb: "\<not> begins (CHR ''!'') (cstr (drop ?k ?buf))"
    proof (cases "begins (CHR ''_'') (cstr ?buf)")
      case True
      then obtain b where b: "?buf = CHR ''_'' # b"
        by (cases ?buf) (auto simp: begins_def cstr_def split: list.splits if_splits)
      then show ?thesis using assms(3) True
        by (cases b) (auto simp: begins_def cstr_def split: list.splits if_splits)
    qed (use False in simp)
    have "length (cstr (drop ?k ?buf)) \<le> 63 - ?k" by (rule cstr_short [OF ok(2)]) simp
    then have "length (cstr (drop ?k ?buf)) < 64" by simp
    then show ?thesis using nb ok(1,2) assms(4) cstr_no_NUL [of "drop ?k ?buf"]
      by (auto simp: DoCommand_def shell_ok_def CMDLINESIZE_def Let_def simp del: One_nat_def split: prod.splits option.splits)
  qed
  then show ?thesis using assms(2) by (auto simp: ShellTask_def)
qed

section \<open>Where it goes wrong\<close>

lemma getline_full:
  assumes "list_all key_ok ks" "BS \<notin> set ks" "n + length ks = 63" "length (gcShellCmdBuf s) = 128"
  shows "\<exists>s'. getline_loop 63 (int n) n (ks @ inp) s = Some (s', inp) \<and> same_but_line s s'
    \<and> gcShellCmdBuf s' = take n (gcShellCmdBuf s) @ ks @ drop 63 (gcShellCmdBuf s)"
  using assms
proof (induction ks arbitrary: n s)
  case Nil
  then show ?case by (cases inp) (simp_all add: same_but_line_def)
next
  case (Cons k ks)
  then have k: "k \<noteq> NUL" "k \<noteq> CR" "k \<noteq> LF" "k \<noteq> CTLC" "k \<noteq> BS" by (auto simp: key_ok_def)
  let ?s = "s\<lparr>gcShellCmdBuf := (gcShellCmdBuf s)[n := k], sh_tx := sh_tx s @ [k], gl_crlf := NUL\<rparr>"
  obtain s' where "getline_loop 63 (int (Suc n)) (Suc n) (ks @ inp) ?s = Some (s', inp)" "same_but_line ?s s'"
    "gcShellCmdBuf s' = take (Suc n) (gcShellCmdBuf ?s) @ ks @ drop 63 (gcShellCmdBuf ?s)"
    using Cons.IH [of "Suc n" ?s] Cons.prems by auto
  moreover have "take (Suc n) (gcShellCmdBuf ?s) = take n (gcShellCmdBuf s) @ [k]" "n < 63"
    using Cons.prems(3,4) by (simp_all add: take_Suc_conv_app_nth)
  ultimately show ?case using k Cons.prems(3,4)
    by (intro exI [of _ s']) (simp add: Let_def gl_put_def gl_echo_def same_but_line_def add.commute)
qed

lemma cstr_full:
  "NUL \<notin> set t \<Longrightarrow> cstr (t @ c # NUL # x) = t @ (if c = NUL then [] else [c])"
  by (simp add: cstr_def takeWhile_append)

text \<open>C40: A line of 63 characters fills the line editor, and the recall \<open>_!\<close> of it, one place further,
  moves its last character behind the part the editor clears. The next full line is then read with that
  character at its end: 64 characters, which with their zero do not fit \<open>cmdcpy\<close>.\<close>

theorem shell_overflow:
  assumes "length t = 63" and "list_all key_ok t" and "BS \<notin> set t" and "plain_line t"
    and "length u = 63" and "list_all key_ok u" and "BS \<notin> set u" and "plain_line u"
    and "gcShellCmdBuf s = replicate 128 NUL" and "gCmdList \<noteq> []"
  shows "\<exists>s1 s2 r1 r2. ShellTask gCmdList (s, t @ ''_!'' @ CR # u @ inp) = Some (r1, s1, ''_!'' @ CR # u @ inp)
    \<and> ShellTask gCmdList (s1, ''_!'' @ CR # u @ inp) = Some (r2, s2, u @ inp)
    \<and> ShellTask gCmdList (s2, u @ inp) = None"
proof -
  have mx: "int CMDLINESIZE - 1 = 63" by (simp add: CMDLINESIZE_def)
  have tu: "NUL \<notin> set t" "NUL \<notin> set u" "t \<noteq> []" using assms(1,4,8) by (auto simp: plain_line_def)
  obtain a where a: "getline (t @ ''_!'' @ CR # u @ inp) s = Some (a, ''_!'' @ CR # u @ inp)"
    "gcShellCmdBuf a = t @ replicate 65 NUL"
    using getline_full [of t 0 s "''_!'' @ CR # u @ inp"] assms(1-3,9) by (auto simp: getline_def mx)
  have "cstr (gcShellCmdBuf a) = t" using cstr_full [OF tu(1), of NUL "replicate 63 NUL"] by (simp add: a(2) numeral_eq_Suc)
  then obtain s1 r1 where s1: "DoCommand gCmdList a = Some (r1, s1)" "gcHistoryBuf s1 = t" "length (gcShellCmdBuf s1) = 128"
    using DoCommand_plain [of a t gCmdList] assms(1,4,10) a(2) by (auto simp: CMDLINESIZE_def)
  have "list_all key_ok ''_!''" by (simp add: key_ok_def CTLC_def)
  then obtain b where b: "getline (''_!'' @ CR # u @ inp) s1 = Some (b, u @ inp)" "same_but_line s1 b"
    "cstr (gcShellCmdBuf b) = ''_!''"
    using getline_edits [of "''_!''" 0 63 0 s1 CR "u @ inp"] s1(3) by (auto simp: getline_def mx edit_def)
  have "\<exists>x. gcShellCmdBuf b = CHR ''_'' # CHR ''!'' # x"
    using b(3) by (cases "gcShellCmdBuf b"; cases "tl (gcShellCmdBuf b)") (auto simp: cstr_def split: if_splits)
  then obtain x where x: "gcShellCmdBuf b = CHR ''_'' # CHR ''!'' # x" by blast
  let ?buf = "strcpy_at 1 t (gcShellCmdBuf b)"
  have hb: "gcHistoryBuf b = t" "length (gcShellCmdBuf b) = 128" using b(2) s1(2,3) by (simp_all add: same_but_line_def)
  have c1: "cstr (drop 1 ?buf) = t" using cstr_strcpy [of t 1 "gcShellCmdBuf b"] tu hb(2) by simp
  have "\<exists>r2 s2. DoCommand gCmdList b = Some (r2, s2) \<and> gcShellCmdBuf s2 = ?buf"
    using c1 x b(3) hb(1) assms(1,4,10)
    by (auto simp: DoCommand_def begins_def cstr_def plain_line_def CMDLINESIZE_def Let_def split: prod.splits option.splits)
  then obtain r2 s2 where s2: "DoCommand gCmdList b = Some (r2, s2)" "gcShellCmdBuf s2 = ?buf" by blast
  have tl: "drop 63 ?buf = last t # NUL # drop 65 (gcShellCmdBuf b)" "length ?buf = 128"
  proof -
    have "drop 62 (butlast t @ [last t]) = [last t]" using assms(1) by (simp del: append_butlast_last_id)
    then have "drop 62 t = [last t]" using append_butlast_last_id [OF tu(3)] by (simp only:)
    then show "drop 63 ?buf = last t # NUL # drop 65 (gcShellCmdBuf b)" using assms(1) x by (simp add: strcpy_at_def)
    show "length ?buf = 128" using hb(2) assms(1) by (simp add: strcpy_at_def)
  qed
  obtain c where c: "getline (u @ inp) s2 = Some (c, inp)" "gcShellCmdBuf c = u @ last t # NUL # drop 65 (gcShellCmdBuf b)"
    using getline_full [of u 0 s2 inp] assms(5-7) tl s2(2) by (auto simp: getline_def mx)
  have "last t \<noteq> NUL" using tu by (metis last_in_set)
  then have l: "cstr (gcShellCmdBuf c) = u @ [last t]" using cstr_full [OF tu(2)] by (simp add: c(2))
  have "begins x (u @ [last t]) = begins x u" for x using assms(5) by (cases u) (simp_all add: begins_def)
  then have "DoCommand gCmdList c = None"
    using l assms(5,8) by (simp add: DoCommand_def plain_line_def CMDLINESIZE_def)
  with a(1) s1(1) b(1) s2(1) c(1) show ?thesis
    by (intro exI [of _ s1] exI [of _ s2] exI [of _ r1] exI [of _ r2]) (simp add: ShellTask_def)
qed

lemma tok_quoted_open: "quotation \<notin> set x \<Longrightarrow> tok_quoted acc x = (False, acc @ x, [])"
  by (induction x arbitrary: acc) (auto simp: begins_def split: list.splits)

lemma tok_arg_bare:
  "list_all (\<lambda>c. \<not> is_blank c \<and> c \<noteq> quotation \<and> c \<noteq> backslash) t \<Longrightarrow>
   tok_arg acc (t @ CHR '' '' # r) = (True, True, acc @ t, r)"
  by (induction t arbitrary: acc) (auto simp: is_blank_def)

text \<open>The check for a malformed line asks that the count of arguments be zero and negative, which
  never holds. So a line whose quote is left open runs its command all the same, with the count -1 and
  the open argument among the arguments.\<close>

theorem shell_open_quote:
  assumes "list_all (\<lambda>c. \<not> is_blank c \<and> c \<noteq> quotation \<and> c \<noteq> backslash) name" and "name \<noteq> []"
    and "quotation \<notin> set x" and "map_of gCmdList name = Some f"
    and "cstr (gcShellCmdBuf s) = name @ '' '' @ quotation # x" and "plain_line name" and "length name + length x < 62"
  shows "\<exists>s'. DoCommand gCmdList s = Some (fst (f (- 1) [name, x] (sh_world s)), s')
    \<and> sh_world s' = snd (f (- 1) [name, x] (sh_world s))"
proof -
  let ?t = "name @ '' '' @ quotation # x"
  have n: "dropWhile is_blank ?t = ?t" using assms(1,2) by (cases name) auto
  have 1: "tok_arg [] ?t = (True, True, name, quotation # x)" using tok_arg_bare [OF assms(1)] by simp
  have 2: "tok_arg [] (quotation # x) = (False, False, x, [])"
    using tok_quoted_open [OF assms(3)] by (simp add: is_blank_def begins_def Let_def)
  have 3: "tok_args [name] (quotation # x) = (- 1, [name, x])"
    by (subst tok_args.simps) (simp add: Let_def 2 is_blank_def del: tok_arg.simps)
  have "tokenize ?t = (- 1, [name, x])" unfolding tokenize_def
    by (subst tok_args.simps, unfold Let_def n, subst 1) (simp add: 3 ARGCNT_def)
  then have r: "runs gCmdList ?t w = f (- 1) [name, x] w" for w using assms(4) by (simp add: runs_def)
  have "NUL \<notin> set ?t" using assms(5) cstr_no_NUL [of "gcShellCmdBuf s"] by metis
  then have "plain_line ?t" using assms(2,6) by (cases name) (simp_all add: plain_line_def begins_def)
  moreover have "gCmdList \<noteq> []" using assms(4) by auto
  moreover have "length ?t < CMDLINESIZE" using assms(7) by (simp add: CMDLINESIZE_def)
  ultimately obtain s' where "DoCommand gCmdList s = Some (fst (runs gCmdList ?t (sh_world s)), s')"
    "sh_world s' = snd (runs gCmdList ?t (sh_world s))"
    using DoCommand_plain [OF assms(5)] by blast
  then show ?thesis unfolding r by blast
qed

section \<open>Witnesses\<close>

definition ex_commands :: "(string \<times> nat command) list" where
  "ex_commands = [(''?'', \<lambda>argc argv w. (0, w)), (''add'', \<lambda>argc argv w. (argc, w + length argv))]"

definition ex_shell :: "string \<Rightarrow> nat shell" where
  "ex_shell t = \<lparr>gcShellCmdBuf = t @ replicate (128 - length t) NUL, gcHistoryBuf = [], gl_crlf = NUL, sh_tx = [], sh_world = 0\<rparr>"

lemma tokenize_quoted_witness:
  "tokenize (join_args (map quote_arg [''add'', [], ''a b'', [quotation, CHR ''x'']])) =
     (4, [''add'', [], ''a b'', [quotation, CHR ''x'']])"
  using tokenize_quoted [of "[''add'', [], ''a b'', [quotation, CHR ''x'']]"] by force

lemma ex_runs: "runs ex_commands ''add x y'' w = (3, w + 3)"
proof -
  have "tokenize ''add x y'' = (3, [''add'', ''x'', ''y''])" by code_simp
  then show ?thesis by (simp add: runs_def ex_commands_def)
qed

lemma shell_line_runs_witness:
  "\<exists>s1 s2. ShellTask ex_commands (ex_shell [], ''adf'' @ BS # ''d x y'' @ CR # ''!'' @ CR # []) = Some (3, s1, ''!'' @ CR # [])
    \<and> sh_world s1 = 3 \<and> ShellTask ex_commands (s1, ''!'' @ CR # []) = Some (3, s2, []) \<and> sh_world s2 = 6"
proof -
  let ?ks = "''adf'' @ BS # ''d x y''"
  have e: "foldl edit [] ?ks = ''add x y''" by (simp add: edit_def)
  have "list_all key_ok ?ks" by (simp add: key_ok_def CTLC_def)
  moreover have "length ?ks < 63" by simp
  moreover have "length (gcShellCmdBuf (ex_shell [])) = 128" by (simp add: ex_shell_def)
  moreover have "ex_commands \<noteq> []" by (simp add: ex_commands_def)
  moreover have "plain_line (foldl edit [] ?ks)" unfolding e by (simp add: plain_line_def begins_def)
  moreover have w: "sh_world (ex_shell []) = 0" by (simp add: ex_shell_def)
  ultimately show ?thesis
    using shell_line_runs [of ?ks "ex_shell []" ex_commands CR CR "[]"] w unfolding e ex_runs by auto
qed

lemma shell_safe_witness:
  "\<exists>r s'. ShellTask ex_commands (ex_shell [], ''?'' @ CR # []) = Some (r, s', []) \<and> shell_ok s'"
proof -
  let ?s = "ex_shell []"
  have ok: "shell_ok ?s" by (simp add: shell_ok_def ex_shell_def begins_def CMDLINESIZE_def)
  have "list_all key_ok ''?''" by (simp add: key_ok_def CTLC_def)
  then obtain s1 where "getline (''?'' @ CR # []) ?s = Some (s1, [])" "cstr (gcShellCmdBuf s1) = ''?''"
    using getline_edits [of "''?''" 0 63 0 ?s CR "[]"] by (auto simp: getline_def CMDLINESIZE_def ex_shell_def edit_def)
  then show ?thesis using shell_safe [OF ok, where gCmdList = ex_commands] by (simp add: ex_commands_def)
qed

lemma shell_overflow_witness:
  "\<exists>s1 s2 r1 r2. ShellTask ex_commands (ex_shell [], replicate 63 (CHR ''a'') @ ''_!'' @ CR # replicate 63 (CHR ''b'')) =
      Some (r1, s1, ''_!'' @ CR # replicate 63 (CHR ''b''))
    \<and> ShellTask ex_commands (s1, ''_!'' @ CR # replicate 63 (CHR ''b'')) = Some (r2, s2, replicate 63 (CHR ''b''))
    \<and> ShellTask ex_commands (s2, replicate 63 (CHR ''b'')) = None"
proof -
  have l: "length (replicate 63 c) = 63" "list_all key_ok (replicate 63 c)" "BS \<notin> set (replicate 63 c)"
    "plain_line (replicate 63 c)" if "c = CHR ''a'' \<or> c = CHR ''b''" for c
    using that by (auto simp: list_all_iff key_ok_def CTLC_def plain_line_def begins_def numeral_eq_Suc)
  have s: "gcShellCmdBuf (ex_shell []) = replicate 128 NUL" "ex_commands \<noteq> []" by (simp_all add: ex_shell_def ex_commands_def)
  show ?thesis using shell_overflow [OF l [of "CHR ''a''"] l [of "CHR ''b''"] s, of "[]"] by simp
qed

lemma shell_open_quote_witness:
  "\<exists>s'. DoCommand ex_commands (ex_shell (''add '' @ quotation # ''x y'')) = Some (- 1, s') \<and> sh_world s' = 2"
proof -
  let ?s = "ex_shell (''add '' @ quotation # ''x y'')"
  have "cstr (gcShellCmdBuf ?s) = ''add'' @ '' '' @ quotation # ''x y''"
    by (simp add: ex_shell_def cstr_def numeral_eq_Suc)
  with shell_open_quote [of "''add''" "''x y''" ex_commands "\<lambda>argc argv w. (argc, w + length argv)" ?s]
  show ?thesis by (auto simp: is_blank_def ex_commands_def plain_line_def begins_def ex_shell_def)
qed

end
