(* ===== verification/Spec2Isabelle.thy ===== *)
theory Spec2Isabelle
  imports Mp4Props StreamBuf RtpQueue VidencHeap RtpProps EnxMath EnxString Base64 EnxTime RtspPrint RtspBlock Camera Shell
begin

text \<open>
  Verification of the network camera firmware of the EN675: the path of encoded video and sound from
  the encoder to a recording on the memory card and to the clients of the RTSP server, with the
  routines of the firmware's own library these use. File names are relative to \<open>src/Source\<close>,
  where \<open>task/\<close> stands for \<open>core/core0/task/\<close>.

  \<^bold>\<open>Parts and how they interact.\<close> The encoder delivers frames by interrupt: it puts their
  descriptors into two rings, and the interrupt routines \<open>IsrStreamdata\<close>
  (\<open>core/core0/enx_stream.c\<close>) and \<open>IsrRecorddata\<close> (\<open>enx_record.c\<close>) pass
  them on to the clients of the RTSP server and to the recorder; sound comes the same way from
  \<open>task/audtxrx/audtxrx.c\<close>. For the recorder they pass the stream buffer
  (\<open>task/videnc/stream_buffering.c\<close>) to the task \<open>muxer_videnc_task\<close>
  (\<open>task/videnc/muxer_videnc.c\<close>), which cuts them into NAL units, writes samples through a buffered
  writer to FatFs and keeps the sample tables; on closing, the header builder
  (\<open>task/videnc/fmt_mp4enc.c\<close>) puts \<open>ftyp\<close> and \<open>moov\<close> in front. The names
  of all recordings are in a heap (\<open>videnc_heap.c\<close>), from which the oldest ones are deleted when
  the card fills (\<open>videnc_info.c\<close>). The task of the memory card
  (\<open>task/sdcard/sdcard.c\<close>) mounts and formats the card, initialises the recorder and starts and
  stops it. For the network, \<open>rtp_queue_stream_video_put\<close> and its audio twin put frames into the
  queue of every playing client (\<open>task/rtspd/rtp_queue.c\<close>); the packetisers
  (\<open>rtp_h264.c\<close>, \<open>rtp_h265.c\<close>, \<open>rtp_jpeg.c\<close>, \<open>rtp_g711.c\<close>)
  turn them into RTP packets, one per call, and the sending tasks of \<open>rtspd.c\<close> send those. The
  clients are controlled by RTSP: \<open>rtspd_client_main\<close> collects a request from the socket,
  \<open>rtspd_process.c\<close> parses it, moves the connection through its states and writes the reply,
  through the formatted output of \<open>dev/string/vsnprintf.c\<close>. The shell on the serial port
  (\<open>task/shell/shell.c\<close>) runs commands that are typed.

  \<^bold>\<open>Theories.\<close>

  \<^item> \<open>Prelude\<close>, \<open>Ring\<close>: words, byte strings, a flat byte memory; the queue macros of
    \<open>dev_functions.h\<close> and the locale \<open>fifo\<close>, interpreted for the stream buffer, the RTP queue
    and the rings of frame descriptors.
  \<^item> \<open>VidencTypes\<close>: the records and enumerations of the recorder.
  \<^item> \<open>Mp4Box\<close>, \<open>Mp4Enc\<close>, \<open>Mp4Spec\<close>, \<open>Mp4Props\<close>: a reader of ISO media boxes, the header builder with
    one definition per \<open>enx_mp4_header_*\<close>, the trees it is meant to write, and the properties:
    the bytes written are the serialised trees, reading them gives the trees back, a file with samples
    is three boxes.
  \<^item> \<open>VidencHeap\<close>, \<open>StreamBuf\<close>, \<open>RtpQueue\<close>: the three containers, as refinements of a priority queue
    (locale \<open>oldest_first\<close>) and of a bounded queue, with what happens when they are full.
  \<^item> \<open>VidencInfo\<close>: allocation of the tables, names of files, the list of files, making room.
  \<^item> \<open>Muxer\<close>: all functions of \<open>muxer_videnc.c\<close>; a result \<open>None\<close> is an access outside an array or a
    loop that does not come back. \<open>MuxerSpec\<close> (what one call does to the file; the contract
    \<open>card_ok\<close> of FatFs; the locale \<open>byte_sink\<close> of the buffered writer), \<open>MuxerRun\<close> (sequences of frames
    and the closed file), \<open>MuxerState\<close> (the resting states, over any order of rounds, frames and user
    actions, whatever the card answers), \<open>MuxerInit\<close> (power-up), \<open>MuxerProps\<close> (properties),
    \<open>MuxerEx\<close> (a concrete recorder at which they are applied).
  \<^item> \<open>RtpTypes\<close>, \<open>RtpNal\<close>, \<open>RtpH264\<close>, \<open>RtpH265\<close>, \<open>RtpJpeg\<close>, \<open>RtpG711\<close>, \<open>RtpPlay\<close>, \<open>RtpProps\<close>: the state of
    an RTP session, the packetisers as state machines, and the calls of the send loop. The locales
    \<open>rtp_sender\<close> (numbering and size of packets), \<open>frame_sender\<close> and \<open>nal_sender\<close> (delivery of a frame)
    are interpreted for the packetisers.
  \<^item> \<open>RtspText\<close>: the functions of the C library used on requests and replies, written out. \<open>RtspConn\<close>:
    the connection, its state machine \<open>rtspd_client_rtsp_state\<close>, the parser and the check of the URL.
    \<open>RtspReply\<close>: the eight methods and the error reply with their texts. \<open>RtspServer\<close>: the tasks of
    \<open>rtspd.c\<close> and the step relation \<open>rtsp_step\<close> of their interleaving. \<open>RtspHandlers\<close>: the locale
    \<open>rtsp_handler\<close>, what the task relies on of a method, interpreted for each of them and for
    \<open>rtspd_client_rtsp_response\<close>. \<open>RtspInv\<close>, \<open>RtspSafe\<close>: the invariant, for one connection and for the
    server. \<open>RtspLive\<close>: bounds, rounds that are not interrupted do not hang, the end of a connection, and the
    lock-out of mixed transports. \<open>RtspReq\<close>: parsing of what a client prints, requests in pieces, the size of the
    description, every request is answered. \<open>RtspEx\<close>: two clients, at which these are applied. \<open>RtspUdp\<close>: the
    task that receives the RTCP packets, whose rounds are steps of the server. \<open>RtspBlock\<close>: the sending tasks cut
    at \<open>lwip_select\<close>, and a TEARDOWN that is handled while one of them waits there.
  \<^item> \<open>Printf\<close>: \<open>vsnprintf\<close> with its flags, widths, precisions and conversions, and formats as lists of
    pieces. \<open>RtspPrint\<close>: the formats of the RTSP replies print the texts \<open>RtspReply\<close> gives.
  \<^item> \<open>Dispatch\<close>: the rings of frame descriptors, the routines that empty them, the cutting of sound.
    \<open>DispatchProps\<close>: each frame reaches its readers once and in order.
  \<^item> \<open>SdCard\<close>: the card task over the state of the recorder, with what it uses of \<open>enx_file.c\<close>.
    \<open>SdCardProps\<close>: starting a recording, finishing one, and what goes wrong. \<open>Camera\<close>: the dispatch, the server, the
    recorder and the card task together; their invariants under every interleaving of their steps.
  \<^item> \<open>Shell\<close>: the line editor, the splitting of a line, the history, the call of a command.
  \<^item> \<open>EnxMath\<close>, \<open>EnxString\<close>, \<open>Base64\<close>, \<open>EnxTime\<close>: integer square root, string routines, base 64,
    the clock and time zones.

  \<^bold>\<open>Conventions.\<close> A C \<open>int\<close>, \<open>UINT\<close> or \<open>WORD\<close> is a word of its width where it is stored or may wrap;
  indices and lengths below a bound in the code are naturals, results that are compared with -1 are
  integers. Structures are records; \<open>rtsp_client\<close> is in two layers, the packetisers' fields and the
  extension \<open>rtsp_conn\<close>. Code that is not in the repository or is hardware is an argument: FatFs as a
  record of functions on an abstract card (\<open>fatfs\<close> for the recorder, \<open>sd_env\<close> for mounting and
  formatting), the allocator, the clock, \<open>rand\<close>, what sockets return, and the commands of the shell.
  Faults are values: \<open>None\<close> in the recorder, the shell and the printer, \<open>rtsp_fault\<close> in the server.

  \<^bold>\<open>Contracts, bounds, fuel.\<close> \<open>card_ok\<close> is the documented behaviour of FatFs on a card that does not
  fail; results on the state machine of the recorder do without it. They ask that an operation other than a
  successful \<open>f_open\<close> opens no file (\<open>opens_nothing\<close>, \<open>dir_ok\<close>, \<open>card_opens_nothing\<close>) and that \<open>f_close\<close> closes the
  file when it reports success (\<open>close_ok\<close>); it may fail. Loops that may not end
  (\<open>floorSqrt\<close>, the copying loops of the recorder, reading a directory, concatenation of strings) are
  \<open>partial_function (option)\<close>; the theorems state that they come back, or that they do not. No fuel
  is used. A step of the RTSP server is one round of the loop of a task, the granularity at which its
  tasks are interleaved; the mutex around SETUP makes that exact for the count of players. In \<open>RtspBlock\<close> the sending
  tasks have a step before and a step after \<open>lwip_select\<close>, where they wait for up to seconds; every run of whole
  rounds is one of these steps too.

  \<^bold>\<open>Configuration.\<close> The committed one: \<open>VIDEO_SAVE_AVI\<close> 0, \<open>JPEG_STREAM\<close> 1, \<open>SW_JPEG_ENCODER\<close> off,
  \<open>RTSPD_AUTH_MODE\<close> none, \<open>RTSPD_RTCP_SR\<close> 0, \<open>RTSP_info_MAX\<close> 20, \<open>RTSP_play_MAX\<close> 2, raw sound at
  44.1 kHz, with the audio code compiled in, \<open>__ECM_STRING__\<close> off, \<open>DEV_SD\<close> as drive 1.

  \<^bold>\<open>Not modelled.\<close> Third-party and vendor code (FreeRTOS, lwIP, FatFs, the wireless driver,
  the codec and image processing libraries, HDMI, OpenSSL's digests), drivers, tables, the HTTP server, the
  commands of the shell and the protocol of the image tuning tool in \<open>dev/string/uart_string.c\<close>;
  code the configuration does not compile (RTSP authorization, the AVI writer, the software JPEG packetiser, the
  clock chips); creation of sockets and tasks, messages to the console, delays, and preemption of a task
  within a round at any other place than \<open>lwip_select\<close> of the sending tasks.
\<close>

end
